(* ===== verification/JsPrelude.thy ===== *)
theory JsPrelude
  imports Main "HOL-Library.Char_ord" "HOL-Library.List_Lexorder" "HOL-Library.Sublist"
begin

text \<open>
  What the components share: the JavaScript values, strings and library calls the sources
  use, the errors they throw, the two effect types of the models, and the lemma collections
  that carry the component proofs.

  \<^item> A JavaScript string is a \<open>string\<close> of code units below 256 (Latin-1); the
    programs' own alphabets (identifiers, paths, digests, headers) are ASCII. \<open>length\<close> is
    JavaScript's \<open>.length\<close>.
  \<^item> A JavaScript number is \<open>Dec m k\<close>, the decimal \<open>m * 10 ^ -k\<close> the number prints
    as, or one of the three non-finite values. Integers up to \<open>2 ^ 53\<close> are exact; the
    rounding of binary64 arithmetic on other numbers is not modelled.
  \<^item> A parsed JSON value is a \<open>jsv\<close>; an object is its list of properties in order.
  \<^item> A call that may throw returns \<open>js_error + 'a\<close>; a call that may throw after it has
    changed state is a \<open>('s, 'a) sx\<close>, a function from the state to a result and a state.
\<close>

section \<open>Lemma collections\<close>

named_theorems res_simps \<open>inversion of the error type and of the state monad\<close>
named_theorems str_simps \<open>string predicates and their characters\<close>

section \<open>Errors and effects\<close>

text \<open>
  \<open>PlainError\<close> is \<open>throw new Error(message)\<close> and the engine's own \<open>TypeError\<close> and
  \<open>RangeError\<close>; \<open>CodedError\<close> is an error class that carries a \<open>code\<close> and an HTTP
  \<open>status\<close>.
\<close>

datatype js_error = PlainError string | CodedError string nat

type_synonym 'a res = "js_error + 'a"
type_synonym ('s, 'a) sx = "'s \<Rightarrow> 'a res \<times> 's"

definition bindR :: "'a res \<Rightarrow> ('a \<Rightarrow> 'b res) \<Rightarrow> 'b res" where
  "bindR r f = (case r of Inl e \<Rightarrow> Inl e | Inr x \<Rightarrow> f x)"

definition requireR :: "bool \<Rightarrow> js_error \<Rightarrow> unit res" where
  "requireR ok e = (if ok then Inr () else Inl e)"

fun mapR :: "('a \<Rightarrow> 'b res) \<Rightarrow> 'a list \<Rightarrow> 'b list res" where
  "mapR f [] = Inr []"
| "mapR f (x # xs) = bindR (f x) (\<lambda>y. bindR (mapR f xs) (\<lambda>ys. Inr (y # ys)))"

definition bindS :: "('s, 'a) sx \<Rightarrow> ('a \<Rightarrow> ('s, 'b) sx) \<Rightarrow> ('s, 'b) sx" where
  "bindS m f = (\<lambda>s. case m s of (Inl e, s') \<Rightarrow> (Inl e, s') | (Inr x, s') \<Rightarrow> f x s')"

definition returnS :: "'a \<Rightarrow> ('s, 'a) sx" where
  "returnS x = (\<lambda>s. (Inr x, s))"

definition throwS :: "js_error \<Rightarrow> ('s, 'a) sx" where
  "throwS e = (\<lambda>s. (Inl e, s))"

definition getS :: "('s, 's) sx" where
  "getS = (\<lambda>s. (Inr s, s))"

definition modifyS :: "('s \<Rightarrow> 's) \<Rightarrow> ('s, unit) sx" where
  "modifyS f = (\<lambda>s. (Inr (), f s))"

definition liftS :: "'a res \<Rightarrow> ('s, 'a) sx" where
  "liftS r = (\<lambda>s. (r, s))"

definition requireS :: "bool \<Rightarrow> js_error \<Rightarrow> ('s, unit) sx" where
  "requireS ok e = (if ok then returnS () else throwS e)"

text \<open>\<open>try\<close> with \<open>catch\<close> and with \<open>finally\<close>: an error of the last part replaces the result.\<close>

definition catchS :: "('s, 'a) sx \<Rightarrow> (js_error \<Rightarrow> ('s, 'a) sx) \<Rightarrow> ('s, 'a) sx" where
  "catchS m h = (\<lambda>s. case m s of (Inl e, s') \<Rightarrow> h e s' | (Inr x, s') \<Rightarrow> (Inr x, s'))"

definition finallyS :: "('s, 'a) sx \<Rightarrow> ('s, unit) sx \<Rightarrow> ('s, 'a) sx" where
  "finallyS m fin = (\<lambda>s. case m s of (r, s') \<Rightarrow>
     (case fin s' of (Inl e, s'') \<Rightarrow> (Inl e, s'') | (Inr _, s'') \<Rightarrow> (r, s'')))"

lemma bindR_simps [simp]:
  "bindR (Inl e) f = Inl e"
  "bindR (Inr x) f = f x"
  by (simp_all add: bindR_def)

lemma bindR_eq_Inr [res_simps]: "bindR r f = Inr y \<longleftrightarrow> (\<exists>x. r = Inr x \<and> f x = Inr y)"
  by (cases r) auto

lemma bindR_eq_Inl [res_simps]:
  "bindR r f = Inl e \<longleftrightarrow> r = Inl e \<or> (\<exists>x. r = Inr x \<and> f x = Inl e)"
  by (cases r) auto

lemma requireR_eq [res_simps]:
  "requireR ok e = Inr u \<longleftrightarrow> ok"
  "requireR ok e = Inl e' \<longleftrightarrow> \<not> ok \<and> e' = e"
  by (auto simp: requireR_def)

lemma requireR_True [simp]: "requireR True e = Inr ()"
  and requireR_False [simp]: "requireR False e = Inl e"
  by (simp_all add: requireR_def)

lemma mapR_Inr_iff: "mapR f xs = Inr ys \<longleftrightarrow> list_all2 (\<lambda>x y. f x = Inr y) xs ys"
proof (induction xs arbitrary: ys)
  case Nil
  then show ?case by (cases ys) auto
next
  case (Cons x xs)
  show ?case
    by (cases ys) (auto simp: bindR_eq_Inr Cons.IH)
qed

lemma mapR_Inr_length: "mapR f xs = Inr ys \<Longrightarrow> length ys = length xs"
  by (simp add: mapR_Inr_iff list_all2_lengthD)

lemma mapR_Inr_mem:
  assumes "mapR f xs = Inr ys" and "y \<in> set ys"
  shows "\<exists>x \<in> set xs. f x = Inr y"
proof -
  from assms(1) have *: "list_all2 (\<lambda>x y. f x = Inr y) xs ys" by (simp add: mapR_Inr_iff)
  from assms(2) obtain i where i: "i < length ys" "y = ys ! i" by (auto simp: in_set_conv_nth)
  with * have "i < length xs" "f (xs ! i) = Inr y" by (auto simp: list_all2_conv_all_nth)
  then show ?thesis by (auto intro!: bexI [of _ "xs ! i"])
qed

lemma mapR_map_Inr: "(\<And>x. x \<in> set xs \<Longrightarrow> f x = Inr (g x)) \<Longrightarrow> mapR f xs = Inr (map g xs)"
  by (induction xs) auto

lemma bindS_Inr [res_simps]:
  "bindS m f s = (Inr y, t) \<longleftrightarrow> (\<exists>x s'. m s = (Inr x, s') \<and> f x s' = (Inr y, t))"
  by (auto simp: bindS_def split: prod.splits sum.splits)

lemma bindS_Inl [res_simps]:
  "bindS m f s = (Inl e, t) \<longleftrightarrow>
     m s = (Inl e, t) \<or> (\<exists>x s'. m s = (Inr x, s') \<and> f x s' = (Inl e, t))"
  by (auto simp: bindS_def split: prod.splits sum.splits)

lemma basicS_iff [res_simps]:
  "returnS x s = (r, t) \<longleftrightarrow> r = Inr x \<and> t = s"
  "throwS e s = (r, t) \<longleftrightarrow> r = Inl e \<and> t = s"
  "getS s = (r', t) \<longleftrightarrow> r' = Inr s \<and> t = s"
  "modifyS g s = (u, t) \<longleftrightarrow> u = Inr () \<and> t = g s"
  "liftS r0 s = (r, t) \<longleftrightarrow> r = r0 \<and> t = s"
  by (auto simp: returnS_def throwS_def getS_def modifyS_def liftS_def)

lemma requireS_iff [res_simps]:
  "requireS ok e s = (r, t) \<longleftrightarrow> t = s \<and> r = (if ok then Inr () else Inl e)"
  by (auto simp: requireS_def returnS_def throwS_def)

lemmas sx_defs = bindS_def returnS_def throwS_def getS_def modifyS_def liftS_def requireS_def

text \<open>The frame rule of the monad: what every step keeps, the composite keeps.\<close>

definition keepsS :: "('s \<Rightarrow> 'k) \<Rightarrow> ('s, 'a) sx \<Rightarrow> bool" where
  "keepsS g m \<longleftrightarrow> (\<forall>s. g (snd (m s)) = g s)"

lemma keepsS_basic [intro]:
  "keepsS g (returnS x)" "keepsS g (throwS e)" "keepsS g getS" "keepsS g (liftS r)"
  "keepsS g (requireS ok e)"
  by (simp_all add: keepsS_def sx_defs)

lemma keepsS_bind [intro]:
  assumes "keepsS g m" and "\<And>x. keepsS g (f x)"
  shows "keepsS g (bindS m f)"
  using assms by (auto simp: keepsS_def bindS_def split: prod.splits sum.splits) (metis snd_conv)+

lemma keepsS_modify: "(\<And>s. g (h s) = g s) \<Longrightarrow> keepsS g (modifyS h)"
  by (simp add: keepsS_def modifyS_def)

lemma keepsS_D: "keepsS g m \<Longrightarrow> m s = (r, t) \<Longrightarrow> g t = g s"
  by (metis keepsS_def snd_conv)

lemma keepsS_if [intro]: "keepsS g a \<Longrightarrow> keepsS g b \<Longrightarrow> keepsS g (if c then a else b)"
  by simp

lemma keepsS_catch [intro]:
  assumes "keepsS g m" and "\<And>e. keepsS g (h e)"
  shows "keepsS g (catchS m h)"
  using assms by (auto simp: keepsS_def catchS_def split: prod.splits sum.splits) (metis snd_conv)+

text \<open>A condition every run of an operation keeps, whether it returns or throws.\<close>

definition invS :: "('s \<Rightarrow> bool) \<Rightarrow> ('s, 'a) sx \<Rightarrow> bool" where
  "invS I m \<longleftrightarrow> (\<forall>s. I s \<longrightarrow> I (snd (m s)))"

lemma invS_D: "invS I m \<Longrightarrow> I s \<Longrightarrow> m s = (r, t) \<Longrightarrow> I t"
  by (metis invS_def snd_conv)

lemma invS_bind:
  assumes "invS I m" and "\<And>x. invS I (f x)"
  shows "invS I (bindS m f)"
  unfolding invS_def
proof (intro allI impI)
  fix s assume s: "I s"
  obtain r t where m: "m s = (r, t)" by (cases "m s")
  then have "I t" using assms(1) s invS_D by metis
  then show "I (snd (bindS m f s))"
    using m assms(2) by (cases r) (auto simp: bindS_def invS_def)
qed

lemma invS_finally:
  assumes "invS I m" and "invS I fin"
  shows "invS I (finallyS m fin)"
  unfolding invS_def
proof (intro allI impI)
  fix s assume s: "I s"
  obtain r t where m: "m s = (r, t)" by (cases "m s")
  then have t: "I t" using assms(1) s invS_D by metis
  obtain r' u where f: "fin t = (r', u)" by (cases "fin t")
  then have "I u" using assms(2) t invS_D by metis
  then show "I (snd (finallyS m fin s))" using m f by (cases r') (simp_all add: finallyS_def)
qed

lemma keepsS_inv: "keepsS g m \<Longrightarrow> (\<And>s t. g t = g s \<Longrightarrow> I s \<Longrightarrow> I t) \<Longrightarrow> invS I m"
  unfolding keepsS_def invS_def by blast

lemma invS_basic: "invS I (returnS x)" "invS I (throwS e)" "invS I getS" "invS I (liftS r)" "invS I (requireS ok e)"
  by (simp_all add: invS_def sx_defs)

lemma invS_get: "(\<And>s. I s \<Longrightarrow> invS I (f s)) \<Longrightarrow> invS I (bindS getS f)"
  by (simp add: invS_def bindS_def getS_def)

lemma invS_catch:
  assumes "invS I m" and "\<And>e. invS I (h e)"
  shows "invS I (catchS m h)"
  unfolding invS_def
proof (intro allI impI)
  fix s assume s: "I s"
  obtain r t where m: "m s = (r, t)" by (cases "m s")
  then have "I t" using invS_D [OF assms(1) s] by blast
  then show "I (snd (catchS m h s))" using m assms(2) by (cases r) (auto simp: catchS_def invS_def)
qed

section \<open>Characters and strings\<close>

definition code :: "char \<Rightarrow> nat" where
  "code c = of_char c"

definition is_digit :: "char \<Rightarrow> bool" where
  "is_digit c \<longleftrightarrow> 48 \<le> code c \<and> code c \<le> 57"

definition is_lower :: "char \<Rightarrow> bool" where
  "is_lower c \<longleftrightarrow> 97 \<le> code c \<and> code c \<le> 122"

definition is_upper :: "char \<Rightarrow> bool" where
  "is_upper c \<longleftrightarrow> 65 \<le> code c \<and> code c \<le> 90"

definition is_hex_lower :: "char \<Rightarrow> bool" where
  "is_hex_lower c \<longleftrightarrow> is_digit c \<or> (97 \<le> code c \<and> code c \<le> 102)"

definition is_hex_any :: "char \<Rightarrow> bool" where
  "is_hex_any c \<longleftrightarrow> is_hex_lower c \<or> (65 \<le> code c \<and> code c \<le> 70)"

definition is_lower_alnum :: "char \<Rightarrow> bool" where
  "is_lower_alnum c \<longleftrightarrow> is_lower c \<or> is_digit c"

definition is_alnum :: "char \<Rightarrow> bool" where
  "is_alnum c \<longleftrightarrow> is_lower c \<or> is_upper c \<or> is_digit c"

definition is_js_space :: "char \<Rightarrow> bool" where
  "is_js_space c \<longleftrightarrow> (9 \<le> code c \<and> code c \<le> 13) \<or> code c = 32 \<or> code c = 160"

text \<open>Code equations on the bits of a character, for the evaluation of the witnesses.\<close>

lemma is_digit_code [code]:
  "is_digit (Char b0 b1 b2 b3 b4 b5 b6 b7) \<longleftrightarrow> \<not> b7 \<and> \<not> b6 \<and> b5 \<and> b4 \<and> (b3 \<longrightarrow> \<not> b2 \<and> \<not> b1)"
  by (cases b0; cases b1; cases b2; cases b3; cases b4; cases b5; cases b6; cases b7) (simp_all add: is_digit_def code_def)

lemma is_lower_code [code]:
  "is_lower (Char b0 b1 b2 b3 b4 b5 b6 b7) \<longleftrightarrow> \<not> b7 \<and> b6 \<and> b5 \<and> (b0 \<or> b1 \<or> b2 \<or> b3 \<or> b4) \<and> (b4 \<and> b3 \<longrightarrow> \<not> b2 \<and> (b1 \<longrightarrow> \<not> b0))"
  by (cases b0; cases b1; cases b2; cases b3; cases b4; cases b5; cases b6; cases b7) (simp_all add: is_lower_def code_def)

lemma is_upper_code [code]:
  "is_upper (Char b0 b1 b2 b3 b4 b5 b6 b7) \<longleftrightarrow> \<not> b7 \<and> b6 \<and> \<not> b5 \<and> (b0 \<or> b1 \<or> b2 \<or> b3 \<or> b4) \<and> (b4 \<and> b3 \<longrightarrow> \<not> b2 \<and> (b1 \<longrightarrow> \<not> b0))"
  by (cases b0; cases b1; cases b2; cases b3; cases b4; cases b5; cases b6; cases b7) (simp_all add: is_upper_def code_def)

lemma is_hex_lower_code [code]:
  "is_hex_lower (Char b0 b1 b2 b3 b4 b5 b6 b7) \<longleftrightarrow> is_digit (Char b0 b1 b2 b3 b4 b5 b6 b7)
     \<or> \<not> b7 \<and> b6 \<and> b5 \<and> \<not> b4 \<and> \<not> b3 \<and> (b0 \<or> b1 \<or> b2) \<and> \<not> (b0 \<and> b1 \<and> b2)"
  by (cases b0; cases b1; cases b2; cases b3; cases b4; cases b5; cases b6; cases b7) (simp_all add: is_hex_lower_def is_digit_def code_def)

lemma is_js_space_code [code]:
  "is_js_space (Char b0 b1 b2 b3 b4 b5 b6 b7) \<longleftrightarrow>
     (if b5 then \<not> b0 \<and> \<not> b1 \<and> \<not> b2 \<and> \<not> b3 \<and> \<not> b4 \<and> \<not> b6
      else b3 \<and> \<not> b4 \<and> \<not> b6 \<and> \<not> b7 \<and> (if b2 then \<not> b1 else b0 \<or> b1))"
  by (cases b0; cases b1; cases b2; cases b3; cases b4; cases b5; cases b6; cases b7) (simp_all add: is_js_space_def code_def)

text \<open>\<open>String.prototype.trim\<close>.\<close>

definition js_trim :: "string \<Rightarrow> string" where
  "js_trim s = rev (dropWhile is_js_space (rev (dropWhile is_js_space s)))"

text \<open>
  \<open>toLowerCase\<close> and \<open>toUpperCase\<close> on Latin-1: the ASCII letters and the accented letters
  whose other case is again Latin-1.
\<close>

definition has_lower :: "char \<Rightarrow> bool" where
  "has_lower c \<longleftrightarrow> is_upper c \<or> (192 \<le> code c \<and> code c \<le> 222 \<and> code c \<noteq> 215)"

definition has_upper :: "char \<Rightarrow> bool" where
  "has_upper c \<longleftrightarrow> is_lower c \<or> (224 \<le> code c \<and> code c \<le> 254 \<and> code c \<noteq> 247)"

definition lower_char :: "char \<Rightarrow> char" where
  "lower_char c = (if has_lower c then char_of (code c + 32) else c)"

definition upper_char :: "char \<Rightarrow> char" where
  "upper_char c = (if has_upper c then char_of (code c - 32) else c)"

definition to_lower :: "string \<Rightarrow> string" where
  "to_lower s = map lower_char s"

definition to_upper :: "string \<Rightarrow> string" where
  "to_upper s = map upper_char s"

definition starts_with :: "string \<Rightarrow> string \<Rightarrow> bool" where
  "starts_with p s \<longleftrightarrow> take (length p) s = p"

definition ends_with :: "string \<Rightarrow> string \<Rightarrow> bool" where
  "ends_with p s \<longleftrightarrow> starts_with (rev p) (rev s)"

text \<open>\<open>s.split(sep)\<close> for a one-character separator: always at least one part.\<close>

fun split_on :: "char \<Rightarrow> string \<Rightarrow> string list" where
  "split_on sep [] = [[]]"
| "split_on sep (c # cs) =
     (if c = sep then [] # split_on sep cs
      else (case split_on sep cs of [] \<Rightarrow> [[c]] | p # ps \<Rightarrow> (c # p) # ps))"

text \<open>\<open>parts.join(sep)\<close>.\<close>

fun join :: "string \<Rightarrow> string list \<Rightarrow> string" where
  "join sep [] = []"
| "join sep [p] = p"
| "join sep (p # q # ps) = p @ sep @ join sep (q # ps)"

text \<open>
  The pattern \<open>^E(?:M{0,n}E)?$\<close> the identifiers of every module share: the first and the
  last character from \<open>E\<close>, at most \<open>n\<close> characters from \<open>M\<close> between them.
\<close>

definition enclosed :: "(char \<Rightarrow> bool) \<Rightarrow> (char \<Rightarrow> bool) \<Rightarrow> nat \<Rightarrow> string \<Rightarrow> bool" where
  "enclosed E M n s \<longleftrightarrow> s \<noteq> [] \<and> E (hd s) \<and> E (last s)
     \<and> length s \<le> n + 2 \<and> list_all M (butlast (tl s))"

text \<open>The pattern \<open>^C{lo,hi}$\<close>.\<close>

definition all_in :: "(char \<Rightarrow> bool) \<Rightarrow> nat \<Rightarrow> nat \<Rightarrow> string \<Rightarrow> bool" where
  "all_in C lo hi s \<longleftrightarrow> lo \<le> length s \<and> length s \<le> hi \<and> list_all C s"

abbreviation hex64 :: "string \<Rightarrow> bool" where
  "hex64 s \<equiv> all_in is_hex_lower 64 64 s"

lemma starts_with_append [str_simps]: "starts_with p s \<longleftrightarrow> (\<exists>t. s = p @ t)"
  by (metis append_eq_conv_conj append_take_drop_id starts_with_def)

lemma starts_with_self [simp]: "starts_with p (p @ s)"
  by (auto simp: str_simps)

lemma ends_with_append [str_simps]: "ends_with p s \<longleftrightarrow> (\<exists>t. s = t @ p)"
proof
  assume "ends_with p s"
  then obtain t where "rev s = rev p @ t" by (auto simp: ends_with_def str_simps)
  then have "rev (rev s) = rev t @ p" by simp
  then show "\<exists>t. s = t @ p" by auto
qed (auto simp: ends_with_def str_simps)

lemma split_on_ne [simp]: "split_on sep s \<noteq> []"
  by (cases s) (auto split: list.splits)

lemma split_on_no_sep: "p \<in> set (split_on sep s) \<Longrightarrow> sep \<notin> set p"
proof (induction s arbitrary: p)
  case Nil
  then show ?case by simp
next
  case (Cons c cs)
  obtain q qs where q: "split_on sep cs = q # qs" by (cases "split_on sep cs") auto
  with Cons show ?case by (auto split: if_splits)
qed

lemma join_split_on: "join [sep] (split_on sep s) = s"
proof (induction s)
  case Nil
  then show ?case by simp
next
  case (Cons c cs)
  obtain q qs where q: "split_on sep cs = q # qs" by (cases "split_on sep cs") auto
  have "join [sep] ((c # q) # qs) = c # join [sep] (q # qs)" by (cases qs) auto
  with Cons q show ?case by (cases qs) auto
qed

lemma split_on_plain: "sep \<notin> set p \<Longrightarrow> split_on sep p = [p]"
  by (induction p) auto

lemma split_on_cons_sep: "sep \<notin> set p \<Longrightarrow> split_on sep (p @ sep # s) = p # split_on sep s"
  by (induction p) auto

lemma split_on_join:
  assumes "ps \<noteq> []" and "\<forall>p \<in> set ps. sep \<notin> set p"
  shows "split_on sep (join [sep] ps) = ps"
  using assms
proof (induction "[sep]" ps rule: join.induct)
  case (3 p q ps)
  then show ?case by (simp add: split_on_cons_sep)
qed (auto simp: split_on_plain)

lemma dropWhile_stop: "s \<noteq> [] \<Longrightarrow> \<not> P (hd s) \<Longrightarrow> dropWhile P s = s"
  by (cases s) auto

lemma js_trim_id:
  assumes "s = [] \<or> (\<not> is_js_space (hd s) \<and> \<not> is_js_space (last s))"
  shows "js_trim s = s"
proof (cases "s = []")
  case False
  with assms have "dropWhile is_js_space s = s"
    and "dropWhile is_js_space (rev s) = rev s"
    by (auto simp: dropWhile_stop hd_rev)
  then show ?thesis by (simp add: js_trim_def)
qed (simp add: js_trim_def)

lemma js_trim_edges:
  "js_trim s = [] \<or> (\<not> is_js_space (hd (js_trim s)) \<and> \<not> is_js_space (last (js_trim s)))"
proof (cases "js_trim s = []")
  case False
  define u where "u = dropWhile is_js_space s"
  define v where "v = dropWhile is_js_space (rev u)"
  from False have v: "v \<noteq> []" by (simp add: js_trim_def u_def v_def)
  then have "u \<noteq> []" by (auto simp: v_def)
  obtain w where w: "rev u = w @ v" by (metis dropWhile_eq_drop append_take_drop_id v_def)
  then have "u = rev v @ rev w" by (metis rev_append rev_rev_ident)
  then have "hd u = last v" using v by (simp add: hd_append hd_rev)
  moreover have "\<not> is_js_space (hd u)" using \<open>u \<noteq> []\<close> by (simp add: u_def hd_dropWhile)
  moreover have "\<not> is_js_space (hd v)" using v by (simp add: v_def hd_dropWhile)
  ultimately show ?thesis using v by (simp add: js_trim_def u_def v_def hd_rev last_rev)
qed simp

lemma js_trim_idem [simp]: "js_trim (js_trim s) = js_trim s"
  by (rule js_trim_id) (rule js_trim_edges)

lemma js_trim_no_space: "list_all (\<lambda>c. \<not> is_js_space c) s \<Longrightarrow> js_trim s = s"
  by (rule js_trim_id) (auto simp: list_all_iff)

lemma enclosed_list_all:
  assumes "enclosed E M n s" and "\<And>c. E c \<Longrightarrow> M c"
  shows "list_all M s"
proof -
  have "M c" if "c \<in> set s" for c
  proof (cases "tl s = []")
    case True
    with assms that show ?thesis by (cases s) (auto simp: enclosed_def)
  next
    case False
    then have "s = hd s # butlast (tl s) @ [last s]" by (cases s) auto
    then have "set s = set (hd s # butlast (tl s) @ [last s])" by simp
    with assms that show ?thesis by (auto simp: enclosed_def list_all_iff)
  qed
  then show ?thesis by (simp add: list_all_iff)
qed

end
