(* ===== verification/JsValue.thy ===== *)
theory JsValue
  imports JsPrelude
begin

text \<open>
  JavaScript values and the library calls the sources make on them: truthiness,
  \<open>String(v)\<close>, \<open>Number(v)\<close>, \<open>JSON.stringify\<close>, property access, \<open>Array.prototype.sort\<close>,
  \<open>Date.prototype.toISOString\<close>. Three things are parameters, bundled in the record
  \<open>runtime\<close>: SHA-256 of \<open>node:crypto\<close>, \<open>localeCompare\<close> (its order is the collation data
  of the engine) and \<open>new Date(v).getTime()\<close> (the formats it accepts beyond ISO 8601 are the
  engine's own).
\<close>

section \<open>Values\<close>

datatype jnum = Dec int nat | NaN | PosInf | NegInf

datatype jsv =
    JUndef
  | JNull
  | JBool bool
  | JNum jnum
  | JStr string
  | JArr "jsv list"
  | JObj "(string \<times> jsv) list"

abbreviation JInt :: "int \<Rightarrow> jsv" where
  "JInt i \<equiv> JNum (Dec i 0)"

fun js_truthy :: "jsv \<Rightarrow> bool" where
  "js_truthy JUndef = False"
| "js_truthy JNull = False"
| "js_truthy (JBool b) = b"
| "js_truthy (JNum (Dec m k)) = (m \<noteq> 0)"
| "js_truthy (JNum NaN) = False"
| "js_truthy (JNum PosInf) = True"
| "js_truthy (JNum NegInf) = True"
| "js_truthy (JStr s) = (s \<noteq> [])"
| "js_truthy (JArr xs) = True"
| "js_truthy (JObj ps) = True"

fun nullish :: "jsv \<Rightarrow> bool" where
  "nullish JUndef = True"
| "nullish JNull = True"
| "nullish _ = False"

text \<open>\<open>a || b\<close> and \<open>a ?? b\<close>.\<close>

definition js_or :: "jsv \<Rightarrow> jsv \<Rightarrow> jsv" where
  "js_or a b = (if js_truthy a then a else b)"

definition js_coalesce :: "jsv \<Rightarrow> jsv \<Rightarrow> jsv" where
  "js_coalesce a b = (if nullish a then b else a)"

text \<open>A default parameter value replaces \<open>undefined\<close> only.\<close>

definition js_default :: "jsv \<Rightarrow> jsv \<Rightarrow> jsv" where
  "js_default a b = (if a = JUndef then b else a)"

text \<open>\<open>v && typeof v === "object" && !Array.isArray(v) ? v : {}\<close> and reading a property.\<close>

fun as_object :: "jsv \<Rightarrow> jsv" where
  "as_object (JObj ps) = JObj ps"
| "as_object _ = JObj []"

fun is_object :: "jsv \<Rightarrow> bool" where
  "is_object (JObj ps) = True"
| "is_object _ = False"

fun getp :: "jsv \<Rightarrow> string \<Rightarrow> jsv" where
  "getp (JObj ps) k = (case map_of ps k of None \<Rightarrow> JUndef | Some v \<Rightarrow> v)"
| "getp _ k = JUndef"

text \<open>\<open>{ ...obj, k: v }\<close> keeps a present key's place and appends a new one.\<close>

fun put_prop :: "string \<Rightarrow> jsv \<Rightarrow> (string \<times> jsv) list \<Rightarrow> (string \<times> jsv) list" where
  "put_prop k v [] = [(k, v)]"
| "put_prop k v ((k', v') # ps) = (if k = k' then (k, v) # ps else (k', v') # put_prop k v ps)"

fun set_prop :: "string \<Rightarrow> jsv \<Rightarrow> jsv \<Rightarrow> jsv" where
  "set_prop k v (JObj ps) = JObj (put_prop k v ps)"
| "set_prop k v w = w"

fun del_prop :: "string \<Rightarrow> jsv \<Rightarrow> jsv" where
  "del_prop k (JObj ps) = JObj (filter (\<lambda>p. fst p \<noteq> k) ps)"
| "del_prop k w = w"

lemma map_of_put_prop [simp]: "map_of (put_prop k v ps) = (map_of ps)(k \<mapsto> v)"
  by (induction ps) (auto simp: fun_upd_twist)

lemma getp_set_prop [simp]:
  "is_object w \<Longrightarrow> getp (set_prop k v w) k' = (if k' = k then v else getp w k')"
  by (cases w) auto

lemma is_object_set_prop [simp]: "is_object (set_prop k v w) = is_object w"
  by (cases w) auto

lemma map_of_filter_key: "map_of (filter (\<lambda>p. fst p \<noteq> k) ps) k' = (if k' = k then None else map_of ps k')"
  by (induction ps) auto

lemma getp_del_prop [simp]: "getp (del_prop k w) k' = (if k' = k then JUndef else getp w k')"
  by (cases w) (auto simp: map_of_filter_key split: option.splits)

lemma is_object_del_prop [simp]: "is_object (del_prop k w) = is_object w"
  by (cases w) auto

lemma is_object_as_object [simp]: "is_object (as_object v)"
  by (cases v) auto

lemma as_object_id [simp]: "is_object v \<Longrightarrow> as_object v = v"
  by (cases v) auto

section \<open>Numbers and strings\<close>

definition digit_char :: "int \<Rightarrow> char" where
  "digit_char n = char_of (48 + nat n)"

function show_digits :: "int \<Rightarrow> string" where
  "show_digits n = (if n < 10 then [digit_char n] else show_digits (n div 10) @ [digit_char (n mod 10)])"
  by pat_completeness auto
termination
  by (relation "measure nat") auto

declare show_digits.simps [simp del]

definition show_int :: "int \<Rightarrow> string" where
  "show_int i = (if i < 0 then ''-'' @ show_digits (- i) else show_digits i)"

definition pad_left :: "nat \<Rightarrow> char \<Rightarrow> string \<Rightarrow> string" where
  "pad_left n c s = replicate (n - length s) c @ s"

fun norm_dec :: "int \<Rightarrow> nat \<Rightarrow> int \<times> nat" where
  "norm_dec m 0 = (m, 0)"
| "norm_dec m (Suc k) = (if m mod 10 = 0 then norm_dec (m div 10) k else (m, Suc k))"

fun show_num :: "jnum \<Rightarrow> string" where
  "show_num NaN = ''NaN''"
| "show_num PosInf = ''Infinity''"
| "show_num NegInf = ''-Infinity''"
| "show_num (Dec m k) = (case norm_dec m k of (m', k') \<Rightarrow>
     if k' = 0 then show_int m'
     else (let s = pad_left (Suc k') CHR ''0'' (show_digits \<bar>m'\<bar>);
               n = length s - k'
           in (if m' < 0 then ''-'' else []) @ take n s @ ''.'' @ drop n s))"

fun js_String :: "jsv \<Rightarrow> string" where
  "js_String JUndef = ''undefined''"
| "js_String JNull = ''null''"
| "js_String (JBool b) = (if b then ''true'' else ''false'')"
| "js_String (JNum n) = show_num n"
| "js_String (JStr s) = s"
| "js_String (JArr xs) = join '','' (map (\<lambda>x. if nullish x then [] else js_String x) xs)"
| "js_String (JObj ps) = ''[object Object]''"

definition digit_val :: "char \<Rightarrow> int" where
  "digit_val c = (if is_digit c then int (code c) - 48
     else if 97 \<le> code c then int (code c) - 87 else int (code c) - 55)"

definition digits_val :: "int \<Rightarrow> string \<Rightarrow> int" where
  "digits_val base ds = foldl (\<lambda>n c. n * base + digit_val c) 0 ds"

text \<open>The exponent part of a decimal literal: absent, or \<open>e\<close>, a sign and digits.\<close>

definition exponent_val :: "string \<Rightarrow> int option" where
  "exponent_val r = (case r of [] \<Rightarrow> Some 0
     | c # ds \<Rightarrow>
        if c = CHR ''e'' \<or> c = CHR ''E'' then
          (let neg = (ds \<noteq> [] \<and> hd ds = CHR ''-'');
               ds' = (if ds \<noteq> [] \<and> hd ds \<in> {CHR ''-'', CHR ''+''} then tl ds else ds)
           in if ds' \<noteq> [] \<and> list_all is_digit ds'
              then Some (if neg then - digits_val 10 ds' else digits_val 10 ds')
              else None)
        else None)"

text \<open>
  The value \<open>m * 10 ^ (e - k)\<close> as a number: infinite from \<open>2 ^ 1024 - 2 ^ 970\<close> on, zero up
  to \<open>2 ^ -1075\<close>.
\<close>

definition decimal_num :: "bool \<Rightarrow> int \<Rightarrow> nat \<Rightarrow> int \<Rightarrow> jnum" where
  "decimal_num neg m k e =
     (let (n, j) = (if int k \<le> e then (m * 10 ^ (nat e - k), 0) else (m, nat (int k - e)))
      in if (2 ^ 1024 - 2 ^ 970) * 10 ^ j \<le> n then (if neg then NegInf else PosInf)
         else if n * 2 ^ 1075 \<le> 10 ^ j then Dec 0 0
         else (case norm_dec (if neg then - n else n) j of (n', j') \<Rightarrow> Dec n' j'))"

definition decimal_literal :: "bool \<Rightarrow> string \<Rightarrow> jnum" where
  "decimal_literal neg t =
     (let ip = takeWhile is_digit t; r1 = dropWhile is_digit t;
          dot = (r1 \<noteq> [] \<and> hd r1 = CHR ''.'');
          fp = (if dot then takeWhile is_digit (tl r1) else []);
          r2 = (if dot then dropWhile is_digit (tl r1) else r1)
      in if t = ''Infinity'' then (if neg then NegInf else PosInf)
         else if ip = [] \<and> fp = [] then NaN
         else (case exponent_val r2 of None \<Rightarrow> NaN
               | Some e \<Rightarrow> decimal_num neg (digits_val 10 (ip @ fp)) (length fp) e))"

definition radix_literal :: "int \<Rightarrow> (char \<Rightarrow> bool) \<Rightarrow> string \<Rightarrow> jnum" where
  "radix_literal base ok ds =
     (if ds \<noteq> [] \<and> list_all ok ds then decimal_num False (digits_val base ds) 0 0 else NaN)"

definition string_to_number :: "string \<Rightarrow> jnum" where
  "string_to_number s =
     (let t = js_trim s; p = take 2 t; ds = drop 2 t
      in if t = [] then Dec 0 0
         else if p \<in> {''0x'', ''0X''} then radix_literal 16 is_hex_any ds
         else if p \<in> {''0o'', ''0O''} then radix_literal 8 (\<lambda>c. is_digit c \<and> code c \<le> 55) ds
         else if p \<in> {''0b'', ''0B''} then radix_literal 2 (\<lambda>c. c = CHR ''0'' \<or> c = CHR ''1'') ds
         else if hd t = CHR ''-'' then decimal_literal True (tl t)
         else if hd t = CHR ''+'' then decimal_literal False (tl t)
         else decimal_literal False t)"

definition js_Number :: "jsv \<Rightarrow> jnum" where
  "js_Number v = (case v of JUndef \<Rightarrow> NaN | JNull \<Rightarrow> Dec 0 0
     | JBool b \<Rightarrow> Dec (if b then 1 else 0) 0 | JNum n \<Rightarrow> n
     | JStr s \<Rightarrow> string_to_number s | _ \<Rightarrow> string_to_number (js_String v))"

text \<open>The integer a number is, if it is one; \<open>Number.isSafeInteger\<close>; product with a constant.\<close>

fun num_int :: "jnum \<Rightarrow> int option" where
  "num_int (Dec m k) = (if m mod 10 ^ k = 0 then Some (m div 10 ^ k) else None)"
| "num_int _ = None"

definition safe_int :: "jnum \<Rightarrow> int option" where
  "safe_int n = (case num_int n of None \<Rightarrow> None
     | Some i \<Rightarrow> if \<bar>i\<bar> \<le> 2 ^ 53 - 1 then Some i else None)"

fun num_times :: "int \<Rightarrow> jnum \<Rightarrow> jnum" where
  "num_times c (Dec m k) = Dec (m * c) k"
| "num_times c NaN = NaN"
| "num_times c PosInf = PosInf"
| "num_times c NegInf = NegInf"

lemma safe_int_JInt [simp]: "safe_int (Dec i 0) = (if \<bar>i\<bar> \<le> 2 ^ 53 - 1 then Some i else None)"
  by (simp add: safe_int_def)

lemma safe_int_bound: "safe_int n = Some i \<Longrightarrow> \<bar>i\<bar> \<le> 2 ^ 53 - 1"
  by (auto simp: safe_int_def split: option.splits if_splits)

section \<open>JSON.stringify\<close>

definition hex_char :: "nat \<Rightarrow> char" where
  "hex_char n = (if n < 10 then char_of (48 + n) else char_of (87 + n))"

definition json_escape :: "char \<Rightarrow> string" where
  "json_escape c =
     (if c = CHR 0x22 then [CHR 0x5C, CHR 0x22]
      else if c = CHR 0x5C then [CHR 0x5C, CHR 0x5C]
      else if code c = 8 then [CHR 0x5C, CHR ''b'']
      else if code c = 12 then [CHR 0x5C, CHR ''f'']
      else if code c = 10 then [CHR 0x5C, CHR ''n'']
      else if code c = 13 then [CHR 0x5C, CHR ''r'']
      else if code c = 9 then [CHR 0x5C, CHR ''t'']
      else if code c < 32 then CHR 0x5C # ''u00'' @ [hex_char (code c div 16), hex_char (code c mod 16)]
      else [c])"

definition json_quote :: "string \<Rightarrow> string" where
  "json_quote s = CHR 0x22 # concat (map json_escape s) @ [CHR 0x22]"

fun json_stringify :: "jsv \<Rightarrow> string" where
  "json_stringify JUndef = ''null''"
| "json_stringify JNull = ''null''"
| "json_stringify (JBool b) = (if b then ''true'' else ''false'')"
| "json_stringify (JNum n) = (case n of Dec m k \<Rightarrow> show_num n | _ \<Rightarrow> ''null'')"
| "json_stringify (JStr s) = json_quote s"
| "json_stringify (JArr xs) = ''['' @ join '','' (map json_stringify xs) @ '']''"
| "json_stringify (JObj ps) =
     CHR 0x7B # join '','' (map (\<lambda>(k, v). json_quote k @ '':'' @ json_stringify v)
                                  (filter (\<lambda>(k, v). v \<noteq> JUndef) ps)) @ [CHR 0x7D]"

text \<open>\<open>Buffer.byteLength\<close> of a string: UTF-8 takes two bytes for a code unit from 128 on.\<close>

definition byte_length :: "string \<Rightarrow> int" where
  "byte_length s = (\<Sum>c \<leftarrow> s. if code c < 128 then 1 else 2)"

text \<open>\<open>{ ...v }\<close>: the own properties of an object, the indexed items of an array or string.\<close>

definition indexed :: "jsv list \<Rightarrow> (string \<times> jsv) list" where
  "indexed xs = zip (map (\<lambda>i. show_int (int i)) [0..<length xs]) xs"

fun spread :: "jsv \<Rightarrow> (string \<times> jsv) list" where
  "spread (JObj ps) = ps"
| "spread (JArr xs) = indexed xs"
| "spread (JStr s) = indexed (map (\<lambda>c. JStr [c]) s)"
| "spread _ = []"

section \<open>Sorting with a comparator\<close>

text \<open>
  \<open>Array.prototype.sort\<close> is stable; for a consistent comparator its result is the stable
  sorted permutation, which insertion from the right computes.
\<close>

fun insort_by :: "('a \<Rightarrow> 'a \<Rightarrow> int) \<Rightarrow> 'a \<Rightarrow> 'a list \<Rightarrow> 'a list" where
  "insort_by cmp x [] = [x]"
| "insort_by cmp x (y # ys) = (if cmp x y \<le> 0 then x # y # ys else y # insort_by cmp x ys)"

definition js_sort_by :: "('a \<Rightarrow> 'a \<Rightarrow> int) \<Rightarrow> 'a list \<Rightarrow> 'a list" where
  "js_sort_by cmp xs = foldr (insort_by cmp) xs []"

text \<open>A consistent comparator: total and transitive.\<close>

definition consistent_cmp :: "('a \<Rightarrow> 'a \<Rightarrow> int) \<Rightarrow> bool" where
  "consistent_cmp cmp \<longleftrightarrow> (\<forall>x y. cmp x y \<le> 0 \<or> cmp y x \<le> 0)
     \<and> (\<forall>x y z. cmp x y \<le> 0 \<longrightarrow> cmp y z \<le> 0 \<longrightarrow> cmp x z \<le> 0)"

lemma set_insort_by [simp]: "set (insort_by cmp x xs) = insert x (set xs)"
  by (induction xs) auto

lemma length_insort_by [simp]: "length (insort_by cmp x xs) = Suc (length xs)"
  by (induction xs) auto

lemma distinct_map_insort_by:
  "distinct (map f (insort_by cmp x xs)) \<longleftrightarrow> f x \<notin> f ` set xs \<and> distinct (map f xs)"
  by (induction xs) auto

lemma set_js_sort_by [simp]: "set (js_sort_by cmp xs) = set xs"
  by (induction xs) (auto simp: js_sort_by_def)

lemma length_js_sort_by [simp]: "length (js_sort_by cmp xs) = length xs"
  by (induction xs) (auto simp: js_sort_by_def)

lemma distinct_map_js_sort_by [simp]: "distinct (map f (js_sort_by cmp xs)) = distinct (map f xs)"
proof (induction xs)
  case (Cons x xs)
  have "set (foldr (insort_by cmp) xs []) = set xs" using set_js_sort_by by (simp add: js_sort_by_def)
  with Cons show ?case by (simp add: js_sort_by_def distinct_map_insort_by)
qed (simp add: js_sort_by_def)

lemma sorted_wrt_insort_by:
  assumes "consistent_cmp cmp" and "sorted_wrt (\<lambda>x y. cmp x y \<le> 0) xs"
  shows "sorted_wrt (\<lambda>x y. cmp x y \<le> 0) (insort_by cmp x xs)"
  using assms(2)
proof (induction xs)
  case (Cons y ys)
  from assms(1) have tot: "\<And>a b. cmp a b \<le> 0 \<or> cmp b a \<le> 0"
    and tr: "\<And>a b c. cmp a b \<le> 0 \<Longrightarrow> cmp b c \<le> 0 \<Longrightarrow> cmp a c \<le> 0"
    unfolding consistent_cmp_def by blast+
  show ?case
  proof (cases "cmp x y \<le> 0")
    case True
    with Cons.prems show ?thesis by (auto intro: tr [OF True])
  next
    case False
    with tot have "cmp y x \<le> 0" by blast
    with False Cons show ?thesis by auto
  qed
qed simp

lemma sorted_wrt_js_sort_by:
  "consistent_cmp cmp \<Longrightarrow> sorted_wrt (\<lambda>x y. cmp x y \<le> 0) (js_sort_by cmp xs)"
  by (induction xs) (auto simp: js_sort_by_def intro: sorted_wrt_insort_by)

lemma js_sort_by_hd_least:
  assumes "consistent_cmp cmp" and "js_sort_by cmp xs = y # ys" and "x \<in> set xs"
  shows "cmp y x \<le> 0"
proof -
  from assms(3) have "x \<in> set (y # ys)" using assms(2) set_js_sort_by by metis
  moreover from assms(1) have "cmp y y \<le> 0" unfolding consistent_cmp_def by blast
  moreover have "sorted_wrt (\<lambda>x y. cmp x y \<le> 0) (y # ys)"
    using sorted_wrt_js_sort_by [OF assms(1)] assms(2) by metis
  ultimately show ?thesis by auto
qed

section \<open>Time\<close>

text \<open>
  \<open>toISOString\<close> of an instant in milliseconds since 1970: the proleptic Gregorian date of
  its day and the time of day, years outside 0 to 9999 with a sign and six digits.
\<close>

definition civil_from_days :: "int \<Rightarrow> int \<times> int \<times> int" where
  "civil_from_days days =
     (let z = days + 719468; era = z div 146097; doe = z mod 146097;
          yoe = (doe - doe div 1460 + doe div 36524 - doe div 146096) div 365;
          doy = doe - (365 * yoe + yoe div 4 - yoe div 100);
          mp = (5 * doy + 2) div 153;
          d = doy - (153 * mp + 2) div 5 + 1;
          m = (if mp < 10 then mp + 3 else mp - 9)
      in (yoe + era * 400 + (if m \<le> 2 then 1 else 0), m, d))"

definition two :: "int \<Rightarrow> string" where
  "two n = pad_left 2 CHR ''0'' (show_digits n)"

definition show_year :: "int \<Rightarrow> string" where
  "show_year y = (if 0 \<le> y \<and> y \<le> 9999 then pad_left 4 CHR ''0'' (show_digits y)
     else (if y < 0 then ''-'' else ''+'') @ pad_left 6 CHR ''0'' (show_digits \<bar>y\<bar>))"

definition to_iso :: "int \<Rightarrow> string" where
  "to_iso t =
     (let (y, m, d) = civil_from_days (t div 86400000); ms = t mod 86400000
      in show_year y @ ''-'' @ two m @ ''-'' @ two d @ ''T''
         @ two (ms div 3600000) @ '':'' @ two (ms div 60000 mod 60) @ '':''
         @ two (ms div 1000 mod 60) @ ''.'' @ pad_left 3 CHR ''0'' (show_digits (ms mod 1000)) @ ''Z'')"

text \<open>The parameters of the model: what the engine and \<open>node:crypto\<close> provide.\<close>

record runtime =
  rt_sha256 :: "string \<Rightarrow> string"
  rt_localeCompare :: "string \<Rightarrow> string \<Rightarrow> int"
  rt_date :: "jsv \<Rightarrow> int option"

text \<open>\<open>new Date(v).toISOString()\<close>, which throws on an invalid date.\<close>

definition date_iso :: "runtime \<Rightarrow> jsv \<Rightarrow> string res" where
  "date_iso R v = (case rt_date R v of None \<Rightarrow> Inl (PlainError ''Invalid time value'')
     | Some t \<Rightarrow> Inr (to_iso t))"

text \<open>\<open>new Date(t).toISOString()\<close> of a number of milliseconds.\<close>

definition ms_iso :: "int \<Rightarrow> string res" where
  "ms_iso t = (if \<bar>t\<bar> \<le> 8640000000000000 then Inr (to_iso t) else Inl (PlainError ''Invalid time value''))"

text \<open>ECMAScript: parsing what \<open>toISOString\<close> printed gives the instant back.\<close>

definition iso_reads :: "runtime \<Rightarrow> int \<Rightarrow> bool" where
  "iso_reads R t \<longleftrightarrow> rt_date R (JStr (to_iso t)) = Some t"

lemma date_iso_Inr: "date_iso R v = Inr s \<longleftrightarrow> (\<exists>t. rt_date R v = Some t \<and> s = to_iso t)"
  by (auto simp: date_iso_def split: option.splits)

text \<open>
  A concrete runtime for the witnesses: a polynomial hash printed as 64 hexadecimal digits,
  code-unit order, and the 24-character ISO form.
\<close>

fun hex_fixed :: "nat \<Rightarrow> int \<Rightarrow> string" where
  "hex_fixed 0 n = []"
| "hex_fixed (Suc k) n = hex_fixed k (n div 16) @ [hex_char (nat (n mod 16))]"

definition sample_sha256 :: "string \<Rightarrow> string" where
  "sample_sha256 s = hex_fixed 64 (foldl (\<lambda>h c. (h * 257 + int (code c) + 1) mod 1000003) 7 s)"

definition code_unit_compare :: "string \<Rightarrow> string \<Rightarrow> int" where
  "code_unit_compare a b = (if a < b then -1 else if a = b then 0 else 1)"

definition days_from_civil :: "int \<Rightarrow> int \<Rightarrow> int \<Rightarrow> int" where
  "days_from_civil y m d =
     (let y' = (if m \<le> 2 then y - 1 else y); era = y' div 400; yoe = y' mod 400;
          mp = (if m > 2 then m - 3 else m + 9);
          doy = (153 * mp + 2) div 5 + d - 1;
          doe = yoe * 365 + yoe div 4 - yoe div 100 + doy
      in era * 146097 + doe - 719468)"

definition num_at :: "string \<Rightarrow> nat \<Rightarrow> nat \<Rightarrow> int" where
  "num_at s i n = digits_val 10 (take n (drop i s))"

definition iso_parse :: "string \<Rightarrow> int option" where
  "iso_parse s =
     (if length s = 24 \<and> list_all (\<lambda>i. is_digit (s ! i)) [0,1,2,3,5,6,8,9,11,12,14,15,17,18,20,21,22]
         \<and> s ! 4 = CHR ''-'' \<and> s ! 7 = CHR ''-'' \<and> s ! 10 = CHR ''T'' \<and> s ! 13 = CHR '':''
         \<and> s ! 16 = CHR '':'' \<and> s ! 19 = CHR ''.'' \<and> s ! 23 = CHR ''Z''
      then Some (days_from_civil (num_at s 0 4) (num_at s 5 2) (num_at s 8 2) * 86400000
             + num_at s 11 2 * 3600000 + num_at s 14 2 * 60000 + num_at s 17 2 * 1000 + num_at s 20 3)
      else None)"

definition sample_date :: "jsv \<Rightarrow> int option" where
  "sample_date v = (case v of JNum n \<Rightarrow> num_int n | JStr s \<Rightarrow> iso_parse s | JNull \<Rightarrow> Some 0 | _ \<Rightarrow> None)"

definition sample_runtime :: runtime where
  "sample_runtime = \<lparr>rt_sha256 = sample_sha256, rt_localeCompare = code_unit_compare, rt_date = sample_date\<rparr>"

lemma sample_runtime_sel [simp]:
  "rt_sha256 sample_runtime = sample_sha256"
  "rt_localeCompare sample_runtime = code_unit_compare"
  "rt_date sample_runtime = sample_date"
  by (simp_all add: sample_runtime_def)

lemma consistent_code_unit_compare: "consistent_cmp code_unit_compare"
  by (auto simp: consistent_cmp_def code_unit_compare_def split: if_splits)

lemma length_hex_fixed [simp]: "length (hex_fixed k n) = k"
  by (induction k arbitrary: n) auto

lemma is_hex_lower_hex_char: "n < 16 \<Longrightarrow> is_hex_lower (hex_char n)"
  by (auto simp: is_hex_lower_def hex_char_def is_digit_def code_def)

lemma hex_fixed_hex: "list_all is_hex_lower (hex_fixed k n)"
  by (induction k arbitrary: n) (auto intro!: is_hex_lower_hex_char)

lemma hex64_sample_sha256: "hex64 (sample_sha256 s)"
  by (simp add: sample_sha256_def all_in_def hex_fixed_hex)

end
