(* ===== verification/RouteCapabilities.thy ===== *)
theory RouteCapabilities
  imports JsValue
begin

text \<open>
  The authorization registry, \<open>control-center/auth/route-capabilities.mjs\<close>: the catalog of
  Control API routes with the capability each requires, and the resolver that maps a request
  (method, path, raw path) to one operation. Authorization and dispatch both consume that
  operation.

  \<open>segment\<close>, \<open>route_def\<close> and \<open>operation\<close> are the frozen objects of the source; the
  percent-decoding loop of \<open>controlPathDisposition\<close> is a recursion whose termination is the
  length of the projection. The lemmas show that confusable spellings of the control prefix
  are refused at every decoding depth, that a control path is either a catalog entry or
  denied, that overlapping catalog entries agree on the capability, and that only read
  methods ever resolve to the viewer capability.
\<close>

section \<open>The catalog\<close>

datatype capability = Viewer | Admin | Owner | OwnerFresh | Deny

datatype segment = Lit string | Param string

record route_def =
  rd_method :: string
  rd_operationId :: string
  rd_capability :: capability
  rd_segments :: "segment list"

definition READ_METHODS :: "string list" where
  "READ_METHODS = [''GET'', ''HEAD'', ''OPTIONS'']"

definition route :: "string \<Rightarrow> string \<Rightarrow> capability \<Rightarrow> segment list \<Rightarrow> route_def" where
  "route m i c segs = \<lparr>rd_method = m, rd_operationId = i, rd_capability = c, rd_segments = segs\<rparr>"

definition viewer :: "string \<Rightarrow> segment list \<Rightarrow> route_def" where
  "viewer i segs = route ''GET'' i Viewer segs"

definition admin :: "string \<Rightarrow> segment list \<Rightarrow> route_def" where
  "admin i segs = route ''POST'' i Admin segs"

definition owner :: "string \<Rightarrow> string \<Rightarrow> segment list \<Rightarrow> route_def" where
  "owner m i segs = route m i Owner segs"

definition ownerFresh :: "string \<Rightarrow> string \<Rightarrow> segment list \<Rightarrow> route_def" where
  "ownerFresh m i segs = route m i OwnerFresh segs"

definition CONTROL_ROUTES :: "route_def list" where
  "CONTROL_ROUTES =
    [ownerFresh ''GET'' ''overview.read'' [Lit ''control'', Lit ''overview''],
     viewer ''status.events.stream'' [Lit ''control'', Lit ''status'', Lit ''events'', Lit ''stream''],
     viewer ''status.events.read'' [Lit ''control'', Lit ''status'', Lit ''events''],
     viewer ''status.read'' [Lit ''control'', Lit ''status''],
     viewer ''go-no-go.read'' [Lit ''control'', Lit ''go-no-go''],
     viewer ''project-folders.list'' [Lit ''control'', Lit ''project-folders''],
     admin ''project-folders.create'' [Lit ''control'', Lit ''project-folders''],
     admin ''project-folders.membership'' [Lit ''control'', Lit ''project-folders'', Lit ''membership''],
     admin ''project-folders.rename'' [Lit ''control'', Lit ''project-folders'', Param ''folderId'', Lit ''rename''],
     admin ''project-folders.delete'' [Lit ''control'', Lit ''project-folders'', Param ''folderId'', Lit ''delete''],
     viewer ''projects.list'' [Lit ''control'', Lit ''projects''],
     admin ''projects.create'' [Lit ''control'', Lit ''projects''],
     viewer ''projects.hosting.status'' [Lit ''control'', Lit ''projects'', Param ''projectId'', Lit ''hosting-status''],
     viewer ''projects.hosting.plan'' [Lit ''control'', Lit ''projects'', Param ''projectId'', Lit ''hosting-plan''],
     ownerFresh ''POST'' ''projects.hosting.visibility'' [Lit ''control'', Lit ''projects'', Param ''projectId'', Lit ''visibility''],
     ownerFresh ''POST'' ''projects.hosting.clone'' [Lit ''control'', Lit ''projects'', Param ''projectId'', Lit ''clone''],
     ownerFresh ''POST'' ''projects.hosting.cancel'' [Lit ''control'', Lit ''projects'', Param ''projectId'', Lit ''clone'', Param ''jobId'', Lit ''cancel''],
     viewer ''projects.files.read'' [Lit ''control'', Lit ''projects'', Param ''projectId'', Lit ''files''],
     viewer ''projects.read'' [Lit ''control'', Lit ''projects'', Param ''projectId''],
     admin ''projects.update'' [Lit ''control'', Lit ''projects'', Param ''projectId'', Lit ''update''],
     admin ''projects.archive.plan'' [Lit ''control'', Lit ''projects'', Param ''projectId'', Lit ''archive'', Lit ''plan''],
     admin ''projects.archive.apply'' [Lit ''control'', Lit ''projects'', Param ''projectId'', Lit ''archive'', Lit ''apply''],
     ownerFresh ''POST'' ''projects.list.remove'' [Lit ''control'', Lit ''projects'', Param ''projectId'', Lit ''list'', Lit ''remove''],
     admin ''projects.delete.plan'' [Lit ''control'', Lit ''projects'', Param ''projectId'', Lit ''delete'', Lit ''plan''],
     admin ''projects.delete.apply'' [Lit ''control'', Lit ''projects'', Param ''projectId'', Lit ''delete'', Lit ''apply''],
     viewer ''applications.list'' [Lit ''control'', Lit ''applications''],
     viewer ''applications.observed'' [Lit ''control'', Lit ''applications'', Lit ''observed''],
     admin ''applications.create'' [Lit ''control'', Lit ''applications''],
     admin ''applications.lifecycle'' [Lit ''control'', Lit ''applications'', Param ''applicationId'', Param ''action''],
     viewer ''domains.list'' [Lit ''control'', Lit ''domains''],
     viewer ''backup.control.read'' [Lit ''control'', Lit ''backups'', Lit ''control''],
     ownerFresh ''POST'' ''backup.control.update'' [Lit ''control'', Lit ''backups'', Lit ''control''],
     ownerFresh ''GET'' ''backup.vps.catalog'' [Lit ''control'', Lit ''backups'', Lit ''vps''],
     ownerFresh ''POST'' ''backup.production-restore'' [Lit ''control'', Lit ''backups'', Lit ''production-restore''],
     ownerFresh ''POST'' ''cloudflare.dns.change'' [Lit ''control'', Lit ''cloudflare'', Lit ''dns'', Lit ''change''],
     admin ''domains.create'' [Lit ''control'', Lit ''domains''],
     viewer ''network.read'' [Lit ''control'', Lit ''network''],
     admin ''subdomains.plan'' [Lit ''control'', Lit ''subdomains'', Lit ''plan''],
     admin ''subdomains.apply'' [Lit ''control'', Lit ''subdomains'', Lit ''apply''],
     admin ''subdomains.remove.plan'' [Lit ''control'', Lit ''subdomains'', Param ''subdomainId'', Lit ''remove'', Lit ''plan''],
     admin ''subdomains.remove.apply'' [Lit ''control'', Lit ''subdomains'', Param ''subdomainId'', Lit ''remove'', Lit ''apply''],
     admin ''subdomains.verify'' [Lit ''control'', Lit ''subdomains'', Param ''subdomainId'', Lit ''verify''],
     viewer ''webspaces.list'' [Lit ''control'', Lit ''webspaces''],
     admin ''webspaces.create'' [Lit ''control'', Lit ''webspaces''],
     admin ''webspaces.quota'' [Lit ''control'', Lit ''webspaces'', Param ''webspaceId'', Lit ''quota''],
     viewer ''databases.list'' [Lit ''control'', Lit ''databases''],
     ownerFresh ''POST'' ''database.create'' [Lit ''control'', Lit ''databases''],
     ownerFresh ''POST'' ''database.backup'' [Lit ''control'', Lit ''databases'', Param ''databaseId'', Lit ''backup''],
     admin ''database.restore.plan'' [Lit ''control'', Lit ''databases'', Param ''databaseId'', Lit ''restore'', Lit ''plan''],
     viewer ''storage.read'' [Lit ''control'', Lit ''storage''],
     admin ''storage.bucket.create'' [Lit ''control'', Lit ''storage'', Lit ''buckets''],
     admin ''storage.bucket.policy'' [Lit ''control'', Lit ''storage'', Lit ''buckets'', Param ''bucketId'', Lit ''policy''],
     admin ''storage.bucket.lifecycle'' [Lit ''control'', Lit ''storage'', Lit ''buckets'', Param ''bucketId'', Lit ''lifecycle''],
     admin ''storage.bucket.access-key'' [Lit ''control'', Lit ''storage'', Lit ''buckets'', Param ''bucketId'', Lit ''access-key''],
     admin ''storage.bucket.backup'' [Lit ''control'', Lit ''storage'', Lit ''buckets'', Param ''bucketId'', Lit ''backup''],
     admin ''storage.bucket.restore.plan'' [Lit ''control'', Lit ''storage'', Lit ''buckets'', Param ''bucketId'', Lit ''restore'', Lit ''plan''],
     viewer ''secrets.inventory.read'' [Lit ''control'', Lit ''secrets''],
     admin ''secrets.material.create'' [Lit ''control'', Lit ''secrets'', Lit ''materials''],
     admin ''secrets.material.rotation'' [Lit ''control'', Lit ''secrets'', Lit ''materials'', Param ''materialId'', Lit ''rotation''],
     admin ''secrets.material.usage'' [Lit ''control'', Lit ''secrets'', Lit ''materials'', Param ''materialId'', Lit ''usage''],
     admin ''secrets.material.access'' [Lit ''control'', Lit ''secrets'', Lit ''materials'', Param ''materialId'', Lit ''access''],
     owner ''GET'' ''vault.runtime.catalog'' [Lit ''control'', Lit ''vault'', Lit ''runtime''],
     owner ''POST'' ''vault.runtime.adopt'' [Lit ''control'', Lit ''vault'', Lit ''runtime'', Lit ''adopt''],
     owner ''POST'' ''vault.runtime.plan'' [Lit ''control'', Lit ''vault'', Lit ''runtime'', Lit ''plan''],
     owner ''POST'' ''vault.runtime.apply'' [Lit ''control'', Lit ''vault'', Lit ''runtime'', Lit ''apply''],
     owner ''POST'' ''vault.runtime.rollback'' [Lit ''control'', Lit ''vault'', Lit ''runtime'', Lit ''rollback''],
     owner ''POST'' ''vault.runtime.status'' [Lit ''control'', Lit ''vault'', Lit ''runtime'', Lit ''status''],
     owner ''POST'' ''vault.secret.version'' [Lit ''control'', Lit ''vault'', Lit ''secrets'', Param ''vaultItemId'', Lit ''versions''],
     owner ''GET'' ''vault.inventory.read'' [Lit ''control'', Lit ''vault''],
     owner ''POST'' ''vault.secret.store'' [Lit ''control'', Lit ''vault'', Lit ''secrets''],
     owner ''POST'' ''vault.import-existing'' [Lit ''control'', Lit ''vault'', Lit ''import-existing''],
     ownerFresh ''POST'' ''vault.secret.reveal'' [Lit ''control'', Lit ''vault'', Lit ''secrets'', Param ''vaultItemId'', Lit ''reveal''],
     owner ''POST'' ''vault.secret.delete'' [Lit ''control'', Lit ''vault'', Lit ''secrets'', Param ''vaultItemId'', Lit ''delete''],
     viewer ''workers-jobs.read'' [Lit ''control'', Lit ''workers-jobs''],
     admin ''workers-jobs.worker.create'' [Lit ''control'', Lit ''workers-jobs'', Lit ''workers''],
     admin ''workers-jobs.queue.create'' [Lit ''control'', Lit ''workers-jobs'', Lit ''queues''],
     admin ''workers-jobs.job.create'' [Lit ''control'', Lit ''workers-jobs'', Lit ''jobs''],
     admin ''workers-jobs.job.retry'' [Lit ''control'', Lit ''workers-jobs'', Lit ''jobs'', Param ''jobId'', Lit ''retry''],
     admin ''workers-jobs.schedule.create'' [Lit ''control'', Lit ''workers-jobs'', Lit ''schedules''],
     admin ''workers-jobs.schedule.status'' [Lit ''control'', Lit ''workers-jobs'', Lit ''schedules'', Param ''scheduleId'', Lit ''status''],
     viewer ''identity.read'' [Lit ''control'', Lit ''identity''],
     admin ''identity.admin-user.plan'' [Lit ''control'', Lit ''identity'', Lit ''admin-users''],
     admin ''identity.team.plan'' [Lit ''control'', Lit ''identity'', Lit ''teams''],
     admin ''identity.role.plan'' [Lit ''control'', Lit ''identity'', Lit ''roles''],
     admin ''identity.session-policy.plan'' [Lit ''control'', Lit ''identity'', Lit ''sessions''],
     admin ''identity.access-review.plan'' [Lit ''control'', Lit ''identity'', Lit ''access-reviews''],
     viewer ''runtime-updates.catalog'' [Lit ''control'', Lit ''runtime-updates''],
     viewer ''server-events.read'' [Lit ''control'', Lit ''server-events''],
     admin ''runtime-updates.check'' [Lit ''control'', Lit ''runtime-updates'', Lit ''check''],
     viewer ''runtime-updates.host.catalog'' [Lit ''control'', Lit ''runtime-updates'', Lit ''system''],
     admin ''runtime-updates.host.check'' [Lit ''control'', Lit ''runtime-updates'', Lit ''system'', Lit ''check''],
     ownerFresh ''POST'' ''runtime-updates.host.plan'' [Lit ''control'', Lit ''runtime-updates'', Lit ''system'', Lit ''plan''],
     ownerFresh ''POST'' ''runtime-updates.host.apply'' [Lit ''control'', Lit ''runtime-updates'', Lit ''system'', Lit ''apply''],
     ownerFresh ''POST'' ''runtime-updates.host.reboot.plan'' [Lit ''control'', Lit ''runtime-updates'', Lit ''system'', Lit ''reboot'', Lit ''plan''],
     ownerFresh ''POST'' ''runtime-updates.host.reboot.apply'' [Lit ''control'', Lit ''runtime-updates'', Lit ''system'', Lit ''reboot'', Lit ''apply''],
     ownerFresh ''POST'' ''runtime-updates.plan'' [Lit ''control'', Lit ''runtime-updates'', Param ''componentId'', Lit ''plan''],
     ownerFresh ''POST'' ''runtime-updates.apply'' [Lit ''control'', Lit ''runtime-updates'', Param ''componentId'', Lit ''apply''],
     viewer ''runtime-updates.operation'' [Lit ''control'', Lit ''runtime-updates'', Lit ''operations'', Param ''operationId''],
     viewer ''resources.host.read'' [Lit ''control'', Lit ''resources'', Lit ''host''],
     viewer ''resources.summary.read'' [Lit ''control'', Lit ''resources'', Lit ''summary''],
     admin ''resources.limits.plan'' [Lit ''control'', Lit ''resources'', Lit ''limits''],
     viewer ''monitoring.read'' [Lit ''control'', Lit ''monitoring''],
     viewer ''security.summary.read'' [Lit ''control'', Lit ''security'', Lit ''summary''],
     admin ''security.policy.plan'' [Lit ''control'', Lit ''security'', Lit ''policy''],
     viewer ''logs.summary.read'' [Lit ''control'', Lit ''logs'', Lit ''summary''],
     viewer ''alerts.list'' [Lit ''control'', Lit ''alerts''],
     admin ''alerts.record'' [Lit ''control'', Lit ''alerts'', Lit ''record''],
     admin ''alerts.resolve'' [Lit ''control'', Lit ''alerts'', Param ''alertId'', Lit ''resolve''],
     admin ''notifications.channel.plan'' [Lit ''control'', Lit ''notifications'', Lit ''channel''],
     viewer ''provider-connections.list'' [Lit ''control'', Lit ''provider-connections''],
     admin ''provider-connections.update'' [Lit ''control'', Lit ''provider-connections'', Param ''providerId''],
     viewer ''settings.read'' [Lit ''control'', Lit ''settings''],
     viewer ''ui-package.read'' [Lit ''control'', Lit ''ui-package''],
     viewer ''readiness.read'' [Lit ''control'', Lit ''readiness''],
     admin ''settings.local.plan'' [Lit ''control'', Lit ''settings'', Lit ''local''],
     ownerFresh ''GET'' ''backup.summary.read'' [Lit ''control'', Lit ''backups'', Lit ''summary''],
     ownerFresh ''GET'' ''backup.records.read'' [Lit ''control'', Lit ''backups'', Lit ''records''],
     ownerFresh ''GET'' ''backup.jobs.read'' [Lit ''control'', Lit ''backups'', Lit ''jobs''],
     ownerFresh ''GET'' ''backup.files.list'' [Lit ''control'', Lit ''backups'', Lit ''files''],
     ownerFresh ''GET'' ''backup.file.preview'' [Lit ''control'', Lit ''backups'', Lit ''preview''],
     ownerFresh ''POST'' ''backup.run'' [Lit ''control'', Lit ''backups'', Lit ''run''],
     ownerFresh ''POST'' ''backup.file.delete'' [Lit ''control'', Lit ''backups'', Lit ''files'', Lit ''delete''],
     admin ''restore.plan'' [Lit ''control'', Lit ''restore'', Lit ''plan''],
     viewer ''deployments.list'' [Lit ''control'', Lit ''deployments''],
     viewer ''advanced.read'' [Lit ''control'', Lit ''advanced''],
     ownerFresh ''GET'' ''advanced.section.read'' [Lit ''control'', Lit ''advanced'', Param ''sectionId''],
     viewer ''adapters.list'' [Lit ''control'', Lit ''adapters''],
     viewer ''adapters.read'' [Lit ''control'', Lit ''adapters'', Param ''adapterId''],
     admin ''adapters.plan'' [Lit ''control'', Lit ''adapters'', Param ''adapterId'', Lit ''plan''],
     admin ''adapters.verify'' [Lit ''control'', Lit ''adapters'', Param ''adapterId'', Lit ''verify''],
     admin ''adapters.apply.reject'' [Lit ''control'', Lit ''adapters'', Param ''adapterId'', Lit ''apply''],
     viewer ''operations.list'' [Lit ''control'', Lit ''operations''],
     viewer ''operations.read'' [Lit ''control'', Lit ''operations'', Param ''operationId''],
     viewer ''audit.read'' [Lit ''control'', Lit ''audit'']]"

definition LEGACY_SENSITIVE_ROUTES :: "route_def list" where
  "LEGACY_SENSITIVE_ROUTES =
    [viewer ''ui.control-center'' [],
     viewer ''ui.control-center.index'' [Lit ''index.html''],
     owner ''POST'' ''legacy.vault'' [Lit ''actions'', Lit ''vault-command''],
     ownerFresh ''POST'' ''legacy.database'' [Lit ''actions'', Lit ''database-command''],
     ownerFresh ''POST'' ''legacy.database-delete'' [Lit ''actions'', Lit ''database-delete-command''],
     ownerFresh ''POST'' ''legacy.database-admin-login'' [Lit ''actions'', Lit ''database-admin-login''],
     ownerFresh ''GET'' ''legacy.phpmyadmin-login'' [Lit ''actions'', Lit ''phpmyadmin-login''],
     ownerFresh ''GET'' ''legacy.phppgadmin-login'' [Lit ''actions'', Lit ''phppgadmin-login''],
     ownerFresh ''GET'' ''legacy.project-file-view'' [Lit ''actions'', Lit ''project-file-view''],
     ownerFresh ''POST'' ''legacy.backup'' [Lit ''actions'', Lit ''backup-command''],
     ownerFresh ''POST'' ''legacy.backup-delete'' [Lit ''actions'', Lit ''backup-delete-command''],
     ownerFresh ''POST'' ''legacy.project-list-remove'' [Lit ''actions'', Lit ''project-remove-from-list''],
     admin ''legacy.redis-backup'' [Lit ''actions'', Lit ''redis-backup-command''],
     ownerFresh ''POST'' ''legacy.redis-restore'' [Lit ''actions'', Lit ''redis-restore-command''],
     ownerFresh ''POST'' ''legacy.redis-backup-delete'' [Lit ''actions'', Lit ''redis-backup-delete-command''],
     ownerFresh ''POST'' ''legacy.identity'' [Lit ''actions'', Lit ''identity-command''],
     ownerFresh ''POST'' ''legacy.settings'' [Lit ''actions'', Lit ''settings-command'']]"

definition INTERNAL_CONTROL_ROUTES :: "route_def list" where
  "INTERNAL_CONTROL_ROUTES =
    [ownerFresh ''GET'' ''database-admin.forward-authorize'' [Lit ''control'', Lit ''internal'', Lit ''database-admin-authorize''],
     ownerFresh ''HEAD'' ''database-admin.forward-authorize.head'' [Lit ''control'', Lit ''internal'', Lit ''database-admin-authorize'']]"

section \<open>Operations\<close>

record operation =
  op_method :: string
  op_operationId :: string
  op_capability :: capability
  op_canonicalPath :: string
  op_classified :: bool
  op_control :: bool
  op_parameters :: "(string \<times> string) list"

definition normalizeControlApiParts :: "string list \<Rightarrow> string list" where
  "normalizeControlApiParts parts =
     (if take 2 parts = [''control'', ''v1''] then ''control'' # drop 2 parts else parts)"

definition isControlApiPath :: "string \<Rightarrow> bool" where
  "isControlApiPath p \<longleftrightarrow> p = ''/control'' \<or> starts_with ''/control/'' p"

fun segment_text :: "segment \<Rightarrow> string" where
  "segment_text (Lit s) = s"
| "segment_text (Param n) = '':'' @ n"

definition listControlRouteDefinitions :: "(string \<times> string \<times> capability \<times> string) list" where
  "listControlRouteDefinitions =
     map (\<lambda>d. (rd_method d, rd_operationId d, rd_capability d,
               ''/'' @ join ''/'' (map segment_text (rd_segments d)))) CONTROL_ROUTES"

text \<open>One pass of \<open>replace(/%([0-9a-f]{2})/gi, ...)\<close>: every octet, left to right.\<close>

fun decodePercentOctetsOnce :: "string \<Rightarrow> string" where
  "decodePercentOctetsOnce (a # b # c # s) =
     (if a = CHR ''%'' \<and> is_hex_any b \<and> is_hex_any c
      then char_of (nat (16 * digit_val b + digit_val c)) # decodePercentOctetsOnce s
      else a # decodePercentOctetsOnce (b # c # s))"
| "decodePercentOctetsOnce s = s"

definition is_control_char :: "char \<Rightarrow> bool" where
  "is_control_char c \<longleftrightarrow> code c \<le> 31 \<or> code c = 127"

definition isUnambiguousControlPath :: "string \<Rightarrow> bool" where
  "isUnambiguousControlPath p \<longleftrightarrow>
     list_all (\<lambda>c. c \<noteq> CHR 0x5C \<and> c \<notin> {CHR ''%'', CHR ''?'', CHR ''#''} \<and> \<not> is_control_char c) p
     \<and> list_all (\<lambda>part. part \<noteq> ''.'' \<and> part \<noteq> ''..'') (split_on CHR ''/'' p)"

text \<open>\<open>replace(/\\/+/g, "/")\<close>.\<close>

fun collapse_slashes :: "string \<Rightarrow> string" where
  "collapse_slashes (a # b # s) =
     (if a = CHR ''/'' \<and> b = CHR ''/'' then collapse_slashes (b # s) else a # collapse_slashes (b # s))"
| "collapse_slashes s = s"

definition control_projection :: "string \<Rightarrow> string" where
  "control_projection p =
     to_lower (collapse_slashes (map (\<lambda>c. if c = CHR 0x5C then CHR ''/'' else c) p))"

definition looksLikeControlPath :: "string \<Rightarrow> bool" where
  "looksLikeControlPath p \<longleftrightarrow>
     (let q = control_projection p; rest = drop 8 q
      in starts_with ''/control'' q
         \<and> (rest = [] \<or> hd rest \<in> {CHR ''/'', CHR ''%'', CHR ''?'', CHR ''#''}
            \<or> code (hd rest) \<le> 32 \<or> code (hd rest) = 127))"

datatype disposition = Canonical | Confusable | Other

function projection_loop :: "string \<Rightarrow> disposition" where
  "projection_loop p =
     (if looksLikeControlPath p then Confusable
      else if CHR ''%'' \<notin> set p then Other
      else (let decoded = decodePercentOctetsOnce p
            in if decoded = p then Other
               else if length p \<le> length decoded then Confusable
               else projection_loop decoded))"
  by pat_completeness auto
termination
  by (relation "measure length") auto

declare projection_loop.simps [simp del]

definition controlPathDisposition :: "string \<Rightarrow> disposition" where
  "controlPathDisposition p =
     (if isControlApiPath p then (if isUnambiguousControlPath p then Canonical else Confusable)
      else projection_loop p)"

fun contains_double_slash :: "string \<Rightarrow> bool" where
  "contains_double_slash (a # b # s) = ((a = CHR ''/'' \<and> b = CHR ''/'') \<or> contains_double_slash (b # s))"
| "contains_double_slash s = False"

text \<open>\<open>None\<close> is \<open>ok: false\<close>.\<close>

definition parsePath :: "string \<Rightarrow> string list option" where
  "parsePath p =
     (if \<not> starts_with ''/'' p \<or> (1 < length p \<and> ends_with ''/'' p) \<or> contains_double_slash p then None
      else if p = ''/'' then Some [] else Some (split_on CHR ''/'' (tl p)))"

fun matchRoute :: "string list \<Rightarrow> segment list \<Rightarrow> (string \<times> string) list option" where
  "matchRoute [] [] = Some []"
| "matchRoute (a # as) (Param n # es) =
     (if a = [] then None else map_option (\<lambda>ps. (n, a) # ps) (matchRoute as es))"
| "matchRoute (a # as) (Lit s # es) = (if a = s then matchRoute as es else None)"
| "matchRoute _ _ = None"

definition isProtectedUiPath :: "string list \<Rightarrow> bool" where
  "isProtectedUiPath parts \<longleftrightarrow> parts = [] \<or> parts = [''index.html'']"

definition or_slash :: "string \<Rightarrow> string" where
  "or_slash p = (if p = [] then ''/'' else p)"

definition deniedOperation :: "string \<Rightarrow> string \<Rightarrow> bool \<Rightarrow> operation" where
  "deniedOperation m p ctl = \<lparr>op_method = m, op_operationId = ''control.denied'', op_capability = Deny,
     op_canonicalPath = or_slash p, op_classified = False, op_control = ctl, op_parameters = []\<rparr>"

definition defaultOperation :: "string \<Rightarrow> string \<Rightarrow> operation" where
  "defaultOperation m p =
     (let mutating = m \<notin> set READ_METHODS
      in \<lparr>op_method = m, op_operationId = (if mutating then ''default.mutation'' else ''default.read''),
          op_capability = (if mutating then Admin else Viewer), op_canonicalPath = or_slash p,
          op_classified = False, op_control = False, op_parameters = []\<rparr>)"

definition canonicalPath :: "string list \<Rightarrow> string" where
  "canonicalPath parts = (if parts = [] then ''/'' else ''/'' @ join ''/'' parts)"

text \<open>The loop over the definitions: the first one of the method whose segments match.\<close>

fun first_match :: "string \<Rightarrow> string list \<Rightarrow> route_def list \<Rightarrow> (route_def \<times> (string \<times> string) list) option" where
  "first_match verb parts [] = None"
| "first_match verb parts (d # ds) =
     (if rd_method d \<noteq> verb then first_match verb parts ds
      else (case matchRoute parts (rd_segments d) of
              Some ps \<Rightarrow> Some (d, ps)
            | None \<Rightarrow> first_match verb parts ds))"

definition is_control_parts :: "string list \<Rightarrow> bool" where
  "is_control_parts parts \<longleftrightarrow> take 1 parts = [''control'']"

definition route_table :: "string list \<Rightarrow> route_def list" where
  "route_table parts =
     (if is_control_parts parts
      then (if take 1 (drop 1 parts) = [''internal''] then INTERNAL_CONTROL_ROUTES else CONTROL_ROUTES)
      else LEGACY_SENSITIVE_ROUTES)"

definition request_verb :: "string \<Rightarrow> string" where
  "request_verb m = to_upper (if m = [] then ''GET'' else m)"

text \<open>The refusal on the raw path, before the normalised path is looked at.\<close>

definition refuses_raw :: "string \<Rightarrow> string \<Rightarrow> bool" where
  "refuses_raw p raw \<longleftrightarrow> controlPathDisposition raw = Confusable
     \<or> (raw \<noteq> p \<and> (controlPathDisposition raw = Canonical \<or> isControlApiPath p))"

definition resolve_path :: "string \<Rightarrow> string \<Rightarrow> operation" where
  "resolve_path verb p = (case parsePath p of
       None \<Rightarrow> (if isControlApiPath p then deniedOperation verb p True else defaultOperation verb p)
     | Some ps \<Rightarrow>
         (let parts = normalizeControlApiParts ps
          in case first_match verb parts (route_table parts) of
               Some (d, params) \<Rightarrow>
                 \<lparr>op_method = verb, op_operationId = rd_operationId d, op_capability = rd_capability d,
                  op_canonicalPath = canonicalPath parts, op_classified = True,
                  op_control = is_control_parts parts, op_parameters = params\<rparr>
             | None \<Rightarrow>
                 (if is_control_parts parts \<or> isProtectedUiPath parts
                  then deniedOperation verb (canonicalPath parts) (is_control_parts parts)
                  else defaultOperation verb (canonicalPath parts))))"

definition resolveAuthorizationCapability :: "string \<Rightarrow> string \<Rightarrow> string \<Rightarrow> operation" where
  "resolveAuthorizationCapability m p raw =
     (if refuses_raw p raw then deniedOperation (request_verb m) (if raw = [] then p else raw) True
      else resolve_path (request_verb m) p)"

section \<open>Decoding and the control prefix\<close>

lemma decode_length_le: "length (decodePercentOctetsOnce p) \<le> length p"
  by (induction p rule: decodePercentOctetsOnce.induct) auto

lemma decode_shorter_or_same:
  "decodePercentOctetsOnce p = p \<or> length (decodePercentOctetsOnce p) < length p"
proof (induction p rule: decodePercentOctetsOnce.induct)
  case (1 a b c s)
  show ?case
  proof (cases "a = CHR ''%'' \<and> is_hex_any b \<and> is_hex_any c")
    case True
    then show ?thesis using decode_length_le [of s] by auto
  next
    case False
    with 1 show ?thesis by auto
  qed
qed auto

lemma decode_no_percent: "CHR ''%'' \<notin> set p \<Longrightarrow> decodePercentOctetsOnce p = p"
  by (induction p rule: decodePercentOctetsOnce.induct) auto

lemma funpow_fixed: "f x = x \<Longrightarrow> (f ^^ n) x = x"
  by (induction n) auto

lemma projection_loop_iff:
  "projection_loop p = (if \<exists>n. looksLikeControlPath ((decodePercentOctetsOnce ^^ n) p) then Confusable else Other)"
proof (induction p rule: projection_loop.induct)
  case (1 p)
  let ?d = "decodePercentOctetsOnce"
  show ?case
  proof (cases "looksLikeControlPath p")
    case True
    then have "looksLikeControlPath ((?d ^^ 0) p)" by simp
    with True show ?thesis by (subst projection_loop.simps) (simp only: if_True, metis)
  next
    case False
    show ?thesis
    proof (cases "?d p = p")
      case True
      with False show ?thesis
        by (subst projection_loop.simps) (simp add: funpow_fixed Let_def)
    next
      case changed: False
      then have pct: "CHR ''%'' \<in> set p" using decode_no_percent by blast
      have short: "length (?d p) < length p" using changed decode_shorter_or_same by blast
      have "(\<exists>n. looksLikeControlPath ((?d ^^ n) p)) \<longleftrightarrow> (\<exists>n. looksLikeControlPath ((?d ^^ n) (?d p)))"
      proof
        assume "\<exists>n. looksLikeControlPath ((?d ^^ n) p)"
        then obtain n where n: "looksLikeControlPath ((?d ^^ n) p)" ..
        with False obtain k where "n = Suc k" by (cases n) auto
        with n show "\<exists>n. looksLikeControlPath ((?d ^^ n) (?d p))" by (auto simp: funpow_swap1)
      qed (metis comp_apply funpow_Suc_right)
      with False changed pct short 1 show ?thesis
        by (subst projection_loop.simps) (simp add: Let_def)
    qed
  qed
qed

text \<open>
  Percent-decoding detection is complete at every depth: a raw path that is not itself a
  control path is classified as confusable exactly when some number of decoding passes turns
  it into something that reads as the control prefix (backslashes, repeated slashes and
  letter case folded). The loop has no depth limit.
\<close>

theorem disposition_confusable_iff:
  assumes "\<not> isControlApiPath raw"
  shows "controlPathDisposition raw = Confusable
    \<longleftrightarrow> (\<exists>n. looksLikeControlPath ((decodePercentOctetsOnce ^^ n) raw))"
  using assms by (simp add: controlPathDisposition_def projection_loop_iff)

text \<open>Witness: a doubly encoded \<open>/%2563ontrol/x\<close> is found after two passes.\<close>

lemma disposition_confusable_iff_example:
  "\<not> isControlApiPath ''/%2563ontrol/x'' \<and> controlPathDisposition ''/%2563ontrol/x'' = Confusable"
proof -
  have raw: "\<not> isControlApiPath ''/%2563ontrol/x''" by code_simp
  have "looksLikeControlPath ((decodePercentOctetsOnce ^^ 2) ''/%2563ontrol/x'')" by code_simp
  then have "\<exists>n. looksLikeControlPath ((decodePercentOctetsOnce ^^ n) ''/%2563ontrol/x'')" by blast
  with raw disposition_confusable_iff [OF raw] show ?thesis by blast
qed



section \<open>Resolution\<close>

lemma first_match_Some:
  "first_match verb parts ds = Some (d, ps) \<Longrightarrow>
     d \<in> set ds \<and> rd_method d = verb \<and> matchRoute parts (rd_segments d) = Some ps"
  by (induction ds) (auto split: if_splits option.splits)

lemma first_match_None:
  "first_match verb parts ds = None \<longleftrightarrow>
     (\<forall>d \<in> set ds. rd_method d = verb \<longrightarrow> matchRoute parts (rd_segments d) = None)"
  by (induction ds) (auto split: option.splits)

lemma parsePath_control:
  assumes "isControlApiPath p" and "parsePath p = Some ps"
  shows "is_control_parts (normalizeControlApiParts ps)"
proof -
  from assms(1) consider "p = ''/control''" | t where "p = ''/control/'' @ t"
    by (auto simp: isControlApiPath_def str_simps)
  then have "take 1 ps = [''control'']"
  proof cases
    case 1
    then have "ps = [''control'']" using assms(2)
      by (simp add: parsePath_def starts_with_def ends_with_def split: if_splits)
    then show ?thesis by simp
  next
    case 2
    have "split_on CHR ''/'' (''control'' @ CHR ''/'' # t) = ''control'' # split_on CHR ''/'' t"
      by (rule split_on_cons_sep) simp
    with 2 show ?thesis using assms(2) by (auto simp: parsePath_def split: if_splits)
  qed
  then show ?thesis by (cases ps) (auto simp: is_control_parts_def normalizeControlApiParts_def)
qed

lemma deniedOperation_sel [simp]:
  "op_capability (deniedOperation m p c) = Deny" "op_classified (deniedOperation m p c) = False"
  "op_method (deniedOperation m p c) = m" "op_control (deniedOperation m p c) = c"
  "op_operationId (deniedOperation m p c) = ''control.denied''"
  "op_canonicalPath (deniedOperation m p c) = or_slash p"
  by (simp_all add: deniedOperation_def)

lemma defaultOperation_sel [simp]:
  "op_capability (defaultOperation m p) = (if m \<in> set READ_METHODS then Viewer else Admin)"
  "op_classified (defaultOperation m p) = False" "op_method (defaultOperation m p) = m"
  "op_control (defaultOperation m p) = False"
  "op_canonicalPath (defaultOperation m p) = or_slash p"
  by (simp_all add: defaultOperation_def Let_def)

text \<open>
  The resolver's four outcomes: refused before parsing, refused or default for an unparsable
  path, a catalog entry, refused or default for an uncatalogued path.
\<close>

lemma resolve_cases:
  obtains (refused) q where "resolveAuthorizationCapability m p raw = deniedOperation (request_verb m) q True"
  | (plain) q where "resolveAuthorizationCapability m p raw = defaultOperation (request_verb m) q"
      and "\<not> isControlApiPath p"
  | (entry) ps d params where "parsePath p = Some ps"
      and "first_match (request_verb m) (normalizeControlApiParts ps)
             (route_table (normalizeControlApiParts ps)) = Some (d, params)"
      and "resolveAuthorizationCapability m p raw =
         \<lparr>op_method = request_verb m, op_operationId = rd_operationId d, op_capability = rd_capability d,
          op_canonicalPath = canonicalPath (normalizeControlApiParts ps), op_classified = True,
          op_control = is_control_parts (normalizeControlApiParts ps), op_parameters = params\<rparr>"
  | (unlisted) ps c where "parsePath p = Some ps"
      and "resolveAuthorizationCapability m p raw =
         deniedOperation (request_verb m) (canonicalPath (normalizeControlApiParts ps)) c"
proof (cases "refuses_raw p raw")
  case True
  then show ?thesis using refused by (simp add: resolveAuthorizationCapability_def)
next
  case False
  then have r: "resolveAuthorizationCapability m p raw = resolve_path (request_verb m) p"
    by (simp add: resolveAuthorizationCapability_def)
  show ?thesis
  proof (cases "parsePath p")
    case None
    with r refused plain show ?thesis by (cases "isControlApiPath p") (simp_all add: resolve_path_def Let_def)
  next
    case (Some ps)
    let ?parts = "normalizeControlApiParts ps"
    show ?thesis
    proof (cases "first_match (request_verb m) ?parts (route_table ?parts)")
      case None
      with r Some unlisted [OF Some] plain parsePath_control [OF _ Some] show ?thesis
        by (cases "is_control_parts ?parts \<or> isProtectedUiPath ?parts") (auto simp: resolve_path_def Let_def)
    next
      case found: (Some dp)
      obtain d params where "dp = (d, params)" by (cases dp)
      with r Some found show ?thesis by (intro entry [OF Some]) (simp_all add: resolve_path_def Let_def)
    qed
  qed
qed

lemma resolve_method [simp]: "op_method (resolveAuthorizationCapability m p raw) = request_verb m"
  by (cases rule: resolve_cases [of m p raw]) simp_all

text \<open>
  C2. Default deny on the control plane: a path under the control prefix resolves either to
  the denied operation or to an entry of the control catalogs with that entry's method,
  operation id and capability. There is no default operation for it.
\<close>

theorem control_path_catalogued_or_denied:
  assumes "isControlApiPath p"
  shows "op_capability (resolveAuthorizationCapability m p raw) = Deny
    \<or> (op_classified (resolveAuthorizationCapability m p raw)
       \<and> op_control (resolveAuthorizationCapability m p raw)
       \<and> (\<exists>d \<in> set CONTROL_ROUTES \<union> set INTERNAL_CONTROL_ROUTES.
            rd_method d = request_verb m
            \<and> op_operationId (resolveAuthorizationCapability m p raw) = rd_operationId d
            \<and> op_capability (resolveAuthorizationCapability m p raw) = rd_capability d))"
proof (cases rule: resolve_cases [of m p raw])
  case (entry ps d params)
  let ?parts = "normalizeControlApiParts ps"
  have ctl: "is_control_parts ?parts" using assms entry(1) by (rule parsePath_control)
  then have "set (route_table ?parts) \<subseteq> set CONTROL_ROUTES \<union> set INTERNAL_CONTROL_ROUTES"
    by (auto simp: route_table_def)
  with first_match_Some [OF entry(2)] ctl show ?thesis unfolding entry(3) by auto
qed (use assms in auto)

theorem control_path_catalogued_or_denied_witness:
  "isControlApiPath ''/control/vault''
   \<and> op_capability (resolveAuthorizationCapability ''GET'' ''/control/vault'' ''/control/vault'') = Owner
   \<and> op_capability (resolveAuthorizationCapability ''GET'' ''/control/nothing'' ''/control/nothing'') = Deny"
proof -
  have p: "isControlApiPath ''/control/vault''" by code_simp
  have c: "op_capability (resolveAuthorizationCapability ''GET'' ''/control/vault'' ''/control/vault'') = Owner"
    by code_simp
  have "op_capability (resolveAuthorizationCapability ''GET'' ''/control/nothing'' ''/control/nothing'') = Deny"
    by code_simp
  with p c control_path_catalogued_or_denied [OF p, of "''GET''" "''/control/vault''"]
  show ?thesis by simp
qed

text \<open>
  A confusable spelling of the control prefix is refused whatever the normalised path is:
  if the raw path is not a canonical control path but reads as the control prefix after some
  number of decoding passes, or if raw and normalised path differ while either is a control
  path, the operation is the denied one.
\<close>

theorem confusable_raw_path_denied:
  assumes "(\<not> isControlApiPath raw \<and> (\<exists>n. looksLikeControlPath ((decodePercentOctetsOnce ^^ n) raw)))
    \<or> (isControlApiPath raw \<and> \<not> isUnambiguousControlPath raw)
    \<or> (raw \<noteq> p \<and> (isControlApiPath raw \<or> isControlApiPath p))"
  shows "op_capability (resolveAuthorizationCapability m p raw) = Deny"
proof -
  have "refuses_raw p raw"
    using assms by (auto simp: refuses_raw_def controlPathDisposition_def projection_loop_iff)
  then show ?thesis by (simp add: resolveAuthorizationCapability_def)
qed

lemma confusable_raw_path_denied_example:
  "op_capability (resolveAuthorizationCapability ''POST'' ''/public'' ''/public/..%5C/../%43ontrol'') = Admin
   \<and> op_capability (resolveAuthorizationCapability ''POST'' ''/x'' ''/%5c%2FCONTROL%3Fa'') = Deny"
proof -
  have "\<not> isControlApiPath ''/%5c%2FCONTROL%3Fa''" by code_simp
  moreover have "looksLikeControlPath ((decodePercentOctetsOnce ^^ 1) ''/%5c%2FCONTROL%3Fa'')" by code_simp
  ultimately have "op_capability (resolveAuthorizationCapability ''POST'' ''/x'' ''/%5c%2FCONTROL%3Fa'') = Deny"
    by (intro confusable_raw_path_denied) blast
  moreover have "op_capability (resolveAuthorizationCapability ''POST'' ''/public'' ''/public/..%5C/../%43ontrol'') = Admin"
    by code_simp
  ultimately show ?thesis by blast
qed

section \<open>Catalog invariants\<close>

abbreviation all_routes :: "route_def list" where
  "all_routes \<equiv> CONTROL_ROUTES @ LEGACY_SENSITIVE_ROUTES @ INTERNAL_CONTROL_ROUTES"

text \<open>Two templates that some path matches both.\<close>

fun segments_overlap :: "segment list \<Rightarrow> segment list \<Rightarrow> bool" where
  "segments_overlap [] [] = True"
| "segments_overlap (Lit a # as) (Lit b # bs) = (a = b \<and> segments_overlap as bs)"
| "segments_overlap (a # as) (b # bs) = segments_overlap as bs"
| "segments_overlap _ _ = False"

lemma matchRoute_overlap:
  "matchRoute parts s1 = Some p1 \<Longrightarrow> matchRoute parts s2 = Some p2 \<Longrightarrow> segments_overlap s1 s2"
proof (induction parts s1 arbitrary: s2 p1 p2 rule: matchRoute.induct)
  case (1 s2)
  then show ?case by (cases s2) auto
next
  case (2 a as n es s2)
  then obtain e es2 where "s2 = e # es2" by (cases s2) auto
  with 2 show ?case by (cases e) (auto split: if_splits)
next
  case (3 a as s es s2)
  then obtain e es2 where "s2 = e # es2" by (cases s2) auto
  with 3 show ?case by (cases e) (auto split: if_splits)
qed auto

text \<open>
  The catalog is checked pairwise. Each check recurses over the list with frozen arguments
  (the congruence rules \<open>frozen\<close>), so the simplifier never walks through the rest of the
  catalog, and compares two strings only up to their first difference.
\<close>

fun differ :: "string \<Rightarrow> string \<Rightarrow> bool" where
  "differ [] [] = False"
| "differ (a # as) (b # bs) = (if a = b then differ as bs else True)"
| "differ _ _ = True"

definition same_capability_on_overlap :: "route_def \<Rightarrow> route_def \<Rightarrow> bool" where
  "same_capability_on_overlap d e \<longleftrightarrow> rd_capability d = rd_capability e
     \<or> rd_method d \<noteq> rd_method e \<or> \<not> segments_overlap (rd_segments d) (rd_segments e)"

definition different_ids :: "route_def \<Rightarrow> route_def \<Rightarrow> bool" where
  "different_ids d e \<longleftrightarrow> differ (rd_operationId d) (rd_operationId e)"

definition viewer_reads :: "route_def \<Rightarrow> bool" where
  "viewer_reads d \<longleftrightarrow> (rd_capability d = Viewer \<longrightarrow> rd_method d = ''GET'')"

primrec against_all :: "('a \<Rightarrow> 'a \<Rightarrow> bool) \<Rightarrow> 'a \<Rightarrow> 'a list \<Rightarrow> bool" where
  "against_all ok d [] = True"
| "against_all ok d (e # ds) = (ok d e \<and> against_all ok d ds)"

primrec pairwise_ok :: "('a \<Rightarrow> 'a \<Rightarrow> bool) \<Rightarrow> 'a list \<Rightarrow> bool" where
  "pairwise_ok ok [] = True"
| "pairwise_ok ok (d # ds) = (against_all ok d ds \<and> pairwise_ok ok ds)"

lemma frozen:
  "against_all ok d ds = against_all ok d ds" "pairwise_ok ok ds = pairwise_ok ok ds"
  "list_all P ds = list_all P ds" "differ a b = differ a b" "segments_overlap s t = segments_overlap s t"
  "same_capability_on_overlap d e = same_capability_on_overlap d e" "different_ids d e = different_ids d e"
  "viewer_reads d = viewer_reads d"
  by (rule refl)+

lemma differ_iff: "differ a b \<longleftrightarrow> a \<noteq> b"
  by (induction a b rule: differ.induct) auto

lemma against_all_iff: "against_all ok d ds \<longleftrightarrow> (\<forall>e \<in> set ds. ok d e)"
  by (induction ds) auto

lemma pairwise_ok_D:
  assumes "pairwise_ok ok ds" and "\<And>d. ok d d" and "\<And>d e. ok d e \<Longrightarrow> ok e d"
  shows "d \<in> set ds \<Longrightarrow> e \<in> set ds \<Longrightarrow> ok d e"
  using assms(1) by (induction ds) (auto simp: against_all_iff assms(2) dest: assms(3))

lemma pairwise_ok_distinct:
  "pairwise_ok ok ds \<Longrightarrow> (\<And>d e. ok d e \<Longrightarrow> f d \<noteq> f e) \<Longrightarrow> distinct (map f ds)"
  by (induction ds) (auto simp: against_all_iff image_iff)

lemma overlap_Lit:
  "segments_overlap (Lit a # as) (Lit b # bs) = (if differ a b then False else segments_overlap as bs)"
  by (simp add: differ_iff)

lemmas route_kinds = viewer_def admin_def owner_def ownerFresh_def route_def

lemma same_capability_eval:
  "same_capability_on_overlap (viewer i s) (viewer j t) = True"
  "same_capability_on_overlap (admin i s) (admin j t) = True"
  "same_capability_on_overlap (viewer i s) (admin j t) = True"
  "same_capability_on_overlap (admin i s) (viewer j t) = True"
  "same_capability_on_overlap (owner m i s) (owner n j t) = True"
  "same_capability_on_overlap (ownerFresh m i s) (ownerFresh n j t) = True"
  "same_capability_on_overlap (viewer i s) (owner n j t) = (if differ n ''GET'' then True else \<not> segments_overlap s t)"
  "same_capability_on_overlap (owner m i s) (viewer j t) = (if differ m ''GET'' then True else \<not> segments_overlap s t)"
  "same_capability_on_overlap (viewer i s) (ownerFresh n j t) = (if differ n ''GET'' then True else \<not> segments_overlap s t)"
  "same_capability_on_overlap (ownerFresh m i s) (viewer j t) = (if differ m ''GET'' then True else \<not> segments_overlap s t)"
  "same_capability_on_overlap (admin i s) (owner n j t) = (if differ n ''POST'' then True else \<not> segments_overlap s t)"
  "same_capability_on_overlap (owner m i s) (admin j t) = (if differ m ''POST'' then True else \<not> segments_overlap s t)"
  "same_capability_on_overlap (admin i s) (ownerFresh n j t) = (if differ n ''POST'' then True else \<not> segments_overlap s t)"
  "same_capability_on_overlap (ownerFresh m i s) (admin j t) = (if differ m ''POST'' then True else \<not> segments_overlap s t)"
  "same_capability_on_overlap (owner m i s) (ownerFresh n j t) = (if differ m n then True else \<not> segments_overlap s t)"
  "same_capability_on_overlap (ownerFresh m i s) (owner n j t) = (if differ m n then True else \<not> segments_overlap s t)"
  by (auto simp: same_capability_on_overlap_def route_kinds differ_iff)

lemma different_ids_eval:
  "different_ids (viewer i s) (viewer j t) = differ i j" "different_ids (viewer i s) (admin j t) = differ i j"
  "different_ids (viewer i s) (owner n j t) = differ i j" "different_ids (viewer i s) (ownerFresh n j t) = differ i j"
  "different_ids (admin i s) (viewer j t) = differ i j" "different_ids (admin i s) (admin j t) = differ i j"
  "different_ids (admin i s) (owner n j t) = differ i j" "different_ids (admin i s) (ownerFresh n j t) = differ i j"
  "different_ids (owner m i s) (viewer j t) = differ i j" "different_ids (owner m i s) (admin j t) = differ i j"
  "different_ids (owner m i s) (owner n j t) = differ i j" "different_ids (owner m i s) (ownerFresh n j t) = differ i j"
  "different_ids (ownerFresh m i s) (viewer j t) = differ i j" "different_ids (ownerFresh m i s) (admin j t) = differ i j"
  "different_ids (ownerFresh m i s) (owner n j t) = differ i j" "different_ids (ownerFresh m i s) (ownerFresh n j t) = differ i j"
  by (simp_all add: different_ids_def route_kinds)

lemma viewer_reads_eval:
  "viewer_reads (viewer i s)" "viewer_reads (admin i s)" "viewer_reads (owner m i s)" "viewer_reads (ownerFresh m i s)"
  by (simp_all add: viewer_reads_def route_kinds)

lemma control_routes_pairwise: "pairwise_ok same_capability_on_overlap CONTROL_ROUTES"
  unfolding CONTROL_ROUTES_def
  by (simp add: same_capability_eval overlap_Lit del: segments_overlap.simps(2) cong: frozen)

lemma operation_ids_pairwise: "pairwise_ok different_ids all_routes"
  unfolding CONTROL_ROUTES_def LEGACY_SENSITIVE_ROUTES_def INTERNAL_CONTROL_ROUTES_def append.simps
  by (simp add: different_ids_eval cong: frozen)

lemma viewer_routes_read: "list_all viewer_reads all_routes"
  unfolding CONTROL_ROUTES_def LEGACY_SENSITIVE_ROUTES_def INTERNAL_CONTROL_ROUTES_def append.simps
  by (simp add: viewer_reads_eval cong: frozen)

text \<open>
  Catalog order does not decide authorization: two control routes of one method that
  match the same path parts require the same capability.
\<close>

theorem overlapping_routes_same_capability:
  assumes "d \<in> set CONTROL_ROUTES" and "e \<in> set CONTROL_ROUTES" and "rd_method d = rd_method e"
    and "matchRoute parts (rd_segments d) = Some ps" and "matchRoute parts (rd_segments e) = Some qs"
  shows "rd_capability d = rd_capability e"
proof -
  have sym: "segments_overlap s t \<Longrightarrow> segments_overlap t s" for s t
    by (induction s t rule: segments_overlap.induct) auto
  have "same_capability_on_overlap d e"
    using assms(1,2)
    by (rule pairwise_ok_D [OF control_routes_pairwise, rotated 2])
      (auto simp: same_capability_on_overlap_def dest: sym)
  moreover have "segments_overlap (rd_segments d) (rd_segments e)"
    using assms(4,5) by (rule matchRoute_overlap)
  ultimately show ?thesis using assms(3) by (auto simp: same_capability_on_overlap_def)
qed

lemma overlapping_routes_same_capability_example:
  "rd_capability (ownerFresh ''POST'' ''runtime-updates.host.plan''
       [Lit ''control'', Lit ''runtime-updates'', Lit ''system'', Lit ''plan''])
   = rd_capability (ownerFresh ''POST'' ''runtime-updates.plan''
       [Lit ''control'', Lit ''runtime-updates'', Param ''componentId'', Lit ''plan''])"
  (is "rd_capability ?d = rd_capability ?e")
proof (rule overlapping_routes_same_capability)
  show "?d \<in> set CONTROL_ROUTES" "?e \<in> set CONTROL_ROUTES" unfolding CONTROL_ROUTES_def by simp_all
  show "rd_method ?d = rd_method ?e" by (simp add: route_kinds)
  show "matchRoute [''control'', ''runtime-updates'', ''system'', ''plan''] (rd_segments ?d) = Some []"
    "matchRoute [''control'', ''runtime-updates'', ''system'', ''plan''] (rd_segments ?e) = Some [(''componentId'', ''system'')]"
    by (simp_all add: route_kinds)
qed

text \<open>
  Operation identifiers are unique over the three catalogs, so an operation id names one
  route and therefore one capability.
\<close>

theorem operation_ids_unique: "distinct (map rd_operationId all_routes)"
  using operation_ids_pairwise by (rule pairwise_ok_distinct) (simp add: different_ids_def differ_iff)

text \<open>
  The viewer capability never reaches a mutation: whatever the path, an operation that
  resolves to the viewer capability has a read method.
\<close>

theorem viewer_operations_are_reads:
  assumes "op_capability (resolveAuthorizationCapability m p raw) = Viewer"
  shows "op_method (resolveAuthorizationCapability m p raw) \<in> set READ_METHODS"
proof (cases rule: resolve_cases [of m p raw])
  case (plain q)
  with assms show ?thesis by (simp split: if_splits)
next
  case (entry ps d params)
  note fm = first_match_Some [OF entry(2)]
  then have "d \<in> set all_routes" by (auto simp: route_table_def split: if_splits)
  then have "viewer_reads d" using viewer_routes_read by (simp only: list_all_iff)
  with assms entry fm show ?thesis by (simp add: viewer_reads_def READ_METHODS_def)
qed (use assms in auto)

lemma viewer_operations_are_reads_example:
  "op_capability (resolveAuthorizationCapability ''get'' ''/control/status'' ''/control/status'') = Viewer
   \<and> op_method (resolveAuthorizationCapability ''get'' ''/control/status'' ''/control/status'') \<in> set READ_METHODS"
proof -
  have "op_capability (resolveAuthorizationCapability ''get'' ''/control/status'' ''/control/status'') = Viewer"
    by code_simp
  then show ?thesis using viewer_operations_are_reads by blast
qed

text \<open>Facts for the consumers of an operation.\<close>

lemma canonicalPath_slash: "starts_with ''/'' (canonicalPath parts)"
  by (auto simp: canonicalPath_def starts_with_def)

lemma classified_operation_route:
  assumes "op_classified (resolveAuthorizationCapability m p raw)"
  obtains d where "d \<in> set all_routes" "rd_method d = request_verb m"
    "rd_operationId d = op_operationId (resolveAuthorizationCapability m p raw)"
    "rd_capability d = op_capability (resolveAuthorizationCapability m p raw)"
    "starts_with ''/'' (op_canonicalPath (resolveAuthorizationCapability m p raw))"
proof (cases rule: resolve_cases [of m p raw])
  case (entry ps d params)
  note fm = first_match_Some [OF entry(2)]
  then have "d \<in> set all_routes" by (auto simp: route_table_def split: if_splits)
  with fm entry(3) show ?thesis by (intro that [of d]) (auto simp: canonicalPath_slash)
qed (use assms in auto)

end
