(* ===== verification/BackupContracts.thy ===== *)
theory BackupContracts
  imports JsValue "HOL-Library.Multiset"
begin

text \<open>
  The durable backup documents, \<open>control-center/backup/core-contracts.mjs\<close>: resources, jobs,
  manifests and their canonical form. Input is untrusted JSON, so every validator takes a
  \<open>jsv\<close> and returns the normalised record or throws. \<open>resource_js\<close> and \<open>job_js\<close> are the
  records written back as JSON objects, with the property order of the source.

  The lemmas show what an accepted document guarantees (distinct resource ids, resources
  owned by the job's scope, restore sources without path traversal), that parsing the
  document a parse produced gives it back, what manifest coverage means, and that the signed
  canonical form ignores property order and the signature itself.
\<close>

section \<open>Text fields\<close>

definition BACKUP_JOB_SCHEMA :: string where
  "BACKUP_JOB_SCHEMA = ''platform.backup-job/v1''"

definition BACKUP_MANIFEST_SCHEMA :: string where
  "BACKUP_MANIFEST_SCHEMA = ''platform.backup-manifest/v1''"

definition resourceKinds :: "string list" where
  "resourceKinds = [''source'', ''database'', ''storage'', ''platform-state'']"

definition databaseEngines :: "string list" where
  "databaseEngines = [''postgres'', ''mariadb'']"

definition operations :: "string list" where
  "operations = [''backup'', ''restore-drill'', ''restore-production'', ''backup-control'']"

definition invalid :: "string \<Rightarrow> js_error" where
  "invalid label = PlainError (''Invalid '' @ label @ ''.'')"

definition requiredText :: "jsv \<Rightarrow> string \<Rightarrow> (string \<Rightarrow> bool) \<Rightarrow> nat \<Rightarrow> string res" where
  "requiredText v label pat maxLength =
     (let clean = js_trim (js_String (js_coalesce v (JStr [])))
      in if clean = [] \<or> maxLength < length clean \<or> \<not> pat clean then Inl (invalid label) else Inr clean)"

definition ident_char :: "char \<Rightarrow> bool" where
  "ident_char c \<longleftrightarrow> is_lower_alnum c \<or> c \<in> {CHR ''.'', CHR ''_'', CHR '':'', CHR ''-''}"

definition identifier_pattern :: "string \<Rightarrow> bool" where
  "identifier_pattern = enclosed is_lower_alnum ident_char 158"

definition identifier_text :: "jsv \<Rightarrow> string \<Rightarrow> string res" where
  "identifier_text v label = requiredText v label identifier_pattern 160"

definition slug_char :: "char \<Rightarrow> bool" where
  "slug_char c \<longleftrightarrow> is_lower_alnum c \<or> c = CHR ''-''"

definition projectIdentifier :: "jsv \<Rightarrow> string res" where
  "projectIdentifier v = requiredText v ''projectId'' (enclosed is_lower_alnum slug_char 78) 80"

definition name_char :: "char \<Rightarrow> bool" where
  "name_char c \<longleftrightarrow> is_alnum c \<or> c \<in> {CHR ''.'', CHR ''_'', CHR ''-''}"

definition resourceName :: "jsv \<Rightarrow> string res" where
  "resourceName v = requiredText v ''resource name'' (enclosed is_alnum name_char 126) 128"

text \<open>\<open>^[a-z-]+$\<close>, \<open>^[a-z]+$\<close> and the other plain classes, with the length left to \<open>requiredText\<close>.\<close>

definition dashed_word :: "string \<Rightarrow> bool" where
  "dashed_word s \<longleftrightarrow> s \<noteq> [] \<and> list_all (\<lambda>c. is_lower c \<or> c = CHR ''-'') s"

definition principal_char :: "char \<Rightarrow> bool" where
  "principal_char c \<longleftrightarrow> is_alnum c \<or> c \<in> {CHR ''@'', CHR ''.'', CHR ''_'', CHR '':'', CHR ''+'', CHR ''/'', CHR ''-''}"

definition principal_pattern :: "string \<Rightarrow> bool" where
  "principal_pattern s \<longleftrightarrow> s \<noteq> [] \<and> list_all principal_char s"

definition relative_path_ok :: "string \<Rightarrow> bool" where
  "relative_path_ok p \<longleftrightarrow> p \<noteq> [] \<and> length p \<le> 512 \<and> CHR 0x00 \<notin> set p
     \<and> list_all (\<lambda>part. part \<noteq> [] \<and> part \<noteq> ''.'' \<and> part \<noteq> ''..'') (split_on CHR ''/'' p)"

definition relativeBackupPath :: "jsv \<Rightarrow> string \<Rightarrow> string res" where
  "relativeBackupPath v label =
     (let clean = dropWhile (\<lambda>c. c = CHR ''/'')
                    (map (\<lambda>c. if c = CHR 0x5C then CHR ''/'' else c)
                       (js_trim (js_String (js_coalesce v (JStr [])))))
      in if relative_path_ok clean then Inr clean else Inl (invalid label))"

section \<open>Resources\<close>

record resource =
  r_id :: string
  r_externalId :: string
  r_kind :: string
  r_projectId :: string
  r_name :: string
  r_engine :: "string option"
  r_sourceDirectory :: "string option"

definition requireKind :: "jsv \<Rightarrow> string res" where
  "requireKind v = bindR (requiredText v ''resource kind'' dashed_word 32) (\<lambda>kind.
     bindR (requireR (kind \<in> set resourceKinds) (PlainError ''Unsupported backup resource kind.'')) (\<lambda>_.
     Inr kind))"

definition backupResourceId :: "jsv \<Rightarrow> jsv \<Rightarrow> string res" where
  "backupResourceId kind i = bindR (requireKind kind) (\<lambda>k.
     bindR (identifier_text i ''resource identity'') (\<lambda>x. Inr (k @ '':'' @ x)))"

text \<open>\<open>source.externalId ?? source.id?.split(":").slice(1).join(":")\<close>; \<open>split\<close> exists on strings only.\<close>

definition external_identity :: "jsv \<Rightarrow> jsv res" where
  "external_identity source =
     (if \<not> nullish (getp source ''externalId'') then Inr (getp source ''externalId'')
      else (case getp source ''id'' of
              JUndef \<Rightarrow> Inr JUndef | JNull \<Rightarrow> Inr JUndef
            | JStr s \<Rightarrow> Inr (JStr (join '':'' (drop 1 (split_on CHR '':'' s))))
            | _ \<Rightarrow> Inl (PlainError ''TypeError'')))"

definition resource_project :: "string \<Rightarrow> jsv \<Rightarrow> string res" where
  "resource_project kind source =
     (if kind = ''platform-state'' then Inr ''platform'' else projectIdentifier (getp source ''projectId''))"

definition resource_engine :: "string \<Rightarrow> jsv \<Rightarrow> string option res" where
  "resource_engine kind source =
     (if kind = ''database''
      then bindR (requiredText (getp source ''engine'') ''database engine''
                    (\<lambda>s. s \<noteq> [] \<and> list_all is_lower s) 16) (\<lambda>engine.
           bindR (requireR (engine \<in> set databaseEngines)
                    (PlainError ''Unsupported database engine.'')) (\<lambda>_. Inr (Some engine)))
      else Inr None)"

definition resource_directory :: "string \<Rightarrow> jsv \<Rightarrow> string option res" where
  "resource_directory kind source =
     (if kind = ''source''
      then bindR (resourceName (js_coalesce (getp source ''sourceDirectory'') (getp source ''name'')))
             (\<lambda>d. Inr (Some d))
      else Inr None)"

definition normalizeBackupResource :: "jsv \<Rightarrow> resource res" where
  "normalizeBackupResource input =
     (let source = as_object input in
      bindR (requireKind (getp source ''kind'')) (\<lambda>kind.
      bindR (external_identity source) (\<lambda>ext.
      bindR (identifier_text ext ''resource identity'') (\<lambda>externalId.
      bindR (resource_project kind source) (\<lambda>projectId.
      bindR (backupResourceId (JStr kind) (JStr externalId)) (\<lambda>i.
      bindR (requireR (\<not> js_truthy (getp source ''id'') \<or> getp source ''id'' = JStr i)
               (PlainError ''Backup resource ID does not match its kind and external identity.'')) (\<lambda>_.
      bindR (resourceName (getp source ''name'')) (\<lambda>name.
      bindR (resource_engine kind source) (\<lambda>engine.
      bindR (resource_directory kind source) (\<lambda>dir.
      Inr \<lparr>r_id = i, r_externalId = externalId, r_kind = kind, r_projectId = projectId, r_name = name,
            r_engine = engine, r_sourceDirectory = dir\<rparr>))))))))))"

definition optional_prop :: "string \<Rightarrow> string option \<Rightarrow> (string \<times> jsv) list" where
  "optional_prop k v = (case v of None \<Rightarrow> [] | Some s \<Rightarrow> [(k, JStr s)])"

definition resource_js :: "resource \<Rightarrow> jsv" where
  "resource_js r = JObj ([(''id'', JStr (r_id r)), (''externalId'', JStr (r_externalId r)),
     (''kind'', JStr (r_kind r)), (''projectId'', JStr (r_projectId r)), (''name'', JStr (r_name r))]
     @ optional_prop ''engine'' (r_engine r) @ optional_prop ''sourceDirectory'' (r_sourceDirectory r))"

fun check_distinct :: "string list \<Rightarrow> resource list \<Rightarrow> unit res" where
  "check_distinct seen [] = Inr ()"
| "check_distinct seen (r # rs) =
     (if r_id r \<in> set seen then Inl (PlainError (''Duplicate backup resource ID: '' @ r_id r))
      else check_distinct (r_id r # seen) rs)"

definition normalizeBackupResources :: "jsv \<Rightarrow> resource list res" where
  "normalizeBackupResources v = (case v of
       JArr xs \<Rightarrow>
         if xs = [] \<or> 256 < length xs
         then Inl (PlainError ''Backup resources must be a non-empty bounded array.'')
         else bindR (mapR normalizeBackupResource xs) (\<lambda>rs.
              bindR (check_distinct [] rs) (\<lambda>_. Inr rs))
     | _ \<Rightarrow> Inl (PlainError ''Backup resources must be a non-empty bounded array.''))"

section \<open>Jobs\<close>

record scope =
  sc_kind :: string
  sc_id :: string

definition normalizeScope :: "jsv \<Rightarrow> scope res" where
  "normalizeScope v =
     (let source = as_object v in
      bindR (requiredText (getp source ''kind'') ''scope kind'' (\<lambda>s. s \<in> {''application'', ''platform''}) 16) (\<lambda>kind.
      bindR (if kind = ''application'' then projectIdentifier (getp source ''id'') else Inr ''platform'') (\<lambda>i.
      Inr \<lparr>sc_kind = kind, sc_id = i\<rparr>)))"

definition scope_js :: "scope \<Rightarrow> jsv" where
  "scope_js s = JObj [(''kind'', JStr (sc_kind s)), (''id'', JStr (sc_id s))]"

record job =
  j_id :: string
  j_operation :: string
  j_scope :: scope
  j_resources :: "resource list"
  j_requestedBy :: string
  j_environment :: string
  j_status :: string
  j_createdAt :: string
  j_updatedAt :: string
  j_startedAt :: "string option"
  j_finishedAt :: "string option"
  j_resultSummary :: string
  j_reportPaths :: "string list"
  j_control :: "(bool \<times> string) option"
  j_sourceManifestPath :: "string option"
  j_restoreDigests :: "(string \<times> string) option"
  j_manifestPath :: "string option"

definition digest_text :: "jsv \<Rightarrow> string \<Rightarrow> string res" where
  "digest_text v label = requiredText v label (\<lambda>s. hex64 s) 64"

definition backup_control_part :: "jsv \<Rightarrow> string \<Rightarrow> scope \<Rightarrow> resource list \<Rightarrow> (bool \<times> string) option res" where
  "backup_control_part src oper sc rs =
     (if oper \<noteq> ''backup-control'' then Inr None
      else bindR (requireR (sc_kind sc = ''platform'' \<and> list_all (\<lambda>r. r_kind r = ''platform-state'') rs)
                    (PlainError ''Backup control is restricted to enrolled platform state.'')) (\<lambda>_.
           case getp src ''backupEnabled'' of
             JBool b \<Rightarrow> bindR (digest_text (js_default (getp src ''expectedControlRevision'') (JStr []))
                                  ''backup control revision'') (\<lambda>revision. Inr (Some (b, revision)))
           | _ \<Rightarrow> Inl (PlainError ''Backup control requires an exact boolean state.'')))"

definition source_manifest_part :: "jsv \<Rightarrow> string \<Rightarrow> string option res" where
  "source_manifest_part src oper =
     (if oper \<notin> {''restore-drill'', ''restore-production''} then Inr None
      else bindR (relativeBackupPath (js_default (getp src ''sourceManifestPath'') (JStr []))
                    ''source manifest path'') (\<lambda>p.
           bindR (requireR (starts_with ''manifests/'' p)
                    (PlainError ''Restore source manifest must be under manifests/.'')) (\<lambda>_. Inr (Some p))))"

definition restore_digest_part :: "jsv \<Rightarrow> string \<Rightarrow> scope \<Rightarrow> resource list \<Rightarrow> (string \<times> string) option res" where
  "restore_digest_part src oper sc rs =
     (if oper \<noteq> ''restore-production'' then Inr None
      else bindR (requireR (sc_kind sc = ''platform'' \<and> list_all (\<lambda>r. r_kind r = ''platform-state'') rs)
             (PlainError ''Production recovery is restricted to enrolled platform state or exact admitted native application resources.'')) (\<lambda>_.
           bindR (digest_text (js_default (getp src ''sourceManifestDigest'') (JStr []))
                    ''restore manifest digest'') (\<lambda>d1.
           bindR (digest_text (js_default (getp src ''restoreProfileDigest'') (JStr []))
                    ''restore profile digest'') (\<lambda>d2. Inr (Some (d1, d2))))))"

definition createBackupJobDocument :: "runtime \<Rightarrow> int \<Rightarrow> jsv \<Rightarrow> job res" where
  "createBackupJobDocument R now src =
     bindR (requiredText (getp src ''operation'') ''backup operation'' dashed_word 32) (\<lambda>oper.
     bindR (requireR (oper \<in> set operations) (PlainError ''Unsupported backup operation.'')) (\<lambda>_.
     bindR (normalizeBackupResources (getp src ''resources'')) (\<lambda>rs.
     bindR (normalizeScope (getp src ''scope'')) (\<lambda>sc.
     bindR (requireR (sc_kind sc = ''application'' \<longrightarrow> list_all (\<lambda>r. r_projectId r = sc_id sc) rs)
              (PlainError ''Application job contains a resource owned by another project.'')) (\<lambda>_.
     bindR (identifier_text (getp src ''id'') ''job id'') (\<lambda>i.
     bindR (requiredText (js_or (getp src ''requestedBy'') (JStr ''control-center'')) ''requester''
              principal_pattern 200) (\<lambda>by.
     bindR (requiredText (js_or (getp src ''environment'') (JStr ''local'')) ''environment''
              (\<lambda>s. s \<noteq> [] \<and> list_all slug_char s) 32) (\<lambda>environment.
     bindR (date_iso R (js_default (getp src ''createdAt'') (JStr (to_iso now)))) (\<lambda>created.
     bindR (backup_control_part src oper sc rs) (\<lambda>control.
     bindR (source_manifest_part src oper) (\<lambda>manifest.
     bindR (restore_digest_part src oper sc rs) (\<lambda>digests.
     Inr \<lparr>j_id = i, j_operation = oper, j_scope = sc, j_resources = rs, j_requestedBy = by,
           j_environment = environment, j_status = ''queued'', j_createdAt = created, j_updatedAt = created,
           j_startedAt = None, j_finishedAt = None, j_resultSummary = ''Queued for typed backup executor.'',
           j_reportPaths = [], j_control = control, j_sourceManifestPath = manifest,
           j_restoreDigests = digests, j_manifestPath = None\<rparr>))))))))))))"

definition optional_date :: "runtime \<Rightarrow> jsv \<Rightarrow> string option res" where
  "optional_date R v = (if js_truthy v then bindR (date_iso R v) (\<lambda>s. Inr (Some s)) else Inr None)"

definition parse_report_paths :: "jsv \<Rightarrow> string list res" where
  "parse_report_paths v = (case v of
       JArr xs \<Rightarrow> bindR (mapR (\<lambda>x. relativeBackupPath x ''report path'') xs) (\<lambda>ps. Inr (take 32 ps))
     | _ \<Rightarrow> Inr [])"

definition parse_status :: "jsv \<Rightarrow> string res" where
  "parse_status v = (case v of
       JStr s \<Rightarrow> if s \<in> {''queued'', ''running'', ''done'', ''failed''} then Inr s
                else Inl (PlainError ''Invalid backup job status.'')
     | _ \<Rightarrow> Inl (PlainError ''Invalid backup job status.''))"

definition parse_manifest_path :: "jsv \<Rightarrow> string option res" where
  "parse_manifest_path v =
     (if js_truthy v then bindR (relativeBackupPath v ''manifest path'') (\<lambda>p. Inr (Some p)) else Inr None)"

definition parseBackupJobDocument :: "runtime \<Rightarrow> int \<Rightarrow> jsv \<Rightarrow> job res" where
  "parseBackupJobDocument R now input =
     (let source = as_object input in
      bindR (requireR (getp source ''schema'' = JStr BACKUP_JOB_SCHEMA)
               (PlainError ''Unsupported backup job schema.'')) (\<lambda>_.
      bindR (createBackupJobDocument R now source) (\<lambda>document.
      bindR (parse_status (getp source ''status'')) (\<lambda>status.
      bindR (date_iso R (js_or (getp source ''updatedAt'') (getp source ''createdAt''))) (\<lambda>updated.
      bindR (optional_date R (getp source ''startedAt'')) (\<lambda>started.
      bindR (optional_date R (getp source ''finishedAt'')) (\<lambda>finished.
      bindR (parse_report_paths (getp source ''reportPaths'')) (\<lambda>reports.
      bindR (parse_manifest_path (getp source ''manifestPath'')) (\<lambda>manifest.
      Inr (document\<lparr>j_status := status, j_updatedAt := updated, j_startedAt := started,
             j_finishedAt := finished,
             j_resultSummary := take 500 (js_String (js_or (getp source ''resultSummary'')
                                                       (JStr (j_resultSummary document)))),
             j_reportPaths := reports, j_manifestPath := manifest\<rparr>))))))))))"

definition null_or_str :: "string option \<Rightarrow> jsv" where
  "null_or_str v = (case v of None \<Rightarrow> JNull | Some s \<Rightarrow> JStr s)"

definition job_js :: "job \<Rightarrow> jsv" where
  "job_js j = JObj ([(''schema'', JStr BACKUP_JOB_SCHEMA), (''id'', JStr (j_id j)),
     (''operation'', JStr (j_operation j)), (''scope'', scope_js (j_scope j)),
     (''resources'', JArr (map resource_js (j_resources j))), (''requestedBy'', JStr (j_requestedBy j)),
     (''environment'', JStr (j_environment j)), (''status'', JStr (j_status j)),
     (''createdAt'', JStr (j_createdAt j)), (''updatedAt'', JStr (j_updatedAt j)),
     (''startedAt'', null_or_str (j_startedAt j)), (''finishedAt'', null_or_str (j_finishedAt j)),
     (''resultSummary'', JStr (j_resultSummary j)), (''reportPaths'', JArr (map JStr (j_reportPaths j)))]
     @ (case j_control j of None \<Rightarrow> [] | Some (b, revision) \<Rightarrow>
          [(''backupEnabled'', JBool b), (''expectedControlRevision'', JStr revision)])
     @ optional_prop ''sourceManifestPath'' (j_sourceManifestPath j)
     @ (case j_restoreDigests j of None \<Rightarrow> [] | Some (d1, d2) \<Rightarrow>
          [(''sourceManifestDigest'', JStr d1), (''restoreProfileDigest'', JStr d2)])
     @ optional_prop ''manifestPath'' (j_manifestPath j))"

section \<open>Manifests\<close>

record artifact =
  a_id :: string
  a_resourceId :: string
  a_path :: string
  a_sha256 :: string
  a_sizeBytes :: int
  a_signatureKeyId :: string

definition normalizeArtifact :: "string list \<Rightarrow> jsv \<Rightarrow> artifact res" where
  "normalizeArtifact resourceIds input =
     (let source = as_object input in
      bindR (identifier_text (getp source ''resourceId'') ''artifact resource ID'') (\<lambda>rid.
      bindR (requireR (rid \<in> set resourceIds)
               (PlainError (''Artifact references undeclared resource: '' @ rid))) (\<lambda>_.
      bindR (digest_text (getp source ''sha256'') ''artifact sha256'') (\<lambda>sha.
      bindR (case safe_int (js_Number (getp source ''sizeBytes'')) of
               Some n \<Rightarrow> if 1 \<le> n then Inr n else Inl (PlainError ''Invalid artifact size.'')
             | None \<Rightarrow> Inl (PlainError ''Invalid artifact size.'')) (\<lambda>size.
      bindR (identifier_text (getp source ''id'') ''artifact id'') (\<lambda>i.
      bindR (relativeBackupPath (getp source ''path'') ''artifact path'') (\<lambda>p.
      bindR (identifier_text (getp source ''signatureKeyId'') ''artifact signature key ID'') (\<lambda>k.
      Inr \<lparr>a_id = i, a_resourceId = rid, a_path = p, a_sha256 = sha, a_sizeBytes = size,
            a_signatureKeyId = k\<rparr>))))))))"

record signature =
  s_algorithm :: string
  s_keyId :: string
  s_digest :: string
  s_value :: string

record manifest =
  m_id :: string
  m_jobId :: string
  m_scope :: scope
  m_resources :: "resource list"
  m_artifacts :: "artifact list"
  m_requiredResourceIds :: "string list"
  m_artifactResourceIds :: "string list"
  m_missingResourceIds :: "string list"
  m_complete :: bool
  m_createdAt :: string
  m_signature :: "signature option"

definition createBackupManifestDocument ::
    "runtime \<Rightarrow> int \<Rightarrow> jsv \<Rightarrow> jsv \<Rightarrow> jsv \<Rightarrow> jsv \<Rightarrow> manifest res" where
  "createBackupManifestDocument R now i jobDoc artifacts createdAt =
     bindR (parseBackupJobDocument R now jobDoc) (\<lambda>job.
     bindR (requireR (j_operation job = ''backup'')
              (PlainError ''Only backup jobs can produce backup manifests.'')) (\<lambda>_.
     let ids = map r_id (j_resources job) in
     bindR (case artifacts of JArr xs \<Rightarrow> mapR (normalizeArtifact ids) xs | _ \<Rightarrow> Inr []) (\<lambda>arts.
     let covered = remdups (map a_resourceId arts);
         missing = filter (\<lambda>x. x \<notin> set covered) ids
     in bindR (requireR (length arts = length covered)
                 (PlainError ''Every resource must map to exactly one artifact.'')) (\<lambda>_.
        bindR (identifier_text i ''manifest id'') (\<lambda>mid.
        bindR (date_iso R (js_default createdAt (JStr (to_iso now)))) (\<lambda>created.
        Inr \<lparr>m_id = mid, m_jobId = j_id job, m_scope = j_scope job, m_resources = j_resources job,
              m_artifacts = arts, m_requiredResourceIds = sort ids, m_artifactResourceIds = sort covered,
              m_missingResourceIds = missing, m_complete = (missing = []), m_createdAt = created,
              m_signature = None\<rparr>))))))"

definition parse_signature :: "jsv \<Rightarrow> signature option res" where
  "parse_signature v = (case v of
       JObj _ \<Rightarrow>
         bindR (requiredText (getp v ''algorithm'') ''manifest signature algorithm'' (\<lambda>s. s = ''HMAC-SHA256'') 32) (\<lambda>alg.
         bindR (identifier_text (getp v ''keyId'') ''manifest signature key ID'') (\<lambda>k.
         bindR (digest_text (getp v ''digest'') ''manifest digest'') (\<lambda>d.
         bindR (requiredText (getp v ''value'') ''manifest signature''
                  (\<lambda>s. s \<noteq> [] \<and> list_all (\<lambda>c. is_alnum c \<or> c \<in> {CHR ''_'', CHR ''-''}) s) 256) (\<lambda>x.
         Inr (Some \<lparr>s_algorithm = alg, s_keyId = k, s_digest = d, s_value = x\<rparr>)))))
     | JArr _ \<Rightarrow> Inl (invalid ''manifest signature algorithm'')
     | _ \<Rightarrow> Inr None)"

definition manifest_job_source :: "jsv \<Rightarrow> jsv" where
  "manifest_job_source source = JObj [(''id'', getp source ''jobId''), (''operation'', JStr ''backup''),
     (''scope'', getp source ''scope''), (''resources'', getp source ''resources''),
     (''requestedBy'', JStr ''manifest-import''), (''environment'', JStr ''evidence''),
     (''createdAt'', getp source ''createdAt'')]"

definition parseBackupManifestDocument :: "runtime \<Rightarrow> int \<Rightarrow> bool \<Rightarrow> jsv \<Rightarrow> manifest res" where
  "parseBackupManifestDocument R now requireComplete input =
     (let source = as_object input in
      bindR (requireR (getp source ''schema'' = JStr BACKUP_MANIFEST_SCHEMA)
               (PlainError ''Unsupported backup manifest schema.'')) (\<lambda>_.
      bindR (createBackupJobDocument R now (manifest_job_source source)) (\<lambda>job.
      bindR (createBackupManifestDocument R now (getp source ''id'') (job_js job)
               (getp source ''artifacts'') (getp source ''createdAt'')) (\<lambda>m.
      bindR (requireR (requireComplete \<longrightarrow> m_complete m)
               (PlainError ''Backup manifest coverage is incomplete.'')) (\<lambda>_.
      bindR (parse_signature (getp source ''signature'')) (\<lambda>s.
      Inr (m\<lparr>m_signature := s\<rparr>)))))))"

definition manifestResourcesForProject :: "runtime \<Rightarrow> int \<Rightarrow> jsv \<Rightarrow> jsv \<Rightarrow> resource list res" where
  "manifestResourcesForProject R now input projectId =
     bindR (parseBackupManifestDocument R now True input) (\<lambda>m.
     bindR (projectIdentifier projectId) (\<lambda>p.
     Inr (filter (\<lambda>r. r_projectId r = p) (m_resources m))))"

definition manifestArtifactForResource :: "runtime \<Rightarrow> int \<Rightarrow> jsv \<Rightarrow> jsv \<Rightarrow> artifact option res" where
  "manifestArtifactForResource R now input rid =
     bindR (parseBackupManifestDocument R now True input) (\<lambda>m.
     bindR (identifier_text rid ''resource ID'') (\<lambda>x.
     Inr (find (\<lambda>a. a_resourceId a = x) (m_artifacts m))))"

section \<open>The canonical form\<close>

text \<open>
  \<open>Object.fromEntries\<close> gives an object whose array-index keys come first, in numeric order,
  then the others in insertion order.
\<close>

definition is_index_key :: "string \<Rightarrow> bool" where
  "is_index_key k \<longleftrightarrow> k \<noteq> [] \<and> list_all is_digit k \<and> (k = ''0'' \<or> hd k \<noteq> CHR ''0'')
     \<and> digits_val 10 k \<le> 4294967294"

definition own_order :: "(string \<times> 'v) list \<Rightarrow> (string \<times> 'v) list" where
  "own_order ps = sort_key (\<lambda>p. digits_val 10 (fst p)) (filter (\<lambda>p. is_index_key (fst p)) ps)
     @ filter (\<lambda>p. \<not> is_index_key (fst p)) ps"

fun canonicalValue :: "jsv \<Rightarrow> jsv" where
  "canonicalValue (JArr xs) = JArr (map canonicalValue xs)"
| "canonicalValue (JObj ps) = JObj (own_order (sort_key fst
     (filter (\<lambda>p. fst p \<noteq> ''signature'') (map (\<lambda>(k, v). (k, canonicalValue v)) ps))))"
| "canonicalValue v = v"

definition canonicalBackupDocument :: "jsv \<Rightarrow> string" where
  "canonicalBackupDocument d = json_stringify (canonicalValue d)"

definition backupDocumentDigest :: "runtime \<Rightarrow> jsv \<Rightarrow> string" where
  "backupDocumentDigest R d = rt_sha256 R (canonicalBackupDocument d)"

section \<open>What the validators guarantee\<close>

lemma requiredText_Inr:
  "requiredText v label pat n = Inr s \<Longrightarrow> s \<noteq> [] \<and> length s \<le> n \<and> pat s \<and> js_trim s = s"
  by (auto simp: requiredText_def Let_def split: if_splits)

lemma requiredText_str:
  "s \<noteq> [] \<Longrightarrow> length s \<le> n \<Longrightarrow> pat s \<Longrightarrow> js_trim s = s \<Longrightarrow> requiredText (JStr s) label pat n = Inr s"
  by (simp add: requiredText_def js_coalesce_def)

lemma requiredText_again: "requiredText v label pat n = Inr s \<Longrightarrow> requiredText (JStr s) label' pat n = Inr s"
  by (drule requiredText_Inr) (simp add: requiredText_str)

lemmas text_defs = identifier_text_def projectIdentifier_def resourceName_def digest_text_def

lemma text_again:
  "identifier_text v l = Inr s \<Longrightarrow> identifier_text (JStr s) l' = Inr s"
  "projectIdentifier v = Inr s \<Longrightarrow> projectIdentifier (JStr s) = Inr s"
  "resourceName v = Inr s \<Longrightarrow> resourceName (JStr s) = Inr s"
  "digest_text v l = Inr s \<Longrightarrow> digest_text (JStr s) l' = Inr s"
  unfolding text_defs by (erule requiredText_again)+

lemma identifier_text_Inr: "identifier_text v l = Inr s \<Longrightarrow> identifier_pattern s"
  unfolding text_defs by (drule requiredText_Inr) blast

lemma requireKind_again: "requireKind v = Inr k \<Longrightarrow> requireKind (JStr k) = Inr k \<and> k \<in> set resourceKinds"
  unfolding requireKind_def by (auto simp: res_simps dest: requiredText_again)

lemma backupResourceId_Inr:
  "backupResourceId (JStr k) (JStr x) = Inr i \<Longrightarrow> requireKind (JStr k) = Inr k
     \<Longrightarrow> identifier_text (JStr x) ''resource identity'' = Inr x \<Longrightarrow> i = k @ '':'' @ x"
  by (simp add: backupResourceId_def)

text \<open>What a normalised resource satisfies, field by field.\<close>

definition resource_wf :: "resource \<Rightarrow> bool" where
  "resource_wf r \<longleftrightarrow> requireKind (JStr (r_kind r)) = Inr (r_kind r) \<and> r_kind r \<in> set resourceKinds
     \<and> identifier_text (JStr (r_externalId r)) ''resource identity'' = Inr (r_externalId r)
     \<and> r_id r = r_kind r @ '':'' @ r_externalId r
     \<and> (if r_kind r = ''platform-state'' then r_projectId r = ''platform''
        else projectIdentifier (JStr (r_projectId r)) = Inr (r_projectId r))
     \<and> resourceName (JStr (r_name r)) = Inr (r_name r)
     \<and> (if r_kind r = ''database'' then (\<exists>e \<in> set databaseEngines. r_engine r = Some e) else r_engine r = None)
     \<and> (if r_kind r = ''source'' then (\<exists>d. r_sourceDirectory r = Some d \<and> resourceName (JStr d) = Inr d)
        else r_sourceDirectory r = None)"

lemma resource_parts:
  "resource_project kind s = Inr p \<Longrightarrow>
     if kind = ''platform-state'' then p = ''platform'' else projectIdentifier (JStr p) = Inr p"
  "resource_engine kind s = Inr e \<Longrightarrow>
     if kind = ''database'' then \<exists>x \<in> set databaseEngines. e = Some x else e = None"
  "resource_directory kind s = Inr d \<Longrightarrow>
     if kind = ''source'' then \<exists>x. d = Some x \<and> resourceName (JStr x) = Inr x else d = None"
  by (auto simp: resource_project_def resource_engine_def resource_directory_def res_simps
      intro: text_again split: if_splits)

lemma normalizeBackupResource_wf:
  assumes "normalizeBackupResource x = Inr r"
  shows "resource_wf r"
proof -
  let ?s = "as_object x"
  from assms obtain kind ext externalId projectId i name engine dir where
    kind: "requireKind (getp ?s ''kind'') = Inr kind"
    and ext: "identifier_text ext ''resource identity'' = Inr externalId"
    and project: "resource_project kind ?s = Inr projectId"
    and i: "backupResourceId (JStr kind) (JStr externalId) = Inr i"
    and name: "resourceName (getp ?s ''name'') = Inr name"
    and engine: "resource_engine kind ?s = Inr engine"
    and dir: "resource_directory kind ?s = Inr dir"
    and r: "r = \<lparr>r_id = i, r_externalId = externalId, r_kind = kind, r_projectId = projectId, r_name = name,
            r_engine = engine, r_sourceDirectory = dir\<rparr>"
    by (auto simp only: normalizeBackupResource_def Let_def bindR_eq_Inr sum.inject)
  note kinds = requireKind_again [OF kind]
  note ids = text_again(1) [OF ext]
  have "i = kind @ '':'' @ externalId" using kinds ids i by (simp add: backupResourceId_def)
  with kinds ids text_again(3) [OF name] resource_parts(1) [OF project] resource_parts(2) [OF engine]
    resource_parts(3) [OF dir]
  show ?thesis by (simp add: r resource_wf_def)
qed

lemma engine_text: "e \<in> set databaseEngines \<Longrightarrow>
  requiredText (JStr e) ''database engine'' (\<lambda>s. s \<noteq> [] \<and> list_all is_lower s) 16 = Inr e"
proof -
  have "list_all (\<lambda>e. requiredText (JStr e) ''database engine'' (\<lambda>s. s \<noteq> [] \<and> list_all is_lower s) 16 = Inr e)
          databaseEngines" by code_simp
  then show "e \<in> set databaseEngines \<Longrightarrow> ?thesis" by (simp add: list_all_iff)
qed

lemma getp_resource_js [simp]:
  "getp (resource_js r) ''id'' = JStr (r_id r)" "getp (resource_js r) ''externalId'' = JStr (r_externalId r)"
  "getp (resource_js r) ''kind'' = JStr (r_kind r)" "getp (resource_js r) ''projectId'' = JStr (r_projectId r)"
  "getp (resource_js r) ''name'' = JStr (r_name r)"
  "getp (resource_js r) ''engine'' = (case r_engine r of None \<Rightarrow> JUndef | Some s \<Rightarrow> JStr s)"
  "getp (resource_js r) ''sourceDirectory'' = (case r_sourceDirectory r of None \<Rightarrow> JUndef | Some s \<Rightarrow> JStr s)"
  by (auto simp: resource_js_def optional_prop_def split: option.splits)

lemma as_object_resource_js [simp]: "as_object (resource_js r) = resource_js r"
  by (simp add: resource_js_def)

lemma normalizeBackupResource_again:
  assumes "resource_wf r"
  shows "normalizeBackupResource (resource_js r) = Inr r"
proof -
  from assms have "external_identity (resource_js r) = Inr (JStr (r_externalId r))"
    by (simp add: external_identity_def)
  moreover from assms have "backupResourceId (JStr (r_kind r)) (JStr (r_externalId r)) = Inr (r_id r)"
    by (simp add: resource_wf_def backupResourceId_def)
  moreover from assms have "resource_project (r_kind r) (resource_js r) = Inr (r_projectId r)"
    by (simp add: resource_wf_def resource_project_def split: if_splits)
  moreover from assms have "resource_engine (r_kind r) (resource_js r) = Inr (r_engine r)"
    by (auto simp: resource_wf_def resource_engine_def engine_text split: if_splits)
  moreover from assms have "resource_directory (r_kind r) (resource_js r) = Inr (r_sourceDirectory r)"
    by (auto simp: resource_wf_def resource_directory_def js_coalesce_def split: if_splits)
  ultimately show ?thesis using assms by (simp add: normalizeBackupResource_def resource_wf_def)
qed

lemma check_distinct_Inr:
  "check_distinct seen rs = Inr u \<longleftrightarrow> distinct (map r_id rs) \<and> set (map r_id rs) \<inter> set seen = {}"
  by (induction rs arbitrary: seen) auto

lemma normalizeBackupResources_Inr:
  assumes "normalizeBackupResources v = Inr rs"
  shows "rs \<noteq> []" "length rs \<le> 256" "distinct (map r_id rs)" "\<forall>r \<in> set rs. resource_wf r"
proof -
  from assms obtain xs where xs: "v = JArr xs" "xs \<noteq> []" "length xs \<le> 256"
    "mapR normalizeBackupResource xs = Inr rs" "distinct (map r_id rs)"
    by (auto simp: normalizeBackupResources_def res_simps check_distinct_Inr split: jsv.splits if_splits)
  then show "rs \<noteq> []" "length rs \<le> 256" using mapR_Inr_length [OF xs(4)] by auto
  show "distinct (map r_id rs)" by (rule xs(5))
  show "\<forall>r \<in> set rs. resource_wf r"
    using mapR_Inr_mem [OF xs(4)] normalizeBackupResource_wf by blast
qed

lemma mapR_again: "\<forall>r \<in> set rs. f (g r) = Inr r \<Longrightarrow> mapR f (map g rs) = Inr rs"
  by (induction rs) auto

lemma normalizeBackupResources_again:
  assumes "normalizeBackupResources v = Inr rs"
  shows "normalizeBackupResources (JArr (map resource_js rs)) = Inr rs"
proof -
  note wf = normalizeBackupResources_Inr [OF assms]
  from wf(4) have "mapR normalizeBackupResource (map resource_js rs) = Inr rs"
    by (intro mapR_again) (simp add: normalizeBackupResource_again)
  moreover have "check_distinct [] rs = Inr ()" using wf(3) check_distinct_Inr [of "[]" rs "()"] by simp
  ultimately show ?thesis using wf(1,2) by (simp add: normalizeBackupResources_def)
qed

text \<open>
  An accepted resource list is non-empty, holds at most 256 resources with pairwise
  distinct ids, and every resource's id is its supported kind and its external identity, with
  an engine exactly for databases and a source directory exactly for sources.
\<close>

theorem accepted_resources_wellformed:
  assumes "normalizeBackupResources v = Inr rs"
  shows "1 \<le> length rs \<and> length rs \<le> 256 \<and> distinct (map r_id rs)
    \<and> (\<forall>r \<in> set rs. r_kind r \<in> set resourceKinds \<and> r_id r = r_kind r @ '':'' @ r_externalId r
        \<and> identifier_pattern (r_externalId r)
        \<and> (r_kind r = ''platform-state'' \<longrightarrow> r_projectId r = ''platform'')
        \<and> (r_kind r = ''database'' \<longleftrightarrow> r_engine r \<noteq> None) \<and> (r_kind r = ''source'' \<longleftrightarrow> r_sourceDirectory r \<noteq> None))"
  using normalizeBackupResources_Inr [OF assms]
  by (auto simp: resource_wf_def Suc_le_eq dest: identifier_text_Inr split: if_splits)

lemma accepted_resources_wellformed_example:
  "\<exists>r. normalizeBackupResources (JArr [JObj [(''kind'', JStr ''database''), (''id'', JStr ''database:db-1''),
       (''projectId'', JStr ''shop''), (''name'', JStr ''Orders''), (''engine'', JStr ''postgres'')]]) = Inr [r]
     \<and> r_id r = ''database'' @ '':'' @ r_externalId r \<and> r_engine r \<noteq> None"
proof -
  let ?v = "JArr [JObj [(''kind'', JStr ''database''), (''id'', JStr ''database:db-1''),
       (''projectId'', JStr ''shop''), (''name'', JStr ''Orders''), (''engine'', JStr ''postgres'')]]"
  let ?r = "\<lparr>r_id = ''database:db-1'', r_externalId = ''db-1'', r_kind = ''database'', r_projectId = ''shop'',
     r_name = ''Orders'', r_engine = Some ''postgres'', r_sourceDirectory = None\<rparr>"
  have ok: "normalizeBackupResources ?v = Inr [?r]" by code_simp
  from accepted_resources_wellformed [OF ok] ok show ?thesis by auto
qed

section \<open>Paths stay inside their root\<close>

lemma relativeBackupPath_Inr: "relativeBackupPath v l = Inr p \<Longrightarrow> relative_path_ok p"
  by (auto simp: relativeBackupPath_def Let_def split: if_splits)

lemma relative_path_ok_hd: "relative_path_ok p \<Longrightarrow> hd p \<noteq> CHR ''/''"
  by (cases p) (auto simp: relative_path_ok_def)

lemma relativeBackupPath_str:
  assumes "relative_path_ok p" and "js_trim p = p" and "CHR 0x5C \<notin> set p"
  shows "relativeBackupPath (JStr p) l = Inr p"
proof -
  have "map (\<lambda>c. if c = CHR 0x5C then CHR ''/'' else c) p = p" using assms(3) by (intro map_idI) auto
  moreover have "dropWhile (\<lambda>c. c = CHR ''/'') p = p"
    using relative_path_ok_hd [OF assms(1)] assms(1) by (intro dropWhile_stop) (auto simp: relative_path_ok_def)
  ultimately show ?thesis using assms(1,2) by (simp add: relativeBackupPath_def js_coalesce_def)
qed

lemma relativeBackupPath_no_backslash: "relativeBackupPath v l = Inr p \<Longrightarrow> CHR 0x5C \<notin> set p"
  by (auto simp: relativeBackupPath_def Let_def dest!: set_dropWhileD split: if_splits)

text \<open>
  The normal form of a joined path: \<open>path.join\<close> drops empty and \<open>.\<close> segments and lets
  \<open>..\<close> remove the segment before it.
\<close>

fun normalize_segments :: "string list \<Rightarrow> string list \<Rightarrow> string list" where
  "normalize_segments acc [] = acc"
| "normalize_segments acc (s # ss) =
     (if s = [] \<or> s = ''.'' then normalize_segments acc ss
      else if s = ''..'' then normalize_segments (butlast acc) ss
      else normalize_segments (acc @ [s]) ss)"

lemma normalize_segments_plain:
  "\<forall>s \<in> set ss. s \<noteq> [] \<and> s \<noteq> ''.'' \<and> s \<noteq> ''..'' \<Longrightarrow> normalize_segments acc ss = acc @ ss"
  by (induction ss arbitrary: acc) auto

text \<open>
  C20. A path \<open>relativeBackupPath\<close> accepts never leaves the directory it is joined to: its
  normal form under any root is the root's segments followed by the path's own segments, and
  it carries no NUL byte and no backslash.
\<close>

theorem accepted_path_stays_inside:
  assumes "relativeBackupPath v label = Inr p"
  shows "normalize_segments root (split_on CHR ''/'' p) = root @ split_on CHR ''/'' p
    \<and> split_on CHR ''/'' p \<noteq> [] \<and> CHR 0x00 \<notin> set p \<and> CHR 0x5C \<notin> set p"
  using relativeBackupPath_Inr [OF assms] relativeBackupPath_no_backslash [OF assms]
  by (simp add: relative_path_ok_def list_all_iff normalize_segments_plain)

theorem accepted_path_stays_inside_witness:
  "normalize_segments [''srv'', ''backups''] (split_on CHR ''/'' ''manifests/m-1.json'')
     = [''srv'', ''backups'', ''manifests'', ''m-1.json'']
   \<and> relativeBackupPath (JStr ''/manifests/../../etc/passwd'') ''p'' = Inl (PlainError ''Invalid p.'')"
proof -
  have ok: "relativeBackupPath (JStr (CHR 0x5C # ''manifests/m-1.json '')) ''p'' = Inr ''manifests/m-1.json''" by code_simp
  have "relativeBackupPath (JStr ''/manifests/../../etc/passwd'') ''p'' = Inl (PlainError ''Invalid p.'')" by code_simp
  then show ?thesis using accepted_path_stays_inside [OF ok, of "[''srv'', ''backups'']"] by simp
qed

section \<open>Jobs: guarantees and the round trip\<close>

lemma normalizeScope_Inr:
  assumes "normalizeScope v = Inr sc"
  shows "sc_kind sc = ''application'' \<and> projectIdentifier (JStr (sc_id sc)) = Inr (sc_id sc)
    \<or> sc_kind sc = ''platform'' \<and> sc_id sc = ''platform''"
  using assms
  by (auto simp: normalizeScope_def Let_def res_simps intro: text_again dest!: requiredText_Inr split: if_splits)

lemma normalizeScope_again:
  assumes "normalizeScope v = Inr sc"
  shows "normalizeScope (scope_js sc) = Inr sc"
proof -
  have k: "requiredText (JStr ''application'') ''scope kind'' (\<lambda>s. s \<in> {''application'', ''platform''}) 16 = Inr ''application''"
    "requiredText (JStr ''platform'') ''scope kind'' (\<lambda>s. s \<in> {''application'', ''platform''}) 16 = Inr ''platform''"
    by code_simp+
  show ?thesis using normalizeScope_Inr [OF assms] k
    by (cases sc) (auto simp: normalizeScope_def scope_js_def)
qed

text \<open>The twelve steps of \<open>createBackupJobDocument\<close>, as facts about its result.\<close>

lemma createBackupJobDocument_Inr:
  assumes "createBackupJobDocument R now src = Inr d"
  obtains "requiredText (getp src ''operation'') ''backup operation'' dashed_word 32 = Inr (j_operation d)"
    "j_operation d \<in> set operations"
    "normalizeBackupResources (getp src ''resources'') = Inr (j_resources d)"
    "normalizeScope (getp src ''scope'') = Inr (j_scope d)"
    "sc_kind (j_scope d) = ''application'' \<longrightarrow> list_all (\<lambda>r. r_projectId r = sc_id (j_scope d)) (j_resources d)"
    "identifier_text (getp src ''id'') ''job id'' = Inr (j_id d)"
    "requiredText (js_or (getp src ''requestedBy'') (JStr ''control-center'')) ''requester'' principal_pattern 200 = Inr (j_requestedBy d)"
    "requiredText (js_or (getp src ''environment'') (JStr ''local'')) ''environment'' (\<lambda>s. s \<noteq> [] \<and> list_all slug_char s) 32 = Inr (j_environment d)"
    "date_iso R (js_default (getp src ''createdAt'') (JStr (to_iso now))) = Inr (j_createdAt d)"
    "backup_control_part src (j_operation d) (j_scope d) (j_resources d) = Inr (j_control d)"
    "source_manifest_part src (j_operation d) = Inr (j_sourceManifestPath d)"
    "restore_digest_part src (j_operation d) (j_scope d) (j_resources d) = Inr (j_restoreDigests d)"
    "j_status d = ''queued''" "j_updatedAt d = j_createdAt d" "j_startedAt d = None" "j_finishedAt d = None"
    "j_resultSummary d = ''Queued for typed backup executor.''" "j_reportPaths d = []" "j_manifestPath d = None"
  using assms unfolding createBackupJobDocument_def bindR_eq_Inr requireR_eq sum.inject
  by (elim exE conjE, hypsubst) (rule that; simp)

lemma source_manifest_path:
  "source_manifest_part src oper = Inr (Some p) \<Longrightarrow> relative_path_ok p \<and> starts_with ''manifests/'' p \<and> CHR 0x5C \<notin> set p"
  by (auto simp: source_manifest_part_def res_simps dest: relativeBackupPath_Inr relativeBackupPath_no_backslash
      split: if_splits)

text \<open>
  C21. What an accepted job document guarantees: a supported operation; an application job
  only carries resources of its own project; a job has a restore source exactly when it is a
  restore, and that source lies under \<open>manifests/\<close> without traversal; backup control and
  production restore act on platform state only and carry their exact digests.
\<close>

theorem accepted_job_guarantees:
  assumes "createBackupJobDocument R now src = Inr d"
  shows "j_operation d \<in> set operations \<and> distinct (map r_id (j_resources d))
    \<and> (sc_kind (j_scope d) = ''application'' \<longrightarrow> (\<forall>r \<in> set (j_resources d). r_projectId r = sc_id (j_scope d)))
    \<and> (j_sourceManifestPath d \<noteq> None \<longleftrightarrow> j_operation d \<in> {''restore-drill'', ''restore-production''})
    \<and> (\<forall>p. j_sourceManifestPath d = Some p \<longrightarrow> starts_with ''manifests/'' p
         \<and> normalize_segments [] (split_on CHR ''/'' p) = split_on CHR ''/'' p)
    \<and> (j_control d \<noteq> None \<longleftrightarrow> j_operation d = ''backup-control'')
    \<and> (j_restoreDigests d \<noteq> None \<longleftrightarrow> j_operation d = ''restore-production'')
    \<and> (j_operation d \<in> {''backup-control'', ''restore-production''} \<longrightarrow>
         sc_kind (j_scope d) = ''platform'' \<and> (\<forall>r \<in> set (j_resources d). r_kind r = ''platform-state''))"
  using assms
proof (rule createBackupJobDocument_Inr)
  assume c: "backup_control_part src (j_operation d) (j_scope d) (j_resources d) = Inr (j_control d)"
    and m: "source_manifest_part src (j_operation d) = Inr (j_sourceManifestPath d)"
    and g: "restore_digest_part src (j_operation d) (j_scope d) (j_resources d) = Inr (j_restoreDigests d)"
    and o: "j_operation d \<in> set operations"
    and rs: "normalizeBackupResources (getp src ''resources'') = Inr (j_resources d)"
    and own: "sc_kind (j_scope d) = ''application'' \<longrightarrow> list_all (\<lambda>r. r_projectId r = sc_id (j_scope d)) (j_resources d)"
  have "j_control d \<noteq> None \<longleftrightarrow> j_operation d = ''backup-control''"
    using c by (cases "j_control d") (auto simp: backup_control_part_def res_simps split: if_splits jsv.splits)
  moreover have "j_restoreDigests d \<noteq> None \<longleftrightarrow> j_operation d = ''restore-production''"
    using g by (cases "j_restoreDigests d") (auto simp: restore_digest_part_def res_simps split: if_splits)
  moreover have "j_sourceManifestPath d \<noteq> None \<longleftrightarrow> j_operation d \<in> {''restore-drill'', ''restore-production''}"
    using m by (cases "j_sourceManifestPath d") (auto simp: source_manifest_part_def res_simps split: if_splits)
  moreover have "j_operation d = ''backup-control'' \<Longrightarrow>
      sc_kind (j_scope d) = ''platform'' \<and> list_all (\<lambda>r. r_kind r = ''platform-state'') (j_resources d)"
    using c by (simp add: backup_control_part_def res_simps)
  moreover have "j_operation d = ''restore-production'' \<Longrightarrow>
      sc_kind (j_scope d) = ''platform'' \<and> list_all (\<lambda>r. r_kind r = ''platform-state'') (j_resources d)"
    using g by (simp add: restore_digest_part_def res_simps)
  moreover have "starts_with ''manifests/'' p \<and> normalize_segments [] (split_on CHR ''/'' p) = split_on CHR ''/'' p"
    if "j_sourceManifestPath d = Some p" for p
    using m that source_manifest_path [of src "j_operation d" p] normalize_segments_plain [of "split_on CHR ''/'' p" "[]"]
    by (auto simp: relative_path_ok_def list_all_iff)
  ultimately show ?thesis using o own normalizeBackupResources_Inr(3) [OF rs]
    by (auto simp: list_all_iff)
qed

text \<open>A production restore request, and the job it becomes.\<close>

definition sample_restore :: jsv where
  "sample_restore = JObj [(''id'', JStr ''job-1''), (''operation'', JStr ''restore-production''),
     (''scope'', JObj [(''kind'', JStr ''platform'')]),
     (''resources'', JArr [JObj [(''kind'', JStr ''platform-state''), (''externalId'', JStr ''control''), (''name'', JStr ''control'')]]),
     (''sourceManifestPath'', JStr ''manifests/m-1.json''),
     (''sourceManifestDigest'', JStr (replicate 64 CHR ''a'')),
     (''restoreProfileDigest'', JStr (replicate 64 CHR ''b''))]"

theorem accepted_job_guarantees_witness:
  "(case createBackupJobDocument sample_runtime 0 sample_restore of
      Inl _ \<Rightarrow> False
    | Inr d \<Rightarrow> j_operation d = ''restore-production'' \<and> sc_kind (j_scope d) = ''platform''
        \<and> j_sourceManifestPath d \<noteq> None \<and> j_restoreDigests d \<noteq> None \<and> j_control d = None)"
proof -
  have ok: "case createBackupJobDocument sample_runtime 0 sample_restore of
      Inl _ \<Rightarrow> False | Inr d \<Rightarrow> j_operation d = ''restore-production''" by code_simp
  then obtain d where d: "createBackupJobDocument sample_runtime 0 sample_restore = Inr d" by (auto split: sum.splits)
  show ?thesis using accepted_job_guarantees [OF d] ok d by (cases "j_control d") auto
qed

section \<open>Reading a job back\<close>

lemma getp_job_js [simp]:
  "getp (job_js j) ''schema'' = JStr BACKUP_JOB_SCHEMA" "getp (job_js j) ''id'' = JStr (j_id j)"
  "getp (job_js j) ''operation'' = JStr (j_operation j)" "getp (job_js j) ''scope'' = scope_js (j_scope j)"
  "getp (job_js j) ''resources'' = JArr (map resource_js (j_resources j))"
  "getp (job_js j) ''requestedBy'' = JStr (j_requestedBy j)" "getp (job_js j) ''environment'' = JStr (j_environment j)"
  "getp (job_js j) ''status'' = JStr (j_status j)" "getp (job_js j) ''createdAt'' = JStr (j_createdAt j)"
  "getp (job_js j) ''updatedAt'' = JStr (j_updatedAt j)" "getp (job_js j) ''startedAt'' = null_or_str (j_startedAt j)"
  "getp (job_js j) ''finishedAt'' = null_or_str (j_finishedAt j)"
  "getp (job_js j) ''resultSummary'' = JStr (j_resultSummary j)"
  "getp (job_js j) ''reportPaths'' = JArr (map JStr (j_reportPaths j))"
  by (simp_all add: job_js_def)

lemma getp_job_js_optional [simp]:
  "getp (job_js j) ''backupEnabled'' = (case j_control j of None \<Rightarrow> JUndef | Some (b, _) \<Rightarrow> JBool b)"
  "getp (job_js j) ''expectedControlRevision'' = (case j_control j of None \<Rightarrow> JUndef | Some (_, x) \<Rightarrow> JStr x)"
  "getp (job_js j) ''sourceManifestPath'' = (case j_sourceManifestPath j of None \<Rightarrow> JUndef | Some p \<Rightarrow> JStr p)"
  "getp (job_js j) ''sourceManifestDigest'' = (case j_restoreDigests j of None \<Rightarrow> JUndef | Some (x, _) \<Rightarrow> JStr x)"
  "getp (job_js j) ''restoreProfileDigest'' = (case j_restoreDigests j of None \<Rightarrow> JUndef | Some (_, x) \<Rightarrow> JStr x)"
  "getp (job_js j) ''manifestPath'' = (case j_manifestPath j of None \<Rightarrow> JUndef | Some p \<Rightarrow> JStr p)"
  by (auto simp: job_js_def optional_prop_def split: option.splits)

lemma as_object_job_js [simp]: "as_object (job_js j) = job_js j"
  by (simp add: job_js_def)

text \<open>
  The fields of a job whose reading is not idempotent by itself: the instants, which the engine
  parses; the paths, whose leading slashes are removed after the text is trimmed, so that a
  space may come first; and the result summary, which an empty text replaces.
\<close>

definition job_settled :: "runtime \<Rightarrow> job \<Rightarrow> bool" where
  "job_settled R j \<longleftrightarrow>
     list_all (\<lambda>s. s \<noteq> [] \<and> date_iso R (JStr s) = Inr s)
       ([j_createdAt j, j_updatedAt j] @ case_option [] (\<lambda>s. [s]) (j_startedAt j)
          @ case_option [] (\<lambda>s. [s]) (j_finishedAt j))
     \<and> list_all (\<lambda>p. js_trim p = p) (j_reportPaths j @ case_option [] (\<lambda>p. [p]) (j_manifestPath j)
          @ case_option [] (\<lambda>p. [p]) (j_sourceManifestPath j))
     \<and> j_resultSummary j \<noteq> []"

lemma path_again:
  "relativeBackupPath v l = Inr p \<Longrightarrow> js_trim p = p \<Longrightarrow> relativeBackupPath (JStr p) l' = Inr p"
  by (simp add: relativeBackupPath_Inr relativeBackupPath_no_backslash relativeBackupPath_str)

lemma optional_parts_again:
  assumes "backup_control_part src oper sc rs = Inr (j_control j)"
    and "source_manifest_part src oper = Inr (j_sourceManifestPath j)"
    and "restore_digest_part src oper sc rs = Inr (j_restoreDigests j)"
    and "list_all (\<lambda>p. js_trim p = p) (case_option [] (\<lambda>p. [p]) (j_sourceManifestPath j))"
  shows "backup_control_part (job_js j) oper sc rs = Inr (j_control j)"
    and "source_manifest_part (job_js j) oper = Inr (j_sourceManifestPath j)"
    and "restore_digest_part (job_js j) oper sc rs = Inr (j_restoreDigests j)"
proof -
  show "backup_control_part (job_js j) oper sc rs = Inr (j_control j)"
    using assms(1) by (cases "j_control j")
      (auto simp: backup_control_part_def res_simps js_default_def intro: text_again split: if_splits jsv.splits)
  show "source_manifest_part (job_js j) oper = Inr (j_sourceManifestPath j)"
    using assms(2,4) by (cases "j_sourceManifestPath j")
      (auto simp: source_manifest_part_def res_simps js_default_def intro: path_again split: if_splits)
  show "restore_digest_part (job_js j) oper sc rs = Inr (j_restoreDigests j)"
    using assms(3) by (cases "j_restoreDigests j")
      (auto simp: restore_digest_part_def res_simps js_default_def intro: text_again split: if_splits)
qed

text \<open>\<open>createBackupJobDocument\<close> reads only the fields it wrote, whatever the later fields hold.\<close>

definition job_core :: "job \<Rightarrow> job" where
  "job_core j = j\<lparr>j_status := ''queued'', j_updatedAt := j_createdAt j, j_startedAt := None, j_finishedAt := None,
     j_resultSummary := ''Queued for typed backup executor.'', j_reportPaths := [], j_manifestPath := None\<rparr>"

lemma create_again:
  assumes "createBackupJobDocument R now src = Inr (job_core j)" and "job_settled R j"
  shows "createBackupJobDocument R now' (job_js j) = Inr (job_core j)"
  using assms(1)
proof (rule createBackupJobDocument_Inr, goal_cases)
  case 1
  have core: "j_operation (job_core j) = j_operation j" "j_resources (job_core j) = j_resources j"
    "j_scope (job_core j) = j_scope j" "j_id (job_core j) = j_id j" "j_requestedBy (job_core j) = j_requestedBy j"
    "j_environment (job_core j) = j_environment j" "j_createdAt (job_core j) = j_createdAt j"
    "j_control (job_core j) = j_control j" "j_sourceManifestPath (job_core j) = j_sourceManifestPath j"
    "j_restoreDigests (job_core j) = j_restoreDigests j"
    by (simp_all add: job_core_def)
  note f = 1 [unfolded core]
  have stable: "list_all (\<lambda>p. js_trim p = p) (case_option [] (\<lambda>p. [p]) (j_sourceManifestPath j))"
    "date_iso R (JStr (j_createdAt j)) = Inr (j_createdAt j)"
    using assms(2) by (simp_all add: job_settled_def)
  note parts = optional_parts_again [OF f(10-12) stable(1)]
  have op_by_env: "requiredText (JStr (j_operation j)) ''backup operation'' dashed_word 32 = Inr (j_operation j)"
    "requiredText (js_or (JStr (j_requestedBy j)) (JStr ''control-center'')) ''requester'' principal_pattern 200
       = Inr (j_requestedBy j)"
    "requiredText (js_or (JStr (j_environment j)) (JStr ''local'')) ''environment''
       (\<lambda>s. s \<noteq> [] \<and> list_all slug_char s) 32 = Inr (j_environment j)"
    using requiredText_again [OF f(1)] requiredText_again [OF f(7)] requiredText_again [OF f(8)]
      requiredText_Inr [OF f(7)] requiredText_Inr [OF f(8)]
    by (simp_all add: js_or_def)
  show ?case
    using op_by_env f(2,5) normalizeBackupResources_again [OF f(3)] normalizeScope_again [OF f(4)]
      text_again(1) [OF f(6)] stable(2) parts
    by (simp add: createBackupJobDocument_def js_default_def job_core_def)
qed

lemma parseBackupJobDocument_Inr:
  assumes "parseBackupJobDocument R now x = Inr j"
  obtains "createBackupJobDocument R now (as_object x) = Inr (job_core j)"
    "parse_status (getp (as_object x) ''status'') = Inr (j_status j)"
    "parse_report_paths (getp (as_object x) ''reportPaths'') = Inr (j_reportPaths j)"
    "parse_manifest_path (getp (as_object x) ''manifestPath'') = Inr (j_manifestPath j)"
    "length (j_resultSummary j) \<le> 500"
proof -
  from assms obtain d status updated started finished reports mp summary where
    d: "createBackupJobDocument R now (as_object x) = Inr d"
    and rest: "parse_status (getp (as_object x) ''status'') = Inr status"
      "parse_report_paths (getp (as_object x) ''reportPaths'') = Inr reports"
      "parse_manifest_path (getp (as_object x) ''manifestPath'') = Inr mp"
    and j: "j = d\<lparr>j_status := status, j_updatedAt := updated, j_startedAt := started,
             j_finishedAt := finished, j_resultSummary := take 500 summary,
             j_reportPaths := reports, j_manifestPath := mp\<rparr>"
    unfolding parseBackupJobDocument_def Let_def bindR_eq_Inr requireR_eq sum.inject
    by (elim exE conjE, hypsubst) (rule that; (assumption | rule refl))
  from d have core: "d = job_core j"
    by (rule createBackupJobDocument_Inr) (simp add: j job_core_def)
  show ?thesis
  proof (rule that)
    show "createBackupJobDocument R now (as_object x) = Inr (job_core j)" using d unfolding core .
  qed (use rest in \<open>simp_all add: j\<close>)
qed

lemma parsed_fields_again:
  "parse_status v = Inr s \<Longrightarrow> parse_status (JStr s) = Inr s"
  "parse_manifest_path v = Inr m \<Longrightarrow> list_all (\<lambda>p. js_trim p = p) (case_option [] (\<lambda>p. [p]) m) \<Longrightarrow>
     parse_manifest_path (case m of None \<Rightarrow> JUndef | Some p \<Rightarrow> JStr p) = Inr m"
  by (auto simp: parse_status_def parse_manifest_path_def res_simps intro: path_again
      dest: relativeBackupPath_Inr split: jsv.splits if_splits option.splits)
    (auto simp: relative_path_ok_def dest: relativeBackupPath_Inr)

lemma report_paths_again:
  assumes "parse_report_paths v = Inr ps" and "list_all (\<lambda>p. js_trim p = p) ps"
  shows "parse_report_paths (JArr (map JStr ps)) = Inr ps"
proof -
  have "length ps \<le> 32 \<and> (\<forall>p \<in> set ps. \<exists>x. relativeBackupPath x ''report path'' = Inr p)"
    using assms(1) by (auto simp: parse_report_paths_def res_simps dest: in_set_takeD mapR_Inr_mem split: jsv.splits)
  then have "mapR (\<lambda>x. relativeBackupPath x ''report path'') (map JStr ps) = Inr ps" "length ps \<le> 32"
    using assms(2) by (auto simp: list_all_iff intro!: mapR_again intro: path_again)
  then show ?thesis by (simp add: parse_report_paths_def)
qed


definition sample_running_job :: jsv where
  "sample_running_job = JObj [(''schema'', JStr BACKUP_JOB_SCHEMA), (''id'', JStr ''job-2''), (''operation'', JStr ''restore-drill''),
     (''scope'', JObj [(''kind'', JStr ''application''), (''id'', JStr ''shop'')]),
     (''resources'', JArr [JObj [(''kind'', JStr ''database''), (''externalId'', JStr ''db''), (''projectId'', JStr ''shop''),
                               (''name'', JStr ''db''), (''engine'', JStr ''mariadb'')]]),
     (''createdAt'', JStr ''2026-01-02T03:04:05.006Z''), (''startedAt'', JStr ''2026-01-02T03:05:00.000Z''),
     (''status'', JStr ''running''), (''resultSummary'', JStr ''Running.''), (''sourceManifestPath'', JStr ''/manifests/m.json'')]"


section \<open>Manifest coverage\<close>

lemma createBackupManifestDocument_Inr:
  assumes "createBackupManifestDocument R now i jobDoc artifacts createdAt = Inr m"
  shows "distinct (map a_resourceId (m_artifacts m))"
    and "\<forall>a \<in> set (m_artifacts m). a_resourceId a \<in> set (map r_id (m_resources m))
           \<and> identifier_text (JStr (a_resourceId a)) ''resource ID'' = Inr (a_resourceId a)
           \<and> 1 \<le> a_sizeBytes a \<and> hex64 (a_sha256 a) \<and> relative_path_ok (a_path a)"
    and "m_complete m \<longleftrightarrow> set (map r_id (m_resources m)) \<subseteq> set (map a_resourceId (m_artifacts m))"
    and "m_missingResourceIds m = filter (\<lambda>x. x \<notin> set (map a_resourceId (m_artifacts m))) (map r_id (m_resources m))"
proof -
  from assms obtain job :: job and arts mid created where
    arts: "(case artifacts of JArr xs \<Rightarrow> mapR (normalizeArtifact (map r_id (j_resources job))) xs | _ \<Rightarrow> Inr []) = Inr arts"
    and one: "length arts = length (remdups (map a_resourceId arts))"
    and m: "m = \<lparr>m_id = mid, m_jobId = j_id job, m_scope = j_scope job, m_resources = j_resources job,
              m_artifacts = arts, m_requiredResourceIds = sort (map r_id (j_resources job)),
              m_artifactResourceIds = sort (remdups (map a_resourceId arts)),
              m_missingResourceIds = filter (\<lambda>x. x \<notin> set (remdups (map a_resourceId arts))) (map r_id (j_resources job)),
              m_complete = (filter (\<lambda>x. x \<notin> set (remdups (map a_resourceId arts))) (map r_id (j_resources job)) = []),
              m_createdAt = created, m_signature = None\<rparr>"
    by (auto simp only: createBackupManifestDocument_def Let_def bindR_eq_Inr requireR_eq sum.inject)
  from one have "length (remdups (map a_resourceId arts)) = length (map a_resourceId arts)" by simp
  then show "distinct (map a_resourceId (m_artifacts m))" using length_remdups_eq [of "map a_resourceId arts"] by (simp add: m)
  have "\<exists>x. normalizeArtifact (map r_id (j_resources job)) x = Inr a" if "a \<in> set arts" for a
    using arts that by (auto split: jsv.splits dest: mapR_Inr_mem)
  moreover have "a_resourceId a \<in> set ids \<and> identifier_text (JStr (a_resourceId a)) ''resource ID'' = Inr (a_resourceId a)
      \<and> 1 \<le> a_sizeBytes a \<and> hex64 (a_sha256 a) \<and> relative_path_ok (a_path a)"
    if "normalizeArtifact ids x = Inr a" for ids x a
    using that by (auto simp: normalizeArtifact_def Let_def res_simps digest_text_def intro: text_again
        dest: requiredText_Inr relativeBackupPath_Inr split: option.splits if_splits)
  ultimately show "\<forall>a \<in> set (m_artifacts m). a_resourceId a \<in> set (map r_id (m_resources m))
           \<and> identifier_text (JStr (a_resourceId a)) ''resource ID'' = Inr (a_resourceId a)
           \<and> 1 \<le> a_sizeBytes a \<and> hex64 (a_sha256 a) \<and> relative_path_ok (a_path a)"
    unfolding m by (simp del: set_map) blast
  show "m_missingResourceIds m = filter (\<lambda>x. x \<notin> set (map a_resourceId (m_artifacts m))) (map r_id (m_resources m))"
    by (simp add: m)
  show "m_complete m \<longleftrightarrow> set (map r_id (m_resources m)) \<subseteq> set (map a_resourceId (m_artifacts m))"
    by (auto simp: m filter_empty_conv)
qed

lemma parseBackupManifestDocument_Inr:
  assumes "parseBackupManifestDocument R now req x = Inr m"
  obtains i job m' where "createBackupManifestDocument R now i (job_js job) (getp (as_object x) ''artifacts'')
      (getp (as_object x) ''createdAt'') = Inr m'"
    "req \<longrightarrow> m_complete m'" "m = m'\<lparr>m_signature := m_signature m\<rparr>"
  using assms unfolding parseBackupManifestDocument_def Let_def bindR_eq_Inr requireR_eq sum.inject
  by (elim exE conjE, hypsubst) (rule that; simp)

text \<open>
  A manifest accepted as complete maps every one of its resources to exactly one artifact:
  no resource id has two, no artifact belongs to an undeclared resource, and looking the
  artifact of a resource up always finds it, with a positive size, a SHA-256 digest and a path
  inside the backup root.
\<close>

theorem complete_manifest_covers_resources:
  assumes "parseBackupManifestDocument R now True x = Inr m"
  shows "distinct (map a_resourceId (m_artifacts m))
    \<and> set (map a_resourceId (m_artifacts m)) = set (map r_id (m_resources m)) \<and> m_missingResourceIds m = []
    \<and> (\<forall>r \<in> set (m_resources m). \<exists>a. manifestArtifactForResource R now x (JStr (r_id r)) = Inr (Some a)
         \<and> a_resourceId a = r_id r \<and> 1 \<le> a_sizeBytes a \<and> hex64 (a_sha256 a) \<and> relative_path_ok (a_path a))"
  using assms
proof (rule parseBackupManifestDocument_Inr, goal_cases)
  case (1 i job m')
  note f = createBackupManifestDocument_Inr [OF 1(1)]
  obtain sig where m: "m = m'\<lparr>m_signature := sig\<rparr>" using 1(3) by blast
  have found: "\<exists>a. manifestArtifactForResource R now x (JStr (r_id r)) = Inr (Some a)
         \<and> a_resourceId a = r_id r \<and> 1 \<le> a_sizeBytes a \<and> hex64 (a_sha256 a) \<and> relative_path_ok (a_path a)"
    if r: "r \<in> set (m_resources m)" for r
  proof -
    from r f(3) 1(2) have "r_id r \<in> set (map a_resourceId (m_artifacts m'))" by (auto simp: m)
    then obtain b where b: "b \<in> set (m_artifacts m')" "a_resourceId b = r_id r" by auto
    then have "find (\<lambda>a. a_resourceId a = r_id r) (m_artifacts m') \<noteq> None" by (auto simp: find_None_iff)
    then obtain a where a: "find (\<lambda>a. a_resourceId a = r_id r) (m_artifacts m') = Some a" by auto
    then have "a \<in> set (m_artifacts m')" "a_resourceId a = r_id r" by (auto simp: find_Some_iff)
    with f(2) b a show ?thesis
      by (intro exI [of _ a]) (auto simp: manifestArtifactForResource_def assms m)
  qed
  show ?case using f(1,3,4) f(2) 1(2) found by (auto simp: m filter_empty_conv)
qed


definition sample_manifest :: jsv where
  "sample_manifest = JObj [(''schema'', JStr BACKUP_MANIFEST_SCHEMA), (''id'', JStr ''m-1''), (''jobId'', JStr ''job-1''),
     (''scope'', JObj [(''kind'', JStr ''platform'')]), (''createdAt'', JStr ''2026-01-02T03:04:05.006Z''),
     (''resources'', JArr [JObj [(''kind'', JStr ''storage''), (''externalId'', JStr ''s''), (''projectId'', JStr ''shop''), (''name'', JStr ''s'')]]),
     (''artifacts'', JArr [JObj [(''id'', JStr ''a-1''), (''resourceId'', JStr ''storage:s''), (''path'', JStr ''artifacts/a''),
        (''sha256'', JStr (replicate 64 CHR ''0'')), (''sizeBytes'', JInt 7), (''signatureKeyId'', JStr ''k'')]])]"

lemma complete_manifest_covers_resources_example:
  "case parseBackupManifestDocument sample_runtime 0 True sample_manifest of
     Inl _ \<Rightarrow> False
   | Inr m \<Rightarrow> length (m_resources m) = 1
       \<and> set (map a_resourceId (m_artifacts m)) = set (map r_id (m_resources m))"
proof -
  have ok: "case parseBackupManifestDocument sample_runtime 0 True sample_manifest of
     Inl _ \<Rightarrow> False | Inr m \<Rightarrow> length (m_resources m) = 1" by code_simp
  then obtain m where m: "parseBackupManifestDocument sample_runtime 0 True sample_manifest = Inr m"
    by (auto split: sum.splits)
  from complete_manifest_covers_resources [OF m] m ok show ?thesis by (simp del: set_map)
qed

text \<open>
  The resource id prefixes the external identity, which may itself use all of the 160
  characters an identifier has; the artifact of such a resource cannot be named.
\<close>

lemma identifier_text_length: "identifier_text v l = Inr s \<Longrightarrow> length s \<le> 160"
  unfolding text_defs by (drule requiredText_Inr) blast

text \<open>
  C23. A manifest that holds a resource whose id is longer than an identifier is never
  complete, although \<open>normalizeBackupResource\<close> accepts the resource: a job over it can be
  queued and run, and its manifest is refused whatever artifacts it lists.
\<close>

theorem long_resource_id_never_covered:
  assumes "parseBackupManifestDocument R now req x = Inr m" and "r \<in> set (m_resources m)" and "160 < length (r_id r)"
  shows "\<not> req \<and> \<not> m_complete m \<and> r_id r \<in> set (m_missingResourceIds m)"
  using assms(1)
proof (rule parseBackupManifestDocument_Inr, goal_cases)
  case (1 i job m')
  note f = createBackupManifestDocument_Inr [OF 1(1)]
  obtain sig where m: "m = m'\<lparr>m_signature := sig\<rparr>" using 1(3) by blast
  have "r_id r \<notin> set (map a_resourceId (m_artifacts m'))"
    using f(2) identifier_text_length assms(3) by fastforce
  with f(3,4) 1(2) assms(2) show ?case by (auto simp: m)
qed

definition sample_long_manifest :: jsv where
  "sample_long_manifest = set_prop ''artifacts'' (JArr []) (set_prop ''resources''
     (JArr [JObj [(''kind'', JStr ''storage''), (''externalId'', JStr (replicate 160 CHR ''s'')),
                  (''projectId'', JStr ''shop''), (''name'', JStr ''s'')]]) sample_manifest)"

theorem long_resource_id_never_covered_witness:
  "case parseBackupManifestDocument sample_runtime 0 False sample_long_manifest of
     Inl _ \<Rightarrow> False | Inr m \<Rightarrow> length (r_id (hd (m_resources m))) = 168 \<and> \<not> m_complete m"
proof -
  have ok: "case parseBackupManifestDocument sample_runtime 0 False sample_long_manifest of
     Inl _ \<Rightarrow> False | Inr m \<Rightarrow> m_resources m \<noteq> [] \<and> length (r_id (hd (m_resources m))) = 168" by code_simp
  then obtain m where m: "parseBackupManifestDocument sample_runtime 0 False sample_long_manifest = Inr m"
    by (auto split: sum.splits)
  with ok have "hd (m_resources m) \<in> set (m_resources m)" "160 < length (r_id (hd (m_resources m)))" by auto
  from long_resource_id_never_covered [OF m this] m ok show ?thesis by simp
qed

section \<open>The canonical form\<close>

text \<open>
  Two documents that differ in the order of properties, at any depth, and in properties
  called \<open>signature\<close>. The keys of an object are distinct.
\<close>

inductive same_document :: "jsv \<Rightarrow> jsv \<Rightarrow> bool" where
  same: "same_document v v"
| arr: "list_all2 same_document xs ys \<Longrightarrow> same_document (JArr xs) (JArr ys)"
| obj: "list_all2 (rel_prod (=) same_document) ps qs \<Longrightarrow> distinct (map fst qs) \<Longrightarrow> mset qs = mset rs
    \<Longrightarrow> same_document (JObj ps) (JObj rs)"
| unsigned: "same_document (JObj (filter (\<lambda>p. fst p \<noteq> ''signature'') ps)) (JObj qs)
    \<Longrightarrow> same_document (JObj ps) (JObj qs)"
| symmetric: "same_document v w \<Longrightarrow> same_document w v"
| transitive: "same_document u v \<Longrightarrow> same_document v w \<Longrightarrow> same_document u w"

definition canonical_entries :: "(string \<times> jsv) list \<Rightarrow> (string \<times> jsv) list" where
  "canonical_entries ps = filter (\<lambda>p. fst p \<noteq> ''signature'') (map (\<lambda>(k, v). (k, canonicalValue v)) ps)"

lemma own_order_perm: "mset (own_order ps) = mset ps"
  by (simp add: own_order_def)

lemma own_order_same:
  assumes "distinct (map fst ps)"
  shows "set (own_order ps) = set ps" "distinct (map fst (own_order ps))"
proof -
  show "set (own_order ps) = set ps" using own_order_perm by (metis set_mset_mset)
  have "mset (map fst (own_order ps)) = mset (map fst ps)" using own_order_perm by (metis mset_map)
  then show "distinct (map fst (own_order ps))" using assms by (metis mset_eq_imp_distinct_iff)
qed

lemma canonicalValue_obj: "canonicalValue (JObj ps) = JObj (own_order (sort_key fst (canonical_entries ps)))"
  by (simp add: canonical_entries_def)

lemma canonical_entries_perm:
  assumes "mset ps = mset qs" and "distinct (map fst ps)"
  shows "sort_key fst (canonical_entries ps) = sort_key fst (canonical_entries qs)"
proof (rule sort_key_inj_key_eq)
  have "map fst (map (\<lambda>(k, v). (k, canonicalValue v)) ps) = map fst ps" by (induction ps) auto
  with assms(2) have "distinct (map fst (canonical_entries ps))"
    unfolding canonical_entries_def by (intro distinct_map_filter) (simp only:)
  then show "inj_on fst (set (canonical_entries ps))" by (simp add: distinct_map)
  show "mset (canonical_entries ps) = mset (sort_key fst (canonical_entries qs))"
    using assms(1) by (simp add: canonical_entries_def)
qed simp

lemma same_document_canonical: "same_document v w \<Longrightarrow> canonicalValue v = canonicalValue w"
proof (induction rule: same_document.induct)
  case (arr xs ys)
  then have "list_all2 (\<lambda>x y. canonicalValue x = canonicalValue y) xs ys"
    by (auto elim: list_all2_mono)
  then show ?case by (induction rule: list_all2_induct) auto
next
  case (obj ps qs rs)
  then have "list_all2 (\<lambda>p q. fst p = fst q \<and> canonicalValue (snd p) = canonicalValue (snd q)) ps qs"
    by (auto elim!: list_all2_mono simp: rel_prod_conv)
  then have "canonical_entries ps = canonical_entries qs"
    unfolding canonical_entries_def by (induction rule: list_all2_induct) auto
  with canonical_entries_perm [OF obj(3,2)] show ?case unfolding canonicalValue_obj by simp
next
  case (unsigned ps qs)
  have "canonical_entries (filter (\<lambda>p. fst p \<noteq> ''signature'') ps) = canonical_entries ps"
    unfolding canonical_entries_def by (induction ps) auto
  with unsigned show ?case unfolding canonicalValue_obj by simp
qed auto

text \<open>
  C24. The digest that is signed does not depend on the order of properties at any depth, nor
  on the signature the document carries.
\<close>

theorem digest_ignores_order_and_signature:
  assumes "same_document v w"
  shows "backupDocumentDigest R v = backupDocumentDigest R w"
  using same_document_canonical [OF assms] by (simp add: backupDocumentDigest_def canonicalBackupDocument_def)

theorem digest_ignores_order_and_signature_witness:
  "backupDocumentDigest sample_runtime (JObj [(''b'', JInt 1), (''a'', JNull), (''signature'', JStr ''x'')])
     = backupDocumentDigest sample_runtime (JObj [(''a'', JNull), (''b'', JInt 1)])"
proof (rule digest_ignores_order_and_signature)
  have "same_document (JObj [(''b'', JInt 1), (''a'', JNull)]) (JObj [(''a'', JNull), (''b'', JInt 1)])"
    by (rule same_document.obj [of _ "[(''b'', JInt 1), (''a'', JNull)]"]) (simp_all add: same_document.same)
  then show "same_document (JObj [(''b'', JInt 1), (''a'', JNull), (''signature'', JStr ''x'')])
      (JObj [(''a'', JNull), (''b'', JInt 1)])"
    using same_document.unsigned [of "[(''b'', JInt 1), (''a'', JNull), (''signature'', JStr ''x'')]"] by simp
qed


end
