(* ===== verification/BackupQueuePolicy.thy ===== *)
theory BackupQueuePolicy
  imports RouteCapabilities BackupContracts
begin

text \<open>
  What guards the privileged backup queue before its files are touched: the adapter that turns
  a resolved route operation into a permitted job operation
  (\<open>control-center/backup/queue-operation-adapter.mjs\<close>), and from
  \<open>control-center/backup/queue-admission.mjs\<close> the policy, the shared identity of the queue's
  files with the ownership handoff, and the checks of principals, job ids, lease kinds, lease
  handles and clocks.

  The lemmas show which requests reach admission, that every producer the adapter knows is a
  route of the catalog with the capability it demands, the bounds of every accepted policy,
  and that a handoff never takes a file or directory away from a third owner.
\<close>

section \<open>The operation adapter\<close>

record queue_operation =
  qo_control :: bool
  qo_jobOperations :: "string list"

definition QUEUE_OPERATIONS :: "(string \<times> queue_operation) list" where
  "QUEUE_OPERATIONS =
    [(''backup.control.update'', \<lparr>qo_control = True, qo_jobOperations = [''backup-control'']\<rparr>),
     (''backup.production-restore'', \<lparr>qo_control = True, qo_jobOperations = [''restore-production'']\<rparr>),
     (''backup.run'', \<lparr>qo_control = True, qo_jobOperations = [''backup'']\<rparr>),
     (''database.backup'', \<lparr>qo_control = True, qo_jobOperations = [''backup'']\<rparr>),
     (''legacy.backup'', \<lparr>qo_control = False, qo_jobOperations = [''backup'', ''restore-drill'']\<rparr>),
     (''legacy.database'', \<lparr>qo_control = False, qo_jobOperations = [''backup'']\<rparr>)]"

definition denied :: "string \<Rightarrow> js_error" where
  "denied c = CodedError c 403"

text \<open>The operation is any value, with \<open>Object.isFrozen\<close> of it beside.\<close>

definition requireCanonicalBackupQueueOperation :: "bool \<Rightarrow> jsv \<Rightarrow> string \<Rightarrow> jsv res" where
  "requireCanonicalBackupQueueOperation frozen oper jobOperation =
     bindR (requireR (is_object oper \<and> frozen) (denied ''operation_not_canonical'')) (\<lambda>_.
     bindR (requireR (getp oper ''classified'' = JBool True \<and> getp oper ''method'' = JStr ''POST''
                        \<and> getp oper ''capability'' = JStr ''owner:fresh'') (denied ''operation_not_privileged'')) (\<lambda>_.
     bindR (case getp oper ''operationId'' of
              JStr i \<Rightarrow> (case map_of QUEUE_OPERATIONS i of
                  Some q \<Rightarrow> if getp oper ''control'' = JBool (qo_control q) then Inr q
                           else Inl (denied ''operation_not_admitted'')
                | None \<Rightarrow> Inl (denied ''operation_not_admitted''))
            | _ \<Rightarrow> Inl (denied ''operation_not_admitted'')) (\<lambda>q.
     bindR (requireR (jobOperation \<in> set (qo_jobOperations q)) (denied ''job_operation_mismatch'')) (\<lambda>_.
     bindR (requireR (case getp oper ''canonicalPath'' of JStr p \<Rightarrow> starts_with ''/'' p | _ \<Rightarrow> False)
              (denied ''operation_not_canonical'')) (\<lambda>_.
     Inr (JObj [(''operationId'', getp oper ''operationId''), (''capability'', getp oper ''capability''),
                (''control'', getp oper ''control''), (''jobOperation'', JStr jobOperation)]))))))"

definition listBackupQueueOperationIds :: "string list" where
  "listBackupQueueOperationIds = map fst QUEUE_OPERATIONS"

text \<open>The object \<open>resolveAuthorizationCapability\<close> returns, which is frozen.\<close>

fun capability_text :: "capability \<Rightarrow> string" where
  "capability_text Viewer = ''viewer''"
| "capability_text Admin = ''admin''"
| "capability_text Owner = ''owner''"
| "capability_text OwnerFresh = ''owner:fresh''"
| "capability_text Deny = ''deny''"

definition operation_js :: "operation \<Rightarrow> jsv" where
  "operation_js x = JObj [(''method'', JStr (op_method x)), (''operationId'', JStr (op_operationId x)),
     (''capability'', JStr (capability_text (op_capability x))), (''canonicalPath'', JStr (op_canonicalPath x)),
     (''classified'', JBool (op_classified x)), (''control'', JBool (op_control x)),
     (''parameters'', JObj (map (\<lambda>(k, v). (k, JStr v)) (op_parameters x)))]"

section \<open>The policy\<close>

definition boundedInteger :: "jsv \<Rightarrow> int \<Rightarrow> int \<Rightarrow> int \<Rightarrow> string \<Rightarrow> int res" where
  "boundedInteger v fallback minimum maximum label =
     (case (if v \<in> {JUndef, JNull, JStr []} then safe_int (Dec fallback 0) else safe_int (js_Number v)) of
        Some n \<Rightarrow> if minimum \<le> n \<and> n \<le> maximum then Inr n else Inl (invalid label)
      | None \<Rightarrow> Inl (invalid label))"

definition seconds :: "jsv \<Rightarrow> jsv" where
  "seconds v = (if v \<in> {JUndef, JNull, JStr []} then JUndef else JNum (num_times 1000 (js_Number v)))"

definition days :: "jsv \<Rightarrow> jsv" where
  "days v = (if v \<in> {JUndef, JNull, JStr []} then JUndef
     else JNum (num_times 1000 (num_times 60 (num_times 60 (num_times 24 (js_Number v))))))"

record queue_policy =
  maxOutstanding :: int
  maxPerPrincipal :: int
  principalWindowMs :: int
  maxConcurrency :: int
  maxTerminalPerStatus :: int
  terminalMaxAgeMs :: int
  maxLedgerEntries :: int
  maxScanEntries :: int
  lockTimeoutMs :: int

definition normalizeBackupQueuePolicy :: "jsv \<Rightarrow> queue_policy res" where
  "normalizeBackupQueuePolicy input =
     bindR (boundedInteger (getp input ''maxOutstanding'') 32 1 1024 ''max outstanding jobs'') (\<lambda>a.
     bindR (boundedInteger (getp input ''maxPerPrincipal'') 4 1 256 ''per-principal admissions'') (\<lambda>b.
     bindR (boundedInteger (getp input ''principalWindowMs'') (15 * 60 * 1000) 1000 (7 * 24 * 60 * 60 * 1000) ''principal rate window'') (\<lambda>c.
     bindR (boundedInteger (getp input ''maxConcurrency'') 1 1 64 ''scheduler concurrency'') (\<lambda>d.
     bindR (boundedInteger (getp input ''maxTerminalPerStatus'') 200 1 10000 ''terminal retention count'') (\<lambda>e.
     bindR (boundedInteger (getp input ''terminalMaxAgeMs'') (30 * 24 * 60 * 60 * 1000) (60 * 1000) (365 * 24 * 60 * 60 * 1000) ''terminal retention age'') (\<lambda>f.
     bindR (boundedInteger (getp input ''maxLedgerEntries'') 4096 16 100000 ''admission ledger entries'') (\<lambda>g.
     bindR (boundedInteger (getp input ''maxScanEntries'') 4096 32 100000 ''queue scan entries'') (\<lambda>h.
     bindR (boundedInteger (getp input ''lockTimeoutMs'') 2000 0 30000 ''queue lock timeout'') (\<lambda>i.
     bindR (requireR (d \<le> a) (PlainError ''Scheduler concurrency cannot exceed the global outstanding-job limit.'')) (\<lambda>_.
     Inr \<lparr>maxOutstanding = a, maxPerPrincipal = b, principalWindowMs = c, maxConcurrency = d,
           maxTerminalPerStatus = e, terminalMaxAgeMs = f, maxLedgerEntries = g, maxScanEntries = h,
           lockTimeoutMs = i\<rparr>))))))))))"

definition backupQueuePolicyFromEnvironment :: "jsv \<Rightarrow> queue_policy res" where
  "backupQueuePolicyFromEnvironment env = normalizeBackupQueuePolicy (JObj
     [(''maxOutstanding'', getp env ''BACKUP_QUEUE_MAX_OUTSTANDING''),
      (''maxPerPrincipal'', getp env ''BACKUP_QUEUE_MAX_PER_PRINCIPAL''),
      (''principalWindowMs'', seconds (getp env ''BACKUP_QUEUE_RATE_WINDOW_SECONDS'')),
      (''maxConcurrency'', getp env ''BACKUP_QUEUE_MAX_CONCURRENCY''),
      (''maxTerminalPerStatus'', getp env ''BACKUP_QUEUE_TERMINAL_MAX_PER_STATUS''),
      (''terminalMaxAgeMs'', days (getp env ''BACKUP_QUEUE_TERMINAL_MAX_AGE_DAYS'')),
      (''maxLedgerEntries'', getp env ''BACKUP_QUEUE_LEDGER_MAX_ENTRIES''),
      (''maxScanEntries'', getp env ''BACKUP_QUEUE_MAX_SCAN_ENTRIES''),
      (''lockTimeoutMs'', getp env ''BACKUP_QUEUE_LOCK_TIMEOUT_MS'')])"

section \<open>The shared identity of the queue's files\<close>

definition admissionError :: "string \<Rightarrow> js_error" where
  "admissionError c = CodedError c 503"

definition positive_decimal :: "string \<Rightarrow> bool" where
  "positive_decimal s \<longleftrightarrow> s \<noteq> [] \<and> is_digit (hd s) \<and> hd s \<noteq> CHR ''0'' \<and> list_all is_digit s"

definition shared_id :: "string \<Rightarrow> int option" where
  "shared_id s = (case safe_int (string_to_number s) of
     Some n \<Rightarrow> if n \<le> 0x7fffffff then Some n else None | None \<Rightarrow> None)"

definition backupQueueSharedIdentityFromEnvironment :: "jsv \<Rightarrow> (int \<times> int) option res" where
  "backupQueueSharedIdentityFromEnvironment env =
     (let rawUid = js_trim (js_String (js_coalesce (getp env ''BACKUP_QUEUE_SHARED_UID'') (JStr [])));
          rawGid = js_trim (js_String (js_coalesce (getp env ''BACKUP_QUEUE_SHARED_GID'') (JStr [])))
      in if rawUid = [] \<and> rawGid = [] then Inr None
         else bindR (requireR (rawUid \<noteq> [] \<and> rawGid \<noteq> []) (admissionError ''queue_shared_identity_invalid'')) (\<lambda>_.
              bindR (requireR (positive_decimal rawUid \<and> positive_decimal rawGid)
                       (admissionError ''queue_shared_identity_invalid'')) (\<lambda>_.
              case (shared_id rawUid, shared_id rawGid) of
                (Some uid, Some gid) \<Rightarrow> Inr (Some (uid, gid))
              | _ \<Rightarrow> Inl (admissionError ''queue_shared_identity_invalid''))))"

text \<open>What \<open>fstat\<close> shows of a file or directory, and the identity of the process.\<close>

record fstat =
  st_isFile :: bool
  st_isDirectory :: bool
  st_nlink :: int
  st_uid :: int
  st_gid :: int
  st_mode :: int

record process_identity =
  p_euid :: int
  p_egid :: int

text \<open>
  The handoffs return the metadata after \<open>fchown\<close> and \<open>fchmod\<close>; the last check of the
  source reads it back.
\<close>

definition applyBackupQueueFileOwnership :: "process_identity \<Rightarrow> (int \<times> int) option \<Rightarrow> fstat \<Rightarrow> fstat res" where
  "applyBackupQueueFileOwnership p identity before = (case identity of
       None \<Rightarrow> Inr before
     | Some (uid, gid) \<Rightarrow>
         bindR (requireR (st_isFile before \<and> st_nlink before = 1) (admissionError ''queue_shared_identity_unavailable'')) (\<lambda>_.
         bindR (if p_euid p = 0
                then bindR (requireR (st_uid before = 0 \<and> st_gid before = 0 \<or> st_uid before = uid \<and> st_gid before = gid)
                              (admissionError ''queue_shared_identity_unavailable''))
                       (\<lambda>_. Inr (before\<lparr>st_uid := uid, st_gid := gid\<rparr>))
                else bindR (requireR (p_euid p = uid \<and> p_egid p = gid) (admissionError ''queue_shared_identity_unavailable''))
                       (\<lambda>_. Inr before)) (\<lambda>owned.
         let stat = owned\<lparr>st_mode := 0x180\<rparr>
         in bindR (requireR (st_isFile stat \<and> st_nlink stat = 1 \<and> st_uid stat = uid \<and> st_gid stat = gid
                               \<and> st_mode stat = 0x180) (admissionError ''queue_shared_identity_unavailable''))
              (\<lambda>_. Inr stat))))"

definition ensureBackupQueueDirectoryOwnership :: "process_identity \<Rightarrow> (int \<times> int) option \<Rightarrow> fstat \<Rightarrow> fstat res" where
  "ensureBackupQueueDirectoryOwnership p identity before = (case identity of
       None \<Rightarrow> Inr before
     | Some (uid, gid) \<Rightarrow>
         bindR (requireR (st_isDirectory before) (admissionError ''queue_path_invalid'')) (\<lambda>_.
         bindR (if st_uid before \<noteq> uid \<or> st_gid before \<noteq> gid
                then bindR (requireR (p_euid p = 0) (admissionError ''queue_shared_identity_unavailable'')) (\<lambda>_.
                     bindR (requireR (st_uid before = 0 \<and> st_gid before = 0)
                              (admissionError ''queue_shared_identity_unavailable'')) (\<lambda>_.
                     Inr (before\<lparr>st_uid := uid, st_gid := gid\<rparr>)))
                else bindR (requireR (p_euid p = 0 \<or> p_euid p = uid \<and> p_egid p = gid)
                              (admissionError ''queue_shared_identity_unavailable'')) (\<lambda>_. Inr before)) (\<lambda>owned.
         let after = owned\<lparr>st_mode := 0x1C0\<rparr>
         in bindR (requireR (st_isDirectory after \<and> st_uid after = uid \<and> st_gid after = gid \<and> st_mode after = 0x1C0)
                     (admissionError ''queue_shared_identity_unavailable'')) (\<lambda>_. Inr after))))"

section \<open>Checked arguments\<close>

definition requirePrincipal :: "jsv \<Rightarrow> string res" where
  "requirePrincipal v =
     (let principal = js_trim (js_String (js_or v (JStr [])))
      in if principal_pattern principal \<and> length principal \<le> 200 then Inr principal
         else Inl (CodedError ''principal_invalid'' 403))"

definition requireJobId :: "jsv \<Rightarrow> string res" where
  "requireJobId v =
     (let jobId = js_trim (js_String (js_or v (JStr [])))
      in if identifier_pattern jobId then Inr jobId else Inl (CodedError ''job_id_invalid'' 422))"

definition requireLeaseKind :: "jsv \<Rightarrow> string res" where
  "requireLeaseKind v =
     (let kind = js_trim (js_String (js_or v (JStr [])))
      in if enclosed is_lower_alnum slug_char 62 kind then Inr kind
         else Inl (CodedError ''scheduler_lease_invalid'' 422))"

definition lease_id_pattern :: "string \<Rightarrow> bool" where
  "lease_id_pattern s \<longleftrightarrow> starts_with ''lease-'' s \<and> all_in is_hex_lower 32 32 (drop 6 s)"

definition lease_token_pattern :: "string \<Rightarrow> bool" where
  "lease_token_pattern s \<longleftrightarrow> all_in is_hex_lower 48 48 s"

text \<open>\<open>^(lease-[a-f0-9]{32})\.([a-f0-9]{48})$\<close>: the two groups have fixed lengths.\<close>

definition parseLeaseHandle :: "jsv \<Rightarrow> (string \<times> string) res" where
  "parseLeaseHandle v =
     (let s = js_String (js_or v (JStr [])); i = take 38 s; token = drop 39 s
      in if lease_id_pattern i \<and> take 1 (drop 38 s) = ''.'' \<and> lease_token_pattern token
         then Inr (i, token) else Inl (admissionError ''scheduler_lease_owner_mismatch''))"

text \<open>The clock is \<open>Date.now()\<close> or a \<open>Date\<close>: an integer number of milliseconds.\<close>

definition timestampMs :: "int \<Rightarrow> int res" where
  "timestampMs now = (if 0 \<le> now then Inr now else Inl (PlainError ''Invalid queue clock value.''))"

text \<open>\<open>new Date(t).toISOString()\<close>, which throws outside the time range of ECMAScript.\<close>

definition iso_of_ms :: "int \<Rightarrow> string res" where
  "iso_of_ms t = (if \<bar>t\<bar> \<le> 8640000000000000 then Inr (to_iso t) else Inl (PlainError ''Invalid time value''))"

section \<open>Which requests reach admission\<close>

lemma capability_text_inj: "capability_text c = ''owner:fresh'' \<longleftrightarrow> c = OwnerFresh"
  by (cases c) simp_all

lemma getp_operation_js [simp]:
  "getp (operation_js x) ''method'' = JStr (op_method x)"
  "getp (operation_js x) ''operationId'' = JStr (op_operationId x)"
  "getp (operation_js x) ''capability'' = JStr (capability_text (op_capability x))"
  "getp (operation_js x) ''canonicalPath'' = JStr (op_canonicalPath x)"
  "getp (operation_js x) ''classified'' = JBool (op_classified x)"
  "getp (operation_js x) ''control'' = JBool (op_control x)"
  "is_object (operation_js x)"
  by (simp_all add: operation_js_def)

lemma adapter_Inr:
  assumes "requireCanonicalBackupQueueOperation frozen (operation_js x) jobOperation = Inr r"
  shows "frozen" "op_classified x" "op_method x = ''POST''" "op_capability x = OwnerFresh"
    "\<exists>q. map_of QUEUE_OPERATIONS (op_operationId x) = Some q \<and> op_control x = qo_control q
       \<and> jobOperation \<in> set (qo_jobOperations q)"
    "starts_with ''/'' (op_canonicalPath x)"
  using assms unfolding requireCanonicalBackupQueueOperation_def bindR_eq_Inr requireR_eq
  by (auto simp: capability_text_inj split: option.splits if_splits)

text \<open>
  C25. What reaches queue admission: the adapter accepts a resolved operation only when the
  request is a POST that matched an owner-fresh route of the catalog, that route is one of the
  six queue producers with the control flag the table demands, and the job operation is one
  that producer may create.
\<close>

theorem only_privileged_producers_admitted:
  assumes "requireCanonicalBackupQueueOperation True (operation_js (resolveAuthorizationCapability m p raw)) jobOperation = Inr r"
  shows "request_verb m = ''POST''
    \<and> (\<exists>d \<in> set all_routes. rd_method d = ''POST'' \<and> rd_capability d = OwnerFresh
         \<and> op_operationId (resolveAuthorizationCapability m p raw) = rd_operationId d
         \<and> (\<exists>q. map_of QUEUE_OPERATIONS (rd_operationId d) = Some q \<and> jobOperation \<in> set (qo_jobOperations q)))"
proof -
  note a = adapter_Inr [OF assms]
  from a(5) obtain q where q: "map_of QUEUE_OPERATIONS (op_operationId (resolveAuthorizationCapability m p raw)) = Some q"
    "jobOperation \<in> set (qo_jobOperations q)" by blast
  from a(2) show ?thesis
  proof (rule classified_operation_route)
    fix d
    assume d: "d \<in> set all_routes" "rd_method d = request_verb m"
      "rd_operationId d = op_operationId (resolveAuthorizationCapability m p raw)"
      "rd_capability d = op_capability (resolveAuthorizationCapability m p raw)"
    have verb: "request_verb m = ''POST''" using a(3) unfolding resolve_method .
    show ?thesis
      by (intro conjI verb bexI [OF _ d(1)] exI [of _ q]) (simp_all only: d verb a(4) q)
  qed
qed

theorem only_privileged_producers_admitted_witness:
  "op_operationId (resolveAuthorizationCapability ''post'' ''/control/backups/run'' ''/control/backups/run'') = ''backup.run''
   \<and> request_verb ''post'' = ''POST''"
proof -
  have "case requireCanonicalBackupQueueOperation True
      (operation_js (resolveAuthorizationCapability ''post'' ''/control/backups/run'' ''/control/backups/run'')) ''backup''
      of Inl _ \<Rightarrow> False | Inr _ \<Rightarrow> True" by code_simp
  then obtain r where ok: "requireCanonicalBackupQueueOperation True
      (operation_js (resolveAuthorizationCapability ''post'' ''/control/backups/run'' ''/control/backups/run'')) ''backup'' = Inr r"
    by (auto split: sum.splits)
  have i: "op_operationId (resolveAuthorizationCapability ''post'' ''/control/backups/run'' ''/control/backups/run'') = ''backup.run''"
    by code_simp
  from only_privileged_producers_admitted [OF ok] i show ?thesis by blast
qed

text \<open>
  The adapter's table and the catalog agree: every queue producer is a route of the
  catalog, a POST with the owner-fresh capability, in the control catalog exactly when the
  table says so.
\<close>

theorem queue_producers_are_catalogued:
  "list_all (\<lambda>(i, q). list_ex (\<lambda>d. rd_operationId d = i \<and> rd_method d = ''POST'' \<and> rd_capability d = OwnerFresh)
      (if qo_control q then CONTROL_ROUTES else LEGACY_SENSITIVE_ROUTES)) QUEUE_OPERATIONS"
  by code_simp

section \<open>Bounds of an accepted policy\<close>

lemma boundedInteger_Inr: "boundedInteger v d lo hi l = Inr n \<Longrightarrow> lo \<le> n \<and> n \<le> hi"
  by (auto simp: boundedInteger_def split: option.splits if_splits)

definition policy_ok :: "queue_policy \<Rightarrow> bool" where
  "policy_ok P \<longleftrightarrow> 1 \<le> maxConcurrency P \<and> maxConcurrency P \<le> 64 \<and> maxConcurrency P \<le> maxOutstanding P
    \<and> maxOutstanding P \<le> 1024 \<and> 1 \<le> maxPerPrincipal P \<and> maxPerPrincipal P \<le> 256
    \<and> 1000 \<le> principalWindowMs P \<and> principalWindowMs P \<le> 604800000
    \<and> 1 \<le> maxTerminalPerStatus P \<and> maxTerminalPerStatus P \<le> 10000
    \<and> 60000 \<le> terminalMaxAgeMs P \<and> terminalMaxAgeMs P \<le> 31536000000
    \<and> 16 \<le> maxLedgerEntries P \<and> maxLedgerEntries P \<le> 100000
    \<and> 32 \<le> maxScanEntries P \<and> maxScanEntries P \<le> 100000 \<and> 0 \<le> lockTimeoutMs P \<and> lockTimeoutMs P \<le> 30000"

lemma policy_bounds:
  assumes "normalizeBackupQueuePolicy input = Inr P"
  shows "policy_ok P"
proof -
  from assms obtain a b c d e f g h i where
    n: "boundedInteger (getp input ''maxOutstanding'') 32 1 1024 ''max outstanding jobs'' = Inr a"
    "boundedInteger (getp input ''maxPerPrincipal'') 4 1 256 ''per-principal admissions'' = Inr b"
    "boundedInteger (getp input ''principalWindowMs'') (15 * 60 * 1000) 1000 (7 * 24 * 60 * 60 * 1000) ''principal rate window'' = Inr c"
    "boundedInteger (getp input ''maxConcurrency'') 1 1 64 ''scheduler concurrency'' = Inr d"
    "boundedInteger (getp input ''maxTerminalPerStatus'') 200 1 10000 ''terminal retention count'' = Inr e"
    "boundedInteger (getp input ''terminalMaxAgeMs'') (30 * 24 * 60 * 60 * 1000) (60 * 1000) (365 * 24 * 60 * 60 * 1000) ''terminal retention age'' = Inr f"
    "boundedInteger (getp input ''maxLedgerEntries'') 4096 16 100000 ''admission ledger entries'' = Inr g"
    "boundedInteger (getp input ''maxScanEntries'') 4096 32 100000 ''queue scan entries'' = Inr h"
    "boundedInteger (getp input ''lockTimeoutMs'') 2000 0 30000 ''queue lock timeout'' = Inr i"
    and le: "d \<le> a"
    and P: "P = \<lparr>maxOutstanding = a, maxPerPrincipal = b, principalWindowMs = c, maxConcurrency = d,
           maxTerminalPerStatus = e, terminalMaxAgeMs = f, maxLedgerEntries = g, maxScanEntries = h,
           lockTimeoutMs = i\<rparr>"
    by (auto simp only: normalizeBackupQueuePolicy_def bindR_eq_Inr requireR_eq sum.inject)
  show ?thesis
    using n [THEN boundedInteger_Inr] le by (simp add: P policy_ok_def)
qed

text \<open>
  Every accepted policy is within its fixed bounds, whatever the environment holds: at
  least one job and at most 1024 outstanding, between one and 64 executing and never more
  than outstanding, a bounded ledger, inventory, retention and lock wait.
\<close>

theorem accepted_policy_bounds:
  assumes "backupQueuePolicyFromEnvironment env = Inr P"
  shows "1 \<le> maxConcurrency P \<and> maxConcurrency P \<le> 64 \<and> maxConcurrency P \<le> maxOutstanding P
    \<and> maxOutstanding P \<le> 1024 \<and> 1 \<le> maxPerPrincipal P \<and> maxPerPrincipal P \<le> 256
    \<and> 1000 \<le> principalWindowMs P \<and> principalWindowMs P \<le> 604800000
    \<and> 1 \<le> maxTerminalPerStatus P \<and> maxTerminalPerStatus P \<le> 10000
    \<and> 60000 \<le> terminalMaxAgeMs P \<and> terminalMaxAgeMs P \<le> 31536000000
    \<and> 16 \<le> maxLedgerEntries P \<and> maxLedgerEntries P \<le> 100000
    \<and> 32 \<le> maxScanEntries P \<and> maxScanEntries P \<le> 100000 \<and> 0 \<le> lockTimeoutMs P \<and> lockTimeoutMs P \<le> 30000"
  using policy_bounds [OF assms [unfolded backupQueuePolicyFromEnvironment_def]]
  by (simp add: policy_ok_def)

lemma accepted_policy_bounds_example:
  "\<exists>P. backupQueuePolicyFromEnvironment (JObj [(''BACKUP_QUEUE_MAX_CONCURRENCY'', JStr ''2''),
        (''BACKUP_QUEUE_RATE_WINDOW_SECONDS'', JStr ''90'')]) = Inr P
     \<and> maxConcurrency P \<le> maxOutstanding P \<and> principalWindowMs P = 90000"
proof -
  let ?env = "JObj [(''BACKUP_QUEUE_MAX_CONCURRENCY'', JStr ''2''), (''BACKUP_QUEUE_RATE_WINDOW_SECONDS'', JStr ''90'')]"
  let ?P = "\<lparr>maxOutstanding = 32, maxPerPrincipal = 4, principalWindowMs = 90000, maxConcurrency = 2,
    maxTerminalPerStatus = 200, terminalMaxAgeMs = 2592000000, maxLedgerEntries = 4096, maxScanEntries = 4096, lockTimeoutMs = 2000\<rparr>"
  have ok: "backupQueuePolicyFromEnvironment ?env = Inr ?P" by code_simp
  from accepted_policy_bounds [OF ok] ok show ?thesis by simp
qed

section \<open>Ownership handoff\<close>

text \<open>
  A handoff that succeeds under a shared identity leaves the file with that owner and mode
  0600, the directory with that owner and mode 0700; the owner changes only when the process
  is root and the previous owner was root or already the shared identity, so nothing is taken
  from a third owner.
\<close>

theorem handoff_never_takes_foreign_ownership:
  assumes "applyBackupQueueFileOwnership p (Some (uid, gid)) f = Inr f'"
    and "ensureBackupQueueDirectoryOwnership p (Some (uid, gid)) d = Inr d'"
  shows "st_uid f' = uid \<and> st_gid f' = gid \<and> st_mode f' = 0x180 \<and> st_uid d' = uid \<and> st_gid d' = gid \<and> st_mode d' = 0x1C0
    \<and> (\<forall>x x'. (x, x') \<in> {(f, f'), (d, d')} \<and> (st_uid x', st_gid x') \<noteq> (st_uid x, st_gid x)
         \<longrightarrow> p_euid p = 0 \<and> st_uid x = 0 \<and> st_gid x = 0)"
  using assms
  by (auto simp: applyBackupQueueFileOwnership_def ensureBackupQueueDirectoryOwnership_def Let_def res_simps split: if_splits)

lemma handoff_never_takes_foreign_ownership_example:
  "applyBackupQueueFileOwnership \<lparr>p_euid = 0, p_egid = 0\<rparr> (Some (1000, 1001))
       \<lparr>st_isFile = True, st_isDirectory = False, st_nlink = 1, st_uid = 42, st_gid = 0, st_mode = 0\<rparr>
     = Inl (admissionError ''queue_shared_identity_unavailable'')
   \<and> (\<exists>f' d'. applyBackupQueueFileOwnership \<lparr>p_euid = 0, p_egid = 0\<rparr> (Some (1000, 1001))
        \<lparr>st_isFile = True, st_isDirectory = False, st_nlink = 1, st_uid = 0, st_gid = 0, st_mode = 0x1A4\<rparr> = Inr f'
      \<and> ensureBackupQueueDirectoryOwnership \<lparr>p_euid = 0, p_egid = 0\<rparr> (Some (1000, 1001))
        \<lparr>st_isFile = False, st_isDirectory = True, st_nlink = 2, st_uid = 1000, st_gid = 1001, st_mode = 0x1FF\<rparr> = Inr d'
      \<and> st_uid f' = 1000 \<and> st_mode f' = 0x180 \<and> st_mode d' = 0x1C0)"
proof -
  have refused: "applyBackupQueueFileOwnership \<lparr>p_euid = 0, p_egid = 0\<rparr> (Some (1000, 1001))
       \<lparr>st_isFile = True, st_isDirectory = False, st_nlink = 1, st_uid = 42, st_gid = 0, st_mode = 0\<rparr>
     = Inl (admissionError ''queue_shared_identity_unavailable'')" by code_simp
  have f: "applyBackupQueueFileOwnership \<lparr>p_euid = 0, p_egid = 0\<rparr> (Some (1000, 1001))
        \<lparr>st_isFile = True, st_isDirectory = False, st_nlink = 1, st_uid = 0, st_gid = 0, st_mode = 0x1A4\<rparr>
      = Inr \<lparr>st_isFile = True, st_isDirectory = False, st_nlink = 1, st_uid = 1000, st_gid = 1001, st_mode = 0x180\<rparr>"
    by code_simp
  have d: "ensureBackupQueueDirectoryOwnership \<lparr>p_euid = 0, p_egid = 0\<rparr> (Some (1000, 1001))
        \<lparr>st_isFile = False, st_isDirectory = True, st_nlink = 2, st_uid = 1000, st_gid = 1001, st_mode = 0x1FF\<rparr>
      = Inr \<lparr>st_isFile = False, st_isDirectory = True, st_nlink = 2, st_uid = 1000, st_gid = 1001, st_mode = 0x1C0\<rparr>"
    by code_simp
  from handoff_never_takes_foreign_ownership [OF f d] refused f d show ?thesis by simp
qed

end
