(* ===== verification/BackupQueue.thy ===== *)
theory BackupQueue
  imports BackupQueuePolicy
begin

text \<open>
  The durable backup queue, \<open>control-center/backup/queue-admission.mjs\<close>: admission, claiming,
  scheduler leases, finishing, marking an outcome unknown and pruning, each under the queue's
  directory lock.

  The state \<open>qfs\<close> is what the queue root, the log root and the lock hold. A directory is the
  list of its entries in \<open>readdir\<close> order; a regular file holds its JSON value, or \<open>None\<close>
  when it is not JSON. Every system call that changes a file may fail: the next element of
  \<open>q_faults\<close> decides, and an empty list means that nothing fails. Reads fail only by what
  they find. Files and directories the process creates belong to it; the ownership handoff of
  each is the one of \<open>BackupQueuePolicy\<close>.

  A lock that is held when a call starts is held until its timeout: an execution in which the
  holder releases it during the wait is the execution in which the call starts later. Job
  documents are read by the core contract, with no host extension installed.
\<close>

section \<open>Files\<close>

datatype jstatus = Queued | Running | Done | Failed

fun status_name :: "jstatus \<Rightarrow> string" where
  "status_name Queued = ''queued''"
| "status_name Running = ''running''"
| "status_name Done = ''done''"
| "status_name Failed = ''failed''"

definition STATUS_NAMES :: "jstatus list" where
  "STATUS_NAMES = [Queued, Running, Done, Failed]"

definition TERMINAL_STATUS_NAMES :: "jstatus list" where
  "TERMINAL_STATUS_NAMES = [Done, Failed]"

definition LEDGER_SCHEMA :: string where
  "LEDGER_SCHEMA = ''platform.backup-queue-admissions/v1''"

definition LEASE_SCHEMA :: string where
  "LEASE_SCHEMA = ''platform.backup-scheduler-lease/v1''"

text \<open>
  \<open>OtherNode b\<close> is anything but a regular file; \<open>b\<close> is what \<open>existsSync\<close> says of it,
  which is false for a dangling link.
\<close>

datatype fnode = RegularFile "jsv option" | OtherNode bool

type_synonym dir = "(string \<times> fnode) list"

datatype dirnode = NoDir | RealDir fstat dir | NotDir

text \<open>The lock directory with the token of its \<open>owner.json\<close>, if that can be read.\<close>

datatype locknode = NoLock | LockDir "string option" | LockOther

record qfs =
  q_root :: dirnode
  q_jobs :: "jstatus \<Rightarrow> dirnode"
  q_leases :: dirnode
  q_ledger :: "fnode option"
  q_logs :: dirnode
  q_lock :: locknode
  q_faults :: "bool list"

text \<open>What a call sees of its process: clock, environment, identity, random values, directories.\<close>

record qenv =
  e_rt :: runtime
  e_clock :: int
  e_env :: jsv
  e_proc :: process_identity
  e_pid :: int
  e_cwd :: string
  e_token :: string
  e_leaseId :: string
  e_leaseToken :: string
  e_jobsDir :: string
  e_logDir :: string

fun dir_entries :: "dirnode \<Rightarrow> dir" where
  "dir_entries (RealDir st d) = d"
| "dir_entries _ = []"

fun on_dir :: "(dir \<Rightarrow> dir) \<Rightarrow> dirnode \<Rightarrow> dirnode" where
  "on_dir f (RealDir st d) = RealDir st (f d)"
| "on_dir f n = n"

fun dput :: "string \<Rightarrow> fnode \<Rightarrow> dir \<Rightarrow> dir" where
  "dput k v [] = [(k, v)]"
| "dput k v ((k', v') # ps) = (if k = k' then (k, v) # ps else (k', v') # dput k v ps)"

definition ddel :: "string \<Rightarrow> dir \<Rightarrow> dir" where
  "ddel k d = filter (\<lambda>p. fst p \<noteq> k) d"

definition job_node :: "qfs \<Rightarrow> jstatus \<Rightarrow> string \<Rightarrow> fnode option" where
  "job_node s st name = map_of (dir_entries (q_jobs s st)) name"

fun node_exists :: "fnode option \<Rightarrow> bool" where
  "node_exists None = False"
| "node_exists (Some (RegularFile c)) = True"
| "node_exists (Some (OtherNode b)) = b"

definition on_jobs :: "jstatus \<Rightarrow> (dir \<Rightarrow> dir) \<Rightarrow> qfs \<Rightarrow> qfs" where
  "on_jobs st f s = s\<lparr>q_jobs := (q_jobs s)(st := on_dir f (q_jobs s st))\<rparr>"

text \<open>\<open>readdirSync\<close>, which throws unless the path is a directory.\<close>

fun readdir :: "dirnode \<Rightarrow> string list res" where
  "readdir (RealDir st d) = Inr (map fst d)"
| "readdir _ = Inl (PlainError ''ENOENT'')"

definition json_names :: "string list \<Rightarrow> string list" where
  "json_names names = filter (ends_with ''.json'') names"

text \<open>A system call that changes files: the next fault decides whether it fails.\<close>

definition sysS :: "(qfs \<Rightarrow> qfs) \<Rightarrow> (qfs, unit) sx" where
  "sysS f = (\<lambda>s. case q_faults s of
     [] \<Rightarrow> (Inr (), f s)
   | b # bs \<Rightarrow> (if b then (Inl (PlainError ''EIO''), s\<lparr>q_faults := bs\<rparr>) else (Inr (), f (s\<lparr>q_faults := bs\<rparr>))))"

definition shared_identity :: "qenv \<Rightarrow> (int \<times> int) option res" where
  "shared_identity E = backupQueueSharedIdentityFromEnvironment (e_env E)"

definition fresh_file :: "qenv \<Rightarrow> fstat" where
  "fresh_file E = \<lparr>st_isFile = True, st_isDirectory = False, st_nlink = 1, st_uid = p_euid (e_proc E),
     st_gid = p_egid (e_proc E), st_mode = 0x180\<rparr>"

definition fresh_dir :: "qenv \<Rightarrow> fstat" where
  "fresh_dir E = \<lparr>st_isFile = False, st_isDirectory = True, st_nlink = 2, st_uid = p_euid (e_proc E),
     st_gid = p_egid (e_proc E), st_mode = 0x1C0\<rparr>"

definition ensureRealDirectory :: "qenv \<Rightarrow> (qfs \<Rightarrow> dirnode) \<Rightarrow> (dirnode \<Rightarrow> qfs \<Rightarrow> qfs) \<Rightarrow> (qfs, unit) sx" where
  "ensureRealDirectory E node put =
     bindS (liftS (shared_identity E)) (\<lambda>identity.
     bindS getS (\<lambda>s.
     bindS (case node s of NoDir \<Rightarrow> sysS (put (RealDir (fresh_dir E) [])) | _ \<Rightarrow> returnS ()) (\<lambda>_.
     bindS getS (\<lambda>s'.
     case node s' of
       RealDir st d \<Rightarrow> bindS (liftS (ensureBackupQueueDirectoryOwnership (e_proc E) identity st))
                        (\<lambda>st'. modifyS (put (RealDir st' d)))
     | _ \<Rightarrow> throwS (admissionError ''queue_path_invalid'')))))"

definition ensure_status_dir :: "qenv \<Rightarrow> jstatus \<Rightarrow> (qfs, unit) sx" where
  "ensure_status_dir E st = ensureRealDirectory E (\<lambda>s. q_jobs s st) (\<lambda>n s. s\<lparr>q_jobs := (q_jobs s)(st := n)\<rparr>)"

definition prepareQueueRoot :: "qenv \<Rightarrow> (qfs, unit) sx" where
  "prepareQueueRoot E =
     bindS (requireS (js_trim (e_jobsDir E) \<noteq> []) (admissionError ''queue_root_missing'')) (\<lambda>_.
     bindS (ensureRealDirectory E q_root (\<lambda>n s. s\<lparr>q_root := n\<rparr>)) (\<lambda>_.
     bindS (ensure_status_dir E Queued) (\<lambda>_.
     bindS (ensure_status_dir E Running) (\<lambda>_.
     bindS (ensure_status_dir E Done) (\<lambda>_.
     bindS (ensure_status_dir E Failed) (\<lambda>_.
     ensureRealDirectory E q_leases (\<lambda>n s. s\<lparr>q_leases := n\<rparr>)))))))"

text \<open>
  \<open>writeJsonAtomic\<close>: temporary file, handoff, and the rename that makes the value visible;
  before the rename nothing visible changes.
\<close>

definition writeJsonAtomic :: "qenv \<Rightarrow> (qfs \<Rightarrow> bool) \<Rightarrow> (qfs \<Rightarrow> qfs) \<Rightarrow> (qfs, unit) sx" where
  "writeJsonAtomic E taken write =
     bindS (liftS (shared_identity E)) (\<lambda>identity.
     bindS (sysS (\<lambda>s. s)) (\<lambda>_.
     bindS (liftS (applyBackupQueueFileOwnership (e_proc E) identity (fresh_file E))) (\<lambda>_.
     bindS (sysS (\<lambda>s. s)) (\<lambda>_.
     bindS getS (\<lambda>s.
     bindS (requireS (\<not> taken s) (CodedError ''job_id_conflict'' 409)) (\<lambda>_.
     sysS write))))))"

definition writeJsonExclusiveAtomic :: "qenv \<Rightarrow> (qfs \<Rightarrow> bool) \<Rightarrow> (qfs \<Rightarrow> qfs) \<Rightarrow> (qfs, unit) sx" where
  "writeJsonExclusiveAtomic E taken write =
     bindS getS (\<lambda>s.
     bindS (requireS (\<not> taken s) (CodedError ''job_id_conflict'' 409)) (\<lambda>_.
     writeJsonAtomic E taken write))"

definition put_job :: "jstatus \<Rightarrow> string \<Rightarrow> jsv \<Rightarrow> qfs \<Rightarrow> qfs" where
  "put_job st name v = on_jobs st (dput name (RegularFile (Some v)))"

definition del_job :: "jstatus \<Rightarrow> string \<Rightarrow> qfs \<Rightarrow> qfs" where
  "del_job st name = on_jobs st (ddel name)"

text \<open>\<open>renameSync\<close> between two status directories replaces the target; a missing source is an error.\<close>

definition move_job :: "jstatus \<Rightarrow> jstatus \<Rightarrow> string \<Rightarrow> (qfs, unit) sx" where
  "move_job st st' name = bindS getS (\<lambda>s. case job_node s st name of
       None \<Rightarrow> throwS (PlainError ''ENOENT'')
     | Some node \<Rightarrow> sysS (\<lambda>u. on_jobs st' (dput name node) (on_jobs st (ddel name) u)))"

section \<open>The lock\<close>

definition acquire_lock :: "qenv \<Rightarrow> (qfs, unit) sx" where
  "acquire_lock E = bindS getS (\<lambda>s. case q_lock s of
       LockOther \<Rightarrow> throwS (admissionError ''queue_lock_invalid'')
     | LockDir _ \<Rightarrow> throwS (admissionError ''queue_busy'')
     | NoLock \<Rightarrow> catchS
         (bindS (sysS (\<lambda>s. s\<lparr>q_lock := LockDir None\<rparr>)) (\<lambda>_.
          bindS (liftS (shared_identity E)) (\<lambda>identity.
          bindS (liftS (ensureBackupQueueDirectoryOwnership (e_proc E) identity (fresh_dir E))) (\<lambda>_.
          returnS ()))))
         (\<lambda>_. throwS (admissionError ''queue_lock_failed'')))"

definition write_owner :: "qenv \<Rightarrow> (qfs, unit) sx" where
  "write_owner E =
     bindS (liftS (shared_identity E)) (\<lambda>identity.
     bindS (sysS (\<lambda>s. s)) (\<lambda>_.
     bindS (sysS (\<lambda>s. s\<lparr>q_lock := LockDir (Some (e_token E))\<rparr>)) (\<lambda>_.
     bindS (liftS (applyBackupQueueFileOwnership (e_proc E) identity (fresh_file E))) (\<lambda>_.
     sysS (\<lambda>s. s)))))"

definition release_lock :: "qenv \<Rightarrow> (qfs, unit) sx" where
  "release_lock E = catchS
     (bindS getS (\<lambda>s.
      bindS (requireS (q_lock s = LockDir (Some (e_token E))) (PlainError ''lock owner mismatch'')) (\<lambda>_.
      bindS (sysS (\<lambda>s. s\<lparr>q_lock := LockDir None\<rparr>)) (\<lambda>_.
      sysS (\<lambda>s. s\<lparr>q_lock := NoLock\<rparr>)))))
     (\<lambda>_. throwS (admissionError ''queue_lock_release_failed''))"

definition withQueueLock :: "qenv \<Rightarrow> (qfs, 'a) sx \<Rightarrow> (qfs, 'a) sx" where
  "withQueueLock E action =
     bindS (acquire_lock E) (\<lambda>_. finallyS (bindS (write_owner E) (\<lambda>_. action)) (release_lock E))"

section \<open>Reading the queue\<close>

definition active_identity :: "job \<Rightarrow> jsv" where
  "active_identity j = JObj [(''operation'', JStr (j_operation j)), (''scope'', scope_js (j_scope j)),
     (''resourceIds'', JArr (map JStr (sort (map r_id (j_resources j))))),
     (''sourceManifestPath'', JStr (case j_sourceManifestPath j of None \<Rightarrow> [] | Some p \<Rightarrow> p))]"

definition canonicalBackupActiveKey :: "qenv \<Rightarrow> jsv \<Rightarrow> string res" where
  "canonicalBackupActiveKey E input =
     bindR (parseBackupJobDocument (e_rt E) (e_clock E) input) (\<lambda>j.
     Inr (rt_sha256 (e_rt E) (json_stringify (active_identity j))))"

record queue_entry =
  en_name :: string
  en_raw :: jsv
  en_job :: job
  en_activeKey :: string

definition readQueueEntry :: "qenv \<Rightarrow> jstatus \<Rightarrow> string \<Rightarrow> fnode option \<Rightarrow> queue_entry option res" where
  "readQueueEntry E expected name node =
     (if \<not> node_exists node then Inr None
      else (case node of
        Some (RegularFile (Some raw)) \<Rightarrow>
          (case parseBackupJobDocument (e_rt E) (e_clock E) raw of
             Inl _ \<Rightarrow> Inl (admissionError ''queue_entry_invalid'')
           | Inr job \<Rightarrow>
               bindR (requireR (j_status job = status_name expected) (admissionError ''queue_state_mismatch'')) (\<lambda>_.
               bindR (requireR (name = j_id job @ ''.json'') (admissionError ''queue_filename_mismatch'')) (\<lambda>_.
               bindR (canonicalBackupActiveKey E (job_js job)) (\<lambda>key.
               Inr (Some \<lparr>en_name = name, en_raw = raw, en_job = job, en_activeKey = key\<rparr>)))))
      | _ \<Rightarrow> Inl (admissionError ''queue_entry_invalid'')))"

definition read_present :: "js_error \<Rightarrow> qenv \<Rightarrow> qfs \<Rightarrow> jstatus \<Rightarrow> string \<Rightarrow> queue_entry res" where
  "read_present missing E s st name =
     bindR (readQueueEntry E st name (job_node s st name)) (\<lambda>e.
     case e of None \<Rightarrow> Inl missing | Some x \<Rightarrow> Inr x)"

fun read_statuses :: "qenv \<Rightarrow> int \<Rightarrow> qfs \<Rightarrow> int \<Rightarrow> jstatus list \<Rightarrow> ((jstatus \<times> queue_entry list) list \<times> int) res" where
  "read_statuses E bound s seen [] = Inr ([], seen)"
| "read_statuses E bound s seen (st # sts) =
     bindR (readdir (q_jobs s st)) (\<lambda>all.
     let names = sort (json_names all); seen' = seen + int (length names)
     in bindR (requireR (seen' \<le> bound) (admissionError ''queue_scan_bound'')) (\<lambda>_.
        bindR (mapR (read_present (admissionError ''queue_entry_missing'') E s st) names) (\<lambda>es.
        bindR (read_statuses E bound s seen' sts) (\<lambda>(rest, total).
        Inr ((st, es) # rest, total)))))"

record sched_lease =
  le_id :: string
  le_token :: string
  le_kind :: string
  le_pid :: int
  le_createdAt :: string

definition readSchedulerLease :: "qenv \<Rightarrow> fnode option \<Rightarrow> sched_lease option res" where
  "readSchedulerLease E node =
     (if \<not> node_exists node then Inr None
      else (case node of
        Some (RegularFile (Some source)) \<Rightarrow>
          bindR (requireR (getp source ''schema'' = JStr LEASE_SCHEMA) (admissionError ''scheduler_lease_invalid'')) (\<lambda>_.
          let i = js_String (js_or (getp source ''id'') (JStr []));
              token = js_String (js_or (getp source ''token'') (JStr []))
          in bindR (requireLeaseKind (getp source ''kind'')) (\<lambda>kind.
             case (rt_date (e_rt E) (getp source ''createdAt''),
                   case getp source ''pid'' of JNum n \<Rightarrow> safe_int n | _ \<Rightarrow> None) of
               (Some t, Some pid) \<Rightarrow>
                 if lease_id_pattern i \<and> lease_token_pattern token \<and> 1 \<le> pid
                 then Inr (Some \<lparr>le_id = i, le_token = token, le_kind = kind, le_pid = pid, le_createdAt = to_iso t\<rparr>)
                 else Inl (admissionError ''scheduler_lease_invalid'')
             | _ \<Rightarrow> Inl (admissionError ''scheduler_lease_invalid'')))
      | _ \<Rightarrow> Inl (admissionError ''scheduler_lease_invalid'')))"

definition read_named_lease :: "qenv \<Rightarrow> qfs \<Rightarrow> string \<Rightarrow> sched_lease res" where
  "read_named_lease E s name =
     bindR (readSchedulerLease E (map_of (dir_entries (q_leases s)) name)) (\<lambda>l. case l of
         Some x \<Rightarrow> if name = le_id x @ ''.json'' then Inr x else Inl (admissionError ''scheduler_lease_invalid'')
       | None \<Rightarrow> Inl (admissionError ''scheduler_lease_invalid''))"

definition readSchedulerLeases :: "qenv \<Rightarrow> queue_policy \<Rightarrow> qfs \<Rightarrow> sched_lease list res" where
  "readSchedulerLeases E P s =
     bindR (readdir (q_leases s)) (\<lambda>all.
     let names = sort (json_names all)
     in bindR (requireR (int (length names) \<le> maxScanEntries P) (admissionError ''queue_scan_bound'')) (\<lambda>_.
        mapR (read_named_lease E s) names))"

record queue_snapshot =
  sn_jobs :: "(jstatus \<times> queue_entry list) list"
  sn_leases :: "sched_lease list"

definition sn_at :: "queue_snapshot \<Rightarrow> jstatus \<Rightarrow> queue_entry list" where
  "sn_at sn st = (case map_of (sn_jobs sn) st of None \<Rightarrow> [] | Some es \<Rightarrow> es)"

definition readQueueSnapshot :: "qenv \<Rightarrow> queue_policy \<Rightarrow> qfs \<Rightarrow> queue_snapshot res" where
  "readQueueSnapshot E P s =
     bindR (read_statuses E (maxScanEntries P) s 0 STATUS_NAMES) (\<lambda>(jobs, seen).
     bindR (readSchedulerLeases E P s) (\<lambda>leases.
     bindR (requireR (seen + int (length leases) \<le> maxScanEntries P) (admissionError ''queue_scan_bound'')) (\<lambda>_.
     Inr \<lparr>sn_jobs = jobs, sn_leases = leases\<rparr>)))"

definition snapshotS :: "qenv \<Rightarrow> queue_policy \<Rightarrow> (qfs, queue_snapshot) sx" where
  "snapshotS E P = bindS getS (\<lambda>s. liftS (readQueueSnapshot E P s))"

section \<open>The admission ledger\<close>

record ledger_event =
  ev_admittedAt :: string
  ev_principal :: string
  ev_jobId :: string
  ev_activeKey :: jsv
  ev_routeOperationId :: jsv

definition event_js :: "ledger_event \<Rightarrow> jsv" where
  "event_js ev = JObj [(''admittedAt'', JStr (ev_admittedAt ev)), (''principal'', JStr (ev_principal ev)),
     (''jobId'', JStr (ev_jobId ev)), (''activeKey'', ev_activeKey ev), (''routeOperationId'', ev_routeOperationId ev)]"

definition ledger_js :: "ledger_event list \<Rightarrow> jsv" where
  "ledger_js evs = JObj [(''schema'', JStr LEDGER_SCHEMA), (''events'', JArr (map event_js evs))]"

definition route_id_pattern :: "string \<Rightarrow> bool" where
  "route_id_pattern s \<longleftrightarrow> s \<noteq> [] \<and> is_lower (hd s)
     \<and> all_in (\<lambda>c. is_lower_alnum c \<or> c = CHR ''.'' \<or> c = CHR ''-'') 1 79 (tl s)"

definition validateLedgerEvent :: "qenv \<Rightarrow> jsv \<Rightarrow> ledger_event res" where
  "validateLedgerEvent E event =
     bindR (requireR (is_object event) (admissionError ''admission_ledger_invalid'')) (\<lambda>_.
     case rt_date (e_rt E) (getp event ''admittedAt'') of
       None \<Rightarrow> Inl (admissionError ''admission_ledger_invalid'')
     | Some t \<Rightarrow>
         bindR (requirePrincipal (getp event ''principal'')) (\<lambda>principal.
         bindR (requireJobId (getp event ''jobId'')) (\<lambda>jobId.
         bindR (requireR (hex64 (js_String (js_or (getp event ''activeKey'') (JStr []))))
                  (admissionError ''admission_ledger_invalid'')) (\<lambda>_.
         bindR (requireR (route_id_pattern (js_String (js_or (getp event ''routeOperationId'') (JStr []))))
                  (admissionError ''admission_ledger_invalid'')) (\<lambda>_.
         Inr \<lparr>ev_admittedAt = to_iso t, ev_principal = principal, ev_jobId = jobId,
               ev_activeKey = getp event ''activeKey'', ev_routeOperationId = getp event ''routeOperationId''\<rparr>)))))"

definition in_window :: "qenv \<Rightarrow> queue_policy \<Rightarrow> int \<Rightarrow> ledger_event \<Rightarrow> bool" where
  "in_window E P now ev \<longleftrightarrow> (case rt_date (e_rt E) (JStr (ev_admittedAt ev)) of
     None \<Rightarrow> False | Some t \<Rightarrow> now - t < principalWindowMs P)"

definition put_ledger :: "ledger_event list \<Rightarrow> qfs \<Rightarrow> qfs" where
  "put_ledger evs s = s\<lparr>q_ledger := Some (RegularFile (Some (ledger_js evs)))\<rparr>"

definition ledger_source :: "qfs \<Rightarrow> jsv option res" where
  "ledger_source s =
     (if \<not> node_exists (q_ledger s) then Inr None
      else (case q_ledger s of
        Some (RegularFile (Some source)) \<Rightarrow> Inr (Some source)
      | _ \<Rightarrow> Inl (admissionError ''admission_ledger_invalid'')))"

definition readAdmissionLedger :: "qenv \<Rightarrow> queue_policy \<Rightarrow> int \<Rightarrow> (qfs, ledger_event list) sx" where
  "readAdmissionLedger E P now =
     bindS getS (\<lambda>s.
     bindS (liftS (ledger_source s)) (\<lambda>src. case src of
         None \<Rightarrow> returnS []
       | Some source \<Rightarrow>
          (case getp source ''events'' of
             JArr evs \<Rightarrow>
               bindS (requireS (getp source ''schema'' = JStr LEDGER_SCHEMA) (admissionError ''admission_ledger_invalid'')) (\<lambda>_.
               bindS (requireS (int (length evs) \<le> maxLedgerEntries P) (admissionError ''admission_ledger_full'')) (\<lambda>_.
               bindS (liftS (mapR (validateLedgerEvent E) evs)) (\<lambda>valid.
               let events = filter (in_window E P now) valid
               in bindS (if length events \<noteq> length evs
                         then writeJsonAtomic E (\<lambda>_. False) (put_ledger events) else returnS ()) (\<lambda>_.
                  returnS events))))
           | _ \<Rightarrow> throwS (admissionError ''admission_ledger_invalid''))))"

section \<open>Pruning\<close>

text \<open>\<open>path.resolve\<close> and \<open>path.join\<close> of a resolved root with a name.\<close>

definition resolve_posix :: "string \<Rightarrow> string \<Rightarrow> string" where
  "resolve_posix cwd p = ''/'' @ join ''/'' (normalize_segments []
     (split_on CHR ''/'' (if starts_with ''/'' p then p else cwd @ ''/'' @ p)))"

definition join_path :: "string \<Rightarrow> string \<Rightarrow> string" where
  "join_path root name = (if root = ''/'' then ''/'' @ name else root @ ''/'' @ name)"

definition log_name :: "string \<Rightarrow> string" where
  "log_name jobId = ''manual-backup-'' @ jobId @ ''.log''"

definition safeJobLogPath :: "qenv \<Rightarrow> string \<Rightarrow> (qfs, string) sx" where
  "safeJobLogPath E jobId =
     bindS (requireS (js_trim (e_logDir E) \<noteq> []) (admissionError ''log_root_missing'')) (\<lambda>_.
     bindS (ensureRealDirectory E q_logs (\<lambda>n s. s\<lparr>q_logs := n\<rparr>)) (\<lambda>_.
     bindS (liftS (requireJobId (JStr jobId))) (\<lambda>i.
     returnS (join_path (resolve_posix (e_cwd E) (e_logDir E)) (log_name i)))))"

text \<open>The log a terminal job owns, by its name in the log root.\<close>

definition ownedJobLogPath :: "qenv \<Rightarrow> string \<Rightarrow> jsv \<Rightarrow> (qfs, string option) sx" where
  "ownedJobLogPath E jobId candidate =
     bindS (safeJobLogPath E jobId) (\<lambda>expected.
     bindS getS (\<lambda>s.
     let node = map_of (dir_entries (q_logs s)) (log_name jobId)
     in if resolve_posix (e_cwd E) (js_String candidate) \<noteq> expected \<or> \<not> node_exists node then returnS None
        else (case node of Some (RegularFile _) \<Rightarrow> returnS (Some (log_name jobId))
              | _ \<Rightarrow> throwS (admissionError ''job_log_invalid''))))"

definition terminalTime :: "qenv \<Rightarrow> job \<Rightarrow> int res" where
  "terminalTime E j =
     (let v = (case j_finishedAt j of Some s \<Rightarrow> if s \<noteq> [] then s else j_updatedAt j | None \<Rightarrow> j_updatedAt j)
      in case rt_date (e_rt E) (JStr (if v = [] then j_createdAt j else v)) of
           Some t \<Rightarrow> Inr t | None \<Rightarrow> Inl (admissionError ''queue_entry_invalid''))"

definition terminal_order :: "qenv \<Rightarrow> int \<times> queue_entry \<Rightarrow> int \<times> queue_entry \<Rightarrow> int" where
  "terminal_order E l r = (if fst r - fst l \<noteq> 0 then fst r - fst l
     else rt_localeCompare (e_rt E) (en_name (snd r)) (en_name (snd l)))"

text \<open>\<open>entries.filter((entry, index) => ...)\<close> from an index on.\<close>

fun expired :: "queue_policy \<Rightarrow> int \<Rightarrow> int \<Rightarrow> (int \<times> queue_entry) list \<Rightarrow> queue_entry list" where
  "expired P now i [] = []"
| "expired P now i ((t, e) # es) =
     (if now - t > terminalMaxAgeMs P \<or> i \<ge> maxTerminalPerStatus P
      then e # expired P now (i + 1) es else expired P now (i + 1) es)"

definition remove_log :: "string option \<Rightarrow> (qfs, unit) sx" where
  "remove_log log = (case log of None \<Rightarrow> returnS ()
     | Some name \<Rightarrow> sysS (\<lambda>s. s\<lparr>q_logs := on_dir (ddel name) (q_logs s)\<rparr>))"

fun prune_entries :: "qenv \<Rightarrow> jstatus \<Rightarrow> queue_entry list \<Rightarrow> (qfs, (jstatus \<times> string) list) sx" where
  "prune_entries E st [] = returnS []"
| "prune_entries E st (e # es) =
     bindS (if js_truthy (getp (en_raw e) ''logPath'') \<and> e_logDir E \<noteq> []
            then ownedJobLogPath E (j_id (en_job e)) (getp (en_raw e) ''logPath'') else returnS None) (\<lambda>log.
     bindS (sysS (del_job st (en_name e))) (\<lambda>_.
     bindS (remove_log log) (\<lambda>_.
     bindS (prune_entries E st es) (\<lambda>rest.
     returnS ((st, j_id (en_job e)) # rest)))))"

definition timed_entries :: "qenv \<Rightarrow> qfs \<Rightarrow> jstatus \<Rightarrow> string list \<Rightarrow> (int \<times> queue_entry) list res" where
  "timed_entries E s st names =
     bindR (mapR (read_present (PlainError ''TypeError'') E s st) names) (\<lambda>es.
     mapR (\<lambda>e. bindR (terminalTime E (en_job e)) (\<lambda>t. Inr (t, e))) es)"

definition prune_status :: "qenv \<Rightarrow> queue_policy \<Rightarrow> int \<Rightarrow> jstatus \<Rightarrow> (qfs, (jstatus \<times> string) list) sx" where
  "prune_status E P now st =
     bindS getS (\<lambda>s.
     bindS (liftS (readdir (q_jobs s st))) (\<lambda>all.
     bindS (requireS (int (length (json_names all)) \<le> maxScanEntries P) (admissionError ''queue_scan_bound'')) (\<lambda>_.
     bindS (liftS (timed_entries E s st (json_names all))) (\<lambda>entries.
     prune_entries E st (expired P now 0 (js_sort_by (terminal_order E) entries))))))"

definition pruneTerminalJobsUnlocked :: "qenv \<Rightarrow> queue_policy \<Rightarrow> int \<Rightarrow> (qfs, (jstatus \<times> string) list) sx" where
  "pruneTerminalJobsUnlocked E P now =
     bindS (prune_status E P now Done) (\<lambda>a.
     bindS (prune_status E P now Failed) (\<lambda>b. returnS (a @ b)))"

section \<open>Admission\<close>

definition queueFilePath :: "string \<Rightarrow> string res" where
  "queueFilePath jobId = bindR (requireJobId (JStr jobId)) (\<lambda>i. Inr (i @ ''.json''))"

record admit_result =
  ar_job :: job
  ar_activeKey :: string
  ar_outstanding :: int
  ar_pruned :: "(jstatus \<times> string) list"

text \<open>The three writes of an admission: the ledger, the job, and the ledger's rollback.\<close>

definition persist_admission :: "qenv \<Rightarrow> string \<Rightarrow> job \<Rightarrow> ledger_event list \<Rightarrow> ledger_event \<Rightarrow> (qfs, unit) sx" where
  "persist_admission E name job ledger event =
     bindS (writeJsonAtomic E (\<lambda>_. False) (put_ledger (ledger @ [event]))) (\<lambda>_.
     catchS (writeJsonExclusiveAtomic E (\<lambda>s. node_exists (job_node s Queued name)) (put_job Queued name (job_js job)))
       (\<lambda>_. bindS (catchS (writeJsonAtomic E (\<lambda>_. False) (put_ledger ledger)) (\<lambda>_. returnS ()))
              (\<lambda>_. throwS (admissionError ''job_persist_failed''))))"

definition check_capacity :: "queue_policy \<Rightarrow> queue_snapshot \<Rightarrow> string \<Rightarrow> string \<Rightarrow> int res" where
  "check_capacity P sn activeKey jobId =
     bindR (requireR (\<not> list_ex (\<lambda>e. en_activeKey e = activeKey) (sn_at sn Queued @ sn_at sn Running))
              (CodedError ''duplicate_active'' 409)) (\<lambda>_.
     bindR (requireR (\<not> list_ex (\<lambda>e. j_id (en_job e) = jobId) (concat (map (sn_at sn) STATUS_NAMES)))
              (CodedError ''job_id_conflict'' 409)) (\<lambda>_.
     let outstanding = int (length (sn_at sn Queued) + length (sn_at sn Running) + length (sn_leases sn))
     in bindR (requireR (outstanding < maxOutstanding P) (admissionError ''queue_full'')) (\<lambda>_.
        Inr outstanding)))"

definition check_ledger :: "queue_policy \<Rightarrow> string \<Rightarrow> ledger_event list \<Rightarrow> unit res" where
  "check_ledger P who ledger =
     bindR (requireR (int (length (filter (\<lambda>ev. ev_principal ev = who) ledger)) < maxPerPrincipal P)
              (CodedError ''principal_rate_limited'' 429)) (\<lambda>_.
     requireR (int (length ledger) < maxLedgerEntries P) (admissionError ''admission_ledger_full''))"

definition admit_locked :: "qenv \<Rightarrow> queue_policy \<Rightarrow> jsv \<Rightarrow> string \<Rightarrow> job \<Rightarrow> int \<Rightarrow> (qfs, admit_result) sx" where
  "admit_locked E P oper who job now =
     bindS (liftS (timestampMs now)) (\<lambda>timestamp.
     bindS (pruneTerminalJobsUnlocked E P timestamp) (\<lambda>pruned.
     bindS (snapshotS E P) (\<lambda>sn.
     bindS (requireS (sn_leases sn = []) (admissionError ''scheduler_reserved'')) (\<lambda>_.
     bindS (liftS (canonicalBackupActiveKey E (job_js job))) (\<lambda>activeKey.
     bindS (liftS (check_capacity P sn activeKey (j_id job))) (\<lambda>outstanding.
     bindS (readAdmissionLedger E P timestamp) (\<lambda>ledger.
     bindS (liftS (check_ledger P who ledger)) (\<lambda>_.
     bindS (liftS (queueFilePath (j_id job))) (\<lambda>name.
     bindS getS (\<lambda>s.
     bindS (requireS (\<not> node_exists (job_node s Queued name)) (CodedError ''job_id_conflict'' 409)) (\<lambda>_.
     bindS (liftS (iso_of_ms timestamp)) (\<lambda>admittedAt.
     bindS (persist_admission E name job ledger
              \<lparr>ev_admittedAt = admittedAt, ev_principal = who, ev_jobId = j_id job,
               ev_activeKey = JStr activeKey, ev_routeOperationId = getp oper ''operationId''\<rparr>) (\<lambda>_.
     returnS \<lparr>ar_job = job, ar_activeKey = activeKey, ar_outstanding = outstanding + 1, ar_pruned = pruned\<rparr>)))))))))))))"

definition admitBackupJob :: "qenv \<Rightarrow> bool \<Rightarrow> jsv \<Rightarrow> jsv \<Rightarrow> jsv \<Rightarrow> jsv \<Rightarrow> int \<Rightarrow> (qfs, admit_result) sx" where
  "admitBackupJob E frozen oper principalInput jobInput policyInput now =
     bindS (liftS (normalizeBackupQueuePolicy policyInput)) (\<lambda>P.
     bindS (liftS (requirePrincipal principalInput)) (\<lambda>principal.
     bindS (liftS (parseBackupJobDocument (e_rt E) (e_clock E) jobInput)) (\<lambda>job.
     bindS (liftS (requireCanonicalBackupQueueOperation frozen oper (j_operation job))) (\<lambda>_.
     bindS (requireS (j_status job = ''queued'') (CodedError ''invalid_job_status'' 422)) (\<lambda>_.
     bindS (requireS (j_requestedBy job = principal) (CodedError ''principal_mismatch'' 403)) (\<lambda>_.
     bindS (prepareQueueRoot E) (\<lambda>_.
     withQueueLock E (admit_locked E P oper principal job now))))))))"

section \<open>Claiming\<close>

datatype claim_result =
    NotClaimed string "(jstatus \<times> string) list"
  | Claimed job string "(jstatus \<times> string) list"

definition claim_order :: "qenv \<Rightarrow> queue_entry \<Rightarrow> queue_entry \<Rightarrow> int" where
  "claim_order E l r =
     (let c = rt_localeCompare (e_rt E) (j_createdAt (en_job l)) (j_createdAt (en_job r))
      in if c \<noteq> 0 then c else rt_localeCompare (e_rt E) (en_name l) (en_name r))"

definition running_document :: "jsv \<Rightarrow> string \<Rightarrow> string \<Rightarrow> jsv" where
  "running_document raw startedAt logPath =
     (let doc = set_prop ''resultSummary'' (JStr ''Job claimed within the scheduler concurrency budget.'')
           (set_prop ''startedAt'' (js_or (getp raw ''startedAt'') (JStr startedAt))
             (set_prop ''updatedAt'' (JStr startedAt) (set_prop ''status'' (JStr ''running'') raw)))
      in if logPath = [] then doc else set_prop ''logPath'' (JStr logPath) doc)"

text \<open>After the rename: the log path, the running document, and the rename back when it cannot be written.\<close>

definition claim_moved :: "qenv \<Rightarrow> int \<Rightarrow> (jstatus \<times> string) list \<Rightarrow> queue_entry \<Rightarrow> string \<Rightarrow> (qfs, claim_result) sx" where
  "claim_moved E timestamp pruned next name =
     bindS (liftS (iso_of_ms timestamp)) (\<lambda>startedAt.
     bindS (if e_logDir E \<noteq> [] then safeJobLogPath E (j_id (en_job next)) else returnS []) (\<lambda>logPath.
     let doc = running_document (en_raw next) startedAt logPath in
     bindS (catchS (writeJsonAtomic E (\<lambda>_. False) (put_job Running name doc))
              (\<lambda>_. bindS (catchS (move_job Running Queued name) (\<lambda>_. returnS ()))
                     (\<lambda>_. throwS (admissionError ''claim_persist_failed'')))) (\<lambda>_.
     bindS (liftS (parseBackupJobDocument (e_rt E) (e_clock E) doc)) (\<lambda>job.
     returnS (Claimed job logPath pruned)))))"

definition claim_entry :: "qenv \<Rightarrow> int \<Rightarrow> (jstatus \<times> string) list \<Rightarrow> queue_entry \<Rightarrow> (qfs, claim_result) sx" where
  "claim_entry E timestamp pruned next =
     bindS (liftS (queueFilePath (j_id (en_job next)))) (\<lambda>name.
     bindS getS (\<lambda>s.
     bindS (requireS (\<not> node_exists (job_node s Running name)) (admissionError ''job_id_conflict'')) (\<lambda>_.
     bindS (move_job Queued Running name) (\<lambda>_.
     claim_moved E timestamp pruned next name))))"

definition claim_locked :: "qenv \<Rightarrow> queue_policy \<Rightarrow> int \<Rightarrow> (qfs, claim_result) sx" where
  "claim_locked E P now =
     bindS (liftS (timestampMs now)) (\<lambda>timestamp.
     bindS (pruneTerminalJobsUnlocked E P timestamp) (\<lambda>pruned.
     bindS (snapshotS E P) (\<lambda>sn.
     if int (length (sn_at sn Running) + length (sn_leases sn)) \<ge> maxConcurrency P
     then returnS (NotClaimed ''concurrency_full'' pruned)
     else (case js_sort_by (claim_order E) (sn_at sn Queued) of
             [] \<Rightarrow> returnS (NotClaimed ''queue_empty'' pruned)
           | next # _ \<Rightarrow> claim_entry E timestamp pruned next))))"

definition claimNextBackupJob :: "qenv \<Rightarrow> jsv \<Rightarrow> int \<Rightarrow> (qfs, claim_result) sx" where
  "claimNextBackupJob E policyInput now =
     bindS (liftS (normalizeBackupQueuePolicy policyInput)) (\<lambda>P.
     bindS (prepareQueueRoot E) (\<lambda>_.
     withQueueLock E (claim_locked E P now)))"

section \<open>Scheduler leases\<close>

definition lease_js :: "qenv \<Rightarrow> string \<Rightarrow> string \<Rightarrow> jsv" where
  "lease_js E kind createdAt = JObj [(''schema'', JStr LEASE_SCHEMA), (''id'', JStr (''lease-'' @ e_leaseId E)),
     (''token'', JStr (e_leaseToken E)), (''kind'', JStr kind), (''pid'', JInt (e_pid E)), (''createdAt'', JStr createdAt)]"

definition lease_name :: "string \<Rightarrow> string" where
  "lease_name i = i @ ''.json''"

definition put_lease :: "string \<Rightarrow> jsv \<Rightarrow> qfs \<Rightarrow> qfs" where
  "put_lease name v s = s\<lparr>q_leases := on_dir (dput name (RegularFile (Some v))) (q_leases s)\<rparr>"

datatype lease_result =
    NotAcquired string "(jstatus \<times> string) list"
  | Acquired string string "(jstatus \<times> string) list"

definition lease_locked :: "qenv \<Rightarrow> queue_policy \<Rightarrow> string \<Rightarrow> int \<Rightarrow> (qfs, lease_result) sx" where
  "lease_locked E P kind now =
     bindS (liftS (timestampMs now)) (\<lambda>timestamp.
     bindS (pruneTerminalJobsUnlocked E P timestamp) (\<lambda>pruned.
     bindS (snapshotS E P) (\<lambda>sn.
     if int (length (sn_at sn Running) + length (sn_leases sn)) \<ge> maxConcurrency P
     then returnS (NotAcquired ''concurrency_full'' pruned)
     else
       (let i = ''lease-'' @ e_leaseId E in
        bindS (liftS (iso_of_ms timestamp)) (\<lambda>createdAt.
        bindS (writeJsonExclusiveAtomic E (\<lambda>s. node_exists (map_of (dir_entries (q_leases s)) (lease_name i)))
                 (put_lease (lease_name i) (lease_js E kind createdAt))) (\<lambda>_.
        returnS (Acquired (i @ ''.'' @ e_leaseToken E) kind pruned)))))))"

definition acquireBackupSchedulerLease :: "qenv \<Rightarrow> jsv \<Rightarrow> jsv \<Rightarrow> int \<Rightarrow> (qfs, lease_result) sx" where
  "acquireBackupSchedulerLease E kindInput policyInput now =
     bindS (liftS (normalizeBackupQueuePolicy policyInput)) (\<lambda>P.
     bindS (prepareQueueRoot E) (\<lambda>_.
     bindS (liftS (requireLeaseKind kindInput)) (\<lambda>kind.
     withQueueLock E (lease_locked E P kind now))))"

definition release_locked :: "qenv \<Rightarrow> string \<times> string \<Rightarrow> (qfs, string) sx" where
  "release_locked E handle =
     (let name = lease_name (fst handle) in
      bindS getS (\<lambda>s.
      bindS (liftS (readSchedulerLease E (map_of (dir_entries (q_leases s)) name))) (\<lambda>found.
      case found of
        Some lease \<Rightarrow>
          if le_token lease = snd handle
          then bindS (sysS (\<lambda>s. s\<lparr>q_leases := on_dir (ddel name) (q_leases s)\<rparr>)) (\<lambda>_. returnS (le_kind lease))
          else throwS (admissionError ''scheduler_lease_owner_mismatch'')
      | None \<Rightarrow> throwS (admissionError ''scheduler_lease_owner_mismatch''))))"

definition releaseBackupSchedulerLease :: "qenv \<Rightarrow> jsv \<Rightarrow> jsv \<Rightarrow> (qfs, string) sx" where
  "releaseBackupSchedulerLease E handleInput policyInput =
     bindS (liftS (normalizeBackupQueuePolicy policyInput)) (\<lambda>P.
     bindS (prepareQueueRoot E) (\<lambda>_.
     bindS (liftS (parseLeaseHandle handleInput)) (\<lambda>handle.
     withQueueLock E (release_locked E handle))))"

section \<open>Finishing\<close>

definition terminal_of :: "string \<Rightarrow> jstatus option" where
  "terminal_of s = (if s = ''done'' then Some Done else if s = ''failed'' then Some Failed else None)"

definition terminal_document :: "jsv \<Rightarrow> jstatus \<Rightarrow> string \<Rightarrow> jsv \<Rightarrow> jsv \<Rightarrow> jsv res" where
  "terminal_document raw st finishedAt summary exitCode =
     (let text = take 500 (js_String (js_or summary (JStr (if st = Done then ''Job completed.'' else ''Job failed.''))));
          doc = set_prop ''resultSummary'' (JStr text) (set_prop ''finishedAt'' (JStr finishedAt)
            (set_prop ''updatedAt'' (JStr finishedAt) (set_prop ''status'' (JStr (status_name st)) raw)))
      in if exitCode \<in> {JNull, JStr []} then Inr (del_prop ''exitCode'' doc)
         else bindR (boundedInteger exitCode 1 0 255 ''job exit code'') (\<lambda>c. Inr (set_prop ''exitCode'' (JInt c) doc)))"

text \<open>The terminal document is written in place, then renamed; there is no rollback between the two.\<close>

definition finish_write :: "qenv \<Rightarrow> queue_policy \<Rightarrow> string \<Rightarrow> jstatus \<Rightarrow> jsv \<Rightarrow> int \<Rightarrow> (qfs, job \<times> (jstatus \<times> string) list) sx" where
  "finish_write E P name st doc now =
     bindS (writeJsonAtomic E (\<lambda>_. False) (put_job Running name doc)) (\<lambda>_.
     bindS (move_job Running st name) (\<lambda>_.
     bindS (pruneTerminalJobsUnlocked E P now) (\<lambda>pruned.
     bindS (liftS (parseBackupJobDocument (e_rt E) (e_clock E) doc)) (\<lambda>job.
     returnS (job, pruned)))))"

definition finish_locked :: "qenv \<Rightarrow> queue_policy \<Rightarrow> string \<Rightarrow> jstatus \<Rightarrow> jsv \<Rightarrow> jsv \<Rightarrow> int \<Rightarrow> (qfs, job \<times> (jstatus \<times> string) list) sx" where
  "finish_locked E P jobId st summary exitCode now =
     bindS (liftS (queueFilePath jobId)) (\<lambda>name.
     bindS getS (\<lambda>s.
     bindS (liftS (readQueueEntry E Running name (job_node s Running name))) (\<lambda>found.
     case found of
       None \<Rightarrow> throwS (CodedError ''running_job_missing'' 409)
     | Some entry \<Rightarrow>
         bindS (liftS (bindR (timestampMs now) iso_of_ms)) (\<lambda>finishedAt.
         bindS (requireS (\<not> node_exists (job_node s st name)) (admissionError ''job_id_conflict'')) (\<lambda>_.
         bindS (liftS (terminal_document (en_raw entry) st finishedAt summary exitCode)) (\<lambda>doc.
         finish_write E P name st doc now))))))"

definition finishBackupJob :: "qenv \<Rightarrow> jsv \<Rightarrow> jsv \<Rightarrow> jsv \<Rightarrow> jsv \<Rightarrow> jsv \<Rightarrow> int \<Rightarrow> (qfs, job \<times> (jstatus \<times> string) list) sx" where
  "finishBackupJob E jobIdInput statusInput summary exitCode policyInput now =
     bindS (liftS (normalizeBackupQueuePolicy policyInput)) (\<lambda>P.
     bindS (prepareQueueRoot E) (\<lambda>_.
     bindS (liftS (requireJobId jobIdInput)) (\<lambda>jobId.
     case terminal_of (js_String (js_or statusInput (JStr []))) of
       None \<Rightarrow> throwS (CodedError ''invalid_terminal_status'' 422)
     | Some st \<Rightarrow> withQueueLock E (finish_locked E P jobId st summary (js_default exitCode JNull) now))))"

definition contains_ci :: "string \<Rightarrow> string \<Rightarrow> bool" where
  "contains_ci needle s \<longleftrightarrow> list_ex (\<lambda>i. starts_with needle (drop i (to_lower s))) [0..<Suc (length s)]"

definition unknown_locked :: "qenv \<Rightarrow> string \<Rightarrow> string \<Rightarrow> int \<Rightarrow> int \<Rightarrow> (qfs, job) sx" where
  "unknown_locked E jobId summary exitCode now =
     bindS (liftS (queueFilePath jobId)) (\<lambda>name.
     bindS getS (\<lambda>s.
     bindS (liftS (readQueueEntry E Running name (job_node s Running name))) (\<lambda>found.
     case found of
       None \<Rightarrow> throwS (CodedError ''running_job_missing'' 409)
     | Some entry \<Rightarrow>
         bindS (liftS (bindR (timestampMs now) iso_of_ms)) (\<lambda>updatedAt.
         let doc = del_prop ''logPath'' (set_prop ''exitCode'' (JInt exitCode) (set_prop ''resultSummary'' (JStr summary)
               (set_prop ''finishedAt'' JNull (set_prop ''updatedAt'' (JStr updatedAt)
                 (set_prop ''status'' (JStr ''running'') (en_raw entry))))))
         in bindS (writeJsonAtomic E (\<lambda>_. False) (put_job Running name doc)) (\<lambda>_.
            liftS (parseBackupJobDocument (e_rt E) (e_clock E) doc))))))"

definition markBackupJobOutcomeUnknown :: "qenv \<Rightarrow> jsv \<Rightarrow> jsv \<Rightarrow> jsv \<Rightarrow> jsv \<Rightarrow> int \<Rightarrow> (qfs, job) sx" where
  "markBackupJobOutcomeUnknown E jobIdInput summaryInput exitCodeInput policyInput now =
     bindS (liftS (normalizeBackupQueuePolicy policyInput)) (\<lambda>P.
     bindS (prepareQueueRoot E) (\<lambda>_.
     bindS (liftS (requireJobId jobIdInput)) (\<lambda>jobId.
     bindS (liftS (boundedInteger (js_default exitCodeInput (JInt 74)) 74 74 74 ''unknown-outcome exit code'')) (\<lambda>exitCode.
     let summary = take 500 (js_trim (js_String (js_or summaryInput (JStr [])))) in
     bindS (requireS (contains_ci ''manual-reconciliation'' summary) (CodedError ''invalid_unknown_summary'' 422)) (\<lambda>_.
     withQueueLock E (unknown_locked E jobId summary exitCode now))))))"

definition prune_locked :: "qenv \<Rightarrow> queue_policy \<Rightarrow> int \<Rightarrow> (qfs, (jstatus \<times> string) list) sx" where
  "prune_locked E P now = bindS (liftS (timestampMs now)) (\<lambda>t. pruneTerminalJobsUnlocked E P t)"

definition pruneBackupQueue :: "qenv \<Rightarrow> jsv \<Rightarrow> int \<Rightarrow> (qfs, (jstatus \<times> string) list) sx" where
  "pruneBackupQueue E policyInput now =
     bindS (liftS (normalizeBackupQueuePolicy policyInput)) (\<lambda>P.
     bindS (prepareQueueRoot E) (\<lambda>_.
     withQueueLock E (prune_locked E P now)))"

section \<open>A concrete queue\<close>

text \<open>
  A queue root that does not exist yet, and a process without shared identity. The hash is
  constant: one job is enough for the witnesses.
\<close>

definition sample_env :: qenv where
  "sample_env = \<lparr>e_rt = sample_runtime\<lparr>rt_sha256 := (\<lambda>_. replicate 64 CHR ''a'')\<rparr>, e_clock = 1767323045006, e_env = JObj [], e_proc = \<lparr>p_euid = 1000, p_egid = 1000\<rparr>,
     e_pid = 7, e_cwd = ''/srv'', e_token = replicate 48 CHR ''a'', e_leaseId = replicate 32 CHR ''b'',
     e_leaseToken = replicate 48 CHR ''c'', e_jobsDir = ''/srv/jobs'', e_logDir = []\<rparr>"

definition sample_queue :: qfs where
  "sample_queue = \<lparr>q_root = NoDir, q_jobs = (\<lambda>_. NoDir), q_leases = NoDir, q_ledger = None, q_logs = NoDir,
     q_lock = NoLock, q_faults = []\<rparr>"

definition sample_operation :: jsv where
  "sample_operation = JObj [(''method'', JStr ''POST''), (''operationId'', JStr ''backup.run''), (''capability'', JStr ''owner:fresh''),
     (''canonicalPath'', JStr ''/control/backups/run''), (''classified'', JBool True), (''control'', JBool True)]"

definition sample_job :: "string \<Rightarrow> jsv" where
  "sample_job i = JObj [(''schema'', JStr BACKUP_JOB_SCHEMA), (''id'', JStr i), (''operation'', JStr ''backup''),
     (''scope'', JObj [(''kind'', JStr ''platform'')]), (''status'', JStr ''queued''), (''requestedBy'', JStr ''owner''),
     (''createdAt'', JStr ''2026-01-02T03:04:05.006Z''),
     (''resources'', JArr [JObj [(''kind'', JStr ''platform-state''), (''externalId'', JStr ''c''), (''name'', JStr ''c'')]])]"

definition sample_admit :: "qfs \<Rightarrow> admit_result res \<times> qfs" where
  "sample_admit = admitBackupJob sample_env True sample_operation (JStr ''owner'') (sample_job ''job-1'') (JObj []) 1767323045006"

end
