(* ===== verification/BackupQueueEffects.thy ===== *)
theory BackupQueueEffects
  imports BackupQueue
begin

text \<open>
  What the operations of the backup queue do to its files: frames of the file operations and
  of the lock, what reading the inventory establishes, and for every locked operation the
  effect on the live part (queued jobs, running jobs, leases) on each of its branches, failing
  system calls included.
\<close>

section \<open>Frames of the file operations\<close>

abbreviation refault :: "qfs \<Rightarrow> bool list \<Rightarrow> qfs" where
  "refault s fs \<equiv> s\<lparr>q_faults := fs\<rparr>"

lemma sysS_cases:
  assumes "sysS f s = (r, t)"
  obtains (failed) fs e where "r = Inl e" "t = refault s fs"
  | (ok) fs where "r = Inr ()" "t = f (refault s fs)"
proof (cases "q_faults s")
  case Nil
  then have "s = refault s []" by (cases s) simp
  with Nil assms ok [of "[]"] show ?thesis by (simp add: sysS_def)
next
  case (Cons b bs)
  with assms failed [of _ bs] ok [of bs] show ?thesis by (auto simp: sysS_def split: if_splits)
qed

lemma writeJsonAtomic_cases:
  assumes "writeJsonAtomic E taken w s = (r, t)"
  obtains (failed) fs e where "r = Inl e" "t = refault s fs"
  | (ok) fs fs' where "r = Inr ()" "t = w (refault s fs)" "\<not> taken (refault s fs')"
  using assms unfolding writeJsonAtomic_def
  by (cases r) (auto simp: res_simps intro: failed [of _ "q_faults s"] elim!: sysS_cases split: if_splits)

lemma writeJsonExclusiveAtomic_cases:
  assumes "writeJsonExclusiveAtomic E taken w s = (r, t)"
  obtains (failed) fs e where "r = Inl e" "t = refault s fs"
  | (ok) fs where "r = Inr ()" "t = w (refault s fs)" "\<not> taken s"
proof (cases "taken s")
  case True
  then have "r = Inl (CodedError ''job_id_conflict'' 409)" "t = refault s (q_faults s)"
    using assms by (simp_all add: writeJsonExclusiveAtomic_def sx_defs)
  then show ?thesis by (rule failed)
next
  case False
  then have "writeJsonAtomic E taken w s = (r, t)"
    using assms by (simp add: writeJsonExclusiveAtomic_def sx_defs)
  then show ?thesis by (cases rule: writeJsonAtomic_cases) (use False failed ok in auto)
qed

text \<open>The visible part of the queue: what the lock protects.\<close>

definition visible :: "qfs \<Rightarrow> (jstatus \<Rightarrow> dirnode) \<times> dirnode \<times> fnode option" where
  "visible s = (q_jobs s, q_leases s, q_ledger s)"

lemma visible_updates [simp]:
  "visible (s\<lparr>q_faults := fs\<rparr>) = visible s" "visible (s\<lparr>q_lock := l\<rparr>) = visible s"
  "visible (s\<lparr>q_logs := n\<rparr>) = visible s" "visible (s\<lparr>q_root := n\<rparr>) = visible s"
  by (simp_all add: visible_def)

lemma visible_eq: "visible s = visible t \<longleftrightarrow> q_jobs s = q_jobs t \<and> q_leases s = q_leases t \<and> q_ledger s = q_ledger t"
  by (auto simp: visible_def)

lemma keepsS_sys: "(\<And>s. g (f s) = g s) \<Longrightarrow> (\<And>s fs. g (refault s fs) = g s) \<Longrightarrow> keepsS g (sysS f)"
  by (auto simp: keepsS_def sysS_def split: list.splits)

lemma keepsS_case_dir [intro]:
  "keepsS g a \<Longrightarrow> (\<And>st d. keepsS g (b st d)) \<Longrightarrow> keepsS g c \<Longrightarrow> keepsS g (case n of NoDir \<Rightarrow> a | RealDir st d \<Rightarrow> b st d | NotDir \<Rightarrow> c)"
  by (cases n) auto

lemmas keepsS_intros = keepsS_bind keepsS_basic keepsS_catch keepsS_sys keepsS_modify keepsS_case_dir

lemma keepsS_ensureRealDirectory:
  assumes "\<And>n s. g (put n s) = g s" and "\<And>s fs. g (refault s fs) = g s"
  shows "keepsS g (ensureRealDirectory E node put)"
  unfolding ensureRealDirectory_def by (intro keepsS_intros) (simp_all add: assms)

lemma keeps_lock_operations:
  "keepsS visible (acquire_lock E)" "keepsS visible (write_owner E)" "keepsS visible (release_lock E)"
  "keepsS visible (safeJobLogPath E i)" "keepsS visible (ownedJobLogPath E i v)" "keepsS visible (remove_log log)"
proof -
  show "keepsS visible (acquire_lock E)"
    unfolding acquire_lock_def
    by (intro keepsS_bind keepsS_basic) (simp split: locknode.splits, intro conjI impI allI keepsS_intros; simp)
  show "keepsS visible (write_owner E)" unfolding write_owner_def by (intro keepsS_intros) simp_all
  show "keepsS visible (release_lock E)" unfolding release_lock_def by (intro keepsS_intros) simp_all
  show log: "keepsS visible (safeJobLogPath E i)"
    unfolding safeJobLogPath_def by (intro keepsS_bind keepsS_basic keepsS_ensureRealDirectory) simp_all
  show "keepsS visible (ownedJobLogPath E i v)"
    unfolding ownedJobLogPath_def Let_def
    by (intro keepsS_bind log keepsS_basic) (auto split: option.splits fnode.splits)
  show "keepsS visible (remove_log log)"
    unfolding remove_log_def by (auto intro!: keepsS_sys split: option.splits)
qed

text \<open>
  What a locked operation returns: either an error of the lock itself, with nothing visible
  changed, or the result and the visible effect of the action, unless releasing the lock
  failed afterwards.
\<close>

lemma withQueueLock_cases:
  assumes "withQueueLock E action s = (r, t)"
  obtains (refused) e where "r = Inl e" "visible t = visible s"
  | (ran) s' r' t' where "visible s' = visible s" "action s' = (r', t')" "visible t = visible t'"
      "r = r' \<or> r = Inl (admissionError ''queue_lock_release_failed'')"
proof -
  obtain r1 s1 where a: "acquire_lock E s = (r1, s1)" by fastforce
  have v1: "visible s1 = visible s" using keepsS_D [OF keeps_lock_operations(1) a] .
  show ?thesis
  proof (cases r1)
    case (Inl e)
    with assms a v1 refused show ?thesis by (auto simp: withQueueLock_def bindS_def)
  next
    case (Inr u)
    obtain r2 s2 where w: "write_owner E s1 = (r2, s2)" by fastforce
    have v2: "visible s2 = visible s" using keepsS_D [OF keeps_lock_operations(2) w] v1 by simp
    obtain r3 s3 where b: "bindS (write_owner E) (\<lambda>_. action) s1 = (r3, s3)" by fastforce
    obtain r4 s4 where f: "release_lock E s3 = (r4, s4)" by fastforce
    have v4: "visible s4 = visible s3" using keepsS_D [OF keeps_lock_operations(3) f] .
    have r4: "r4 = Inr () \<or> r4 = Inl (admissionError ''queue_lock_release_failed'')"
      using f by (cases r4) (auto simp: release_lock_def catchS_def throwS_def split: prod.splits sum.splits)
    have t: "t = s4" and r: "r = (if r4 = Inr () then r3 else Inl (admissionError ''queue_lock_release_failed''))"
      using assms a Inr b f r4 by (auto simp: withQueueLock_def bindS_def finallyS_def split: sum.splits)
    show ?thesis
    proof (cases r2)
      case (Inl e)
      with w b have "r3 = Inl e" "s3 = s2" by (auto simp: bindS_def)
      with refused v2 v4 t r show ?thesis by (auto split: if_splits)
    next
      case (Inr x)
      with w b have "action s2 = (r3, s3)" by (auto simp: bindS_def)
      with ran v2 v4 t r show ?thesis by (auto split: if_splits)
    qed
  qed
qed

section \<open>Directories and inventories\<close>

lemma keys_dput: "map fst (dput k v d) = (if k \<in> fst ` set d then map fst d else map fst d @ [k])"
  by (induction d) (auto simp: image_iff, force)

lemma map_of_dput [simp]: "map_of (dput k v d) = (map_of d)(k \<mapsto> v)"
  by (induction d) (auto simp: fun_upd_twist)

lemma keys_ddel: "map fst (ddel k d) = filter (\<lambda>x. x \<noteq> k) (map fst d)"
  by (induction d) (auto simp: ddel_def)

lemma map_of_ddel [simp]: "map_of (ddel k d) = (map_of d)(k := None)"
  by (induction d) (auto simp: ddel_def fun_eq_iff)

definition dcount :: "dir \<Rightarrow> nat" where
  "dcount d = length (json_names (map fst d))"

lemma dcount_dput:
  "dcount (dput k v d) = dcount d + (if k \<in> fst ` set d \<or> \<not> ends_with ''.json'' k then 0 else 1)"
  by (simp add: dcount_def keys_dput json_names_def)

lemma length_filter_out:
  "distinct xs \<Longrightarrow> x \<in> set xs \<Longrightarrow> Suc (length (filter (\<lambda>y. y \<noteq> x) xs)) = length xs"
proof (induction xs)
  case (Cons a xs)
  have "a = x \<Longrightarrow> filter (\<lambda>y. y \<noteq> x) xs = xs" using Cons.prems by (auto simp: filter_id_conv)
  with Cons show ?case by auto
qed simp

lemma dcount_ddel:
  assumes "distinct (map fst d)" and "k \<in> fst ` set d" and "ends_with ''.json'' k"
  shows "Suc (dcount (ddel k d)) = dcount d"
proof -
  have "json_names (filter (\<lambda>x. x \<noteq> k) (map fst d)) = filter (\<lambda>x. x \<noteq> k) (json_names (map fst d))"
    by (simp add: json_names_def conj_commute)
  moreover have "distinct (json_names (map fst d))" "k \<in> set (json_names (map fst d))"
    using assms by (auto simp: json_names_def)
  ultimately show ?thesis unfolding dcount_def keys_ddel using length_filter_out by fastforce
qed

abbreviation jcount :: "qfs \<Rightarrow> jstatus \<Rightarrow> nat" where
  "jcount s st \<equiv> dcount (dir_entries (q_jobs s st))"

abbreviation lcount :: "qfs \<Rightarrow> nat" where
  "lcount s \<equiv> dcount (dir_entries (q_leases s))"

definition is_real :: "dirnode \<Rightarrow> bool" where
  "is_real n \<longleftrightarrow> (\<exists>st d. n = RealDir st d)"

lemma dir_entries_on_dir: "is_real n \<Longrightarrow> dir_entries (on_dir f n) = f (dir_entries n)"
  by (auto simp: is_real_def)

lemma is_real_on_dir [simp]: "is_real (on_dir f n) = is_real n"
  by (cases n) (auto simp: is_real_def)

lemma readdir_Inr: "readdir n = Inr xs \<longleftrightarrow> is_real n \<and> xs = map fst (dir_entries n)"
  by (cases n) (auto simp: is_real_def)

text \<open>What reading one entry and the whole inventory establishes.\<close>

definition reads_entry :: "qenv \<Rightarrow> qfs \<Rightarrow> jstatus \<Rightarrow> queue_entry \<Rightarrow> bool" where
  "reads_entry E s st e \<longleftrightarrow> job_node s st (en_name e) = Some (RegularFile (Some (en_raw e)))
     \<and> parseBackupJobDocument (e_rt E) (e_clock E) (en_raw e) = Inr (en_job e)
     \<and> j_status (en_job e) = status_name st \<and> en_name e = j_id (en_job e) @ ''.json''
     \<and> canonicalBackupActiveKey E (job_js (en_job e)) = Inr (en_activeKey e)"

lemma readQueueEntry_Inr:
  "readQueueEntry E st name (job_node s st name) = Inr (Some e) \<Longrightarrow> reads_entry E s st e \<and> en_name e = name"
  unfolding readQueueEntry_def reads_entry_def
  by (auto simp: res_simps split: if_splits option.splits fnode.splits sum.splits)

lemma read_present_Inr: "read_present x E s st name = Inr e \<Longrightarrow> reads_entry E s st e \<and> en_name e = name"
  by (auto simp: read_present_def res_simps dest: readQueueEntry_Inr split: option.splits)

lemma mapR_names:
  assumes "mapR (read_present x E s st) names = Inr es"
  shows "map en_name es = names" "\<forall>e \<in> set es. reads_entry E s st e"
  using assms by (induction names arbitrary: es) (auto simp: res_simps dest: read_present_Inr)

lemma read_statuses_Inr:
  "read_statuses E bound s seen sts = Inr (jobs, tot) \<Longrightarrow>
     map fst jobs = sts \<and> (\<forall>(st, es) \<in> set jobs. is_real (q_jobs s st)
       \<and> map en_name es = sort (json_names (map fst (dir_entries (q_jobs s st)))) \<and> (\<forall>e \<in> set es. reads_entry E s st e))"
proof (induction sts arbitrary: seen jobs tot)
  case (Cons st sts)
  then obtain all es rest where
    "readdir (q_jobs s st) = Inr all" "mapR (read_present (admissionError ''queue_entry_missing'') E s st) (sort (json_names all)) = Inr es"
    "read_statuses E bound s (seen + int (length (sort (json_names all)))) sts = Inr (rest, tot)" "jobs = (st, es) # rest"
    by (auto simp: res_simps Let_def)
  with Cons.IH show ?case by (auto simp: readdir_Inr dest: mapR_names)
qed simp

lemma snapshot_leases:
  assumes "readSchedulerLeases E P s = Inr ls"
  shows "is_real (q_leases s)" "length ls = lcount s"
  using assms by (auto simp: readSchedulerLeases_def Let_def res_simps readdir_Inr dcount_def dest!: mapR_Inr_length)

lemma snapshot_Inr:
  assumes "readQueueSnapshot E P s = Inr sn"
  shows "is_real (q_jobs s st)" "length (sn_at sn st) = jcount s st"
    "e \<in> set (sn_at sn st) \<Longrightarrow> reads_entry E s st e"
    "map en_name (sn_at sn st) = sort (json_names (map fst (dir_entries (q_jobs s st))))"
    "is_real (q_leases s)" "length (sn_leases sn) = lcount s"
    "int (jcount s Queued + jcount s Running) \<le> maxScanEntries P"
proof -
  from assms obtain seen where
    r: "read_statuses E (maxScanEntries P) s 0 STATUS_NAMES = Inr (sn_jobs sn, seen)"
    and l: "readSchedulerLeases E P s = Inr (sn_leases sn)"
    by (auto simp: readQueueSnapshot_def res_simps split: prod.splits)
  note all = read_statuses_Inr [OF r]
  have "st \<in> set STATUS_NAMES" by (cases st) (simp_all add: STATUS_NAMES_def)
  then obtain es where m: "map_of (sn_jobs sn) st = Some es"
    using all by (metis map_of_eq_None_iff not_None_eq set_map)
  then have "(st, es) \<in> set (sn_jobs sn)" by (rule map_of_SomeD)
  with all have *: "is_real (q_jobs s st)"
    "map en_name es = sort (json_names (map fst (dir_entries (q_jobs s st))))" "\<forall>e \<in> set es. reads_entry E s st e" by auto
  have at: "sn_at sn st = es" using m by (simp add: sn_at_def)
  from * at show "is_real (q_jobs s st)" "e \<in> set (sn_at sn st) \<Longrightarrow> reads_entry E s st e"
    "map en_name (sn_at sn st) = sort (json_names (map fst (dir_entries (q_jobs s st))))" by auto
  from arg_cong [OF *(2), of length] at show "length (sn_at sn st) = jcount s st" by (simp add: dcount_def)
  show "is_real (q_leases s)" "length (sn_leases sn) = lcount s" using snapshot_leases [OF l] by auto
  show "int (jcount s Queued + jcount s Running) \<le> maxScanEntries P"
    using r by (auto simp: STATUS_NAMES_def res_simps Let_def readdir_Inr dcount_def)
qed

section \<open>What a locked operation does to the live part\<close>

text \<open>
  The live part of the queue: the queued jobs, the running jobs and the leases. Pruning, the
  ledger and the logs do not touch it, which lets an operation be read as a sequence of
  steps that keep it, ended by the one that changes it.
\<close>

definition live :: "qfs \<Rightarrow> dirnode \<times> dirnode \<times> dirnode" where
  "live s = (q_jobs s Queued, q_jobs s Running, q_leases s)"

lemma live_updates [simp]:
  "live (s\<lparr>q_faults := fs\<rparr>) = live s" "live (s\<lparr>q_lock := l\<rparr>) = live s" "live (put_ledger evs s) = live s"
  "live (s\<lparr>q_logs := n\<rparr>) = live s" "st \<noteq> Queued \<Longrightarrow> st \<noteq> Running \<Longrightarrow> live (on_jobs st f s) = live s"
  by (simp_all add: live_def put_ledger_def on_jobs_def)

lemma visible_live: "visible s = visible t \<Longrightarrow> live s = live t"
  by (simp add: visible_eq live_def)

lemma keepsS_live: "keepsS visible m \<Longrightarrow> keepsS live m"
  unfolding keepsS_def using visible_live by blast

definition afterS :: "dirnode \<times> dirnode \<times> dirnode \<Rightarrow> (qfs, 'a) sx \<Rightarrow> ('a res \<Rightarrow> qfs \<Rightarrow> bool) \<Rightarrow> bool" where
  "afterS k m Q \<longleftrightarrow> (\<forall>s. live s = k \<longrightarrow> Q (fst (m s)) (snd (m s)))"

lemma afterS_D: "afterS (live s) m Q \<Longrightarrow> m s = (r, t) \<Longrightarrow> Q r t"
  by (auto simp: afterS_def)

lemma afterS_keep:
  assumes "keepsS live m" and "\<And>e t. live t = k \<Longrightarrow> Q (Inl e) t" and "\<And>x. afterS k (f x) Q"
  shows "afterS k (bindS m f) Q"
  unfolding afterS_def
proof (intro allI impI)
  fix s assume s: "live s = k"
  obtain r t where m: "m s = (r, t)" by fastforce
  with assms(1) s have "live t = k" using keepsS_D by metis
  then show "Q (fst (bindS m f s)) (snd (bindS m f s))"
    using m assms(2,3) by (cases r) (auto simp: bindS_def afterS_def)
qed

lemma afterS_lift:
  assumes "\<And>e t. live t = k \<Longrightarrow> Q (Inl e) t" and "\<And>x. r = Inr x \<Longrightarrow> afterS k (f x) Q"
  shows "afterS k (bindS (liftS r) f) Q"
  using assms by (cases r) (auto simp: afterS_def bindS_def liftS_def)

lemma afterS_require:
  assumes "\<And>e t. live t = k \<Longrightarrow> Q (Inl e) t" and "ok \<Longrightarrow> afterS k (f ()) Q"
  shows "afterS k (bindS (requireS ok e) f) Q"
  using assms by (auto simp: afterS_def bindS_def requireS_def returnS_def throwS_def)

lemma afterS_get: "(\<And>s. live s = k \<Longrightarrow> afterS k (f s) Q) \<Longrightarrow> afterS k (bindS getS f) Q"
  by (auto simp: afterS_def bindS_def getS_def)

lemma afterS_snapshot:
  assumes "\<And>e t. live t = k \<Longrightarrow> Q (Inl e) t"
    and "\<And>s sn. live s = k \<Longrightarrow> readQueueSnapshot E P s = Inr sn \<Longrightarrow> afterS k (f sn) Q"
  shows "afterS k (bindS (snapshotS E P) f) Q"
  unfolding afterS_def
proof (intro allI impI)
  fix s assume "live s = k"
  with assms show "Q (fst (bindS (snapshotS E P) f s)) (snd (bindS (snapshotS E P) f s))"
    by (cases "readQueueSnapshot E P s") (auto simp: snapshotS_def bindS_def getS_def liftS_def afterS_def)
qed

lemma afterS_return: "(\<And>t. live t = k \<Longrightarrow> Q (Inr x) t) \<Longrightarrow> afterS k (returnS x) Q"
  by (simp add: afterS_def returnS_def)

lemma afterS_throw: "(\<And>t. live t = k \<Longrightarrow> Q (Inl e) t) \<Longrightarrow> afterS k (throwS e) Q"
  by (simp add: afterS_def throwS_def)

lemma keepsS_writeJsonAtomic: "(\<And>s. live (w s) = live s) \<Longrightarrow> keepsS live (writeJsonAtomic E taken w)"
  unfolding writeJsonAtomic_def by (intro keepsS_intros) simp_all

lemma keeps_ledger: "keepsS live (readAdmissionLedger E P now)"
  unfolding readAdmissionLedger_def Let_def
  by (intro keepsS_bind keepsS_basic)
     (auto intro!: keepsS_bind keepsS_writeJsonAtomic split: option.splits jsv.splits)

lemma keeps_prune_entries:
  assumes "st \<noteq> Queued" and "st \<noteq> Running"
  shows "keepsS live (prune_entries E st es)"
proof (induction es)
  case (Cons e es)
  have "keepsS live (sysS (del_job st name))" for name
    using assms by (intro keepsS_sys) (simp_all add: del_job_def)
  with Cons show ?case
    by (auto intro!: keepsS_bind keepsS_live [OF keeps_lock_operations(5)] keepsS_live [OF keeps_lock_operations(6)])
qed auto

lemma keeps_prune: "keepsS live (pruneTerminalJobsUnlocked E P now)"
  unfolding pruneTerminalJobsUnlocked_def prune_status_def
  by (intro keepsS_bind keepsS_basic keeps_prune_entries) simp_all

lemmas live_frames = keeps_prune keeps_ledger keepsS_live [OF keeps_lock_operations(4)]

text \<open>The effect of each locked operation on the live part.\<close>

lemma persist_admission_effect:
  "afterS k (persist_admission E name job ledger ev)
     (\<lambda>r t. if r = Inr () then \<exists>s. live s = k \<and> live t = live (put_job Queued name (job_js job) s) \<and> \<not> node_exists (job_node s Queued name)
            else live t = k)"
proof -
  have w: "afterS k (catchS (writeJsonExclusiveAtomic E taken (put_job Queued name v)) h)
      (\<lambda>r t. if r = Inr () then \<exists>s. live s = k \<and> live t = live (put_job Queued name v s) \<and> \<not> taken s else live t = k)"
    if h: "\<And>e s r t. h e s = (r, t) \<Longrightarrow> r \<noteq> Inr () \<and> live t = live s" for taken v h
    unfolding afterS_def
  proof (intro allI impI)
    fix s assume s: "live s = k"
    obtain r t where rt: "writeJsonExclusiveAtomic E taken (put_job Queued name v) s = (r, t)" by fastforce
    then show "if fst (catchS (writeJsonExclusiveAtomic E taken (put_job Queued name v)) h s) = Inr ()
        then \<exists>s'. live s' = k \<and> live (snd (catchS (writeJsonExclusiveAtomic E taken (put_job Queued name v)) h s))
            = live (put_job Queued name v s') \<and> \<not> taken s'
        else live (snd (catchS (writeJsonExclusiveAtomic E taken (put_job Queued name v)) h s)) = k"
    proof (cases rule: writeJsonExclusiveAtomic_cases)
      case (failed fs e)
      then show ?thesis using rt s h [of e t] by (cases "h e t") (auto simp: catchS_def)
    next
      case (ok fs)
      then have "live t = live (put_job Queued name v s)" by (simp add: live_def put_job_def on_jobs_def)
      with ok rt s show ?thesis by (auto simp: catchS_def)
    qed
  qed
  have undo: "keepsS live (catchS (writeJsonAtomic E (\<lambda>_. False) (put_ledger ledger)) (\<lambda>_. returnS ()))"
    by (intro keepsS_catch keepsS_writeJsonAtomic keepsS_basic) simp
  show ?thesis
    unfolding persist_admission_def
  proof (intro afterS_keep keepsS_writeJsonAtomic w)
    fix e s t and r :: "unit res"
    assume "bindS (catchS (writeJsonAtomic E (\<lambda>_. False) (put_ledger ledger)) (\<lambda>_. returnS ()))
      (\<lambda>_. throwS (admissionError ''job_persist_failed'')) s = (r, t)"
    then show "r \<noteq> Inr () \<and> live t = live s"
      using keepsS_D [OF undo] by (cases r) (auto simp: res_simps)
  qed simp_all
qed

definition admitted :: "qenv \<Rightarrow> queue_policy \<Rightarrow> job \<Rightarrow> qfs \<Rightarrow> admit_result \<Rightarrow> qfs \<Rightarrow> bool" where
  "admitted E P job s ar t \<longleftrightarrow> (\<exists>s1 sn name. live s1 = live s \<and> readQueueSnapshot E P s1 = Inr sn \<and> sn_leases sn = []
     \<and> canonicalBackupActiveKey E (job_js job) = Inr (ar_activeKey ar)
     \<and> check_capacity P sn (ar_activeKey ar) (j_id job) = Inr (ar_outstanding ar - 1) \<and> ar_job ar = job
     \<and> queueFilePath (j_id job) = Inr name \<and> \<not> node_exists (job_node s Queued name)
     \<and> live t = live (put_job Queued name (job_js job) s))"

lemma live_put_job: "live s = live s' \<Longrightarrow> live (put_job st n v s) = live (put_job st n v s')"
  by (cases st) (auto simp: live_def put_job_def on_jobs_def)

lemma live_job_node: "live s = live s' \<Longrightarrow> st \<in> {Queued, Running} \<Longrightarrow> job_node s st n = job_node s' st n"
  by (auto simp: live_def job_node_def)

lemma admit_locked_effect:
  assumes "admit_locked E P oper who job now s = (r, t)"
  shows "case r of Inl e \<Rightarrow> live t = live s | Inr ar \<Rightarrow> admitted E P job s ar t"
proof -
  let ?Q = "\<lambda>r t. case r of Inl e \<Rightarrow> live t = live s | Inr ar \<Rightarrow> admitted E P job s ar t"
  have last: "afterS (live s) (bindS (persist_admission E name job ledger ev) (\<lambda>_.
      returnS \<lparr>ar_job = job, ar_activeKey = key, ar_outstanding = n + 1, ar_pruned = pruned\<rparr>)) ?Q"
    if "live s1 = live s" "readQueueSnapshot E P s1 = Inr sn" "sn_leases sn = []"
      "canonicalBackupActiveKey E (job_js job) = Inr key" "check_capacity P sn key (j_id job) = Inr n"
      "queueFilePath (j_id job) = Inr name" for s1 sn key n name ledger ev pruned
    unfolding afterS_def
  proof (intro allI impI)
    fix u assume u: "live u = live s"
    obtain r' t' where p: "persist_admission E name job ledger ev u = (r', t')" by fastforce
    have "afterS (live u) (persist_admission E name job ledger ev)
     (\<lambda>r t. if r = Inr () then \<exists>s. live s = live u \<and> live t = live (put_job Queued name (job_js job) s)
          \<and> \<not> node_exists (job_node s Queued name) else live t = live u)" by (rule persist_admission_effect)
    note eff = afterS_D [OF this p, unfolded u]
    have e: "if r' = Inr () then live t' = live (put_job Queued name (job_js job) s)
        \<and> \<not> node_exists (job_node s Queued name) else live t' = live s"
    proof (cases "r' = Inr ()")
      case True
      with eff obtain v where v: "live v = live s" "live t' = live (put_job Queued name (job_js job) v)"
        "\<not> node_exists (job_node v Queued name)" by auto
      with True live_put_job [OF v(1)] live_job_node [OF v(1), of Queued] show ?thesis by simp
    qed (use eff in simp)
    show "?Q (fst (bindS (persist_admission E name job ledger ev) (\<lambda>_.
      returnS \<lparr>ar_job = job, ar_activeKey = key, ar_outstanding = n + 1, ar_pruned = pruned\<rparr>) u))
      (snd (bindS (persist_admission E name job ledger ev) (\<lambda>_.
      returnS \<lparr>ar_job = job, ar_activeKey = key, ar_outstanding = n + 1, ar_pruned = pruned\<rparr>) u))"
    proof (cases r')
      case (Inl x)
      with p e show ?thesis by (simp add: bindS_def)
    next
      case (Inr x)
      then have "admitted E P job s \<lparr>ar_job = job, ar_activeKey = key, ar_outstanding = n + 1, ar_pruned = pruned\<rparr> t'"
        unfolding admitted_def using e that by (intro exI [of _ s1] exI [of _ sn] exI [of _ name]) simp
      with Inr p show ?thesis by (simp add: bindS_def returnS_def)
    qed
  qed
  have "afterS (live s) (admit_locked E P oper who job now) ?Q"
    unfolding admit_locked_def
    by (intro afterS_lift afterS_keep [OF keeps_prune] afterS_keep [OF keeps_ledger] afterS_snapshot afterS_require
        afterS_get last; (assumption | simp))
  from afterS_D [OF this assms] show ?thesis .
qed

definition moved :: "jstatus \<Rightarrow> jstatus \<Rightarrow> string \<Rightarrow> fnode \<Rightarrow> qfs \<Rightarrow> qfs" where
  "moved st st' name node s = on_jobs st' (dput name node) (on_jobs st (ddel name) s)"

lemma move_job_cases:
  assumes "move_job st st' name s = (r, t)"
  obtains (failed) e where "r = Inl e" "live t = live s"
  | (ok) fs node where "r = Inr ()" "job_node s st name = Some node" "t = moved st st' name node (refault s fs)"
proof (cases "job_node s st name")
  case None
  with assms failed show ?thesis by (auto simp: move_job_def res_simps bindS_def getS_def throwS_def)
next
  case (Some node)
  then have "sysS (moved st st' name node) s = (r, t)"
    using assms by (simp add: move_job_def bindS_def getS_def moved_def [abs_def])
  then show ?thesis using failed ok Some by (cases rule: sysS_cases) auto
qed

lemma live_refault_moved [simp]: "live (moved st st' n x (refault s fs)) = live (moved st st' n x s)"
  by (simp add: live_def moved_def on_jobs_def)

lemma live_refault_put_job [simp]: "live (put_job st n v (refault s fs)) = live (put_job st n v s)"
  by (simp add: live_def put_job_def on_jobs_def)

lemma live_moved: "live s = live s' \<Longrightarrow> st \<in> {Queued, Running} \<Longrightarrow> live (moved st st' n x s) = live (moved st st' n x s')"
  by (cases st') (auto simp: live_def moved_def on_jobs_def)

lemma afterS_bind:
  assumes "\<And>s r t. live s = k \<Longrightarrow> m s = (r, t) \<Longrightarrow> (case r of Inl e \<Rightarrow> Q (Inl e) t | Inr x \<Rightarrow> afterS (live t) (f x) Q)"
  shows "afterS k (bindS m f) Q"
  unfolding afterS_def
proof (intro allI impI)
  fix s assume s: "live s = k"
  obtain r t where m: "m s = (r, t)" by fastforce
  from assms [OF s m] m show "Q (fst (bindS m f s)) (snd (bindS m f s))"
    by (cases r) (auto simp: bindS_def afterS_def)
qed

text \<open>
  A claim leaves the queue as it was, or with the job moved, or with the job moved back; when
  it returns, the job is the moved one and its running document is written.
\<close>

definition claim_outcome :: "qenv \<Rightarrow> (jstatus \<times> string) list \<Rightarrow> queue_entry \<Rightarrow> string \<Rightarrow> qfs \<Rightarrow> claim_result res \<Rightarrow> qfs \<Rightarrow> bool" where
  "claim_outcome E pruned next name s r t \<longleftrightarrow> (case r of
       Inl e \<Rightarrow> live t = live s \<or> (\<exists>x. job_node s Queued name = Some x \<and> \<not> node_exists (job_node s Running name)
           \<and> (\<exists>y. live t = live (moved Queued Running name y s)
                  \<or> live t = live (moved Running Queued name y (moved Queued Running name x s))))
     | Inr c \<Rightarrow> (\<exists>x job startedAt log. c = Claimed job log pruned \<and> job_node s Queued name = Some x
           \<and> \<not> node_exists (job_node s Running name)
           \<and> parseBackupJobDocument (e_rt E) (e_clock E) (running_document (en_raw next) startedAt log) = Inr job
           \<and> live t = live (moved Queued Running name (RegularFile (Some (running_document (en_raw next) startedAt log))) s)))"

lemma dput_dput [simp]: "dput k v (dput k w d) = dput k v d"
  by (induction d) auto

lemma put_job_moved: "put_job st' n v (moved st st' n x s) = moved st st' n (RegularFile (Some v)) s"
  by (cases "q_jobs s st'") (auto simp: put_job_def moved_def on_jobs_def fun_eq_iff)

lemma claim_write_effect:
  assumes "catchS (writeJsonAtomic E (\<lambda>_. False) (put_job Running name doc))
      (\<lambda>_. bindS (catchS (move_job Running Queued name) (\<lambda>_. returnS ()))
             (\<lambda>_. throwS (admissionError ''claim_persist_failed''))) u = (r, t)"
  shows "case r of Inl e \<Rightarrow> live t = live u \<or> (\<exists>y. live t = live (moved Running Queued name y u))
    | Inr _ \<Rightarrow> live t = live (put_job Running name doc u)"
proof -
  obtain r1 t1 where w: "writeJsonAtomic E (\<lambda>_. False) (put_job Running name doc) u = (r1, t1)" by fastforce
  then show ?thesis
  proof (cases rule: writeJsonAtomic_cases)
    case (failed fs e)
    obtain r2 t2 where m: "move_job Running Queued name (refault u fs) = (r2, t2)" by fastforce
    with failed assms w have "r = Inl (admissionError ''claim_persist_failed'')" "t = t2"
      by (cases r2; simp add: catchS_def bindS_def returnS_def throwS_def)+
    moreover from m have "live t2 = live u \<or> (\<exists>y. live t2 = live (moved Running Queued name y u))"
    proof (cases rule: move_job_cases)
      case (ok fs' node)
      then have "live t2 = live (moved Running Queued name node u)" by simp
      then show ?thesis by blast
    qed simp
    ultimately show ?thesis by simp
  next
    case (ok fs fs')
    with assms w show ?thesis by (auto simp: catchS_def)
  qed
qed

lemma claim_moved_effect:
  assumes x: "job_node s Queued name = Some x" "\<not> node_exists (job_node s Running name)"
  shows "afterS (live (moved Queued Running name x s)) (claim_moved E ts pruned next name) (claim_outcome E pruned next name s)"
proof -
  let ?m = "moved Queued Running name x s" and ?Q = "claim_outcome E pruned next name s"
  have stop: "?Q (Inl e) t'" if "live t' = live ?m" for e t'
    using that x by (auto simp: claim_outcome_def)
  have logs: "keepsS live (if e_logDir E \<noteq> [] then safeJobLogPath E (j_id (en_job next)) else returnS [])"
    by (intro keepsS_if live_frames keepsS_basic)
  show ?thesis
    unfolding claim_moved_def Let_def
  proof (intro afterS_lift afterS_keep [OF logs] stop afterS_bind, assumption, assumption)
    fix startedAt logPath u r' t'
    let ?doc = "running_document (en_raw next) startedAt logPath"
    assume u: "live u = live ?m" and w: "catchS (writeJsonAtomic E (\<lambda>_. False) (put_job Running name ?doc))
            (\<lambda>_. bindS (catchS (move_job Running Queued name) (\<lambda>_. returnS ()))
                   (\<lambda>_. throwS (admissionError ''claim_persist_failed''))) u = (r', t')"
    note eff = claim_write_effect [OF w]
    show "case r' of Inl e \<Rightarrow> ?Q (Inl e) t' | Inr a \<Rightarrow> afterS (live t')
        (bindS (liftS (parseBackupJobDocument (e_rt E) (e_clock E) ?doc)) (\<lambda>job. returnS (Claimed job logPath pruned))) ?Q"
    proof (cases r')
      case (Inl e)
      with eff u x live_moved [OF u] show ?thesis by (auto simp: claim_outcome_def)
    next
      case (Inr a)
      have e: "live t' = live (moved Queued Running name (RegularFile (Some ?doc)) s)"
        using eff Inr live_put_job [OF u] by (simp add: put_job_moved)
      show ?thesis unfolding Inr
        by (simp, intro afterS_lift afterS_return) (use e x in \<open>auto simp: claim_outcome_def\<close>)
    qed
  qed
qed

lemma claim_entry_effect:
  assumes "claim_entry E ts pruned next s = (r, t)"
  shows "live t = live s \<and> (\<exists>e. r = Inl e)
    \<or> (\<exists>name. queueFilePath (j_id (en_job next)) = Inr name \<and> claim_outcome E pruned next name s r t)"
proof (cases "queueFilePath (j_id (en_job next))")
  case (Inl e)
  with assms show ?thesis by (auto simp: claim_entry_def bindS_def liftS_def)
next
  case (Inr name)
  let ?Q = "claim_outcome E pruned next name s"
  have stop: "?Q (Inl e) t'" if "live t' = live s" for e t' using that by (simp add: claim_outcome_def)
  have "afterS (live s) (claim_entry E ts pruned next) ?Q"
    unfolding claim_entry_def Inr
  proof (intro afterS_lift afterS_get afterS_require stop afterS_bind, assumption, assumption)
    fix n' u v r' t'
    assume "Inr name = Inr n'" and u: "live u = live s" and free: "\<not> node_exists (job_node u Running n')"
      and v: "live v = live s" and m: "move_job Queued Running n' v = (r', t')"
    then have n: "n' = name" by simp
    from m show "case r' of Inl e \<Rightarrow> ?Q (Inl e) t' | Inr x \<Rightarrow> afterS (live t') (claim_moved E ts pruned next n') ?Q"
    proof (cases rule: move_job_cases)
      case (failed e)
      with stop v show ?thesis by simp
    next
      case (ok fs node)
      then have "live t' = live (moved Queued Running name node s)" using live_moved [OF v] n by simp
      with ok claim_moved_effect [of s name node] live_job_node [OF v] live_job_node [OF u] free n show ?thesis by simp
    qed
  qed
  from afterS_D [OF this assms] Inr show ?thesis by blast
qed

lemma claim_outcome_live: "live s = live s' \<Longrightarrow> claim_outcome E pr nx n s = claim_outcome E pr nx n s'"
proof -
  assume l: "live s = live s'"
  then have "live (moved Running Queued n y (moved Queued Running n x s)) = live (moved Running Queued n y (moved Queued Running n x s'))"
    for x y by (intro live_moved) (simp_all add: live_moved)
  with l live_job_node [OF l] live_moved [OF l] show ?thesis
    by (intro ext) (simp add: claim_outcome_def cong: sum.case_cong)
qed

lemma claim_locked_effect:
  assumes "claim_locked E P now s = (r, t)"
  shows "live t = live s \<and> (\<forall>job log pr. r \<noteq> Inr (Claimed job log pr))
    \<or> (\<exists>s1 sn next rest pruned name. live s1 = live s \<and> readQueueSnapshot E P s1 = Inr sn
         \<and> int (length (sn_at sn Running) + length (sn_leases sn)) < maxConcurrency P
         \<and> js_sort_by (claim_order E) (sn_at sn Queued) = next # rest
         \<and> queueFilePath (j_id (en_job next)) = Inr name \<and> claim_outcome E pruned next name s r t)" (is "?Q r t")
proof -
  have stop: "?Q (Inl e) t'" if "live t' = live s" for e t' using that by simp
  have "afterS (live s) (claim_locked E P now) ?Q"
    unfolding claim_locked_def
  proof (intro afterS_lift afterS_keep [OF keeps_prune] afterS_snapshot stop, assumption, assumption, assumption)
    fix ts pruned s1 sn
    assume s1: "live s1 = live s" "readQueueSnapshot E P s1 = Inr sn"
    show "afterS (live s) (if int (length (sn_at sn Running) + length (sn_leases sn)) \<ge> maxConcurrency P
       then returnS (NotClaimed ''concurrency_full'' pruned)
       else (case js_sort_by (claim_order E) (sn_at sn Queued) of
             [] \<Rightarrow> returnS (NotClaimed ''queue_empty'' pruned)
           | next # _ \<Rightarrow> claim_entry E ts pruned next)) ?Q"
    proof (cases "int (length (sn_at sn Running) + length (sn_leases sn)) \<ge> maxConcurrency P")
      case free: False
      show ?thesis
      proof (cases "js_sort_by (claim_order E) (sn_at sn Queued)")
        case (Cons nx rest)
        have "?Q r' t'" if "live u = live s" "claim_entry E ts pruned nx u = (r', t')" for u r' t'
          using claim_entry_effect [OF that(2)] claim_outcome_live [OF that(1)] that(1) s1 free Cons by fastforce
        then show ?thesis using free Cons by (auto simp: afterS_def)
      qed (use free in \<open>auto intro: afterS_return\<close>)
    qed (auto intro: afterS_return)
  qed
  from afterS_D [OF this assms] show ?thesis .
qed

lemma lease_locked_effect:
  assumes "lease_locked E P kind now s = (r, t)"
  shows "live t = live s \<and> (\<forall>h k pr. r \<noteq> Inr (Acquired h k pr))
    \<or> (\<exists>s1 sn pr createdAt. live s1 = live s \<and> readQueueSnapshot E P s1 = Inr sn
         \<and> int (length (sn_at sn Running) + length (sn_leases sn)) < maxConcurrency P
         \<and> r = Inr (Acquired (''lease-'' @ e_leaseId E @ ''.'' @ e_leaseToken E) kind pr)
         \<and> live t = live (put_lease (lease_name (''lease-'' @ e_leaseId E)) (lease_js E kind createdAt) s))" (is "?Q r t")
proof -
  have stop: "?Q (Inl e) t'" if "live t' = live s" for e t' using that by simp
  have lp: "live (put_lease n v u) = live (put_lease n v u')" if "live u = live u'" for n v u u'
    using that by (simp add: live_def put_lease_def)
  have "afterS (live s) (lease_locked E P kind now) ?Q"
    unfolding lease_locked_def Let_def
  proof (intro afterS_lift afterS_keep [OF keeps_prune] afterS_snapshot stop, assumption, assumption, assumption)
    fix ts pruned s1 sn
    let ?i = "''lease-'' @ e_leaseId E"
    assume s1: "live s1 = live s" "readQueueSnapshot E P s1 = Inr sn"
    show "afterS (live s) (if int (length (sn_at sn Running) + length (sn_leases sn)) \<ge> maxConcurrency P
       then returnS (NotAcquired ''concurrency_full'' pruned)
       else bindS (liftS (iso_of_ms ts)) (\<lambda>createdAt.
        bindS (writeJsonExclusiveAtomic E (\<lambda>s. node_exists (map_of (dir_entries (q_leases s)) (lease_name ?i)))
                 (put_lease (lease_name ?i) (lease_js E kind createdAt))) (\<lambda>_.
        returnS (Acquired (?i @ ''.'' @ e_leaseToken E) kind pruned)))) ?Q"
    proof (cases "int (length (sn_at sn Running) + length (sn_leases sn)) \<ge> maxConcurrency P")
      case free: False
      have w: "case r' of Inl e \<Rightarrow> ?Q (Inl e) t' | Inr x \<Rightarrow> afterS (live t')
          (returnS (Acquired (?i @ ''.'' @ e_leaseToken E) kind pruned)) ?Q"
        if "live u = live s" "writeJsonExclusiveAtomic E taken (put_lease (lease_name ?i) (lease_js E kind createdAt)) u = (r', t')"
        for u r' t' taken createdAt
        using that(2)
      proof (cases rule: writeJsonExclusiveAtomic_cases)
        case (ok fs)
        then have "live t' = live (put_lease (lease_name ?i) (lease_js E kind createdAt) s)"
          using lp [of "refault u fs" s] that(1) by simp
        then have "?Q (Inr (Acquired (?i @ ''.'' @ e_leaseToken E) kind pruned)) u'" if "live u' = live t'" for u'
          using that s1 free by (intro disjI2 exI [of _ s1] exI [of _ sn] exI [of _ pruned] exI [of _ createdAt]) simp
        then show ?thesis unfolding ok by (simp add: afterS_return)
      qed (use that in simp)
      show ?thesis unfolding if_not_P [OF free]
        by (intro afterS_lift stop afterS_bind; (assumption | rule w; assumption))
    qed (auto intro: afterS_return)
  qed
  from afterS_D [OF this assms] show ?thesis by simp
qed

lemma run_get: "bindS getS f s = f s s"
  by (simp add: bindS_def getS_def)

lemma run_lift: "r = Inr x \<Longrightarrow> bindS (liftS r) f s = f x s"
  by (simp add: bindS_def liftS_def)

lemma run_require: "ok \<Longrightarrow> bindS (requireS ok e) f s = f () s"
  by (simp add: bindS_def requireS_def returnS_def)

lemma release_locked_effect:
  assumes "release_locked E (i, token) s = (r, t)"
  shows "(\<exists>e. r = Inl e) \<and> live t = live s
    \<or> (\<exists>l. r = Inr (le_kind l) \<and> readSchedulerLease E (map_of (dir_entries (q_leases s)) (lease_name i)) = Inr (Some l)
         \<and> le_token l = token \<and> live t = live (s\<lparr>q_leases := on_dir (ddel (lease_name i)) (q_leases s)\<rparr>))"
proof (cases "readSchedulerLease E (map_of (dir_entries (q_leases s)) (lease_name i))")
  case (Inr found)
  show ?thesis
  proof (cases found)
    case (Some l)
    show ?thesis
    proof (cases "le_token l = token")
      case True
      obtain r' t' where d: "sysS (\<lambda>s. s\<lparr>q_leases := on_dir (ddel (lease_name i)) (q_leases s)\<rparr>) s = (r', t')" by fastforce
      have "release_locked E (i, token) s
          = bindS (sysS (\<lambda>s. s\<lparr>q_leases := on_dir (ddel (lease_name i)) (q_leases s)\<rparr>)) (\<lambda>_. returnS (le_kind l)) s"
        by (simp add: release_locked_def Let_def run_get run_lift [OF Inr] Some True)
      with assms d have rt: "r = bindR r' (\<lambda>_. Inr (le_kind l))" "t = t'"
        unfolding bindS_def returnS_def by (cases r'; simp)+
      from d show ?thesis
      proof (cases rule: sysS_cases)
        case (failed fs e)
        with rt show ?thesis by simp
      next
        case (ok fs)
        with rt have "r = Inr (le_kind l)" "live t = live (s\<lparr>q_leases := on_dir (ddel (lease_name i)) (q_leases s)\<rparr>)"
          by (simp_all add: live_def)
        with Inr Some True show ?thesis by blast
      qed
    qed (use assms Inr Some in \<open>auto simp: release_locked_def Let_def bindS_def getS_def liftS_def throwS_def\<close>)
  qed (use assms Inr in \<open>auto simp: release_locked_def Let_def bindS_def getS_def liftS_def throwS_def\<close>)
qed (use assms in \<open>auto simp: release_locked_def Let_def bindS_def getS_def liftS_def\<close>)

text \<open>Rewriting a running job: what \<open>markBackupJobOutcomeUnknown\<close> and \<open>finishBackupJob\<close> share.\<close>

definition rewrites_running :: "qenv \<Rightarrow> string \<Rightarrow> qfs \<Rightarrow> qfs \<Rightarrow> bool" where
  "rewrites_running E i s t \<longleftrightarrow> (\<exists>entry v. queueFilePath i = Inr (en_name entry) \<and> reads_entry E s Running entry
     \<and> live t = live (put_job Running (en_name entry) v s))"

lemma writeJsonAtomic_live:
  assumes "writeJsonAtomic E (\<lambda>_. False) (put_job st name v) s = (r, t)"
  shows "if r = Inr () then live t = live (put_job st name v s) else live t = live s"
  using assms by (cases rule: writeJsonAtomic_cases) auto

lemma unknown_locked_effect:
  assumes "unknown_locked E i summary exitCode now s = (r, t)"
  shows "live t = live s \<and> (\<exists>e. r = Inl e) \<or> rewrites_running E i s t"
proof (cases "queueFilePath i")
  case (Inr name)
  show ?thesis
  proof (cases "readQueueEntry E Running name (job_node s Running name)")
    case r: (Inr found)
    show ?thesis
    proof (cases found)
      case (Some entry)
      then have e: "reads_entry E s Running entry" "en_name entry = name" using r readQueueEntry_Inr by blast+
      show ?thesis
      proof (cases "bindR (timestampMs now) iso_of_ms")
        case now: (Inr updatedAt)
        let ?doc = "del_prop ''logPath'' (set_prop ''exitCode'' (JInt exitCode) (set_prop ''resultSummary'' (JStr summary)
               (set_prop ''finishedAt'' JNull (set_prop ''updatedAt'' (JStr updatedAt)
                 (set_prop ''status'' (JStr ''running'') (en_raw entry))))))"
        obtain r' t' where w: "writeJsonAtomic E (\<lambda>_. False) (put_job Running name ?doc) s = (r', t')" by fastforce
        have rt: "t = t'" "r = bindR r' (\<lambda>_. parseBackupJobDocument (e_rt E) (e_clock E) ?doc)"
          using assms Inr r Some now w unfolding unknown_locked_def Let_def
          by (cases r'; simp add: bindS_def liftS_def getS_def)+
        show ?thesis
        proof (cases "r' = Inr ()")
          case True
          with writeJsonAtomic_live [OF w] e Inr rt show ?thesis unfolding rewrites_running_def by auto
        next
          case False
          with writeJsonAtomic_live [OF w] rt show ?thesis by (cases r') auto
        qed
      qed (use assms Inr r Some in \<open>auto simp: unknown_locked_def bindS_def liftS_def getS_def\<close>)
    qed (use assms Inr r in \<open>auto simp: unknown_locked_def bindS_def liftS_def getS_def throwS_def\<close>)
  qed (use assms Inr in \<open>auto simp: unknown_locked_def bindS_def liftS_def getS_def\<close>)
qed (use assms in \<open>auto simp: unknown_locked_def bindS_def liftS_def\<close>)

lemma finish_write_effect:
  assumes "finish_write E P name st doc now s = (r, t)" and "st \<in> {Done, Failed}"
  shows "live t = live s \<and> (\<exists>e. r = Inl e) \<or> live t = live (put_job Running name doc s) \<and> (\<exists>e. r = Inl e)
    \<or> (\<exists>x. live t = live (moved Running st name x (put_job Running name doc s)))" (is "?Q r t")
proof -
  have stop: "?Q (Inl e) t'" if "live t' = live s" for e t' using that by simp
  have "afterS (live s) (finish_write E P name st doc now) ?Q"
    unfolding finish_write_def
  proof (rule afterS_bind)
    fix u r' t' assume u: "live u = live s" and w: "writeJsonAtomic E (\<lambda>_. False) (put_job Running name doc) u = (r', t')"
    show "case r' of Inl e \<Rightarrow> ?Q (Inl e) t' | Inr x \<Rightarrow> afterS (live t') (bindS (move_job Running st name) (\<lambda>_.
       bindS (pruneTerminalJobsUnlocked E P now) (\<lambda>pruned.
       bindS (liftS (parseBackupJobDocument (e_rt E) (e_clock E) doc)) (\<lambda>job. returnS (job, pruned))))) ?Q"
    proof (cases r')
      case (Inl e)
      with writeJsonAtomic_live [OF w] u stop show ?thesis by simp
    next
      case (Inr x)
      then have t': "live t' = live (put_job Running name doc s)"
        using writeJsonAtomic_live [OF w] live_put_job [OF u] by simp
      have "afterS (live t') (bindS (move_job Running st name) (\<lambda>_.
       bindS (pruneTerminalJobsUnlocked E P now) (\<lambda>pruned.
       bindS (liftS (parseBackupJobDocument (e_rt E) (e_clock E) doc)) (\<lambda>job. returnS (job, pruned))))) ?Q"
      proof (rule afterS_bind)
        fix v r'' t'' assume v: "live v = live t'" and m: "move_job Running st name v = (r'', t'')"
        from m show "case r'' of Inl e \<Rightarrow> ?Q (Inl e) t'' | Inr x \<Rightarrow> afterS (live t'') (bindS (pruneTerminalJobsUnlocked E P now) (\<lambda>pruned.
          bindS (liftS (parseBackupJobDocument (e_rt E) (e_clock E) doc)) (\<lambda>job. returnS (job, pruned)))) ?Q"
        proof (cases rule: move_job_cases)
          case (failed e)
          with v t' show ?thesis by simp
        next
          case (ok fs node)
          then have "live t'' = live (moved Running st name node (put_job Running name doc s))"
            using live_moved [of v "put_job Running name doc s"] v t' by simp
          then have Q: "?Q a b" if "live b = live t''" for a b using that by auto
          show ?thesis unfolding ok(1)
            by (simp, intro afterS_keep [OF keeps_prune] afterS_lift afterS_return Q)
        qed
      qed
      with Inr show ?thesis by simp
    qed
  qed
  from afterS_D [OF this assms(1)] show ?thesis .
qed

definition finishes_running :: "qenv \<Rightarrow> string \<Rightarrow> jstatus \<Rightarrow> qfs \<Rightarrow> qfs \<Rightarrow> bool" where
  "finishes_running E i st s t \<longleftrightarrow> (\<exists>entry v x. queueFilePath i = Inr (en_name entry) \<and> reads_entry E s Running entry
     \<and> live t = live (moved Running st (en_name entry) x (put_job Running (en_name entry) v s)))"

lemma finish_locked_effect:
  assumes "finish_locked E P i st summary exitCode now s = (r, t)" and "st \<in> {Done, Failed}"
  shows "(live t = live s \<or> rewrites_running E i s t) \<and> (\<exists>e. r = Inl e) \<or> finishes_running E i st s t"
proof (cases "queueFilePath i")
  case (Inr name)
  show ?thesis
  proof (cases "readQueueEntry E Running name (job_node s Running name)")
    case r: (Inr found)
    show ?thesis
    proof (cases found)
      case (Some entry)
      then have e: "reads_entry E s Running entry" "en_name entry = name" using r readQueueEntry_Inr by blast+
      show ?thesis
      proof (cases "\<exists>finishedAt doc. bindR (timestampMs now) iso_of_ms = Inr finishedAt \<and> \<not> node_exists (job_node s st name)
          \<and> terminal_document (en_raw entry) st finishedAt summary exitCode = Inr doc")
        case True
        then obtain doc where "finish_write E P name st doc now s = (r, t)"
          using assms(1) Inr r Some by (auto simp: finish_locked_def run_get run_lift run_require)
        from finish_write_effect [OF this assms(2)] e Inr show ?thesis
          unfolding rewrites_running_def finishes_running_def by blast
      next
        case False
        with assms(1) Inr r Some have "t = s \<and> (\<exists>e. r = Inl e)"
          unfolding finish_locked_def
          by (cases "bindR (timestampMs now) iso_of_ms")
             (auto simp: bindS_def liftS_def getS_def requireS_def throwS_def returnS_def split: if_splits sum.splits)
        then show ?thesis by blast
      qed
    qed (use assms Inr r in \<open>auto simp: finish_locked_def bindS_def liftS_def getS_def throwS_def\<close>)
  qed (use assms Inr in \<open>auto simp: finish_locked_def bindS_def liftS_def getS_def\<close>)
qed (use assms in \<open>auto simp: finish_locked_def bindS_def liftS_def\<close>)

end
