(* ===== verification/StepSystems.thy ===== *)
theory StepSystems
  imports JsPrelude
begin

text \<open>
  The interface of a component that changes state step by step: what a component promises is
  that its initial states satisfy an invariant and that every step keeps it; what its clients
  get is the invariant in every reachable state, after any sequence of steps. Components
  whose operations are functions on a state get the same for sequences of operations.
\<close>

inductive reachable :: "('s \<Rightarrow> bool) \<Rightarrow> ('s \<Rightarrow> 's \<Rightarrow> bool) \<Rightarrow> 's \<Rightarrow> bool" for init step where
  start: "init s \<Longrightarrow> reachable init step s"
| more: "reachable init step s \<Longrightarrow> step s t \<Longrightarrow> reachable init step t"

locale step_system =
  fixes init :: "'s \<Rightarrow> bool" and step :: "'s \<Rightarrow> 's \<Rightarrow> bool" and inv :: "'s \<Rightarrow> bool"
  assumes init_inv: "init s \<Longrightarrow> inv s"
    and step_inv: "inv s \<Longrightarrow> step s t \<Longrightarrow> inv t"
begin

lemma reachable_inv: "reachable init step s \<Longrightarrow> inv s"
  by (induction rule: reachable.induct) (auto intro: init_inv step_inv)

lemma inv_kept: "step\<^sup>*\<^sup>* s t \<Longrightarrow> inv s \<Longrightarrow> inv t"
  by (induction rule: rtranclp_induct) (auto intro: step_inv)

end

text \<open>Operations that are functions: a step is the run of some operation.\<close>

locale operation_system =
  fixes run :: "'op \<Rightarrow> 's \<Rightarrow> 's" and inv :: "'s \<Rightarrow> bool"
  assumes run_inv: "inv s \<Longrightarrow> inv (run op s)"
begin

lemma run_all_inv: "inv s \<Longrightarrow> inv (fold run ops s)"
  by (induction ops arbitrary: s) (auto intro: run_inv)

end

sublocale operation_system \<subseteq> steps: step_system inv "\<lambda>s t. \<exists>op. t = run op s" inv
  by unfold_locales (auto intro: run_inv)

end
