(* ===== verification/BackupQueueSafety.thy ===== *)
theory BackupQueueSafety
  imports BackupQueueEffects StepSystems
begin

text \<open>
  The guarantees of the backup queue: its capacity limits as an invariant of every reachable
  state, what an admission, a claim and a lease establish, what pruning may remove, and the two
  ways a failing system call leaves the queue unusable until an operator repairs it.
\<close>

section \<open>The capacity invariant\<close>

text \<open>
  The bounds of the policy on what the queue holds: jobs outstanding, and jobs running
  together with leases. File names in a directory are distinct.
\<close>

definition queue_inv :: "queue_policy \<Rightarrow> qfs \<Rightarrow> bool" where
  "queue_inv P s \<longleftrightarrow> distinct (map fst (dir_entries (q_jobs s Queued))) \<and> distinct (map fst (dir_entries (q_jobs s Running)))
     \<and> distinct (map fst (dir_entries (q_leases s)))
     \<and> int (jcount s Queued + jcount s Running) \<le> maxOutstanding P \<and> int (jcount s Running + lcount s) \<le> maxConcurrency P"

lemma queue_inv_live: "live s = live t \<Longrightarrow> queue_inv P s = queue_inv P t"
  by (simp add: live_def queue_inv_def)

lemma queueFilePath_json: "queueFilePath i = Inr name \<Longrightarrow> ends_with ''.json'' name"
  by (auto simp: queueFilePath_def res_simps ends_with_append)

lemma distinct_dput: "distinct (map fst d) \<Longrightarrow> distinct (map fst (dput k v d))"
  by (auto simp: keys_dput)

lemma distinct_ddel: "distinct (map fst d) \<Longrightarrow> distinct (map fst (ddel k d))"
  by (simp add: keys_ddel)

lemma dcount_ddel_le: "dcount (ddel k d) \<le> dcount d"
proof -
  have "json_names (filter (\<lambda>x. x \<noteq> k) (map fst d)) = filter (\<lambda>x. x \<noteq> k) (json_names (map fst d))"
    by (simp add: json_names_def conj_commute)
  then show ?thesis unfolding dcount_def keys_ddel by simp
qed

lemma job_node_key: "job_node s st n = Some x \<Longrightarrow> n \<in> fst ` set (dir_entries (q_jobs s st)) \<and> is_real (q_jobs s st)"
  by (cases "q_jobs s st") (auto simp: job_node_def is_real_def dest: map_of_SomeD intro: rev_image_eqI)

lemma reads_entry_node: "reads_entry E s st e \<Longrightarrow> \<exists>x. job_node s st (en_name e) = Some x"
  by (auto simp: reads_entry_def)

lemma inv_put_running:
  assumes "queue_inv P s" and "job_node s Running name = Some x"
  shows "queue_inv P (put_job Running name v s)"
  using assms job_node_key [OF assms(2)]
  by (auto simp: queue_inv_def put_job_def on_jobs_def dir_entries_on_dir dcount_dput distinct_dput)

lemma inv_move_out:
  assumes "queue_inv P s" and "st \<in> {Done, Failed}"
  shows "queue_inv P (moved Running st name x s)"
proof -
  have "dir_entries (on_dir (ddel name) n) = ddel name (dir_entries n)" for n
    by (cases n) (auto simp: ddel_def)
  then show ?thesis
    using assms dcount_ddel_le [of name "dir_entries (q_jobs s Running)"]
    by (auto simp: queue_inv_def moved_def on_jobs_def distinct_ddel)
qed

lemma inv_claim:
  assumes inv: "queue_inv P s" and x: "job_node s Queued name = Some x" and real: "is_real (q_jobs s Running)"
    and json: "ends_with ''.json'' name" and free: "int (jcount s Running + lcount s) < maxConcurrency P"
  shows "queue_inv P (moved Queued Running name y s)" (is ?move)
    and "queue_inv P (moved Running Queued name z (moved Queued Running name y s))" (is ?undo)
proof -
  let ?Q = "dir_entries (q_jobs s Queued)" and ?R = "dir_entries (q_jobs s Running)"
  have k: "name \<in> fst ` set ?Q" "is_real (q_jobs s Queued)" using job_node_key [OF x] by auto
  have d: "distinct (map fst ?Q)" "distinct (map fst ?R)" "distinct (map fst (dir_entries (q_leases s)))"
    and b: "int (dcount ?Q + dcount ?R) \<le> maxOutstanding P" using inv by (auto simp: queue_inv_def)
  have q: "Suc (dcount (ddel name ?Q)) = dcount ?Q" using dcount_ddel [OF d(1) k(1) json] .
  have r: "dcount (dput name y ?R) \<le> Suc (dcount ?R)" by (simp add: dcount_dput)
  have m: "dir_entries (q_jobs (moved Queued Running name y s) Queued) = ddel name ?Q"
    "dir_entries (q_jobs (moved Queued Running name y s) Running) = dput name y ?R"
    "q_leases (moved Queued Running name y s) = q_leases s"
    using k(2) real by (simp_all add: moved_def on_jobs_def dir_entries_on_dir)
  show ?move unfolding queue_inv_def m using d b q r free by (auto simp: distinct_ddel distinct_dput)
  have u: "dir_entries (q_jobs (moved Running Queued name z (moved Queued Running name y s)) Queued) = dput name z (ddel name ?Q)"
    "dir_entries (q_jobs (moved Running Queued name z (moved Queued Running name y s)) Running) = ddel name (dput name y ?R)"
    "q_leases (moved Running Queued name z (moved Queued Running name y s)) = q_leases s"
    using k(2) real by (simp_all add: moved_def on_jobs_def dir_entries_on_dir)
  have "name \<in> fst ` set (dput name y ?R)" using keys_dput [of name y ?R] by (metis Un_iff list.set_intros(1) set_append set_map)
  then have r': "dcount (ddel name (dput name y ?R)) \<le> dcount ?R"
    using dcount_ddel [OF distinct_dput [OF d(2), of name y] _ json] r by linarith
  have q': "dcount (dput name z (ddel name ?Q)) \<le> dcount ?Q" using q by (simp add: dcount_dput)
  show ?undo unfolding queue_inv_def u using d b q' r' free by (auto simp: distinct_ddel distinct_dput)
qed

section \<open>Whole operations\<close>

text \<open>What the directories contain; preparing the queue root creates directories, all empty.\<close>

definition contents :: "qfs \<Rightarrow> (jstatus \<Rightarrow> dir) \<times> dir \<times> fnode option" where
  "contents s = (\<lambda>st. dir_entries (q_jobs s st), dir_entries (q_leases s), q_ledger s)"

lemma contents_updates [simp]:
  "contents (s\<lparr>q_faults := fs\<rparr>) = contents s" "contents (s\<lparr>q_lock := l\<rparr>) = contents s"
  "contents (s\<lparr>q_root := n\<rparr>) = contents s"
  by (simp_all add: contents_def)

lemma ensureRealDirectory_keeps:
  assumes put: "\<And>n s. dir_entries n = dir_entries (node s) \<Longrightarrow> g (put n s) = g s"
    and get: "\<And>n s. node (put n s) = n" "\<And>s fs. node (refault s fs) = node s" and faults: "\<And>s fs. g (refault s fs) = g s"
  shows "keepsS g (ensureRealDirectory E node put)"
proof -
  have g1: "g t = g s" if "(case node s of NoDir \<Rightarrow> sysS (put (RealDir (fresh_dir E) [])) | _ \<Rightarrow> returnS ()) s = (r, t)" for s r t
    using that put faults get(2)
    by (cases "node s") (auto simp: returnS_def elim!: sysS_cases)
  have g2: "g (snd ((case node s of RealDir st d \<Rightarrow> bindS (liftS (own st)) (\<lambda>st'. modifyS (put (RealDir st' d)))
      | _ \<Rightarrow> throwS e) s)) = g s" for s own e
    using put by (cases "node s") (auto simp: bindS_def liftS_def modifyS_def throwS_def split: sum.splits)
  show ?thesis
    unfolding ensureRealDirectory_def keepsS_def
    using g1 g2 by (auto simp: bindS_def liftS_def getS_def split: sum.splits prod.splits)
qed

lemma prepareQueueRoot_keeps: "keepsS contents (prepareQueueRoot E)"
proof -
  have "keepsS contents (ensure_status_dir E st)" for st
    unfolding ensure_status_dir_def
    by (rule ensureRealDirectory_keeps) (auto simp: contents_def fun_eq_iff)
  moreover have "keepsS contents (ensureRealDirectory E q_root (\<lambda>n s. s\<lparr>q_root := n\<rparr>))"
    "keepsS contents (ensureRealDirectory E q_leases (\<lambda>n s. s\<lparr>q_leases := n\<rparr>))"
    by (rule ensureRealDirectory_keeps; simp add: contents_def)+
  ultimately show ?thesis unfolding prepareQueueRoot_def by (intro keepsS_bind keepsS_basic)
qed

lemma queue_inv_contents: "contents s = contents t \<Longrightarrow> queue_inv P s = queue_inv P t"
  by (simp add: contents_def queue_inv_def fun_eq_iff)

lemma visible_inv: "visible s = visible t \<Longrightarrow> queue_inv P s = queue_inv P t"
  using visible_live queue_inv_live by blast

lemma withQueueLock_inv:
  assumes "invS (queue_inv P) action"
  shows "invS (queue_inv P) (withQueueLock E action)"
  unfolding invS_def
proof (intro allI impI)
  fix s assume s: "queue_inv P s"
  obtain r t where w: "withQueueLock E action s = (r, t)" by fastforce
  then show "queue_inv P (snd (withQueueLock E action s))"
  proof (cases rule: withQueueLock_cases)
    case (ran s' r' t')
    then have "queue_inv P t'" using invS_D [OF assms] visible_inv s by metis
    with ran w visible_inv show ?thesis by (metis snd_conv)
  qed (use s w visible_inv in \<open>metis snd_conv\<close>)
qed

lemma prepare_inv: "invS (queue_inv P) (prepareQueueRoot E)"
  by (rule keepsS_inv [OF prepareQueueRoot_keeps]) (blast dest: queue_inv_contents)

lemma admit_locked_inv:
  assumes "queue_inv P s" and "admit_locked E P oper who job now s = (r, t)"
  shows "queue_inv P t"
proof (cases r)
  case (Inl e)
  with admit_locked_effect [OF assms(2)] have "live t = live s" by simp
  with assms(1) queue_inv_live show ?thesis by blast
next
  case (Inr ar)
  with admit_locked_effect [OF assms(2)] obtain s1 sn name n where a: "live s1 = live s"
    "readQueueSnapshot E P s1 = Inr sn" "sn_leases sn = []" "check_capacity P sn (ar_activeKey ar) (j_id job) = Inr n"
    "live t = live (put_job Queued name (job_js job) s)"
    by (auto simp: admitted_def)
  have "int (jcount s Queued + jcount s Running) < maxOutstanding P"
    using a(4) snapshot_Inr(2) [OF a(2)] a(1)
    by (auto simp: check_capacity_def res_simps Let_def live_def)
  moreover have "is_real (q_jobs s Queued)" using snapshot_Inr(1) [OF a(2), of Queued] a(1) by (simp add: live_def)
  ultimately have "queue_inv P (put_job Queued name (job_js job) s)"
    using assms(1) by (auto simp: queue_inv_def put_job_def on_jobs_def dir_entries_on_dir dcount_dput distinct_dput)
  with a(5) queue_inv_live show ?thesis by blast
qed

lemma claim_locked_inv:
  assumes "queue_inv P s" and "claim_locked E P now s = (r, t)"
  shows "queue_inv P t"
  using claim_locked_effect [OF assms(2)]
proof (elim disjE exE conjE)
  assume "live t = live s"
  with assms(1) queue_inv_live show ?thesis by blast
next
  fix s1 sn nx rest pruned name
  assume s1: "live s1 = live s" "readQueueSnapshot E P s1 = Inr sn"
    and free: "int (length (sn_at sn Running) + length (sn_leases sn)) < maxConcurrency P"
    and name: "queueFilePath (j_id (en_job nx)) = Inr name" and out: "claim_outcome E pruned nx name s r t"
  have real: "is_real (q_jobs s Running)" using snapshot_Inr(1) [OF s1(2), of Running] s1(1) by (simp add: live_def)
  have lim: "int (jcount s Running + lcount s) < maxConcurrency P"
    using free snapshot_Inr(2) [OF s1(2), of Running] snapshot_Inr(6) [OF s1(2)] s1(1) by (simp add: live_def)
  have "live t = live s \<or> (\<exists>x y z. job_node s Queued name = Some x \<and> (live t = live (moved Queued Running name y s)
      \<or> live t = live (moved Running Queued name z (moved Queued Running name y s))))"
    using out by (cases r) (auto simp: claim_outcome_def)
  then show ?thesis
    using inv_claim [OF assms(1) _ real queueFilePath_json [OF name] lim] assms(1) queue_inv_live [of t] by metis
qed

lemma lease_locked_inv:
  assumes "queue_inv P s" and "lease_locked E P kind now s = (r, t)"
  shows "queue_inv P t"
  using lease_locked_effect [OF assms(2)]
proof (elim disjE exE conjE)
  fix s1 sn pr createdAt
  assume s1: "live s1 = live s" "readQueueSnapshot E P s1 = Inr sn"
    and free: "int (length (sn_at sn Running) + length (sn_leases sn)) < maxConcurrency P"
    and t: "live t = live (put_lease (lease_name (''lease-'' @ e_leaseId E)) (lease_js E kind createdAt) s)"
  have "is_real (q_leases s)" using snapshot_Inr(5) [OF s1(2)] s1(1) by (simp add: live_def)
  moreover have "int (jcount s Running + lcount s) < maxConcurrency P"
    using free snapshot_Inr(2) [OF s1(2), of Running] snapshot_Inr(6) [OF s1(2)] s1(1) by (simp add: live_def)
  ultimately have "queue_inv P (put_lease (lease_name (''lease-'' @ e_leaseId E)) (lease_js E kind createdAt) s)"
    using assms(1) by (auto simp: queue_inv_def put_lease_def dir_entries_on_dir dcount_dput distinct_dput)
  with t queue_inv_live show ?thesis by blast
qed (use assms(1) queue_inv_live in blast)

lemma release_locked_inv:
  assumes "queue_inv P s" and "release_locked E h s = (r, t)"
  shows "queue_inv P t"
proof -
  have "dir_entries (on_dir (ddel n) d) = ddel n (dir_entries d)" for n d by (cases d) (auto simp: ddel_def)
  then have "queue_inv P (s\<lparr>q_leases := on_dir (ddel n) (q_leases s)\<rparr>)" for n
    using assms(1) dcount_ddel_le [of n "dir_entries (q_leases s)"] by (auto simp: queue_inv_def distinct_ddel)
  then show ?thesis
    using release_locked_effect [of E "fst h" "snd h" s r t] assms queue_inv_live [of t] by (cases h) (metis fst_conv snd_conv)
qed

lemma rewrite_inv: "queue_inv P s \<Longrightarrow> rewrites_running E i s t \<Longrightarrow> queue_inv P t"
  unfolding rewrites_running_def using inv_put_running reads_entry_node queue_inv_live by metis

lemma finish_locked_inv:
  assumes "queue_inv P s" and "finish_locked E P i st summary exitCode now s = (r, t)" and "st \<in> {Done, Failed}"
  shows "queue_inv P t"
  using finish_locked_effect [OF assms(2,3)]
proof (elim disjE conjE)
  assume "finishes_running E i st s t"
  then show ?thesis
    unfolding finishes_running_def using inv_put_running [OF assms(1)] inv_move_out [OF _ assms(3)] reads_entry_node queue_inv_live
    by metis
qed (use assms(1) queue_inv_live rewrite_inv in blast)+

lemma invS_lift: "(\<And>x. r = Inr x \<Longrightarrow> invS I (f x)) \<Longrightarrow> invS I (bindS (liftS r) f)"
  by (cases r) (auto simp: invS_def bindS_def liftS_def)

lemma invS_action: "(\<And>s r t. I s \<Longrightarrow> m s = (r, t) \<Longrightarrow> I t) \<Longrightarrow> invS I m"
  unfolding invS_def by (metis prod.collapse)

lemma prune_locked_inv: "invS (queue_inv P) (prune_locked E P' now)"
  unfolding prune_locked_def
  by (intro invS_lift keepsS_inv [OF keeps_prune]) (blast dest: queue_inv_live)

lemma operations_inv:
  assumes P: "normalizeBackupQueuePolicy pin = Inr P"
  shows "invS (queue_inv P) (admitBackupJob E frozen oper who job pin now)"
    and "invS (queue_inv P) (claimNextBackupJob E pin now)"
    and "invS (queue_inv P) (acquireBackupSchedulerLease E kind pin now)"
    and "invS (queue_inv P) (releaseBackupSchedulerLease E handle pin)"
    and "invS (queue_inv P) (finishBackupJob E i st summary exitCode pin now)"
    and "invS (queue_inv P) (markBackupJobOutcomeUnknown E i summary exitCode pin now)"
    and "invS (queue_inv P) (pruneBackupQueue E pin now)"
proof -
  have P': "normalizeBackupQueuePolicy pin = Inr P' \<Longrightarrow> P' = P" for P' using P by simp
  note rules = invS_lift invS_bind invS_basic prepare_inv withQueueLock_inv invS_action
  show "invS (queue_inv P) (admitBackupJob E frozen oper who job pin now)"
    unfolding admitBackupJob_def using P' admit_locked_inv by (intro rules) blast
  show "invS (queue_inv P) (claimNextBackupJob E pin now)"
    unfolding claimNextBackupJob_def using P' claim_locked_inv by (intro rules) blast
  show "invS (queue_inv P) (acquireBackupSchedulerLease E kind pin now)"
    unfolding acquireBackupSchedulerLease_def using P' lease_locked_inv by (intro rules) blast
  show "invS (queue_inv P) (releaseBackupSchedulerLease E handle pin)"
    unfolding releaseBackupSchedulerLease_def using release_locked_inv by (intro rules) blast
  have "terminal_of x = Some y \<Longrightarrow> y \<in> {Done, Failed}" for x y by (auto simp: terminal_of_def split: if_splits)
  then have "invS (queue_inv P) (case terminal_of x of None \<Rightarrow> throwS e | Some st \<Rightarrow> withQueueLock E (finish_locked E P i' st a b c))"
    for x e i' a b c
  proof (cases "terminal_of x")
    case (Some st')
    with \<open>\<And>x y. terminal_of x = Some y \<Longrightarrow> y \<in> {Done, Failed}\<close> have "st' \<in> {Done, Failed}" by blast
    then have "invS (queue_inv P) (finish_locked E P i' st' a b c)" by (blast intro: invS_action finish_locked_inv)
    with Some show ?thesis by (simp add: withQueueLock_inv)
  qed (simp add: rules)
  then show "invS (queue_inv P) (finishBackupJob E i st summary exitCode pin now)"
    unfolding finishBackupJob_def using P' by (intro invS_lift invS_bind prepare_inv) blast
  show "invS (queue_inv P) (markBackupJobOutcomeUnknown E i summary exitCode pin now)"
    unfolding markBackupJobOutcomeUnknown_def Let_def
    using unknown_locked_effect rewrite_inv queue_inv_live by (intro rules) metis
  show "invS (queue_inv P) (pruneBackupQueue E pin now)"
    unfolding pruneBackupQueue_def by (intro invS_lift invS_bind prepare_inv withQueueLock_inv prune_locked_inv)
qed

text \<open>
  The queue as a step system: any operation by any process at any time, under one policy,
  with the faults of its system calls; between operations the environment may choose new
  faults and may remove or leave behind a lock.
\<close>

inductive queue_step :: "jsv \<Rightarrow> qfs \<Rightarrow> qfs \<Rightarrow> bool" for pin where
  admit: "admitBackupJob E frozen oper who job pin now s = (r1, t) \<Longrightarrow> queue_step pin s t"
| claim: "claimNextBackupJob E pin now s = (r2, t) \<Longrightarrow> queue_step pin s t"
| lease: "acquireBackupSchedulerLease E kind pin now s = (r3, t) \<Longrightarrow> queue_step pin s t"
| release: "releaseBackupSchedulerLease E handle pin s = (r4, t) \<Longrightarrow> queue_step pin s t"
| finish: "finishBackupJob E i st summary exitCode pin now s = (r5, t) \<Longrightarrow> queue_step pin s t"
| unknown: "markBackupJobOutcomeUnknown E i summary exitCode pin now s = (r6, t) \<Longrightarrow> queue_step pin s t"
| prune: "pruneBackupQueue E pin now s = (r7, t) \<Longrightarrow> queue_step pin s t"
| faults: "queue_step pin s (refault s fs)"
| lock: "queue_step pin s (s\<lparr>q_lock := l\<rparr>)"

definition queue_empty :: "qfs \<Rightarrow> bool" where
  "queue_empty s \<longleftrightarrow> (\<forall>st. dir_entries (q_jobs s st) = []) \<and> dir_entries (q_leases s) = []"

definition capacity :: "jsv \<Rightarrow> qfs \<Rightarrow> bool" where
  "capacity pin s \<longleftrightarrow> (case normalizeBackupQueuePolicy pin of Inl _ \<Rightarrow> True | Inr P \<Rightarrow> queue_inv P s)"

lemma queue_empty_capacity: "queue_empty s \<Longrightarrow> capacity pin s"
  by (auto simp: capacity_def queue_empty_def queue_inv_def dcount_def json_names_def policy_ok_def
      dest!: policy_bounds split: sum.splits)

lemma queue_step_capacity:
  assumes "capacity pin s" and "queue_step pin s t"
  shows "capacity pin t"
proof (cases "normalizeBackupQueuePolicy pin")
  case (Inr P)
  with assms(1) have s: "queue_inv P s" by (simp add: capacity_def)
  from assms(2) have "queue_inv P t"
  proof (cases rule: queue_step.cases)
    case admit
    then show ?thesis using invS_D [OF operations_inv(1) [OF Inr] s] by blast
  next
    case claim
    then show ?thesis using invS_D [OF operations_inv(2) [OF Inr] s] by blast
  next
    case lease
    then show ?thesis using invS_D [OF operations_inv(3) [OF Inr] s] by blast
  next
    case release
    then show ?thesis using invS_D [OF operations_inv(4) [OF Inr] s] by blast
  next
    case finish
    then show ?thesis using invS_D [OF operations_inv(5) [OF Inr] s] by blast
  next
    case unknown
    then show ?thesis using invS_D [OF operations_inv(6) [OF Inr] s] by blast
  next
    case prune
    then show ?thesis using invS_D [OF operations_inv(7) [OF Inr] s] by blast
  next
    case (faults fs)
    with s queue_inv_live [of s t] show ?thesis by simp
  next
    case (lock l)
    with s queue_inv_live [of s t] show ?thesis by simp
  qed
  with Inr show ?thesis by (simp add: capacity_def)
qed (simp add: capacity_def)

interpretation queue: step_system queue_empty "queue_step pin" "capacity pin" for pin
  by unfold_locales (auto intro: queue_empty_capacity queue_step_capacity)

text \<open>
  C4. Admission control holds in every reachable state: whatever sequence of admissions, claims,
  leases, finishes, markings and prunings runs from an empty queue, with any failing system
  calls and any lock left behind, the jobs queued and running never exceed the outstanding
  limit, and the jobs running together with the leases never exceed the concurrency limit.
\<close>

theorem reachable_queue_within_limits:
  assumes "reachable queue_empty (queue_step pin) s" and "normalizeBackupQueuePolicy pin = Inr P"
  shows "int (jcount s Queued + jcount s Running) \<le> maxOutstanding P
    \<and> int (jcount s Running + lcount s) \<le> maxConcurrency P"
  using queue.reachable_inv [OF assms(1)] assms(2) by (simp add: capacity_def queue_inv_def)

lemma sample_admitted:
  obtains ar t where "sample_admit sample_queue = (Inr ar, t)" "jcount t Queued = 1" "j_id (ar_job ar) = ''job-1''"
proof -
  have "case sample_admit sample_queue of (r, t) \<Rightarrow>
      (case r of Inl _ \<Rightarrow> False | Inr ar \<Rightarrow> j_id (ar_job ar) = ''job-1'') \<and> jcount t Queued = 1" by code_simp
  with that show ?thesis by (cases "sample_admit sample_queue") (auto split: sum.splits)
qed

theorem reachable_queue_within_limits_witness:
  "\<exists>ar t. sample_admit sample_queue = (Inr ar, t) \<and> jcount t Queued = 1 \<and> int (jcount t Queued + jcount t Running) \<le> 32"
proof -
  have e: "queue_empty sample_queue" by (simp add: queue_empty_def sample_queue_def)
  obtain ar t where a: "sample_admit sample_queue = (Inr ar, t)" "jcount t Queued = 1" by (rule sample_admitted)
  then have "queue_step (JObj []) sample_queue t" unfolding sample_admit_def by (intro queue_step.admit)
  then have reach: "reachable queue_empty (queue_step (JObj [])) t" using e reachable.start reachable.more by metis
  have P: "normalizeBackupQueuePolicy (JObj []) = Inr \<lparr>maxOutstanding = 32, maxPerPrincipal = 4, principalWindowMs = 900000,
    maxConcurrency = 1, maxTerminalPerStatus = 200, terminalMaxAgeMs = 2592000000, maxLedgerEntries = 4096,
    maxScanEntries = 4096, lockTimeoutMs = 2000\<rparr>" by code_simp
  from reachable_queue_within_limits [OF reach P] a show ?thesis by auto
qed

section \<open>Admissions\<close>

lemma parsed_id_path:
  assumes "parseBackupJobDocument R now x = Inr j"
  shows "queueFilePath (j_id j) = Inr (j_id j @ ''.json'')"
  using assms
proof (rule parseBackupJobDocument_Inr)
  assume "createBackupJobDocument R now (as_object x) = Inr (job_core j)"
  then have "identifier_text (getp (as_object x) ''id'') ''job id'' = Inr (j_id j)"
    by (rule createBackupJobDocument_Inr) (simp add: job_core_def)
  then have "j_id j \<noteq> []" "identifier_pattern (j_id j)" "js_trim (j_id j) = j_id j"
    unfolding identifier_text_def by (auto dest: requiredText_Inr)
  then show ?thesis by (simp add: queueFilePath_def requireJobId_def js_or_def)
qed

text \<open>An entry is determined by its directory and name, so the inventory holds every readable one.\<close>

lemma reads_entry_unique:
  "reads_entry E s st e \<Longrightarrow> reads_entry E s st e' \<Longrightarrow> en_name e = en_name e' \<Longrightarrow> e = e'"
  by (cases e; cases e') (auto simp: reads_entry_def)

lemma snapshot_has_entry:
  assumes "readQueueSnapshot E P s = Inr sn" and "reads_entry E s st e"
  shows "e \<in> set (sn_at sn st)"
proof -
  from assms(2) have "en_name e \<in> fst ` set (dir_entries (q_jobs s st))" "ends_with ''.json'' (en_name e)"
    by (auto simp: reads_entry_def ends_with_append dest: job_node_key)
  then have "en_name e \<in> set (map en_name (sn_at sn st))"
    unfolding snapshot_Inr(4) [OF assms(1)] by (auto simp: json_names_def)
  then obtain e' where "e' \<in> set (sn_at sn st)" "en_name e' = en_name e" by auto
  with snapshot_Inr(3) [OF assms(1)] reads_entry_unique [OF assms(2)] show ?thesis by metis
qed

lemma reads_entry_cong: "job_node s st = job_node s' st \<Longrightarrow> reads_entry E s st = reads_entry E s' st"
  by (intro ext) (simp add: reads_entry_def)

lemma live_nodes: "live s = live t \<Longrightarrow> st \<in> {Queued, Running} \<Longrightarrow> job_node s st = job_node t st"
  by (intro ext) (rule live_job_node)

lemma contents_nodes: "contents s = contents t \<Longrightarrow> job_node s st = job_node t st \<and> jcount s st = jcount t st \<and> lcount s = lcount t"
  by (intro conjI ext) (auto simp: contents_def job_node_def fun_eq_iff)

lemma admitted_facts:
  assumes "admitted E P job s ar t" and "queueFilePath (j_id job) = Inr (j_id job @ ''.json'')"
  shows "job_node t Queued = (job_node s Queued)(j_id job @ ''.json'' \<mapsto> RegularFile (Some (job_js job)))"
    and "job_node t Running = job_node s Running" and "lcount s = 0" and "lcount t = 0"
    and "int (jcount t Queued + jcount t Running) \<le> maxOutstanding P"
    and "st \<in> {Queued, Running} \<Longrightarrow> reads_entry E s st e \<Longrightarrow> en_activeKey e \<noteq> ar_activeKey ar \<and> j_id (en_job e) \<noteq> j_id job"
    and "ar_job ar = job" and "canonicalBackupActiveKey E (job_js job) = Inr (ar_activeKey ar)"
proof -
  let ?name = "j_id job @ ''.json''"
  from assms obtain s1 sn where s1: "live s1 = live s" "readQueueSnapshot E P s1 = Inr sn" "sn_leases sn = []"
    and cap: "check_capacity P sn (ar_activeKey ar) (j_id job) = Inr (ar_outstanding ar - 1)"
    and t: "live t = live (put_job Queued ?name (job_js job) s)"
    and key: "canonicalBackupActiveKey E (job_js job) = Inr (ar_activeKey ar)" and job: "ar_job ar = job"
    by (auto simp: admitted_def)
  have real: "is_real (q_jobs s Queued)" using snapshot_Inr(1) [OF s1(2), of Queued] s1(1) by (simp add: live_def)
  have q: "dir_entries (q_jobs t Queued) = dput ?name (RegularFile (Some (job_js job))) (dir_entries (q_jobs s Queued))"
    "q_jobs t Running = q_jobs s Running" "q_leases t = q_leases s"
    using t real by (auto simp: live_def put_job_def on_jobs_def dir_entries_on_dir)
  show "job_node t Queued = (job_node s Queued)(?name \<mapsto> RegularFile (Some (job_js job)))"
    "job_node t Running = job_node s Running" by (auto simp: job_node_def q fun_eq_iff)
  show l: "lcount s = 0" using snapshot_Inr(6) [OF s1(2)] s1(1,3) by (simp add: live_def)
  then show "lcount t = 0" by (simp add: q)
  have "int (jcount s Queued + jcount s Running) < maxOutstanding P"
    using cap snapshot_Inr(2) [OF s1(2)] s1(1) by (auto simp: check_capacity_def res_simps Let_def live_def)
  then show "int (jcount t Queued + jcount t Running) \<le> maxOutstanding P" by (simp add: q dcount_dput)
  show "en_activeKey e \<noteq> ar_activeKey ar \<and> j_id (en_job e) \<noteq> j_id job"
    if st: "st \<in> {Queued, Running}" and e: "reads_entry E s st e"
  proof -
    have "reads_entry E s1 st e" using e reads_entry_cong [OF live_nodes [OF s1(1) st]] by simp
    from snapshot_has_entry [OF s1(2) this] have "e \<in> set (sn_at sn st)" .
    with st cap show ?thesis
      by (auto simp: check_capacity_def res_simps Let_def list_ex_iff STATUS_NAMES_def)
  qed
qed (use assms in \<open>auto simp: admitted_def\<close>)

text \<open>An operation is its checks, the preparation of the queue root, and the locked action.\<close>

lemma locked_run:
  assumes "bindS (prepareQueueRoot E) (\<lambda>_. withQueueLock E action) s = (r, t)"
  obtains (unchanged) e where "r = Inl e" "contents t = contents s"
  | (ran) s' r' t' where "contents s' = contents s" "action s' = (r', t')" "contents t = contents t'"
      "r = r' \<or> r = Inl (admissionError ''queue_lock_release_failed'')"
proof -
  obtain r1 s1 where p: "prepareQueueRoot E s = (r1, s1)" by fastforce
  have c: "contents s1 = contents s" using keepsS_D [OF prepareQueueRoot_keeps p] .
  have vis: "contents x = contents y" if "visible x = visible y" for x y using that by (simp add: visible_eq contents_def)
  show ?thesis
  proof (cases r1)
    case (Inl e)
    with assms p c unchanged show ?thesis by (auto simp: bindS_def)
  next
    case (Inr u)
    with assms p have "withQueueLock E action s1 = (r, t)" by (simp add: bindS_def)
    then show ?thesis
    proof (cases rule: withQueueLock_cases)
      case (refused e)
      with unchanged [of e] c vis [of t s1] show ?thesis by simp
    next
      case (ran s' r' t')
      have "contents s' = contents s" "contents t = contents t'" using vis [OF ran(1)] vis [OF ran(3)] c by simp_all
      then show ?thesis by (rule that(2) [OF _ ran(2) _ ran(4)])
    qed
  qed
qed

lemma bindS_liftE:
  assumes "bindS (liftS m) f s = (r, t)"
  obtains (stop) e where "r = Inl e" "t = s" | (go) x where "m = Inr x" "f x s = (r, t)"
  using assms by (cases m) (auto simp: bindS_def liftS_def)

lemma bindS_requireE:
  assumes "bindS (requireS ok e) f s = (r, t)"
  obtains (stop) "r = Inl e" "t = s" | (go) ok "f () s = (r, t)"
  using assms by (cases ok) (auto simp: bindS_def requireS_def returnS_def throwS_def)

lemma admitBackupJob_run:
  assumes "admitBackupJob E frozen oper who jobIn pin now s = (r, t)"
  obtains (refused) e where "r = Inl e" "t = s"
  | (checked) P principal job u where "normalizeBackupQueuePolicy pin = Inr P" "requirePrincipal who = Inr principal"
      "parseBackupJobDocument (e_rt E) (e_clock E) jobIn = Inr job"
      "requireCanonicalBackupQueueOperation frozen oper (j_operation job) = Inr u"
      "j_status job = ''queued''" "j_requestedBy job = principal"
      "bindS (prepareQueueRoot E) (\<lambda>_. withQueueLock E (admit_locked E P oper principal job now)) s = (r, t)"
  using assms unfolding admitBackupJob_def
  by (elim bindS_liftE bindS_requireE) (rule refused checked; assumption)+

text \<open>
  C16. What a successful admission guarantees: the document is durable in the queued directory
  under its own id, no other queued or running job changed, no lease was held, the limit on
  outstanding jobs holds afterwards, and no job that was already queued or running has the
  same canonical work or the same id.
\<close>

theorem admission_is_exclusive_and_bounded:
  assumes "admitBackupJob E frozen oper who jobIn pin now s = (Inr ar, t)"
  shows "\<exists>P. normalizeBackupQueuePolicy pin = Inr P
    \<and> parseBackupJobDocument (e_rt E) (e_clock E) jobIn = Inr (ar_job ar) \<and> j_status (ar_job ar) = ''queued''
    \<and> job_node t Queued = (job_node s Queued)(j_id (ar_job ar) @ ''.json'' \<mapsto> RegularFile (Some (job_js (ar_job ar))))
    \<and> job_node t Running = job_node s Running \<and> lcount s = 0 \<and> lcount t = 0
    \<and> int (jcount t Queued + jcount t Running) \<le> maxOutstanding P
    \<and> (\<forall>st e. st \<in> {Queued, Running} \<longrightarrow> reads_entry E s st e \<longrightarrow>
         en_activeKey e \<noteq> ar_activeKey ar \<and> j_id (en_job e) \<noteq> j_id (ar_job ar))"
  using assms
proof (cases rule: admitBackupJob_run)
  case (checked P principal job u)
  from checked(7) show ?thesis
  proof (cases rule: locked_run)
    case (ran s' r' t')
    then have r': "r' = Inr ar" by auto
    from admit_locked_effect [OF ran(2)] r' have "admitted E P job s' ar t'" by simp
    note a = admitted_facts [OF this parsed_id_path [OF checked(3)]]
    have re: "reads_entry E s st e \<longleftrightarrow> reads_entry E s' st e" for st e
      using reads_entry_cong contents_nodes [OF ran(1)] by metis
    show ?thesis
      using a checked(1,3,5) re contents_nodes [OF ran(1)] contents_nodes [OF ran(3)]
      by (intro exI [of _ P]) simp
  qed simp
qed simp

theorem admission_is_exclusive_and_bounded_witness:
  "\<exists>ar t. sample_admit sample_queue = (Inr ar, t)
     \<and> job_node t Queued ''job-1.json'' = Some (RegularFile (Some (job_js (ar_job ar)))) \<and> lcount t = 0"
proof -
  obtain ar t where a: "sample_admit sample_queue = (Inr ar, t)" "j_id (ar_job ar) = ''job-1''" by (rule sample_admitted)
  from admission_is_exclusive_and_bounded [OF a(1) [unfolded sample_admit_def]] a show ?thesis by auto
qed

text \<open>
  An admission that throws queues nothing: whatever the error and whatever system calls
  failed, the queued jobs, the running jobs and the leases are those of before, with one
  exception, the error that says the lock could not be released after the work was done.
\<close>

theorem failed_admission_queues_nothing:
  assumes "admitBackupJob E frozen oper who jobIn pin now s = (Inl e, t)"
    and "e \<noteq> admissionError ''queue_lock_release_failed''"
  shows "job_node t Queued = job_node s Queued \<and> job_node t Running = job_node s Running \<and> lcount t = lcount s"
  using assms(1)
proof (cases rule: admitBackupJob_run)
  case (checked P principal job u)
  from checked(7) show ?thesis
  proof (cases rule: locked_run)
    case (unchanged e')
    with contents_nodes [OF unchanged(2)] show ?thesis by simp
  next
    case (ran s' r' t')
    with assms(2) have "r' = Inl e" by auto
    with admit_locked_effect [OF ran(2)] have l: "live t' = live s'" by simp
    have "job_node t' Queued = job_node s' Queued" "job_node t' Running = job_node s' Running"
      using live_nodes [OF l] by blast+
    moreover have "lcount t' = lcount s'" using l by (simp add: live_def)
    ultimately show ?thesis using contents_nodes [OF ran(1)] contents_nodes [OF ran(3)] by simp
  qed
qed simp

lemma failed_admission_queues_nothing_example:
  "\<exists>t. admitBackupJob sample_env True sample_operation (JStr ''someone'') (sample_job ''job-1'') (JObj []) 0 sample_queue
       = (Inl (CodedError ''principal_mismatch'' 403), t)
     \<and> job_node t Queued = job_node sample_queue Queued"
proof -
  have c: "fst (admitBackupJob sample_env True sample_operation (JStr ''someone'') (sample_job ''job-1'') (JObj []) 0 sample_queue)
     = Inl (CodedError ''principal_mismatch'' 403)" by code_simp
  obtain t where a: "admitBackupJob sample_env True sample_operation (JStr ''someone'') (sample_job ''job-1'') (JObj []) 0 sample_queue
     = (Inl (CodedError ''principal_mismatch'' 403), t)" using c by (metis prod.collapse)
  from failed_admission_queues_nothing [OF a] a show ?thesis by (simp add: admissionError_def)
qed

section \<open>Claims\<close>

text \<open>ECMAScript: \<open>localeCompare\<close> is the comparator of a total preorder on strings.\<close>

definition locale_order :: "runtime \<Rightarrow> bool" where
  "locale_order R \<longleftrightarrow> (\<forall>a b. rt_localeCompare R a b \<le> 0 \<longleftrightarrow> 0 \<le> rt_localeCompare R b a)
     \<and> (\<forall>a b c. rt_localeCompare R a b \<le> 0 \<longrightarrow> rt_localeCompare R b c \<le> 0 \<longrightarrow> rt_localeCompare R a c \<le> 0)"

lemma consistent_claim_order:
  assumes "locale_order (e_rt E)"
  shows "consistent_cmp (claim_order E)"
proof -
  let ?c = "rt_localeCompare (e_rt E)"
  have sym: "?c a b \<le> 0 \<longleftrightarrow> 0 \<le> ?c b a" and tr: "?c a b \<le> 0 \<Longrightarrow> ?c b c \<le> 0 \<Longrightarrow> ?c a c \<le> 0" for a b c
    using assms unfolding locale_order_def by blast+
  have le: "claim_order E x y \<le> 0 \<longleftrightarrow> ?c (j_createdAt (en_job x)) (j_createdAt (en_job y)) < 0
      \<or> ?c (j_createdAt (en_job x)) (j_createdAt (en_job y)) = 0 \<and> ?c (en_name x) (en_name y) \<le> 0" for x y
    by (auto simp: claim_order_def Let_def)
  have lt: "?c a b < 0 \<longleftrightarrow> \<not> ?c b a \<le> 0" and eq: "?c a b = 0 \<longleftrightarrow> ?c a b \<le> 0 \<and> ?c b a \<le> 0" for a b
    using sym [of a b] sym [of b a] by auto
  show ?thesis
    unfolding consistent_cmp_def le lt eq using sym tr by (meson linear)
qed

lemma parse_is_object: "parseBackupJobDocument R now x = Inr j \<Longrightarrow> is_object x"
  by (cases x) (auto simp: parseBackupJobDocument_def res_simps)

lemma parsed_id_field:
  assumes "parseBackupJobDocument R now x = Inr j"
  shows "identifier_text (getp x ''id'') ''job id'' = Inr (j_id j)" "parse_status (getp x ''status'') = Inr (j_status j)"
proof -
  have o: "as_object x = x" using parse_is_object [OF assms] by simp
  from assms have "createBackupJobDocument R now x = Inr (job_core j)" "parse_status (getp x ''status'') = Inr (j_status j)"
    by (rule parseBackupJobDocument_Inr, simp add: o)+
  then show "identifier_text (getp x ''id'') ''job id'' = Inr (j_id j)" "parse_status (getp x ''status'') = Inr (j_status j)"
    by (auto elim: createBackupJobDocument_Inr simp: job_core_def)
qed

lemma running_document_fields:
  assumes "parseBackupJobDocument R now raw = Inr j" and "parseBackupJobDocument R' now' (running_document raw a l) = Inr job"
  shows "j_id job = j_id j \<and> j_status job = ''running''"
proof -
  have "is_object raw" by (rule parse_is_object [OF assms(1)])
  then have "getp (running_document raw a l) ''id'' = getp raw ''id''" "getp (running_document raw a l) ''status'' = JStr ''running''"
    by (simp_all add: running_document_def Let_def)
  with parsed_id_field [OF assms(1)] parsed_id_field [OF assms(2)] show ?thesis
    by (simp add: parse_status_def split: if_splits)
qed

lemma claimNextBackupJob_run:
  assumes "claimNextBackupJob E pin now s = (r, t)"
  obtains (refused) e where "r = Inl e" "t = s"
  | (checked) P where "normalizeBackupQueuePolicy pin = Inr P"
      "bindS (prepareQueueRoot E) (\<lambda>_. withQueueLock E (claim_locked E P now)) s = (r, t)"
  using assms unfolding claimNextBackupJob_def
  by (elim bindS_liftE) (rule refused checked; assumption)+

definition claims_oldest :: "qenv \<Rightarrow> queue_policy \<Rightarrow> qfs \<Rightarrow> job \<Rightarrow> qfs \<Rightarrow> bool" where
  "claims_oldest E P s job t \<longleftrightarrow> (\<exists>next doc. reads_entry E s Queued next \<and> j_id job = j_id (en_job next)
     \<and> j_status job = ''running'' \<and> (\<forall>e. reads_entry E s Queued e \<longrightarrow> claim_order E next e \<le> 0)
     \<and> job_node t Queued = (job_node s Queued)(en_name next := None)
     \<and> job_node t Running = (job_node s Running)(en_name next \<mapsto> RegularFile (Some doc))
     \<and> parseBackupJobDocument (e_rt E) (e_clock E) doc = Inr job
     \<and> int (jcount t Running + lcount t) \<le> maxConcurrency P)"

lemma claim_locked_oldest:
  assumes "claim_locked E P now s = (Inr (Claimed job log pr), t)" and "locale_order (e_rt E)"
  shows "claims_oldest E P s job t"
proof -
  from claim_locked_effect [OF assms(1)] obtain s1 sn nx rest pruned name where
    s1: "live s1 = live s" "readQueueSnapshot E P s1 = Inr sn"
    and free: "int (length (sn_at sn Running) + length (sn_leases sn)) < maxConcurrency P"
    and nx: "js_sort_by (claim_order E) (sn_at sn Queued) = nx # rest"
    and name: "queueFilePath (j_id (en_job nx)) = Inr name" and out: "claim_outcome E pruned nx name s (Inr (Claimed job log pr)) t"
    by blast
  have mem: "nx \<in> set (sn_at sn Queued)" using nx set_js_sort_by [of "claim_order E" "sn_at sn Queued"] by auto
  have "reads_entry E s1 Queued nx" by (rule snapshot_Inr(3) [OF s1(2) mem])
  then have rnx: "reads_entry E s Queued nx" using reads_entry_cong [OF live_nodes [OF s1(1)]] by simp
  then have parse: "parseBackupJobDocument (e_rt E) (e_clock E) (en_raw nx) = Inr (en_job nx)"
    and nm: "name = en_name nx" using parsed_id_path name by (fastforce simp: reads_entry_def)+
  from out obtain a l where doc: "parseBackupJobDocument (e_rt E) (e_clock E) (running_document (en_raw nx) a l) = Inr job"
    and t: "live t = live (moved Queued Running name (RegularFile (Some (running_document (en_raw nx) a l))) s)"
    by (auto simp: claim_outcome_def)
  have real: "is_real (q_jobs s Queued)" "is_real (q_jobs s Running)"
    using snapshot_Inr(1) [OF s1(2), of Queued] snapshot_Inr(1) [OF s1(2), of Running] s1(1) by (simp_all add: live_def)
  then have e: "dir_entries (q_jobs t Queued) = ddel name (dir_entries (q_jobs s Queued))"
    "dir_entries (q_jobs t Running) = dput name (RegularFile (Some (running_document (en_raw nx) a l))) (dir_entries (q_jobs s Running))"
    "q_leases t = q_leases s"
    using t by (auto simp: live_def moved_def on_jobs_def dir_entries_on_dir)
  have oldest: "claim_order E nx x \<le> 0" if "reads_entry E s Queued x" for x
    using js_sort_by_hd_least [OF consistent_claim_order [OF assms(2)] nx] snapshot_has_entry [OF s1(2)]
      that reads_entry_cong [OF live_nodes [OF s1(1)]] by simp
  have "int (jcount s Running + lcount s) < maxConcurrency P"
    using free snapshot_Inr(2) [OF s1(2), of Running] snapshot_Inr(6) [OF s1(2)] s1(1) by (simp add: live_def)
  then have "int (jcount t Running + lcount t) \<le> maxConcurrency P" by (simp add: e dcount_dput)
  with rnx oldest running_document_fields [OF parse doc] doc e nm show ?thesis
    unfolding claims_oldest_def
    by (intro exI [of _ nx] exI [of _ "running_document (en_raw nx) a l"]) (auto simp: job_node_def fun_eq_iff)
qed


definition sample_waiting :: qfs where
  "sample_waiting = sample_queue\<lparr>q_jobs := (\<lambda>_. NoDir)(Queued := RealDir (fresh_dir sample_env)
     [(''job-1.json'', RegularFile (Some (sample_job ''job-1'')))])\<rparr>"


section \<open>Pruning\<close>

definition ddels :: "string list \<Rightarrow> dir \<Rightarrow> dir" where
  "ddels ks d = filter (\<lambda>p. fst p \<notin> set ks) d"

lemma ddels_Nil [simp]: "ddels [] d = d"
  by (simp add: ddels_def)

lemma ddels_ddel: "ddels ks (ddel k d) = ddels (k # ks) d"
  by (auto simp: ddels_def ddel_def intro: filter_cong)

lemma map_of_ddels: "map_of (ddels ks d) k = (if k \<in> set ks then None else map_of d k)"
  by (induction d) (auto simp: ddels_def)

lemma keeps_other_status:
  assumes "st' \<noteq> st"
  shows "keepsS (\<lambda>s. q_jobs s st') (prune_entries E st es)"
proof (induction es)
  case (Cons e es)
  have v: "keepsS (\<lambda>s. q_jobs s st') m" if "keepsS visible m" for m :: "(qfs, 'b) sx"
    using that unfolding keepsS_def visible_eq by metis
  have "keepsS (\<lambda>s. q_jobs s st') (sysS (del_job st name))" for name
    using assms by (intro keepsS_sys) (simp_all add: del_job_def on_jobs_def)
  with Cons v [OF keeps_lock_operations(5)] v [OF keeps_lock_operations(6)] show ?case
    by (auto intro!: keepsS_bind)
qed auto

lemma prune_entries_removes:
  assumes "prune_entries E st es s = (Inr rm, t)" and "is_real (q_jobs s st)"
  shows "dir_entries (q_jobs t st) = ddels (map en_name es) (dir_entries (q_jobs s st)) \<and> is_real (q_jobs t st)
    \<and> rm = map (\<lambda>e. (st, j_id (en_job e))) es"
  using assms
proof (induction es arbitrary: s rm)
  case Nil
  then show ?case by (simp add: returnS_def)
next
  case (Cons e es)
  then obtain log s1 s2 s3 rest where
    l: "(if js_truthy (getp (en_raw e) ''logPath'') \<and> e_logDir E \<noteq> []
            then ownedJobLogPath E (j_id (en_job e)) (getp (en_raw e) ''logPath'') else returnS None) s = (Inr log, s1)"
    and d: "sysS (del_job st (en_name e)) s1 = (Inr (), s2)" and r: "remove_log log s2 = (Inr (), s3)"
    and p: "prune_entries E st es s3 = (Inr rest, t)" and rm: "rm = (st, j_id (en_job e)) # rest"
    by (auto simp: bindS_Inr basicS_iff)
  have "keepsS visible (if js_truthy (getp (en_raw e) ''logPath'') \<and> e_logDir E \<noteq> []
            then ownedJobLogPath E (j_id (en_job e)) (getp (en_raw e) ''logPath'') else returnS None)"
    by (intro keepsS_if keeps_lock_operations keepsS_basic)
  from keepsS_D [OF this l] have q1: "q_jobs s1 = q_jobs s" by (simp add: visible_eq)
  from d have q2: "q_jobs s2 st = on_dir (ddel (en_name e)) (q_jobs s st)"
    by (cases rule: sysS_cases) (auto simp: del_job_def on_jobs_def q1)
  from keepsS_D [OF keeps_lock_operations(6) r] have q3: "q_jobs s3 = q_jobs s2" by (simp add: visible_eq)
  from Cons.IH [OF p] Cons.prems(2) q2 q3 rm show ?case by (simp add: dir_entries_on_dir ddels_ddel)
qed

lemma expired_count: "length es \<le> length (expired P now i es) + nat (maxTerminalPerStatus P - i)"
proof (induction es arbitrary: i)
  case (Cons x es)
  obtain t e where x: "x = (t, e)" by (cases x)
  have "nat (maxTerminalPerStatus P - i) = Suc (nat (maxTerminalPerStatus P - (i + 1)))" if "\<not> i \<ge> maxTerminalPerStatus P"
    using that by (simp add: nat_diff_distrib)
  with Cons.IH [of "i + 1"] show ?case by (auto simp: x)
qed simp

lemma expired_old: "(t, e) \<in> set es \<Longrightarrow> now - t > terminalMaxAgeMs P \<Longrightarrow> e \<in> set (expired P now i es)"
  by (induction es arbitrary: i) auto

lemma expired_subset: "set (expired P now i es) \<subseteq> snd ` set es"
proof (induction es arbitrary: i)
  case (Cons x es)
  have "set (expired P now i (x # es)) \<subseteq> insert (snd x) (set (expired P now (i + 1) es))" by (cases x) auto
  with Cons.IH [of "i + 1"] show ?case by auto
qed simp

lemma expired_distinct: "distinct (map (f \<circ> snd) es) \<Longrightarrow> distinct (map f (expired P now i es))"
proof (induction es arbitrary: i)
  case (Cons x es)
  have "f ` set (expired P now (i + 1) es) \<subseteq> (f \<circ> snd) ` set es" using expired_subset [of P now "i + 1" es] by auto
  with Cons show ?case by (cases x) auto
qed simp

lemma dcount_ddels:
  assumes "distinct (map fst d)" and "distinct ks" and "set ks \<subseteq> set (json_names (map fst d))"
  shows "dcount (ddels ks d) + length ks = dcount d"
  using assms
proof (induction ks arbitrary: d)
  case (Cons k ks)
  have "Suc (dcount (ddel k d)) = dcount d" using Cons.prems by (intro dcount_ddel) (auto simp: json_names_def)
  moreover have "dcount (ddels ks (ddel k d)) + length ks = dcount (ddel k d)"
    using Cons.prems by (intro Cons.IH) (auto simp: distinct_ddel keys_ddel json_names_def)
  ultimately show ?case by (simp add: ddels_ddel)
qed simp

lemma timed_entries_Inr:
  assumes "timed_entries E s st names = Inr es"
  shows "map (en_name \<circ> snd) es = names" "\<forall>(t, e) \<in> set es. reads_entry E s st e \<and> terminalTime E (en_job e) = Inr t"
proof -
  from assms obtain xs where xs: "mapR (read_present (PlainError ''TypeError'') E s st) names = Inr xs"
    and es: "mapR (\<lambda>e. bindR (terminalTime E (en_job e)) (\<lambda>t. Inr (t, e))) xs = Inr es"
    by (auto simp: timed_entries_def res_simps)
  from es have l: "list_all2 (\<lambda>x y. snd y = x \<and> terminalTime E (en_job x) = Inr (fst y)) xs es"
    unfolding mapR_Inr_iff by (auto simp: res_simps elim!: list_all2_mono)
  then have "map snd es = xs" by (induction rule: list_all2_induct) auto
  then have "map en_name (map snd es) = names" using mapR_names(1) [OF xs] by simp
  then show "map (en_name \<circ> snd) es = names" by simp
  have "\<forall>(t, e) \<in> set es. terminalTime E (en_job e) = Inr t" using l by (induction rule: list_all2_induct) auto
  moreover have "\<forall>(t, e) \<in> set es. reads_entry E s st e" using mapR_names(2) [OF xs] \<open>map snd es = xs\<close> by force
  ultimately show "\<forall>(t, e) \<in> set es. reads_entry E s st e \<and> terminalTime E (en_job e) = Inr t" by auto
qed

definition pruned_dir :: "qenv \<Rightarrow> queue_policy \<Rightarrow> int \<Rightarrow> qfs \<Rightarrow> jstatus \<Rightarrow> qfs \<Rightarrow> bool" where
  "pruned_dir E P now s st t \<longleftrightarrow> int (jcount t st) \<le> maxTerminalPerStatus P
     \<and> (\<forall>n. job_node t st n = None \<or> job_node t st n = job_node s st n)
     \<and> (\<forall>e tm. reads_entry E t st e \<longrightarrow> terminalTime E (en_job e) = Inr tm \<longrightarrow> now - tm \<le> terminalMaxAgeMs P)"

lemma prune_status_effect:
  assumes "prune_status E P now st s = (Inr rm, t)" and "distinct (map fst (dir_entries (q_jobs s st)))"
    and "0 \<le> maxTerminalPerStatus P"
  shows "pruned_dir E P now s st t" and "st' \<noteq> st \<Longrightarrow> q_jobs t st' = q_jobs s st'"
proof -
  let ?d = "dir_entries (q_jobs s st)"
  from assms(1) obtain es where real: "is_real (q_jobs s st)"
    and es: "timed_entries E s st (json_names (map fst ?d)) = Inr es"
    and p: "prune_entries E st (expired P now 0 (js_sort_by (terminal_order E) es)) s = (Inr rm, t)"
    unfolding prune_status_def by (auto simp: bindS_Inr basicS_iff requireS_iff readdir_Inr dest!: sym [of "Inr _"] split: if_splits)
  let ?srt = "js_sort_by (terminal_order E) es"
  let ?gone = "map en_name (expired P now 0 ?srt)"
  note te = timed_entries_Inr [OF es]
  have e: "dir_entries (q_jobs t st) = ddels ?gone ?d" using prune_entries_removes [OF p real] by simp
  show "q_jobs t st' = q_jobs s st'" if "st' \<noteq> st" using keepsS_D [OF keeps_other_status [OF that] p] .
  have dn: "distinct (map (en_name \<circ> snd) es)" unfolding te(1) using assms(2) by (simp add: json_names_def)
  have sub: "set ?gone \<subseteq> set (json_names (map fst ?d))"
    using expired_subset [of P now 0 ?srt] te(1) by (force simp flip: te(1))
  have dg: "distinct ?gone" using expired_distinct [of en_name ?srt P now 0] dn by simp
  have n: "length es = dcount ?d" using arg_cong [OF te(1), of length] by (simp add: dcount_def)
  have "dcount (ddels ?gone ?d) + length ?gone = dcount ?d" by (rule dcount_ddels [OF assms(2) dg sub])
  with expired_count [of ?srt P now 0] n e assms(3) have c: "int (jcount t st) \<le> maxTerminalPerStatus P" by simp
  have node: "job_node t st k = (if k \<in> set ?gone then None else job_node s st k)" for k
    unfolding job_node_def e map_of_ddels ..
  have age: "now - tm \<le> terminalMaxAgeMs P" if r: "reads_entry E t st x" and tm: "terminalTime E (en_job x) = Inr tm" for x tm
  proof (rule ccontr)
    assume old: "\<not> now - tm \<le> terminalMaxAgeMs P"
    have k: "en_name x \<notin> set ?gone" "job_node t st (en_name x) = job_node s st (en_name x)"
      using r node [of "en_name x"] by (auto simp: reads_entry_def split: if_splits)
    then have rs: "reads_entry E s st x" using r by (auto simp: reads_entry_def)
    have "en_name x \<in> set (json_names (map fst ?d))"
      using rs by (auto simp: reads_entry_def json_names_def ends_with_append dest: job_node_key)
    then have "en_name x \<in> set (map (en_name \<circ> snd) es)" unfolding te(1) .
    then obtain tm' x' where x': "(tm', x') \<in> set es" "en_name x' = en_name x" by auto
    with te(2) rs have "x' = x" "tm' = tm" using reads_entry_unique tm by fastforce+
    with x' old have "x \<in> set (expired P now 0 ?srt)" by (intro expired_old [of tm]) auto
    with k(1) show False by simp
  qed
  show "pruned_dir E P now s st t" unfolding pruned_dir_def using c node age by auto
qed

lemma prune_effect:
  assumes "pruneTerminalJobsUnlocked E P now s = (Inr rm, t)" and "0 \<le> maxTerminalPerStatus P"
    and "\<And>st. st \<in> {Done, Failed} \<Longrightarrow> distinct (map fst (dir_entries (q_jobs s st)))" and "st \<in> {Done, Failed}"
  shows "pruned_dir E P now s st t"
proof -
  from assms(1) obtain a s1 b where d: "prune_status E P now Done s = (Inr a, s1)" and f: "prune_status E P now Failed s1 = (Inr b, t)"
    by (auto simp: pruneTerminalJobsUnlocked_def bindS_Inr basicS_iff)
  have same: "q_jobs s1 Failed = q_jobs s Failed" by (rule prune_status_effect(2) [OF d assms(3) assms(2)]) auto
  have d1: "pruned_dir E P now s Done s1" by (rule prune_status_effect(1) [OF d assms(3) assms(2)]) simp
  have df: "distinct (map fst (dir_entries (q_jobs s1 Failed)))" using assms(3) [of Failed] same by simp
  have f1: "pruned_dir E P now s1 Failed t" by (rule prune_status_effect(1) [OF f df assms(2)])
  have keep: "q_jobs t Done = q_jobs s1 Done" by (rule prune_status_effect(2) [OF f df assms(2)]) simp
  have "job_node t Done = job_node s1 Done" "job_node s1 Failed = job_node s Failed"
    by (intro ext, simp add: job_node_def keep same)+
  then show ?thesis
    using assms(4) d1 f1 keep reads_entry_cong [of t Done s1] by (auto simp: pruned_dir_def)
qed

text \<open>
  Pruning touches terminal jobs only and leaves them bounded: no queued job, running job or
  lease changes; in each terminal directory the files that remain are files that were there,
  at most the retention count of them, and none of them older than the retention age.
\<close>

theorem prune_bounds_terminal_jobs:
  assumes "pruneBackupQueue E pin now s = (Inr rm, t)"
    and "distinct (map fst (dir_entries (q_jobs s Done)))" and "distinct (map fst (dir_entries (q_jobs s Failed)))"
  shows "\<exists>P. normalizeBackupQueuePolicy pin = Inr P \<and> job_node t Queued = job_node s Queued
    \<and> job_node t Running = job_node s Running \<and> lcount t = lcount s
    \<and> pruned_dir E P now s Done t \<and> pruned_dir E P now s Failed t"
proof -
  from assms(1) obtain P where P: "normalizeBackupQueuePolicy pin = Inr P"
    and run: "bindS (prepareQueueRoot E) (\<lambda>_. withQueueLock E (prune_locked E P now)) s = (Inr rm, t)"
    unfolding pruneBackupQueue_def by (elim bindS_liftE) auto
  from run show ?thesis
  proof (cases rule: locked_run)
    case (ran s' r' t')
    then have run': "pruneTerminalJobsUnlocked E P now s' = (Inr rm, t')"
      by (auto simp: prune_locked_def timestampMs_def bindS_def liftS_def split: if_splits)
    note run'
    moreover have "distinct (map fst (dir_entries (q_jobs s' st)))" if "st \<in> {Done, Failed}" for st
      using assms(2,3) ran(1) that by (auto simp: contents_def fun_eq_iff)
    moreover have "0 \<le> maxTerminalPerStatus P" using policy_bounds [OF P] by (simp add: policy_ok_def)
    ultimately have p: "pruned_dir E P now s' st t'" if "st \<in> {Done, Failed}" for st
      using that by (intro prune_effect)
    have l: "live t' = live s'" by (rule keepsS_D [OF keeps_prune run'])
    have "job_node t' Queued = job_node s' Queued" "job_node t' Running = job_node s' Running"
      by (rule live_nodes [OF l], simp)+
    moreover have "lcount t' = lcount s'" using l by (simp add: live_def)
    moreover have "pruned_dir E P now s st t = pruned_dir E P now s' st t'" for st
      using contents_nodes [OF ran(1)] contents_nodes [OF ran(3)] reads_entry_cong [of t st t'] by (simp add: pruned_dir_def)
    ultimately show ?thesis using P p contents_nodes [OF ran(1)] contents_nodes [OF ran(3)] by (intro exI [of _ P]) simp
  qed simp
qed

definition sample_terminal :: qfs where
  "sample_terminal = sample_queue\<lparr>q_jobs := (\<lambda>_. NoDir)(Done := RealDir (fresh_dir sample_env)
     [(''job-1.json'', RegularFile (Some (set_prop ''status'' (JStr ''done'') (sample_job ''job-1''))))])\<rparr>"

lemma prune_bounds_terminal_jobs_example:
  "\<exists>t. pruneBackupQueue sample_env (JObj []) 1867323045006 sample_terminal = (Inr [(Done, ''job-1'')], t)
     \<and> (\<exists>P. pruned_dir sample_env P 1867323045006 sample_terminal Done t)"
proof -
  let ?run = "pruneBackupQueue sample_env (JObj []) 1867323045006 sample_terminal"
  have "fst ?run = Inr [(Done, ''job-1'')]" by code_simp
  then have r: "?run = (Inr [(Done, ''job-1'')], snd ?run)" by (simp add: prod_eq_iff)
  have d: "distinct (map fst (dir_entries (q_jobs sample_terminal Done)))" "distinct (map fst (dir_entries (q_jobs sample_terminal Failed)))"
    by (simp_all add: sample_terminal_def)
  from prune_bounds_terminal_jobs [OF r d] r show ?thesis by blast
qed

section \<open>Leases\<close>

text \<open>
  A lease is released only by its holder: the operation that returns has found, under the id
  of the handle, a lease file with exactly the token of the handle, and removed that file and
  nothing else; any other handle is an error that leaves the leases as they were.
\<close>

theorem lease_release_needs_its_token:
  assumes "releaseBackupSchedulerLease E handle pin s = (r, t)"
  shows "dir_entries (q_leases t) = dir_entries (q_leases s)
    \<or> (\<exists>i token l. parseLeaseHandle handle = Inr (i, token)
         \<and> readSchedulerLease E (map_of (dir_entries (q_leases s)) (i @ ''.json'')) = Inr (Some l) \<and> le_token l = token
         \<and> dir_entries (q_leases t) = ddel (i @ ''.json'') (dir_entries (q_leases s))
         \<and> (r = Inr (le_kind l) \<or> r = Inl (admissionError ''queue_lock_release_failed'')))"
proof -
  obtain r1 s1 where p: "prepareQueueRoot E s = (r1, s1)" by fastforce
  have c: "dir_entries (q_leases s1) = dir_entries (q_leases s)"
    using keepsS_D [OF prepareQueueRoot_keeps p] by (simp add: contents_def)
  consider "t = s" | "t = s1" | i token where "parseLeaseHandle handle = Inr (i, token)"
      "withQueueLock E (release_locked E (i, token)) s1 = (r, t)"
    using assms p unfolding releaseBackupSchedulerLease_def
    by (cases r1; cases "normalizeBackupQueuePolicy pin"; cases "parseLeaseHandle handle")
       (auto simp: bindS_def liftS_def)
  then show ?thesis
  proof cases
    case (3 i token)
    from 3(2) show ?thesis
    proof (cases rule: withQueueLock_cases)
      case (refused e)
      with c show ?thesis by (simp add: visible_eq)
    next
      case (ran s' r' t')
      have q: "q_leases s' = q_leases s1" "q_leases t = q_leases t'" using ran(1,3) by (simp_all add: visible_eq)
      have del: "dir_entries (on_dir (ddel n) d) = ddel n (dir_entries d)" for n d by (cases d) (auto simp: ddel_def)
      from release_locked_effect [OF ran(2)] show ?thesis
        using 3(1) ran(4) q c by (auto simp: live_def del lease_name_def)
    qed
  qed (use c in auto)
qed

definition sample_leased :: qfs where
  "sample_leased = sample_queue\<lparr>q_leases := RealDir (fresh_dir sample_env)
     [(lease_name (''lease-'' @ replicate 32 CHR ''b''),
       RegularFile (Some (lease_js sample_env ''nightly'' ''2026-01-02T03:04:05.006Z'')))]\<rparr>"

definition sample_handle :: jsv where
  "sample_handle = JStr (''lease-'' @ replicate 32 CHR ''b'' @ ''.'' @ replicate 48 CHR ''c'')"

lemma lease_release_needs_its_token_example:
  "\<exists>t i token l. releaseBackupSchedulerLease sample_env sample_handle (JObj []) sample_leased = (Inr ''nightly'', t)
     \<and> parseLeaseHandle sample_handle = Inr (i, token)
     \<and> readSchedulerLease sample_env (map_of (dir_entries (q_leases sample_leased)) (i @ ''.json'')) = Inr (Some l)
     \<and> le_token l = token \<and> dir_entries (q_leases t) = []"
proof -
  let ?run = "releaseBackupSchedulerLease sample_env sample_handle (JObj []) sample_leased"
  have r: "fst ?run = Inr ''nightly''" and e: "dir_entries (q_leases (snd ?run)) = []" by code_simp+
  have run: "?run = (Inr ''nightly'', snd ?run)" using r by (simp add: prod_eq_iff)
  have "dir_entries (q_leases sample_leased) \<noteq> []" by (simp add: sample_leased_def)
  with lease_release_needs_its_token [OF run] e run show ?thesis by (auto simp: admissionError_def)
qed

section \<open>When a system call fails at the wrong moment\<close>

text \<open>
  C27. A lock whose owner file cannot be created is never removed: the call fails, the lock
  directory stays without an owner, and every later operation, of any process, is refused as
  busy without changing anything.
\<close>

theorem failed_owner_file_leaks_lock:
  assumes "q_lock s = NoLock" and "q_faults s = [False, True]" and "shared_identity E = Inr None"
  shows "\<exists>t. withQueueLock E action s = (Inl (admissionError ''queue_lock_release_failed''), t) \<and> q_lock t = LockDir None
    \<and> (\<forall>E' action'. withQueueLock E' (action' :: (qfs, unit) sx) t = (Inl (admissionError ''queue_busy''), t))"
  using assms
  by (simp add: withQueueLock_def acquire_lock_def write_owner_def release_lock_def sx_defs catchS_def finallyS_def
      sysS_def ensureBackupQueueDirectoryOwnership_def)

theorem failed_owner_file_leaks_lock_witness:
  "\<exists>t. withQueueLock sample_env (returnS ()) (refault sample_queue [False, True])
      = (Inl (admissionError ''queue_lock_release_failed''), t) \<and> q_lock t = LockDir None"
proof -
  have "shared_identity sample_env = Inr None" by code_simp
  then show ?thesis
    using failed_owner_file_leaks_lock [of "refault sample_queue [False, True]" sample_env "returnS ()"]
    by (auto simp: sample_queue_def)
qed

lemma misplaced_job_blocks_snapshot:
  assumes "job_node s st name = Some (RegularFile (Some raw))" and "ends_with ''.json'' name"
    and "parseBackupJobDocument (e_rt E) (e_clock E) raw = Inr j" and "j_status j \<noteq> status_name st"
  shows "\<exists>e. readQueueSnapshot E P s = Inl e"
proof (cases "readQueueSnapshot E P s")
  case (Inr sn)
  have "name \<in> set (map en_name (sn_at sn st))"
    unfolding snapshot_Inr(4) [OF Inr] using job_node_key [OF assms(1)] assms(2) by (auto simp: json_names_def)
  then obtain e where "e \<in> set (sn_at sn st)" "en_name e = name" by auto
  with snapshot_Inr(3) [OF Inr] assms show ?thesis by (fastforce simp: reads_entry_def)
qed simp

text \<open>
  C28. A claim whose log root is not a directory leaves the queue blocked: the rename to the
  running directory has happened, nothing undoes it, the document there still says queued, and
  from then on no inventory can be read, so no job is admitted, claimed or leased.
\<close>

theorem claim_without_log_root_blocks_queue:
  assumes "reads_entry E s Queued next" and "\<not> node_exists (job_node s Running (en_name next))"
    and "is_real (q_jobs s Running)" and "q_logs s = NotDir" and "e_logDir E = ''/srv/log''"
    and "shared_identity E = Inr None" and "q_faults s = []" and "0 \<le> ts" and "ts \<le> 8640000000000000"
  shows "\<exists>t. claim_entry E ts pruned next s = (Inl (admissionError ''queue_path_invalid''), t)
    \<and> job_node t Running (en_name next) = Some (RegularFile (Some (en_raw next)))
    \<and> (\<forall>P. \<exists>e. readQueueSnapshot E P t = Inl e)"
proof -
  let ?n = "en_name next" and ?x = "RegularFile (Some (en_raw next))"
  let ?t = "moved Queued Running ?n ?x s"
  have node: "job_node s Queued ?n = Some ?x" and parse: "parseBackupJobDocument (e_rt E) (e_clock E) (en_raw next) = Inr (en_job next)"
    and st: "j_status (en_job next) = ''queued''" and n: "?n = j_id (en_job next) @ ''.json''"
    using assms(1) by (auto simp: reads_entry_def)
  have path: "queueFilePath (j_id (en_job next)) = Inr ?n" using parsed_id_path [OF parse] n by simp
  have mv: "move_job Queued Running ?n s = (Inr (), ?t)"
    using node assms(7) by (simp add: move_job_def run_get sysS_def moved_def)
  have "js_trim ''/srv/log'' \<noteq> []" by code_simp
  then have log: "safeJobLogPath E i ?t = (Inl (admissionError ''queue_path_invalid''), ?t)" for i
    using assms(4-6) by (simp add: safeJobLogPath_def ensureRealDirectory_def sx_defs moved_def on_jobs_def)
  have iso: "iso_of_ms ts = Inr (to_iso ts)" using assms(8,9) by (simp add: iso_of_ms_def)
  have run: "claim_entry E ts pruned next s = (Inl (admissionError ''queue_path_invalid''), ?t)"
    using assms(2,5) mv log
    by (simp add: claim_entry_def claim_moved_def run_lift [OF path] run_get run_require run_lift [OF iso] bindS_def [of "move_job _ _ _"]
        bindS_def [of "safeJobLogPath _ _"])
  have there: "job_node ?t Running ?n = Some ?x"
    using assms(3) by (simp add: job_node_def moved_def on_jobs_def dir_entries_on_dir)
  have "\<exists>e. readQueueSnapshot E P ?t = Inl e" for P
    by (rule misplaced_job_blocks_snapshot [OF there _ parse]) (simp_all add: n ends_with_append st)
  with run there show ?thesis by blast
qed

definition sample_logged :: qfs where
  "sample_logged = \<lparr>q_root = NoDir, q_jobs = (\<lambda>_. RealDir (fresh_dir sample_env) [])(Queued := RealDir (fresh_dir sample_env)
     [(''job-1.json'', RegularFile (Some (sample_job ''job-1'')))]), q_leases = NoDir, q_ledger = None, q_logs = NotDir,
     q_lock = NoLock, q_faults = []\<rparr>"

theorem claim_without_log_root_blocks_queue_witness:
  "\<exists>next t. claim_entry (sample_env\<lparr>e_logDir := ''/srv/log''\<rparr>) 0 [] next sample_logged
      = (Inl (admissionError ''queue_path_invalid''), t) \<and> j_id (en_job next) = ''job-1''"
proof -
  let ?E = "sample_env\<lparr>e_logDir := ''/srv/log''\<rparr>" and ?n = "''job-1.json''"
  have "case readQueueEntry ?E Queued ?n (job_node sample_logged Queued ?n) of Inl _ \<Rightarrow> False
    | Inr x \<Rightarrow> (case x of None \<Rightarrow> False | Some e \<Rightarrow> j_id (en_job e) = ''job-1'')" by code_simp
  then obtain nx where "readQueueEntry ?E Queued ?n (job_node sample_logged Queued ?n) = Inr (Some nx)"
    and i: "j_id (en_job nx) = ''job-1''" by (auto split: sum.splits option.splits)
  then have nx: "reads_entry ?E sample_logged Queued nx" "en_name nx = ?n" by (auto dest: readQueueEntry_Inr)
  have "shared_identity ?E = Inr None" by code_simp
  then show ?thesis
    using claim_without_log_root_blocks_queue [OF nx(1), of 0 "[]"] i
    by (auto simp: nx(2) sample_logged_def job_node_def is_real_def)
qed

end
