(* ===== verification/StatusBroker.thy ===== *)
theory StatusBroker
  imports JsValue StepSystems "HOL-Library.AList"
begin

text \<open>
  \<open>src/control-center/status/event-stream.mjs\<close>: the broker that hands the events of a status
  run to the clients that follow it. The broker keeps the set of open subscriptions, two
  indexes of it (by principal and by run) and the quotas; a subscription keeps a bounded queue
  of events and at most one waiting consumer.

  A subscription object is a number, its place in the list \<open>objects\<close>: the consumer keeps the
  reference after the broker has released it. A \<open>Set\<close> is the list of its members and a
  \<open>Map\<close> the association list of its entries, both in insertion order. A promise returned by
  \<open>next\<close> that is not settled at once is a number too; \<open>settled\<close> records the promises settled
  later and their values, in order. The \<open>close\<close> event of a subscription and its listeners are
  not modelled: the module itself registers none.
\<close>

section \<open>Data\<close>

datatype wait_result =
    EventItem jsv
  | ClosedItem string "js_error option"
  | TimeoutItem

record subscription =
  sub_principal :: string
  sub_runId :: string
  highWatermark :: int
  sub_maxQueueEvents :: int
  sub_maxQueueBytes :: int
  sub_queue :: "(jsv \<times> int) list"
  queuedBytes :: int
  waiter :: "nat option"
  sub_closed :: bool
  closeReason :: string
  closeError :: "js_error option"

type_synonym index = "(string \<times> nat list) list"

record broker =
  maxSubscribers :: int
  maxSubscribersPerPrincipal :: int
  maxSubscribersPerRun :: int
  maxQueueEvents :: int
  maxQueueBytes :: int
  subscribers :: "nat list"
  byPrincipal :: index
  byRun :: index
  broker_closed :: bool
  objects :: "subscription list"
  waits :: nat
  settled :: "(nat \<times> wait_result) list"

section \<open>Validation\<close>

definition boundedInteger_stream :: "jsv \<Rightarrow> int \<Rightarrow> int \<Rightarrow> int res" where
  "boundedInteger_stream v lo hi = (case safe_int (js_Number v) of
       None \<Rightarrow> Inl (CodedError ''STATUS_STREAM_INVALID_LIMIT'' 500)
     | Some i \<Rightarrow> if i < lo \<or> i > hi then Inl (CodedError ''STATUS_STREAM_INVALID_LIMIT'' 500) else Inr i)"

definition requiredKey :: "jsv \<Rightarrow> string res" where
  "requiredKey v = (let key = js_trim (js_String (js_or v (JStr [])))
     in if key = [] \<or> length key > 256 then Inl (CodedError ''STATUS_STREAM_INVALID_KEY'' 422) else Inr key)"

abbreviation max_safe :: int where
  "max_safe \<equiv> 9007199254740991"

section \<open>Indexes\<close>

definition index_get :: "index \<Rightarrow> string \<Rightarrow> nat list" where
  "index_get ix k = (case map_of ix k of None \<Rightarrow> [] | Some vs \<Rightarrow> vs)"

definition set_add :: "'a \<Rightarrow> 'a list \<Rightarrow> 'a list" where
  "set_add x xs = (if x \<in> set xs then xs else xs @ [x])"

definition addToIndex :: "index \<Rightarrow> string \<Rightarrow> nat \<Rightarrow> index" where
  "addToIndex ix k i = AList.update k (set_add i (index_get ix k)) ix"

definition removeFromIndex :: "index \<Rightarrow> string \<Rightarrow> nat \<Rightarrow> index" where
  "removeFromIndex ix k i = (case map_of ix k of None \<Rightarrow> ix
     | Some vs \<Rightarrow> (let vs' = remove1 i vs
         in if vs' = [] then AList.delete k ix else AList.update k vs' ix))"

section \<open>The broker and its subscriptions\<close>

definition new_broker :: "jsv \<Rightarrow> jsv \<Rightarrow> jsv \<Rightarrow> jsv \<Rightarrow> jsv \<Rightarrow> broker res" where
  "new_broker subs perPrincipal perRun events bytes =
     bindR (boundedInteger_stream (js_default subs (JInt 64)) 1 4096) (\<lambda>ms.
     bindR (boundedInteger_stream (js_default perPrincipal (JInt 4)) 1 ms) (\<lambda>mp.
     bindR (boundedInteger_stream (js_default perRun (JInt 16)) 1 ms) (\<lambda>mr.
     bindR (boundedInteger_stream (js_default events (JInt 128)) 1 10000) (\<lambda>me.
     bindR (boundedInteger_stream (js_default bytes (JInt 1048576)) 1024 67108864) (\<lambda>mb.
     Inr \<lparr>maxSubscribers = ms, maxSubscribersPerPrincipal = mp, maxSubscribersPerRun = mr,
          maxQueueEvents = me, maxQueueBytes = mb, subscribers = [], byPrincipal = [], byRun = [],
          broker_closed = False, objects = [], waits = 0, settled = []\<rparr>)))))"

definition new_subscription :: "broker \<Rightarrow> string \<Rightarrow> string \<Rightarrow> int \<Rightarrow> subscription" where
  "new_subscription b principal_key run_key cursor =
     \<lparr>sub_principal = principal_key, sub_runId = run_key, highWatermark = cursor,
      sub_maxQueueEvents = maxQueueEvents b, sub_maxQueueBytes = maxQueueBytes b,
      sub_queue = [], queuedBytes = 0, waiter = None, sub_closed = False, closeReason = [],
      closeError = None\<rparr>"

definition subscribe :: "jsv \<Rightarrow> jsv \<Rightarrow> jsv \<Rightarrow> (broker, nat) sx" where
  "subscribe principal_v runId afterSequence =
     bindS getS (\<lambda>b.
     bindS (requireS (\<not> broker_closed b) (CodedError ''STATUS_STREAM_CLOSED'' 503)) (\<lambda>_.
     bindS (liftS (requiredKey principal_v)) (\<lambda>pk.
     bindS (liftS (requiredKey runId)) (\<lambda>rk.
     bindS (liftS (boundedInteger_stream (js_default afterSequence (JInt 0)) 0 max_safe)) (\<lambda>cursor.
     bindS (requireS (int (length (subscribers b)) < maxSubscribers b)
       (CodedError ''STATUS_STREAM_GLOBAL_QUOTA'' 429)) (\<lambda>_.
     bindS (requireS (int (length (index_get (byPrincipal b) pk)) < maxSubscribersPerPrincipal b)
       (CodedError ''STATUS_STREAM_PRINCIPAL_QUOTA'' 429)) (\<lambda>_.
     bindS (requireS (int (length (index_get (byRun b) rk)) < maxSubscribersPerRun b)
       (CodedError ''STATUS_STREAM_RUN_QUOTA'' 429)) (\<lambda>_.
     (let i = length (objects b) in
      bindS (modifyS (\<lambda>b. b\<lparr>objects := objects b @ [new_subscription b pk rk cursor],
                             subscribers := set_add i (subscribers b),
                             byPrincipal := addToIndex (byPrincipal b) pk i,
                             byRun := addToIndex (byRun b) rk i\<rparr>)) (\<lambda>_.
      returnS i))))))))))"

definition sub_at :: "broker \<Rightarrow> nat \<Rightarrow> subscription" where
  "sub_at b i = objects b ! i"

definition put_sub :: "nat \<Rightarrow> subscription \<Rightarrow> broker \<Rightarrow> broker" where
  "put_sub i s b = b\<lparr>objects := (objects b)[i := s]\<rparr>"

definition settle :: "nat option \<Rightarrow> wait_result \<Rightarrow> broker \<Rightarrow> broker" where
  "settle w r b = (case w of None \<Rightarrow> b | Some n \<Rightarrow> b\<lparr>settled := settled b @ [(n, r)]\<rparr>)"

definition release :: "nat \<Rightarrow> broker \<Rightarrow> broker" where
  "release i b = (if i \<notin> set (subscribers b) then b
     else b\<lparr>subscribers := remove1 i (subscribers b),
            byPrincipal := removeFromIndex (byPrincipal b) (sub_principal (sub_at b i)) i,
            byRun := removeFromIndex (byRun b) (sub_runId (sub_at b i)) i\<rparr>)"

definition sub_close :: "nat \<Rightarrow> string \<Rightarrow> js_error option \<Rightarrow> broker \<Rightarrow> broker" where
  "sub_close i reason err b = (let s = sub_at b i in
     if sub_closed s then b
     else release i (settle (waiter s) (ClosedItem reason err)
            (put_sub i (s\<lparr>sub_closed := True, closeReason := reason, closeError := err,
                           sub_queue := [], queuedBytes := 0, waiter := None\<rparr>) b)))"

definition event_sequence :: "jsv \<Rightarrow> int" where
  "event_sequence ev = (case safe_int (js_Number (getp ev ''sequence'')) of None \<Rightarrow> 0 | Some n \<Rightarrow> n)"

definition sub_push :: "nat \<Rightarrow> jsv \<Rightarrow> int \<Rightarrow> broker \<Rightarrow> bool \<times> broker" where
  "sub_push i ev len b = (let s = sub_at b i in
     if sub_closed s \<or> event_sequence ev \<le> highWatermark s then (False, b)
     else (let s1 = s\<lparr>highWatermark := event_sequence ev\<rparr> in
       if waiter s \<noteq> None
       then (True, settle (waiter s) (EventItem ev) (put_sub i (s1\<lparr>waiter := None\<rparr>) b))
       else if int (length (sub_queue s)) \<ge> sub_maxQueueEvents s
               \<or> queuedBytes s + len > sub_maxQueueBytes s
       then (False, sub_close i ''queue-overflow'' (Some (CodedError ''STATUS_STREAM_QUEUE_OVERFLOW'' 503))
                      (put_sub i s1 b))
       else (True, put_sub i (s1\<lparr>sub_queue := sub_queue s @ [(ev, len)],
                                  queuedBytes := queuedBytes s + len\<rparr>) b)))"

fun push_all :: "nat list \<Rightarrow> jsv \<Rightarrow> int \<Rightarrow> nat \<Rightarrow> broker \<Rightarrow> nat \<times> broker" where
  "push_all [] ev len delivered b = (delivered, b)"
| "push_all (i # is) ev len delivered b = (case sub_push i ev len b of (ok, b') \<Rightarrow>
     push_all is ev len (if ok then Suc delivered else delivered) b')"

definition safe_event :: "jsv \<Rightarrow> string \<Rightarrow> int \<Rightarrow> jsv" where
  "safe_event ev runId sequence =
     set_prop ''sequence'' (JInt sequence) (set_prop ''runId'' (JStr runId) (JObj (spread ev)))"

definition publish :: "jsv \<Rightarrow> (broker, nat) sx" where
  "publish ev = bindS getS (\<lambda>b.
     if broker_closed b then returnS 0
     else bindS (liftS (requiredKey (getp ev ''runId''))) (\<lambda>runId.
          bindS (liftS (boundedInteger_stream (getp ev ''sequence'') 1 max_safe)) (\<lambda>sequence.
          (let safe = safe_event ev runId sequence;
               (n, b') = push_all (index_get (byRun b) runId) safe (byte_length (json_stringify safe)) 0 b
           in bindS (modifyS (\<lambda>_. b')) (\<lambda>_. returnS n)))))"

datatype next_result = Settled wait_result | Pending nat

definition sub_next :: "nat \<Rightarrow> jsv \<Rightarrow> (broker, next_result) sx" where
  "sub_next i timeoutMs =
     bindS (liftS (boundedInteger_stream (js_default timeoutMs (JInt 15000)) 1 300000)) (\<lambda>_.
     bindS getS (\<lambda>b. let s = sub_at b i in
       case sub_queue s of
         (ev, len) # rest \<Rightarrow>
           bindS (modifyS (put_sub i (s\<lparr>sub_queue := rest, queuedBytes := queuedBytes s - len\<rparr>))) (\<lambda>_.
           returnS (Settled (EventItem ev)))
       | [] \<Rightarrow>
           if sub_closed s then returnS (Settled (ClosedItem (closeReason s) (closeError s)))
           else if waiter s \<noteq> None then throwS (CodedError ''STATUS_STREAM_CONCURRENT_WAIT'' 500)
           else bindS (modifyS (\<lambda>b. (put_sub i (s\<lparr>waiter := Some (waits b)\<rparr>) b)\<lparr>waits := Suc (waits b)\<rparr>)) (\<lambda>_.
                returnS (Pending (waits b)))))"

text \<open>The callback of the timer \<open>next\<close> starts; \<open>takeWaiter\<close> cancels it with the wait.\<close>

definition sub_timer :: "nat \<Rightarrow> broker \<Rightarrow> broker" where
  "sub_timer i b = (let s = sub_at b i in
     if waiter s = None then b else settle (waiter s) TimeoutItem (put_sub i (s\<lparr>waiter := None\<rparr>) b))"

record broker_stats =
  stat_active :: int
  stat_principals :: int
  stat_runs :: int
  stat_queuedEvents :: int
  stat_queuedBytes :: int

definition stats :: "broker \<Rightarrow> broker_stats" where
  "stats b = \<lparr>stat_active = int (length (subscribers b)), stat_principals = int (length (byPrincipal b)),
     stat_runs = int (length (byRun b)),
     stat_queuedEvents = (\<Sum>i \<leftarrow> subscribers b. int (length (sub_queue (sub_at b i)))),
     stat_queuedBytes = (\<Sum>i \<leftarrow> subscribers b. queuedBytes (sub_at b i))\<rparr>"

definition broker_close :: "broker \<Rightarrow> broker" where
  "broker_close b = (if broker_closed b then b
     else fold (\<lambda>i. sub_close i ''broker-closed'' None) (subscribers b) (b\<lparr>broker_closed := True\<rparr>))"

text \<open>The calls a broker and the subscriptions it has handed out receive.\<close>

datatype broker_op =
    Subscribe jsv jsv jsv
  | Publish jsv
  | Next nat jsv
  | Timer nat
  | CloseSub nat string "js_error option"
  | CloseBroker

fun run_op :: "broker_op \<Rightarrow> broker \<Rightarrow> broker" where
  "run_op (Subscribe p r a) b = snd (subscribe p r a b)"
| "run_op (Publish ev) b = snd (publish ev b)"
| "run_op (Next i t) b = (if i < length (objects b) then snd (sub_next i t b) else b)"
| "run_op (Timer i) b = (if i < length (objects b) then sub_timer i b else b)"
| "run_op (CloseSub i reason err) b = (if i < length (objects b) then sub_close i reason err b else b)"
| "run_op CloseBroker b = broker_close b"

section \<open>The index contract\<close>

text \<open>
  What the broker relies on in an index: adding and removing a value changes the values of
  its key only. An index kept this way mirrors the registry: the values of a key are the
  registered values with that key, in registration order.
\<close>

definition mirrors :: "('x \<Rightarrow> 'k \<Rightarrow> 'v list) \<Rightarrow> ('v \<Rightarrow> 'k) \<Rightarrow> 'x \<Rightarrow> 'v list \<Rightarrow> bool" where
  "mirrors get key x vs \<longleftrightarrow> (\<forall>k. get x k = filter (\<lambda>v. key v = k) vs)"

locale keyed_index =
  fixes get :: "'x \<Rightarrow> 'k \<Rightarrow> 'v list"
    and add :: "'x \<Rightarrow> 'k \<Rightarrow> 'v \<Rightarrow> 'x"
    and remove :: "'x \<Rightarrow> 'k \<Rightarrow> 'v \<Rightarrow> 'x"
    and ok :: "'x \<Rightarrow> bool"
  assumes ok_add: "ok x \<Longrightarrow> ok (add x k v)"
    and ok_remove: "ok x \<Longrightarrow> ok (remove x k v)"
    and get_add: "ok x \<Longrightarrow> get (add x k v) k' = (if k' = k then set_add v (get x k) else get x k')"
    and get_remove: "ok x \<Longrightarrow> get (remove x k v) k' = (if k' = k then remove1 v (get x k) else get x k')"
begin

lemma mirrors_add:
  assumes "ok x" and "mirrors get key x vs" and "v \<notin> set vs"
  shows "mirrors get key (add x (key v) v) (vs @ [v])"
  using assms by (auto simp: mirrors_def get_add set_add_def)

lemma mirrors_remove:
  assumes "ok x" and "mirrors get key x vs"
  shows "mirrors get key (remove x (key v) v) (remove1 v vs)"
  using assms by (auto simp: mirrors_def get_remove filter_remove1 remove1_idem)

end

definition index_ok :: "index \<Rightarrow> bool" where
  "index_ok ix \<longleftrightarrow> distinct (map fst ix) \<and> (\<forall>(k, vs) \<in> set ix. vs \<noteq> [])"

lemma index_get_update [simp]:
  "index_get (AList.update k vs ix) k' = (if k' = k then vs else index_get ix k')"
  by (simp add: index_get_def update_conv)

lemma index_get_delete [simp]:
  "index_get (AList.delete k ix) k' = (if k' = k then [] else index_get ix k')"
  by (simp add: index_get_def delete_conv)

lemma index_ok_update: "index_ok ix \<Longrightarrow> vs \<noteq> [] \<Longrightarrow> index_ok (AList.update k vs ix)"
  by (induction ix) (auto simp: index_ok_def dom_update split: if_splits)

lemma index_ok_delete: "index_ok ix \<Longrightarrow> index_ok (AList.delete k ix)"
  by (auto simp: index_ok_def AList.delete_eq distinct_map_filter)

lemma removeFromIndex_get:
  "index_get (removeFromIndex ix k v) k' = (if k' = k then remove1 v (index_get ix k) else index_get ix k')"
  by (auto simp: removeFromIndex_def Let_def index_get_def [of ix] split: option.splits)

interpretation subs_index: keyed_index index_get addToIndex removeFromIndex index_ok
proof
  fix x :: index and k k' :: string and v :: nat
  assume x: "index_ok x"
  show "index_ok (addToIndex x k v)"
    unfolding addToIndex_def using x by (rule index_ok_update) (auto simp: set_add_def)
  show "index_ok (removeFromIndex x k v)"
    using x by (auto simp: removeFromIndex_def Let_def index_ok_update index_ok_delete split: option.splits)
  show "index_get (addToIndex x k v) k' = (if k' = k then set_add v (index_get x k) else index_get x k')"
    by (simp add: addToIndex_def)
  show "index_get (removeFromIndex x k v) k' = (if k' = k then remove1 v (index_get x k) else index_get x k')"
    by (rule removeFromIndex_get)
qed

section \<open>The invariant of the broker\<close>

definition limits_ok :: "broker \<Rightarrow> bool" where
  "limits_ok b \<longleftrightarrow> 1 \<le> maxSubscribers b \<and> maxSubscribers b \<le> 4096
     \<and> 1 \<le> maxSubscribersPerPrincipal b \<and> maxSubscribersPerPrincipal b \<le> maxSubscribers b
     \<and> 1 \<le> maxSubscribersPerRun b \<and> maxSubscribersPerRun b \<le> maxSubscribers b
     \<and> 1 \<le> maxQueueEvents b \<and> maxQueueEvents b \<le> 10000
     \<and> 1024 \<le> maxQueueBytes b \<and> maxQueueBytes b \<le> 67108864"

definition registry_ok :: "broker \<Rightarrow> bool" where
  "registry_ok b \<longleftrightarrow> distinct (subscribers b)
     \<and> (\<forall>i. i \<in> set (subscribers b) \<longleftrightarrow> i < length (objects b) \<and> \<not> sub_closed (sub_at b i))
     \<and> (broker_closed b \<longrightarrow> subscribers b = [])"

definition indexes_ok :: "broker \<Rightarrow> bool" where
  "indexes_ok b \<longleftrightarrow> index_ok (byPrincipal b) \<and> index_ok (byRun b)
     \<and> mirrors index_get (\<lambda>i. sub_principal (sub_at b i)) (byPrincipal b) (subscribers b)
     \<and> mirrors index_get (\<lambda>i. sub_runId (sub_at b i)) (byRun b) (subscribers b)"

definition quotas_ok :: "broker \<Rightarrow> bool" where
  "quotas_ok b \<longleftrightarrow> int (length (subscribers b)) \<le> maxSubscribers b
     \<and> (\<forall>k. int (length (index_get (byPrincipal b) k)) \<le> maxSubscribersPerPrincipal b)
     \<and> (\<forall>k. int (length (index_get (byRun b) k)) \<le> maxSubscribersPerRun b)"

definition sub_ok :: "broker \<Rightarrow> subscription \<Rightarrow> bool" where
  "sub_ok b s \<longleftrightarrow> sub_maxQueueEvents s = maxQueueEvents b \<and> sub_maxQueueBytes s = maxQueueBytes b
     \<and> int (length (sub_queue s)) \<le> maxQueueEvents b
     \<and> queuedBytes s = (\<Sum>(ev, len) \<leftarrow> sub_queue s. len)
     \<and> (\<forall>(ev, len) \<in> set (sub_queue s). 0 \<le> len \<and> getp ev ''runId'' = JStr (sub_runId s)
          \<and> event_sequence ev \<le> highWatermark s)
     \<and> queuedBytes s \<le> maxQueueBytes b
     \<and> sorted_wrt (<) (map (\<lambda>(ev, len). event_sequence ev) (sub_queue s))
     \<and> (waiter s \<noteq> None \<longrightarrow> sub_queue s = [])
     \<and> (sub_closed s \<longrightarrow> sub_queue s = [] \<and> waiter s = None)"

definition broker_inv :: "broker \<Rightarrow> bool" where
  "broker_inv b \<longleftrightarrow> limits_ok b \<and> registry_ok b \<and> indexes_ok b \<and> quotas_ok b
     \<and> (\<forall>s \<in> set (objects b). sub_ok b s)"

lemmas broker_inv_defs = broker_inv_def limits_ok_def registry_ok_def indexes_ok_def quotas_ok_def

lemma sub_at_put_sub: "i < length (objects b) \<Longrightarrow> sub_at (put_sub i s b) j = (if j = i then s else sub_at b j)"
  by (auto simp: sub_at_def put_sub_def nth_list_update)

lemma put_sub_sel [simp]:
  "maxSubscribers (put_sub i s b) = maxSubscribers b"
  "maxSubscribersPerPrincipal (put_sub i s b) = maxSubscribersPerPrincipal b"
  "maxSubscribersPerRun (put_sub i s b) = maxSubscribersPerRun b"
  "maxQueueEvents (put_sub i s b) = maxQueueEvents b"
  "maxQueueBytes (put_sub i s b) = maxQueueBytes b"
  "subscribers (put_sub i s b) = subscribers b"
  "byPrincipal (put_sub i s b) = byPrincipal b"
  "byRun (put_sub i s b) = byRun b"
  "broker_closed (put_sub i s b) = broker_closed b"
  "length (objects (put_sub i s b)) = length (objects b)"
  by (simp_all add: put_sub_def)

lemma settle_sel [simp]:
  "maxSubscribers (settle w r b) = maxSubscribers b"
  "maxSubscribersPerPrincipal (settle w r b) = maxSubscribersPerPrincipal b"
  "maxSubscribersPerRun (settle w r b) = maxSubscribersPerRun b"
  "maxQueueEvents (settle w r b) = maxQueueEvents b"
  "maxQueueBytes (settle w r b) = maxQueueBytes b"
  "subscribers (settle w r b) = subscribers b"
  "byPrincipal (settle w r b) = byPrincipal b"
  "byRun (settle w r b) = byRun b"
  "broker_closed (settle w r b) = broker_closed b"
  "objects (settle w r b) = objects b"
  "sub_at (settle w r b) = sub_at b"
  by (simp_all add: settle_def sub_at_def fun_eq_iff split: option.splits)

lemma sub_ok_cong:
  "maxQueueEvents b' = maxQueueEvents b \<Longrightarrow> maxQueueBytes b' = maxQueueBytes b \<Longrightarrow> sub_ok b' s = sub_ok b s"
  by (simp add: sub_ok_def)

lemma settle_inv [simp]: "broker_inv (settle w r b) = broker_inv b"
  by (simp add: broker_inv_defs sub_ok_cong [of "settle w r b" b])

lemma waits_inv [simp]: "broker_inv (b\<lparr>waits := n\<rparr>) = broker_inv b"
proof -
  have "sub_at (b\<lparr>waits := n\<rparr>) = sub_at b" by (simp add: sub_at_def fun_eq_iff)
  then show ?thesis by (simp add: broker_inv_defs sub_ok_cong [of "b\<lparr>waits := n\<rparr>" b])
qed

lemma objects_put_sub: "set (objects (put_sub i s b)) \<subseteq> insert s (set (objects b))"
  by (auto simp: put_sub_def dest: set_update_subset_insert [THEN subsetD])

text \<open>Replacing a subscription by one with the same keys and the same open state.\<close>

lemma put_sub_inv:
  assumes b: "broker_inv b" and i: "i < length (objects b)"
    and same: "sub_principal s = sub_principal (sub_at b i)" "sub_runId s = sub_runId (sub_at b i)"
      "sub_closed s = sub_closed (sub_at b i)"
    and s: "sub_ok b s"
  shows "broker_inv (put_sub i s b)"
proof -
  have keys: "(\<lambda>j. sub_principal (sub_at (put_sub i s b) j)) = (\<lambda>j. sub_principal (sub_at b j))"
    "(\<lambda>j. sub_runId (sub_at (put_sub i s b) j)) = (\<lambda>j. sub_runId (sub_at b j))"
    "(\<lambda>j. sub_closed (sub_at (put_sub i s b) j)) = (\<lambda>j. sub_closed (sub_at b j))"
    using i same by (auto simp: sub_at_put_sub fun_eq_iff)
  have "\<forall>s' \<in> set (objects (put_sub i s b)). sub_ok (put_sub i s b) s'"
    using b s objects_put_sub [of i s b] by (auto simp: broker_inv_def sub_ok_cong [of "put_sub i s b" b])
  with b show ?thesis
    unfolding broker_inv_def limits_ok_def registry_ok_def indexes_ok_def quotas_ok_def
    using fun_cong [OF keys(3)] by (simp add: keys)
qed

lemma sub_at_ok: "broker_inv b \<Longrightarrow> i < length (objects b) \<Longrightarrow> sub_ok b (sub_at b i)"
  by (simp add: broker_inv_def sub_at_def)

lemma registered_iff:
  "broker_inv b \<Longrightarrow> i \<in> set (subscribers b) \<longleftrightarrow> i < length (objects b) \<and> \<not> sub_closed (sub_at b i)"
  by (simp add: broker_inv_def registry_ok_def)

lemma run_index: "broker_inv b \<Longrightarrow> index_get (byRun b) k = filter (\<lambda>i. sub_runId (sub_at b i) = k) (subscribers b)"
  by (simp add: broker_inv_def indexes_ok_def mirrors_def)

definition closed_sub :: "string \<Rightarrow> js_error option \<Rightarrow> subscription \<Rightarrow> subscription" where
  "closed_sub reason err s = s\<lparr>sub_closed := True, closeReason := reason, closeError := err,
     sub_queue := [], queuedBytes := 0, waiter := None\<rparr>"

lemma closed_sub_sel [simp]:
  "sub_principal (closed_sub r e s) = sub_principal s"
  "sub_runId (closed_sub r e s) = sub_runId s"
  "sub_closed (closed_sub r e s)"
  by (simp_all add: closed_sub_def)

lemma sub_close_unfold:
  assumes "i < length (objects b)" and "\<not> sub_closed (sub_at b i)" and "i \<in> set (subscribers b)"
  shows "sub_close i reason err b =
    (settle (waiter (sub_at b i)) (ClosedItem reason err) (put_sub i (closed_sub reason err (sub_at b i)) b))
      \<lparr>subscribers := remove1 i (subscribers b),
       byPrincipal := removeFromIndex (byPrincipal b) (sub_principal (sub_at b i)) i,
       byRun := removeFromIndex (byRun b) (sub_runId (sub_at b i)) i\<rparr>"
  using assms by (simp add: sub_close_def release_def Let_def sub_at_put_sub closed_sub_def)

lemma sub_close_inv:
  assumes b: "broker_inv b" and i: "i < length (objects b)"
  shows "broker_inv (sub_close i reason err b)"
proof (cases "sub_closed (sub_at b i)")
  case True
  with b show ?thesis by (simp add: sub_close_def Let_def)
next
  case False
  define s where "s = closed_sub reason err (sub_at b i)"
  define c where "c = sub_close i reason err b"
  have mem: "i \<in> set (subscribers b)" using b i False by (simp add: registered_iff)
  note c_eq = sub_close_unfold [OF i False mem, of reason err, folded c_def s_def]
  have sel: "maxSubscribers c = maxSubscribers b" "maxSubscribersPerPrincipal c = maxSubscribersPerPrincipal b"
    "maxSubscribersPerRun c = maxSubscribersPerRun b" "maxQueueEvents c = maxQueueEvents b"
    "maxQueueBytes c = maxQueueBytes b" "broker_closed c = broker_closed b"
    "length (objects c) = length (objects b)" "subscribers c = remove1 i (subscribers b)"
    "byPrincipal c = removeFromIndex (byPrincipal b) (sub_principal (sub_at b i)) i"
    "byRun c = removeFromIndex (byRun b) (sub_runId (sub_at b i)) i"
    "objects c = objects (put_sub i s b)"
    by (simp_all add: c_eq)
  have at: "sub_at c j = (if j = i then s else sub_at b j)" for j
    using sub_at_put_sub [OF i] sel(11) by (simp add: sub_at_def)
  have keys: "(\<lambda>j. sub_principal (sub_at c j)) = (\<lambda>j. sub_principal (sub_at b j))"
    "(\<lambda>j. sub_runId (sub_at c j)) = (\<lambda>j. sub_runId (sub_at b j))"
    by (auto simp: at s_def)
  have reg: "registry_ok c"
    using b i by (auto simp: broker_inv_def registry_ok_def sel at s_def)
  have ind: "indexes_ok c"
    using b subs_index.mirrors_remove [of "byPrincipal b" "\<lambda>j. sub_principal (sub_at b j)" "subscribers b" i]
      subs_index.mirrors_remove [of "byRun b" "\<lambda>j. sub_runId (sub_at b j)" "subscribers b" i]
    by (simp add: broker_inv_def indexes_ok_def sel keys subs_index.ok_remove)
  have le: "length (remove1 x xs) \<le> length xs" for x :: nat and xs
    by (simp add: length_remove1)
  have quo: "quotas_ok c"
    using b le [of i "subscribers b"] le [of i "index_get (byPrincipal b) (sub_principal (sub_at b i))"]
      le [of i "index_get (byRun b) (sub_runId (sub_at b i))"]
    unfolding broker_inv_def quotas_ok_def
    by (auto simp: sel removeFromIndex_get intro: order_trans [OF of_nat_mono])
  have "sub_ok b s"
    using sub_at_ok [OF b i] b by (auto simp: sub_ok_def s_def closed_sub_def broker_inv_def limits_ok_def)
  then have "\<forall>s' \<in> set (objects c). sub_ok c s'"
    using b objects_put_sub [of i s b] by (auto simp: broker_inv_def sel sub_ok_cong [of c b])
  with b reg ind quo show ?thesis
    unfolding c_def [symmetric] by (simp add: broker_inv_def limits_ok_def sel)
qed

text \<open>What no operation on a subscription changes: the objects there are and their runs.\<close>

definition run_keys :: "broker \<Rightarrow> string list" where
  "run_keys b = map sub_runId (objects b)"

lemma run_keys_at: "i < length (objects b) \<Longrightarrow> run_keys b ! i = sub_runId (sub_at b i)"
  by (simp add: run_keys_def sub_at_def)

lemma run_keys_length [simp]: "length (run_keys b) = length (objects b)"
  by (simp add: run_keys_def)

lemma run_keys_settle [simp]: "run_keys (settle w r b) = run_keys b"
  by (simp add: run_keys_def)

lemma run_keys_put_sub:
  "i < length (objects b) \<Longrightarrow> sub_runId s = sub_runId (sub_at b i) \<Longrightarrow> run_keys (put_sub i s b) = run_keys b"
  by (simp add: run_keys_def put_sub_def sub_at_def map_update) (metis list_update_id length_map nth_map)

lemma run_keys_release [simp]: "run_keys (release i b) = run_keys b"
  by (simp add: run_keys_def release_def)

lemma run_keys_sub_close [simp]: "i < length (objects b) \<Longrightarrow> run_keys (sub_close i r e b) = run_keys b"
  by (simp add: sub_close_def Let_def run_keys_put_sub)

lemma run_keys_sub_push: "i < length (objects b) \<Longrightarrow> run_keys (snd (sub_push i ev len b)) = run_keys b"
  by (auto simp: sub_push_def Let_def run_keys_put_sub)

lemma sub_push_inv:
  assumes b: "broker_inv b" and i: "i < length (objects b)" and len: "0 \<le> len"
    and run: "getp ev ''runId'' = JStr (sub_runId (sub_at b i))"
  shows "broker_inv (snd (sub_push i ev len b))"
proof -
  let ?s = "sub_at b i"
  note ok = sub_at_ok [OF b i]
  have seen: "sub_ok b (?s\<lparr>highWatermark := event_sequence ev\<rparr>)" if "highWatermark ?s < event_sequence ev"
    using ok that unfolding sub_ok_def by fastforce
  then have p: "broker_inv (put_sub i (?s\<lparr>highWatermark := event_sequence ev\<rparr>) b)" if "highWatermark ?s < event_sequence ev"
    using that by (intro put_sub_inv [OF b i]) auto
  have taken: "sub_ok b (?s\<lparr>highWatermark := event_sequence ev, waiter := None\<rparr>)" if "highWatermark ?s < event_sequence ev"
    using seen [OF that] by (auto simp: sub_ok_def)
  have queued: "sub_ok b (?s\<lparr>highWatermark := event_sequence ev, sub_queue := sub_queue ?s @ [(ev, len)],
      queuedBytes := queuedBytes ?s + len\<rparr>)"
    if "highWatermark ?s < event_sequence ev" "int (length (sub_queue ?s)) < sub_maxQueueEvents ?s"
      "queuedBytes ?s + len \<le> sub_maxQueueBytes ?s" "waiter ?s = None" "\<not> sub_closed ?s"
    using seen [OF that(1)] ok that len run by (fastforce simp: sub_ok_def sorted_wrt_append)
  show ?thesis
  proof (cases "sub_closed ?s \<or> event_sequence ev \<le> highWatermark ?s")
    case True
    with b show ?thesis by (simp add: sub_push_def)
  next
    case False
    then have new: "highWatermark ?s < event_sequence ev" and open_s: "\<not> sub_closed ?s" by auto
    show ?thesis
    proof (cases "waiter ?s")
      case (Some w)
      with False put_sub_inv [OF b i, of "?s\<lparr>highWatermark := event_sequence ev, waiter := None\<rparr>"] taken [OF new]
      show ?thesis by (simp add: sub_push_def Let_def)
    next
      case None
      show ?thesis
      proof (cases "int (length (sub_queue ?s)) \<ge> sub_maxQueueEvents ?s \<or> queuedBytes ?s + len > sub_maxQueueBytes ?s")
        case True
        with False None sub_close_inv [OF p [OF new], of i] i
        show ?thesis by (simp add: sub_push_def Let_def)
      next
        case fits: False
        with False None queued [OF new _ _ None open_s] i
        show ?thesis by (auto simp: sub_push_def Let_def intro!: put_sub_inv [OF b i])
      qed
    qed
  qed
qed

lemma push_all_inv:
  assumes "broker_inv b" and "0 \<le> len"
    and "\<forall>i \<in> set is. i < length (objects b) \<and> getp ev ''runId'' = JStr (sub_runId (sub_at b i))"
  shows "broker_inv (snd (push_all is ev len n b))"
  using assms
proof (induction "is" ev len n b rule: push_all.induct)
  case (2 i "is" ev len n b)
  obtain ok b' where push: "sub_push i ev len b = (ok, b')" by (cases "sub_push i ev len b")
  with "2.prems" have keys: "run_keys b' = run_keys b" using run_keys_sub_push [of i b ev len] by simp
  then have len_b': "length (objects b') = length (objects b)" by (metis run_keys_length)
  have "broker_inv b'" using "2.prems" push sub_push_inv [of b i len ev] by simp
  moreover have "\<forall>j \<in> set is. j < length (objects b') \<and> getp ev ''runId'' = JStr (sub_runId (sub_at b' j))"
    using "2.prems"(3) keys len_b' by (metis list.set_intros(2) run_keys_at)
  ultimately show ?case using "2.IH" [OF push [symmetric]] "2.prems"(2) push by simp
qed simp

lemma byte_length_nonneg: "0 \<le> byte_length s"
  unfolding byte_length_def by (rule sum_list_nonneg) auto

lemma safe_event_sel [simp]:
  "getp (safe_event ev r n) ''runId'' = JStr r"
  "getp (safe_event ev r n) ''sequence'' = JInt n"
  by (simp_all add: safe_event_def)

lemma broker_limit_Inr: "boundedInteger_stream v lo hi = Inr i \<Longrightarrow> lo \<le> i \<and> i \<le> hi \<and> \<bar>i\<bar> \<le> max_safe"
  by (auto simp: boundedInteger_stream_def dest: safe_int_bound split: option.splits if_splits)

lemma event_sequence_safe_event [simp]: "\<bar>n\<bar> \<le> max_safe \<Longrightarrow> event_sequence (safe_event ev r n) = n"
  by (simp add: event_sequence_def js_Number_def)

text \<open>A call of \<open>publish\<close>: refused, ignored by a closed broker, or pushed to the run's subscriptions.\<close>

lemma publish_cases:
  obtains (closed) "broker_closed b" "publish ev b = (Inr 0, b)"
  | (refused) e where "\<not> broker_closed b" "publish ev b = (Inl e, b)"
  | (pushed) r n where "\<not> broker_closed b" "requiredKey (getp ev ''runId'') = Inr r"
      "boundedInteger_stream (getp ev ''sequence'') 1 max_safe = Inr n"
      "publish ev b = map_prod Inr id (push_all (index_get (byRun b) r) (safe_event ev r n)
         (byte_length (json_stringify (safe_event ev r n))) 0 b)"
proof (cases "broker_closed b")
  case True
  then show thesis by (intro closed) (simp_all add: publish_def sx_defs)
next
  case False
  show thesis
  proof (cases "requiredKey (getp ev ''runId'')")
    case (Inl e)
    with False show thesis by (intro refused [of e]) (simp_all add: publish_def sx_defs)
  next
    case (Inr r)
    note r = this
    show thesis
    proof (cases "boundedInteger_stream (getp ev ''sequence'') 1 max_safe")
      case (Inl e)
      with False r show thesis by (intro refused [of e]) (simp_all add: publish_def sx_defs)
    next
      case (Inr n)
      with False r show thesis by (intro pushed [of r n]) (simp_all add: publish_def sx_defs Let_def split: prod.splits)
    qed
  qed
qed

lemma publish_inv: "broker_inv b \<Longrightarrow> broker_inv (snd (publish ev b))"
proof (cases rule: publish_cases [of b ev])
  case (pushed r n)
  assume b: "broker_inv b"
  have "\<forall>i \<in> set (index_get (byRun b) r). i < length (objects b) \<and> sub_runId (sub_at b i) = r"
    using b by (auto simp: run_index registered_iff)
  with b have "broker_inv (snd (push_all (index_get (byRun b) r) (safe_event ev r n)
      (byte_length (json_stringify (safe_event ev r n))) 0 b))"
    by (intro push_all_inv) (auto simp: byte_length_nonneg)
  with pushed show ?thesis by simp
qed simp_all

text \<open>A call of \<open>subscribe\<close>: refused with the state as it was, or a new open subscription.\<close>

definition subscribed :: "string \<Rightarrow> string \<Rightarrow> int \<Rightarrow> broker \<Rightarrow> broker" where
  "subscribed pk rk cursor b =
     b\<lparr>objects := objects b @ [new_subscription b pk rk cursor],
       subscribers := set_add (length (objects b)) (subscribers b),
       byPrincipal := addToIndex (byPrincipal b) pk (length (objects b)),
       byRun := addToIndex (byRun b) rk (length (objects b))\<rparr>"

lemma subscribe_cases:
  obtains (refused) e where "subscribe p r a b = (Inl e, b)"
  | (opened) pk rk cursor where "subscribe p r a b = (Inr (length (objects b)), subscribed pk rk cursor b)"
      "\<not> broker_closed b" "requiredKey p = Inr pk" "requiredKey r = Inr rk"
      "boundedInteger_stream (js_default a (JInt 0)) 0 max_safe = Inr cursor"
      "int (length (subscribers b)) < maxSubscribers b"
      "int (length (index_get (byPrincipal b) pk)) < maxSubscribersPerPrincipal b"
      "int (length (index_get (byRun b) rk)) < maxSubscribersPerRun b"
proof (cases "subscribe p r a b")
  case (Pair res b')
  show thesis
  proof (cases res)
    case (Inl e)
    with Pair have "subscribe p r a b = (Inl e, b)"
      by (auto simp: subscribe_def res_simps Let_def split: if_splits)
    then show thesis by (rule refused)
  next
    case (Inr i)
    with Pair obtain pk rk cursor where "\<not> broker_closed b" "requiredKey p = Inr pk" "requiredKey r = Inr rk"
      "boundedInteger_stream (js_default a (JInt 0)) 0 max_safe = Inr cursor"
      "int (length (subscribers b)) < maxSubscribers b"
      "int (length (index_get (byPrincipal b) pk)) < maxSubscribersPerPrincipal b"
      "int (length (index_get (byRun b) rk)) < maxSubscribersPerRun b"
      by (auto simp: subscribe_def res_simps Let_def split: if_splits) metis
    then show thesis
      by (intro opened) (simp_all add: subscribe_def sx_defs Let_def subscribed_def)
  qed
qed

lemma subscribed_sel [simp]:
  "maxSubscribers (subscribed pk rk c b) = maxSubscribers b"
  "maxSubscribersPerPrincipal (subscribed pk rk c b) = maxSubscribersPerPrincipal b"
  "maxSubscribersPerRun (subscribed pk rk c b) = maxSubscribersPerRun b"
  "maxQueueEvents (subscribed pk rk c b) = maxQueueEvents b"
  "maxQueueBytes (subscribed pk rk c b) = maxQueueBytes b"
  "byPrincipal (subscribed pk rk c b) = addToIndex (byPrincipal b) pk (length (objects b))"
  "byRun (subscribed pk rk c b) = addToIndex (byRun b) rk (length (objects b))"
  "broker_closed (subscribed pk rk c b) = broker_closed b"
  "length (objects (subscribed pk rk c b)) = Suc (length (objects b))"
  "subscribers (subscribed pk rk c b) = set_add (length (objects b)) (subscribers b)"
  by (simp_all add: subscribed_def)

lemma new_subscription_sel [simp]:
  "sub_principal (new_subscription b pk rk c) = pk"
  "sub_runId (new_subscription b pk rk c) = rk"
  "sub_closed (new_subscription b pk rk c) = False"
  by (simp_all add: new_subscription_def)

lemma subscribed_inv:
  assumes b: "broker_inv b" and "\<not> broker_closed b"
    and "int (length (subscribers b)) < maxSubscribers b"
    and "int (length (index_get (byPrincipal b) pk)) < maxSubscribersPerPrincipal b"
    and "int (length (index_get (byRun b) rk)) < maxSubscribersPerRun b"
  shows "broker_inv (subscribed pk rk cursor b)"
proof -
  define n where "n = length (objects b)"
  let ?c = "subscribed pk rk cursor b"
  have reg: "registry_ok b" and ind: "index_ok (byPrincipal b)" "index_ok (byRun b)"
    using b by (simp_all add: broker_inv_def indexes_ok_def)
  have below: "\<And>j. j \<in> set (subscribers b) \<Longrightarrow> j < n" using reg by (simp add: registry_ok_def n_def)
  then have fresh: "n \<notin> set (subscribers b)" by blast
  have old: "sub_at ?c j = sub_at b j" if "j < n" for j
    using that by (simp add: sub_at_def subscribed_def nth_append n_def)
  have new: "sub_at ?c n = new_subscription b pk rk cursor"
    by (simp add: sub_at_def subscribed_def nth_append n_def)
  have subs: "subscribers ?c = subscribers b @ [n]" using fresh by (simp add: set_add_def n_def)
  have mirr: "mirrors index_get (\<lambda>i. key (sub_at ?c i)) (addToIndex ix (key (sub_at ?c n)) n) (subscribers b @ [n])"
    if "index_ok ix" "mirrors index_get (\<lambda>i. key (sub_at b i)) ix (subscribers b)" for key ix
  proof (rule subs_index.mirrors_add [OF that(1) _ fresh])
    show "mirrors index_get (\<lambda>i. key (sub_at ?c i)) ix (subscribers b)"
      using that(2) below old unfolding mirrors_def by (auto intro!: filter_cong)
  qed
  have "indexes_ok ?c"
    using b mirr [of "byPrincipal b" sub_principal] mirr [of "byRun b" sub_runId] ind
    unfolding indexes_ok_def subs by (simp add: broker_inv_def indexes_ok_def new subs_index.ok_add n_def [symmetric])
  moreover have "registry_ok ?c"
    unfolding registry_ok_def subs
  proof (intro conjI allI impI)
    show "distinct (subscribers b @ [n])" using reg fresh by (simp add: registry_ok_def)
    fix i
    have mem: "i \<in> set (subscribers b) \<longleftrightarrow> i < n \<and> \<not> sub_closed (sub_at b i)"
      using reg by (simp add: registry_ok_def n_def)
    consider "i = n" | "i < n" | "i > n" by arith
    then show "(i \<in> set (subscribers b @ [n])) = (i < length (objects ?c) \<and> \<not> sub_closed (sub_at ?c i))"
      using mem by cases (simp_all add: old new n_def [symmetric])
  next
    assume "broker_closed ?c"
    with assms(2) show "subscribers b @ [n] = []" by simp
  qed
  moreover have "quotas_ok ?c"
  proof -
    have grow: "int (length (set_add x xs)) \<le> m" if "int (length xs) < m" for x :: nat and xs and m
      using that by (simp add: set_add_def)
    have "quotas_ok b" using b by (simp add: broker_inv_def)
    then show ?thesis
      unfolding quotas_ok_def by (auto simp: subs_index.get_add [OF ind(1)] subs_index.get_add [OF ind(2)] assms(3-5) intro: grow)
  qed
  moreover have "\<forall>s \<in> set (objects ?c). sub_ok ?c s"
    using b by (auto simp: broker_inv_def subscribed_def sub_ok_def new_subscription_def limits_ok_def)
  ultimately show ?thesis using b by (simp add: broker_inv_def limits_ok_def)
qed

lemma subscribe_inv: "broker_inv b \<Longrightarrow> broker_inv (snd (subscribe p r a b))"
  by (cases rule: subscribe_cases [of p r a b]) (auto intro: subscribed_inv)

lemma sub_next_inv:
  assumes b: "broker_inv b" and i: "i < length (objects b)"
  shows "broker_inv (snd (sub_next i t b))"
proof -
  let ?s = "sub_at b i"
  note ok = sub_at_ok [OF b i]
  have shift: "broker_inv (put_sub i (?s\<lparr>sub_queue := rest, queuedBytes := queuedBytes ?s - len\<rparr>) b)"
    if "sub_queue ?s = (ev, len) # rest" for ev len rest
    using ok that by (intro put_sub_inv [OF b i]) (auto simp: sub_ok_def)
  have wait: "broker_inv ((put_sub i (?s\<lparr>waiter := Some w\<rparr>) b)\<lparr>waits := n\<rparr>)"
    if "sub_queue ?s = []" "\<not> sub_closed ?s" for w n
  proof -
    have "broker_inv (put_sub i (?s\<lparr>waiter := Some w\<rparr>) b)"
      using ok that by (intro put_sub_inv [OF b i]) (auto simp: sub_ok_def)
    then show ?thesis by simp
  qed
  show ?thesis
    using b shift wait
    by (auto simp: sub_next_def sx_defs Let_def split: list.splits sum.splits)
qed

lemma sub_timer_inv:
  assumes "broker_inv b" and "i < length (objects b)"
  shows "broker_inv (sub_timer i b)"
  using sub_at_ok [OF assms] put_sub_inv [OF assms, of "(sub_at b i)\<lparr>waiter := None\<rparr>"] assms(1)
  by (auto simp: sub_timer_def Let_def sub_ok_def)

text \<open>\<open>close\<close> of the broker closes every subscription it has.\<close>

lemma subscribers_sub_close:
  assumes "broker_inv b" and "i \<in> set (subscribers b)"
  shows "subscribers (sub_close i r e b) = remove1 i (subscribers b)"
  using assms by (simp add: registered_iff sub_close_unfold)

lemma length_sub_close [simp]: "i < length (objects b) \<Longrightarrow> length (objects (sub_close i r e b)) = length (objects b)"
  by (metis run_keys_length run_keys_sub_close)

lemma close_all:
  assumes "broker_inv b" and "distinct is" and "set is \<subseteq> set (subscribers b)"
  shows "broker_inv (fold (\<lambda>i. sub_close i r e) is b)
    \<and> set (subscribers (fold (\<lambda>i. sub_close i r e) is b)) = set (subscribers b) - set is"
  using assms
proof (induction "is" arbitrary: b)
  case (Cons i "is")
  have i: "i \<in> set (subscribers b)" "i < length (objects b)" using Cons.prems by (auto simp: registered_iff)
  have inv: "broker_inv (sub_close i r e b)" by (rule sub_close_inv [OF Cons.prems(1) i(2)])
  have "distinct (subscribers b)" using Cons.prems by (simp add: broker_inv_def registry_ok_def)
  then have subs: "set (subscribers (sub_close i r e b)) = set (subscribers b) - {i}"
    using subscribers_sub_close [OF Cons.prems(1) i(1)] by simp
  show ?case using Cons.IH [OF inv] Cons.prems subs by auto
qed simp

lemma sub_close_flag: "sub_close i r e (b\<lparr>broker_closed := c\<rparr>) = (sub_close i r e b)\<lparr>broker_closed := c\<rparr>"
  by (simp add: sub_close_def Let_def release_def sub_at_def put_sub_def settle_def split: option.splits)

lemma close_all_flag:
  "fold (\<lambda>i. sub_close i r e) is (b\<lparr>broker_closed := c\<rparr>) = (fold (\<lambda>i. sub_close i r e) is b)\<lparr>broker_closed := c\<rparr>"
  by (induction "is" arbitrary: b) (simp_all add: sub_close_flag)

lemma broker_close_inv:
  assumes b: "broker_inv b"
  shows "broker_inv (broker_close b)" and "subscribers (broker_close b) = []"
proof -
  define c where "c = fold (\<lambda>i. sub_close i ''broker-closed'' None) (subscribers b) b"
  have "distinct (subscribers b)" using b by (simp add: broker_inv_def registry_ok_def)
  then have c: "broker_inv c" "subscribers c = []"
    using close_all [OF b, of "subscribers b" "''broker-closed''" None] by (auto simp: c_def)
  have closed: "broker_inv (c\<lparr>broker_closed := True\<rparr>)"
  proof -
    have "sub_at (c\<lparr>broker_closed := True\<rparr>) = sub_at c" by (simp add: sub_at_def fun_eq_iff)
    with c show ?thesis
      by (simp add: broker_inv_defs sub_ok_cong [of "c\<lparr>broker_closed := True\<rparr>" c])
  qed
  show "broker_inv (broker_close b)"
    using b closed by (simp add: broker_close_def close_all_flag c_def)
  show "subscribers (broker_close b) = []"
    using b c by (cases "broker_closed b")
      (simp_all add: broker_close_def close_all_flag c_def broker_inv_def registry_ok_def)
qed

lemma new_broker_inv: "new_broker p q r e n = Inr b \<Longrightarrow> broker_inv b"
  by (auto simp: new_broker_def res_simps broker_inv_defs mirrors_def index_ok_def index_get_def
      dest!: broker_limit_Inr)

lemma run_op_inv: "broker_inv b \<Longrightarrow> broker_inv (run_op op b)"
  by (cases op) (simp_all add: subscribe_inv publish_inv sub_next_inv sub_timer_inv sub_close_inv broker_close_inv)

text \<open>The configured limits never change.\<close>

definition broker_limits :: "broker \<Rightarrow> int list" where
  "broker_limits b = [maxSubscribers b, maxSubscribersPerPrincipal b, maxSubscribersPerRun b,
     maxQueueEvents b, maxQueueBytes b]"

lemma limits_basic [simp]:
  "broker_limits (put_sub i s b) = broker_limits b"
  "broker_limits (settle w r b) = broker_limits b"
  "broker_limits (release i b) = broker_limits b"
  "broker_limits (sub_close i reason err b) = broker_limits b"
  "broker_limits (subscribed pk rk c b) = broker_limits b"
  "broker_limits (b\<lparr>waits := n\<rparr>) = broker_limits b"
  "broker_limits (b\<lparr>broker_closed := x\<rparr>) = broker_limits b"
  by (simp_all add: broker_limits_def sub_close_def release_def Let_def)

lemma limits_push: "broker_limits (snd (sub_push i ev len b)) = broker_limits b"
  by (simp add: sub_push_def Let_def)

lemma limits_push_all: "broker_limits (snd (push_all is ev len n b)) = broker_limits b"
proof (induction "is" ev len n b rule: push_all.induct)
  case (2 i "is" ev len n b)
  then show ?case using limits_push [of i ev len b] by (cases "sub_push i ev len b") simp
qed simp

lemma limits_close_all: "broker_limits (fold (\<lambda>i. sub_close i r e) is b) = broker_limits b"
  by (induction "is" arbitrary: b) simp_all

lemma limits_run_op: "broker_limits (run_op op b) = broker_limits b"
proof (cases op)
  case (Subscribe p r a)
  then show ?thesis by (cases rule: subscribe_cases [of p r a b]) simp_all
next
  case (Publish ev)
  then show ?thesis
    by (cases rule: publish_cases [of b ev]) (simp_all add: limits_push_all)
next
  case (Next i t)
  then show ?thesis by (auto simp: sub_next_def sx_defs Let_def split: sum.split list.split)
qed (simp_all add: sub_timer_def Let_def broker_close_def limits_close_all)

interpretation broker: operation_system run_op "\<lambda>b. broker_inv b \<and> broker_limits b = L" for L
  by unfold_locales (simp add: run_op_inv limits_run_op)

text \<open>
  C7. Whatever calls a broker built by the constructor and the subscriptions it handed out
  receive, the open subscriptions stay within the configured global, principal and run quotas,
  the queue of every subscription stays within its event and byte limits and holds only events
  of its own run with strictly increasing sequence numbers, and a closed subscription has an
  empty queue, no waiting consumer and no place in the registry.
\<close>

theorem broker_stays_within_limits:
  assumes "new_broker subs perPrincipal perRun events bytes = Inr b0"
    and "b = fold run_op ops b0"
  shows "int (length (subscribers b)) \<le> maxSubscribers b0
    \<and> (\<forall>k. int (length (filter (\<lambda>i. sub_principal (sub_at b i) = k) (subscribers b)))
          \<le> maxSubscribersPerPrincipal b0)
    \<and> (\<forall>k. int (length (filter (\<lambda>i. sub_runId (sub_at b i) = k) (subscribers b))) \<le> maxSubscribersPerRun b0)
    \<and> (\<forall>s \<in> set (objects b).
          int (length (sub_queue s)) \<le> maxQueueEvents b0
        \<and> (\<Sum>(ev, len) \<leftarrow> sub_queue s. len) \<le> maxQueueBytes b0
        \<and> (\<forall>(ev, len) \<in> set (sub_queue s). getp ev ''runId'' = JStr (sub_runId s))
        \<and> sorted_wrt (<) (map (\<lambda>(ev, len). event_sequence ev) (sub_queue s))
        \<and> (sub_closed s \<longrightarrow> sub_queue s = [] \<and> waiter s = None))
    \<and> (\<forall>i < length (objects b). sub_closed (sub_at b i) \<longrightarrow> i \<notin> set (subscribers b))"
proof -
  have inv: "broker_inv b" and lim: "broker_limits b = broker_limits b0"
    using broker.run_all_inv [of b0 "broker_limits b0" ops] new_broker_inv [OF assms(1)] assms(2) by auto
  from lim have lims: "maxSubscribers b = maxSubscribers b0"
    "maxSubscribersPerPrincipal b = maxSubscribersPerPrincipal b0"
    "maxSubscribersPerRun b = maxSubscribersPerRun b0" "maxQueueEvents b = maxQueueEvents b0"
    "maxQueueBytes b = maxQueueBytes b0"
    by (simp_all add: broker_limits_def)
  have idx: "index_get (byPrincipal b) k = filter (\<lambda>i. sub_principal (sub_at b i) = k) (subscribers b)" for k
    using inv by (simp add: broker_inv_def indexes_ok_def mirrors_def)
  have subs: "sub_ok b s" if "s \<in> set (objects b)" for s using inv that by (simp add: broker_inv_def)
  have quo: "quotas_ok b" using inv by (simp add: broker_inv_def)
  show ?thesis
    using quo subs registered_iff [OF inv] lims
    by (fastforce simp: quotas_ok_def idx run_index [OF inv] sub_ok_def)
qed

definition sample_event :: "int \<Rightarrow> jsv" where
  "sample_event n = JObj [(''runId'', JStr ''r''), (''sequence'', JInt n)]"

theorem broker_stays_within_limits_witness:
  "\<exists>b0. new_broker (JInt 1) (JInt 1) (JInt 1) (JInt 1) JUndef = Inr b0
     \<and> (let b = fold run_op [Subscribe (JStr ''a'') (JStr ''r'') JUndef, Subscribe (JStr ''b'') (JStr ''r'') JUndef,
              Publish (sample_event 1)] b0
        in subscribers b = [0] \<and> map (length \<circ> sub_queue) (objects b) = [1]
           \<and> int (length (subscribers b)) \<le> maxSubscribers b0)"
proof -
  obtain b0 where b0: "new_broker (JInt 1) (JInt 1) (JInt 1) (JInt 1) JUndef = Inr b0"
    by (cases "new_broker (JInt 1) (JInt 1) (JInt 1) (JInt 1) JUndef") (simp_all add: new_broker_def boundedInteger_stream_def js_default_def js_Number_def)
  let ?ops = "[Subscribe (JStr ''a'') (JStr ''r'') JUndef, Subscribe (JStr ''b'') (JStr ''r'') JUndef,
              Publish (sample_event 1)]"
  have "subscribers (fold run_op ?ops (projr (new_broker (JInt 1) (JInt 1) (JInt 1) (JInt 1) JUndef))) = [0]
      \<and> map (length \<circ> sub_queue) (objects (fold run_op ?ops (projr (new_broker (JInt 1) (JInt 1) (JInt 1) (JInt 1) JUndef)))) = [1]"
    by code_simp
  then show ?thesis
    using b0 broker_stays_within_limits [OF b0 refl, of ?ops] by (intro exI [of _ b0]) (simp add: Let_def)
qed

section \<open>Refinement of the hub\<close>

text \<open>
  The abstract specification: a hub is a partial function from subscription numbers to open
  subscriptions, with no registry, no indexes and no delivery order. The quotas count the open
  subscriptions themselves, an event goes to every open subscription of its run, and closing
  removes a subscription.
\<close>

record hub =
  hub_limits :: "int list"
  hub_fresh :: nat
  hub_waits :: nat
  hub_closed :: bool
  hub_open :: "nat \<rightharpoonup> subscription"

definition hub_of :: "broker \<Rightarrow> hub" where
  "hub_of b = \<lparr>hub_limits = broker_limits b, hub_fresh = length (objects b), hub_waits = waits b,
     hub_closed = broker_closed b,
     hub_open = (\<lambda>i. if i \<in> set (subscribers b) then Some (sub_at b i) else None)\<rparr>"

definition hub_count :: "(subscription \<Rightarrow> bool) \<Rightarrow> hub \<Rightarrow> int" where
  "hub_count P h = int (card {i. \<exists>s. hub_open h i = Some s \<and> P s})"

definition hub_push :: "jsv \<Rightarrow> int \<Rightarrow> subscription \<Rightarrow> subscription option" where
  "hub_push ev len s =
     (if event_sequence ev \<le> highWatermark s then Some s
      else if waiter s \<noteq> None then Some (s\<lparr>highWatermark := event_sequence ev, waiter := None\<rparr>)
      else if int (length (sub_queue s)) < sub_maxQueueEvents s \<and> queuedBytes s + len \<le> sub_maxQueueBytes s
      then Some (s\<lparr>highWatermark := event_sequence ev, sub_queue := sub_queue s @ [(ev, len)],
                    queuedBytes := queuedBytes s + len\<rparr>)
      else None)"

definition hub_subscribe :: "jsv \<Rightarrow> jsv \<Rightarrow> jsv \<Rightarrow> hub \<Rightarrow> hub" where
  "hub_subscribe p r a h =
     (case (requiredKey p, requiredKey r, boundedInteger_stream (js_default a (JInt 0)) 0 max_safe) of
        (Inr pk, Inr rk, Inr cursor) \<Rightarrow>
          if \<not> hub_closed h \<and> hub_count (\<lambda>s. True) h < hub_limits h ! 0
             \<and> hub_count (\<lambda>s. sub_principal s = pk) h < hub_limits h ! 1
             \<and> hub_count (\<lambda>s. sub_runId s = rk) h < hub_limits h ! 2
          then h\<lparr>hub_fresh := Suc (hub_fresh h),
                 hub_open := (hub_open h)(hub_fresh h \<mapsto>
                   \<lparr>sub_principal = pk, sub_runId = rk, highWatermark = cursor,
                    sub_maxQueueEvents = hub_limits h ! 3, sub_maxQueueBytes = hub_limits h ! 4,
                    sub_queue = [], queuedBytes = 0, waiter = None, sub_closed = False,
                    closeReason = [], closeError = None\<rparr>)\<rparr>
          else h
      | _ \<Rightarrow> h)"

definition hub_publish :: "jsv \<Rightarrow> hub \<Rightarrow> hub" where
  "hub_publish ev h =
     (case (requiredKey (getp ev ''runId''), boundedInteger_stream (getp ev ''sequence'') 1 max_safe) of
        (Inr r, Inr n) \<Rightarrow>
          if hub_closed h then h
          else h\<lparr>hub_open := (\<lambda>i. case hub_open h i of None \<Rightarrow> None
                 | Some s \<Rightarrow> if sub_runId s = r
                     then hub_push (safe_event ev r n) (byte_length (json_stringify (safe_event ev r n))) s
                     else Some s)\<rparr>
      | _ \<Rightarrow> h)"

definition hub_next :: "nat \<Rightarrow> jsv \<Rightarrow> hub \<Rightarrow> hub" where
  "hub_next i t h =
     (case (boundedInteger_stream (js_default t (JInt 15000)) 1 300000, hub_open h i) of
        (Inr _, Some s) \<Rightarrow> (case sub_queue s of
            (ev, len) # rest \<Rightarrow>
              h\<lparr>hub_open := (hub_open h)(i \<mapsto> s\<lparr>sub_queue := rest, queuedBytes := queuedBytes s - len\<rparr>)\<rparr>
          | [] \<Rightarrow> if waiter s \<noteq> None then h
                  else h\<lparr>hub_open := (hub_open h)(i \<mapsto> s\<lparr>waiter := Some (hub_waits h)\<rparr>),
                         hub_waits := Suc (hub_waits h)\<rparr>)
      | _ \<Rightarrow> h)"

fun hub_step :: "broker_op \<Rightarrow> hub \<Rightarrow> hub" where
  "hub_step (Subscribe p r a) h = hub_subscribe p r a h"
| "hub_step (Publish ev) h = hub_publish ev h"
| "hub_step (Next i t) h = hub_next i t h"
| "hub_step (Timer i) h = h\<lparr>hub_open := (case hub_open h i of None \<Rightarrow> hub_open h
     | Some s \<Rightarrow> (hub_open h)(i \<mapsto> s\<lparr>waiter := None\<rparr>))\<rparr>"
| "hub_step (CloseSub i reason err) h = h\<lparr>hub_open := (hub_open h)(i := None)\<rparr>"
| "hub_step CloseBroker h = h\<lparr>hub_closed := True, hub_open := Map.empty\<rparr>"

lemma hub_of_sel [simp]:
  "hub_limits (hub_of b) = broker_limits b" "hub_fresh (hub_of b) = length (objects b)"
  "hub_waits (hub_of b) = waits b" "hub_closed (hub_of b) = broker_closed b"
  "hub_open (hub_of b) i = (if i \<in> set (subscribers b) then Some (sub_at b i) else None)"
  by (simp_all add: hub_of_def)

lemma hub_eqI:
  "hub_limits h = hub_limits h' \<Longrightarrow> hub_fresh h = hub_fresh h' \<Longrightarrow> hub_waits h = hub_waits h' \<Longrightarrow>
   hub_closed h = hub_closed h' \<Longrightarrow> (\<And>i. hub_open h i = hub_open h' i) \<Longrightarrow> h = (h' :: hub)"
  by (rule hub.equality) auto

lemma waits_basic [simp]:
  "waits (put_sub i s b) = waits b" "waits (settle w r b) = waits b"
  "waits (release i b) = waits b" "waits (sub_close i reason err b) = waits b"
  by (simp_all add: put_sub_def settle_def sub_close_def release_def Let_def split: option.split)

lemma broker_closed_sub_close: "broker_closed (sub_close i reason err b) = broker_closed b"
  by (simp add: sub_close_def release_def Let_def)

lemma hub_of_settle [simp]: "hub_of (settle w r b) = hub_of b"
  by (rule hub_eqI) simp_all

lemma hub_of_put_sub:
  assumes "broker_inv b" and "i \<in> set (subscribers b)"
  shows "hub_of (put_sub i s b) = (hub_of b)\<lparr>hub_open := (hub_open (hub_of b))(i \<mapsto> s)\<rparr>"
  using assms by (intro hub_eqI) (auto simp: registered_iff sub_at_put_sub)

lemma hub_of_sub_close:
  assumes b: "broker_inv b" and i: "i \<in> set (subscribers b)"
  shows "hub_of (sub_close i reason err b) = (hub_of b)\<lparr>hub_open := (hub_open (hub_of b))(i := None)\<rparr>"
proof (rule hub_eqI)
  fix j
  have len: "i < length (objects b)" "\<not> sub_closed (sub_at b i)" and "distinct (subscribers b)"
    using b i by (simp_all add: registered_iff broker_inv_def registry_ok_def)
  moreover have "sub_at (sub_close i reason err b) j = sub_at b j" if "j \<noteq> i"
  proof -
    have "sub_at (x\<lparr>subscribers := p, byPrincipal := q, byRun := r\<rparr>) j = sub_at x j" for x :: broker and p q r
      by (simp add: sub_at_def)
    then show ?thesis using that sub_close_unfold [OF len i, of reason err] by (simp add: sub_at_put_sub [OF len(1)])
  qed
  ultimately show "hub_open (hub_of (sub_close i reason err b)) j
      = hub_open ((hub_of b)\<lparr>hub_open := (hub_open (hub_of b))(i := None)\<rparr>) j"
    by (simp add: subscribers_sub_close [OF b i])
qed (use b i in \<open>simp_all add: registered_iff broker_closed_sub_close\<close>)

lemma hub_of_sub_push:
  assumes b: "broker_inv b" and i: "i \<in> set (subscribers b)"
  shows "hub_of (snd (sub_push i ev len b)) =
    (hub_of b)\<lparr>hub_open := (hub_open (hub_of b))(i := hub_push ev len (sub_at b i))\<rparr>"
proof -
  let ?s = "sub_at b i"
  have i': "i < length (objects b)" "\<not> sub_closed ?s" using b i by (simp_all add: registered_iff)
  have closing: "hub_of (sub_close i r e (put_sub i (?s\<lparr>highWatermark := n\<rparr>) b))
      = (hub_of b)\<lparr>hub_open := (hub_open (hub_of b))(i := None)\<rparr>" if "highWatermark ?s < n" for r e n
  proof -
    have "sub_ok b (?s\<lparr>highWatermark := n\<rparr>)" using sub_at_ok [OF b i'(1)] that unfolding sub_ok_def by fastforce
    then have "broker_inv (put_sub i (?s\<lparr>highWatermark := n\<rparr>) b)" by (intro put_sub_inv [OF b i'(1)]) simp_all
    from hub_of_sub_close [OF this, of i] i show ?thesis by (simp add: hub_of_put_sub [OF b i])
  qed
  have same: "(hub_of b)\<lparr>hub_open := (hub_open (hub_of b))(i \<mapsto> ?s)\<rparr> = hub_of b"
    using i by (intro hub_eqI) simp_all
  show ?thesis
    using i' closing by (auto simp: sub_push_def hub_push_def Let_def hub_of_put_sub [OF b i] same)
qed

lemma hub_of_push_all:
  assumes "broker_inv b" and "distinct is" and "set is \<subseteq> set (subscribers b)" and "0 \<le> len"
    and "\<forall>i \<in> set is. getp ev ''runId'' = JStr (sub_runId (sub_at b i))"
  shows "hub_of (snd (push_all is ev len n b)) =
    (hub_of b)\<lparr>hub_open := (\<lambda>i. if i \<in> set is then hub_push ev len (sub_at b i) else hub_open (hub_of b) i)\<rparr>"
  using assms
proof (induction "is" ev len n b rule: push_all.induct)
  case (1 ev len n b)
  show ?case by (rule hub_eqI) simp_all
next
  case (2 i "is" ev len n b)
  obtain ok b' where push: "sub_push i ev len b = (ok, b')" by (cases "sub_push i ev len b")
  have i: "i \<in> set (subscribers b)" "i < length (objects b)" using "2.prems" by (auto simp: registered_iff)
  have abs: "hub_of b' = (hub_of b)\<lparr>hub_open := (hub_open (hub_of b))(i := hub_push ev len (sub_at b i))\<rparr>"
    using hub_of_sub_push [OF "2.prems"(1) i(1), of ev len] push by simp
  have inv: "broker_inv b'" using "2.prems" push sub_push_inv [of b i len ev] i by simp
  have rest: "j \<in> set (subscribers b') \<and> sub_at b' j = sub_at b j" if "j \<in> set is" for j
  proof -
    have "j \<noteq> i" "j \<in> set (subscribers b)" using that "2.prems"(2,3) by auto
    then have "hub_open (hub_of b') j = Some (sub_at b j)" unfolding abs by simp
    then show ?thesis by (simp split: if_splits)
  qed
  have "set is \<subseteq> set (subscribers b')" using rest by blast
  then have "hub_of (snd (push_all is ev len (if ok then Suc n else n) b')) =
      (hub_of b')\<lparr>hub_open := (\<lambda>j. if j \<in> set is then hub_push ev len (sub_at b' j) else hub_open (hub_of b') j)\<rparr>"
    using "2.IH" [OF push [symmetric] inv] "2.prems" rest by auto
  then show ?case using push rest "2.prems"(2) by (intro hub_eqI) (auto simp: abs)
qed

lemma hub_count_filter:
  assumes "broker_inv b"
  shows "hub_count P (hub_of b) = int (length (filter (\<lambda>i. P (sub_at b i)) (subscribers b)))"
proof -
  have "{i. \<exists>s. hub_open (hub_of b) i = Some s \<and> P s} = set (filter (\<lambda>i. P (sub_at b i)) (subscribers b))"
    by (auto split: if_splits)
  moreover have "distinct (filter (\<lambda>i. P (sub_at b i)) (subscribers b))"
    using assms by (simp add: broker_inv_def registry_ok_def)
  ultimately show ?thesis unfolding hub_count_def using distinct_card by metis
qed

lemma hub_of_publish:
  assumes b: "broker_inv b"
  shows "hub_of (snd (publish ev b)) = hub_publish ev (hub_of b)"
proof (cases rule: publish_cases [of b ev])
  case closed
  then show ?thesis by (simp add: hub_publish_def split: sum.split)
next
  case (refused e)
  then show ?thesis by (auto simp: hub_publish_def publish_def sx_defs Let_def split: sum.splits prod.splits)
next
  case (pushed r n)
  have idx: "index_get (byRun b) r = filter (\<lambda>i. sub_runId (sub_at b i) = r) (subscribers b)"
    using b by (rule run_index)
  have "distinct (subscribers b)" using b by (simp add: broker_inv_def registry_ok_def)
  with b pushed show ?thesis
    by (intro hub_eqI) (simp_all add: hub_publish_def idx hub_of_push_all byte_length_nonneg)
qed

lemma hub_of_subscribe:
  assumes b: "broker_inv b"
  shows "hub_of (snd (subscribe p r a b)) = hub_subscribe p r a (hub_of b)"
proof -
  have idx: "index_get (byPrincipal b) k = filter (\<lambda>i. sub_principal (sub_at b i) = k) (subscribers b)" for k
    using b by (simp add: broker_inv_def indexes_ok_def mirrors_def)
  note counts = hub_count_filter [OF b] idx run_index [OF b]
  show ?thesis
  proof (cases rule: subscribe_cases [of p r a b])
    case (refused e)
    then show ?thesis
      by (auto simp: hub_subscribe_def subscribe_def sx_defs Let_def counts broker_limits_def split: sum.splits if_splits)
  next
    case (opened pk rk cursor)
    have below: "\<And>j. j \<in> set (subscribers b) \<Longrightarrow> j < length (objects b)" using b by (simp add: registered_iff)
    then have fresh: "length (objects b) \<notin> set (subscribers b)" by blast
    have at: "sub_at (subscribed pk rk cursor b) j = (if j < length (objects b) then sub_at b j else new_subscription b pk rk cursor)"
      if "j \<le> length (objects b)" for j
      using that by (simp add: sub_at_def subscribed_def nth_append)
    have "waits (subscribed pk rk cursor b) = waits b" by (simp add: subscribed_def)
    with opened fresh below show ?thesis
      by (intro hub_eqI)
        (auto simp: hub_subscribe_def counts broker_limits_def set_add_def at new_subscription_def less_imp_le)
  qed
qed

lemma hub_of_next:
  assumes b: "broker_inv b" and i: "i < length (objects b)"
  shows "hub_of (snd (sub_next i t b)) = hub_next i t (hub_of b)"
proof (cases "sub_closed (sub_at b i)")
  case True
  then have "sub_queue (sub_at b i) = []" "i \<notin> set (subscribers b)"
    using sub_at_ok [OF b i] b by (simp_all add: sub_ok_def registered_iff)
  with True show ?thesis by (simp add: sub_next_def hub_next_def sx_defs Let_def split: sum.split)
next
  case False
  then have reg: "i \<in> set (subscribers b)" using b i by (simp add: registered_iff)
  have waits: "hub_of (x\<lparr>waits := n\<rparr>) = (hub_of x)\<lparr>hub_waits := n\<rparr>" for x n
    by (rule hub_eqI) (simp_all add: sub_at_def)
  from False reg show ?thesis
    by (auto simp: sub_next_def hub_next_def sx_defs Let_def hub_of_put_sub [OF b reg] waits
        split: sum.split list.split)
qed

lemma hub_of_timer:
  assumes b: "broker_inv b"
  shows "hub_of (run_op (Timer i) b) = hub_step (Timer i) (hub_of b)"
proof (cases "i \<in> set (subscribers b)")
  case True
  then have i: "i < length (objects b)" using b by (simp add: registered_iff)
  have same: "waiter (sub_at b i) = None \<Longrightarrow> (sub_at b i)\<lparr>waiter := None\<rparr> = sub_at b i" by simp
  show ?thesis
    using True i same by (cases "waiter (sub_at b i)")
      (auto simp: sub_timer_def Let_def hub_of_put_sub [OF b True] intro!: hub_eqI)
next
  case False
  then have "i < length (objects b) \<Longrightarrow> waiter (sub_at b i) = None"
    using sub_at_ok [OF b] by (simp add: sub_ok_def registered_iff [OF b])
  with False show ?thesis by (auto simp: sub_timer_def Let_def intro!: hub_eqI)
qed

lemma hub_of_close:
  assumes b: "broker_inv b"
  shows "hub_of (run_op (CloseSub i reason err) b) = hub_step (CloseSub i reason err) (hub_of b)"
proof (cases "i \<in> set (subscribers b)")
  case True
  then show ?thesis using b by (simp add: hub_of_sub_close registered_iff)
next
  case False
  then show ?thesis using b by (auto simp: sub_close_def Let_def registered_iff intro!: hub_eqI)
qed

lemma hub_of_broker_close:
  assumes b: "broker_inv b"
  shows "hub_of (broker_close b) = hub_step CloseBroker (hub_of b)"
proof (rule hub_eqI)
  have w: "waits (fold (\<lambda>i. sub_close i r e) is c) = waits c" for r e "is" c
    by (induction "is" arbitrary: c) simp_all
  then show "hub_waits (hub_of (broker_close b)) = hub_waits (hub_step CloseBroker (hub_of b))"
    by (simp add: broker_close_def)
  have n: "set is \<subseteq> {..<length (objects c)} \<Longrightarrow> length (objects (fold (\<lambda>i. sub_close i r e) is c)) = length (objects c)"
    for r e "is" c
    by (induction "is" arbitrary: c) simp_all
  have "set (subscribers b) \<subseteq> {..<length (objects b)}" using b by (auto simp: registered_iff)
  from n [OF this] show "hub_fresh (hub_of (broker_close b)) = hub_fresh (hub_step CloseBroker (hub_of b))"
    by (simp add: broker_close_def close_all_flag)
  fix i
  show "hub_open (hub_of (broker_close b)) i = hub_open (hub_step CloseBroker (hub_of b)) i"
    by (simp add: broker_close_inv(2) [OF b])
qed (simp_all add: broker_close_def close_all_flag limits_close_all)

text \<open>
  C8. The broker with its registry and its two indexes refines the hub: in every state it can
  be in, each call changes the open subscriptions as the specification says, so the indexes
  never make a quota count or a delivery differ from the open subscriptions themselves.
\<close>

theorem broker_refines_hub:
  assumes "new_broker subs perPrincipal perRun events bytes = Inr b0"
    and "b = fold run_op ops b0"
  shows "hub_of (run_op op b) = hub_step op (hub_of b)"
proof -
  have b: "broker_inv b"
    using broker.run_all_inv [of b0 "broker_limits b0" ops] new_broker_inv [OF assms(1)] assms(2) by simp
  show ?thesis
  proof (cases op)
    case (Next i t)
    then show ?thesis
      using b hub_of_next [OF b, of i t] by (auto simp: hub_next_def registered_iff split: sum.split)
  next
    case (Timer i)
    then show ?thesis by (simp only: hub_of_timer [OF b])
  next
    case (CloseSub i reason err)
    then show ?thesis by (simp only: hub_of_close [OF b])
  next
    case CloseBroker
    then show ?thesis using b by (simp add: hub_of_broker_close)
  qed (simp_all add: hub_of_publish [OF b] hub_of_subscribe [OF b])
qed

theorem broker_refines_hub_witness:
  "\<exists>b0. new_broker JUndef JUndef JUndef JUndef JUndef = Inr b0
     \<and> hub_of (run_op (Publish (sample_event 1)) (fold run_op [Subscribe (JStr ''a'') (JStr ''r'') JUndef] b0))
       = hub_step (Publish (sample_event 1)) (hub_of (fold run_op [Subscribe (JStr ''a'') (JStr ''r'') JUndef] b0))"
proof -
  obtain b0 where b0: "new_broker JUndef JUndef JUndef JUndef JUndef = Inr b0"
    by (cases "new_broker JUndef JUndef JUndef JUndef JUndef")
      (simp_all add: new_broker_def boundedInteger_stream_def js_default_def js_Number_def)
  then show ?thesis using broker_refines_hub [OF b0 refl] by blast
qed

end
