(* ===== verification/StatusStream.thy ===== *)
theory StatusStream
  imports StatusBroker
begin

text \<open>
  The two ends of the status event stream. \<open>src/control-center/status/executor.mjs\<close> runs the
  checks of a status run one by one and emits a numbered event at each step;
  \<open>pumpStatusEventStream\<close> of \<open>status/event-stream.mjs\<close> writes the events of a run to one HTTP
  response, first the replayed ones and then those of a subscription.

  The outside world is explicit. The clock of the executor is a function from the number of
  readings so far to the reading; a check's \<open>run\<close> settles after a number of milliseconds or
  never. A turn of the pump's loop carries what happens around it: the calls the broker gets
  from others before the turn and while the pump waits, the readings of the clock, the state of
  the abort signal and what the response does with the frame. A pump or an executor that is
  still waiting when the given turns are over has the result \<open>None\<close>.
\<close>

section \<open>The executor\<close>

text \<open>A check as registered: its data properties and, if \<open>run\<close> is a function, what it does.\<close>

record check_run =
  settles_after :: "nat option"
  settles_with :: "jsv + jsv"

record check_item =
  ck_fields :: jsv
  ck_run :: "check_run option"

record valid_check =
  vc_id :: string
  vc_category :: string
  vc_mode :: string
  vc_fields :: jsv
  vc_run :: check_run

definition trimmed_or :: "jsv \<Rightarrow> string \<Rightarrow> string" where
  "trimmed_or v d = js_trim (js_String (js_or v (JStr d)))"

fun validate_checks :: "string list \<Rightarrow> check_item list \<Rightarrow> valid_check list res" where
  "validate_checks seen [] = Inr []"
| "validate_checks seen (item # items) =
     (let ident = trimmed_or (getp (ck_fields item) ''id'') [];
          category = trimmed_or (getp (ck_fields item) ''category'') ''operational-evidence'';
          mode = trimmed_or (getp (ck_fields item) ''executionMode'') ''evidence-validation''
      in case ck_run item of
           None \<Rightarrow> Inl (PlainError (''Invalid or duplicate status executor: '' @ (if ident = [] then ''missing'' else ident) @ ''.''))
         | Some run \<Rightarrow>
             if ident = [] \<or> ident \<in> set seen
             then Inl (PlainError (''Invalid or duplicate status executor: '' @ (if ident = [] then ''missing'' else ident) @ ''.''))
             else if mode \<notin> {''probe'', ''evidence-validation'', ''external-required''}
             then Inl (PlainError (''Invalid execution mode for '' @ ident @ ''.''))
             else bindR (validate_checks (ident # seen) items) (\<lambda>rest.
                  Inr (\<lparr>vc_id = ident, vc_category = category, vc_mode = mode,
                         vc_fields = ck_fields item, vc_run = run\<rparr> # rest)))"

definition validateCatalog :: "check_item list option \<Rightarrow> valid_check list res" where
  "validateCatalog checks = (case checks of
       None \<Rightarrow> Inl (PlainError ''Status catalog must be an array.'')
     | Some items \<Rightarrow> validate_checks [] items)"

text \<open>
  \<open>setTimeout\<close> truncates its delay and takes 1 ms for one outside 1 to \<open>2 ^ 31 - 1\<close>. The timer
  of \<open>withTimeout\<close> starts before the check runs, so on a tie the timeout comes first.
\<close>

fun timer_delay :: "jnum \<Rightarrow> nat" where
  "timer_delay (Dec m k) = (let d = m div 10 ^ k in if 1 \<le> d \<and> d \<le> 2147483647 then nat d else 1)"
| "timer_delay _ = 1"

definition timeout_of :: "jsv \<Rightarrow> nat option" where
  "timeout_of v = (case v of JNum (Dec m k) \<Rightarrow> if m \<le> 0 then None else Some (timer_delay (Dec m k)) | _ \<Rightarrow> None)"

definition timeout_error :: jsv where
  "timeout_error = JObj [(''code'', JStr ''STATUS_TIMEOUT'')]"

definition withTimeout :: "check_run \<Rightarrow> jsv \<Rightarrow> (jsv + jsv) option" where
  "withTimeout run timeoutMs = (case (settles_after run, timeout_of timeoutMs) of
       (None, None) \<Rightarrow> None
     | (Some d, None) \<Rightarrow> Some (settles_with run)
     | (None, Some t) \<Rightarrow> Some (Inl timeout_error)
     | (Some d, Some t) \<Rightarrow> Some (if d < t then settles_with run else Inl timeout_error))"

record 's exec =
  ex_seq :: int
  ex_reads :: nat
  ex_events :: "jsv list"
  ex_results :: "jsv list"
  ex_sink :: 's

definition tick :: "(nat \<Rightarrow> int) \<Rightarrow> ('s exec, int) sx" where
  "tick clock = (\<lambda>x. (Inr (clock (ex_reads x)), x\<lparr>ex_reads := Suc (ex_reads x)\<rparr>))"

definition to_sink :: "('s, 'a) sx \<Rightarrow> ('s exec, 'a) sx" where
  "to_sink m = (\<lambda>x. case m (ex_sink x) of (r, s) \<Rightarrow> (r, x\<lparr>ex_sink := s\<rparr>))"

definition status_event :: "jsv \<Rightarrow> int \<Rightarrow> string \<Rightarrow> string \<Rightarrow> (string \<times> jsv) list \<Rightarrow> jsv" where
  "status_event runId n type timestamp details =
     JObj ([(''schemaVersion'', JInt 1), (''runId'', runId), (''sequence'', JInt n), (''type'', JStr type),
            (''timestamp'', JStr timestamp)] @ details)"

definition emit :: "(nat \<Rightarrow> int) \<Rightarrow> jsv \<Rightarrow> (jsv \<Rightarrow> ('s, unit) sx) \<Rightarrow> string \<Rightarrow> (string \<times> jsv) list \<Rightarrow> ('s exec, unit) sx" where
  "emit clock runId onEvent type details =
     bindS (modifyS (\<lambda>x. x\<lparr>ex_seq := ex_seq x + 1\<rparr>)) (\<lambda>_.
     bindS getS (\<lambda>x.
     bindS (tick clock) (\<lambda>t.
     bindS (liftS (ms_iso t)) (\<lambda>timestamp.
     (let ev = status_event runId (ex_seq x) type timestamp details in
      bindS (modifyS (\<lambda>x. x\<lparr>ex_events := ex_events x @ [ev]\<rparr>)) (\<lambda>_.
      to_sink (onEvent ev)))))))"

definition check_timeout :: "jsv \<Rightarrow> valid_check \<Rightarrow> jsv" where
  "check_timeout timeoutMs item = js_coalesce (getp (vc_fields item) ''timeoutMs'') timeoutMs"

definition failed_result :: "jsv \<Rightarrow> valid_check \<Rightarrow> jsv \<Rightarrow> jsv" where
  "failed_result timeoutMs item err =
     (let timed_out = (getp err ''code'' = JStr ''STATUS_TIMEOUT'') in
      JObj [(''id'', JStr (vc_id item)),
            (''title'', js_or (getp (vc_fields item) ''title'') (JStr (vc_id item))),
            (''category'', JStr (vc_category item)),
            (''source'', JStr ''Executor Stato''),
            (''required'', JBool (getp (vc_fields item) ''required'' \<noteq> JBool False)),
            (''status'', JStr ''failed''),
            (''detail'', JStr (if timed_out
               then ''Timeout executor dopo '' @ js_String (check_timeout timeoutMs item) @ '' ms.''
               else ''Il controllo ha generato un errore redatto.'')),
            (''nextAction'', JStr ''Controlla il report executor e correggi il controllo prima di rilanciarlo.''),
            (''errorCode'', js_or (getp err ''code'') (JStr ''STATUS_EXECUTOR_ERROR''))])"

definition passed_result :: "valid_check \<Rightarrow> jsv \<Rightarrow> jsv" where
  "passed_result item r =
     set_prop ''category'' (js_or (getp r ''category'') (JStr (vc_category item)))
       (set_prop ''id'' (js_or (getp r ''id'') (JStr (vc_id item))) (JObj (spread r)))"

definition check_details :: "valid_check \<Rightarrow> (string \<times> jsv) list" where
  "check_details item = [(''checkId'', JStr (vc_id item)), (''category'', JStr (vc_category item)),
     (''executionMode'', JStr (vc_mode item))]"

text \<open>One check: \<open>False\<close> if it never settles.\<close>

definition run_check :: "(nat \<Rightarrow> int) \<Rightarrow> jsv \<Rightarrow> (jsv \<Rightarrow> ('s, unit) sx) \<Rightarrow> jsv \<Rightarrow> valid_check \<Rightarrow> ('s exec, bool) sx" where
  "run_check clock runId onEvent timeoutMs item =
     bindS (emit clock runId onEvent ''check-started'' (check_details item)) (\<lambda>_.
     bindS (tick clock) (\<lambda>started.
     case withTimeout (vc_run item) (check_timeout timeoutMs item) of
       None \<Rightarrow> returnS False
     | Some outcome \<Rightarrow>
        (let r = (case outcome of Inr v \<Rightarrow> passed_result item v | Inl err \<Rightarrow> failed_result timeoutMs item err) in
         bindS (tick clock) (\<lambda>finished.
         (let duration = JInt (max 0 (finished - started));
              result = set_prop ''durationMs'' duration (set_prop ''executionMode'' (JStr (vc_mode item)) r) in
          bindS (modifyS (\<lambda>x. x\<lparr>ex_results := ex_results x @ [result]\<rparr>)) (\<lambda>_.
          bindS (emit clock runId onEvent ''check-completed''
                   (check_details item @ [(''status'', getp result ''status''), (''durationMs'', duration)])) (\<lambda>_.
          returnS True)))))))"

fun run_checks :: "(nat \<Rightarrow> int) \<Rightarrow> jsv \<Rightarrow> (jsv \<Rightarrow> ('s, unit) sx) \<Rightarrow> jsv \<Rightarrow> valid_check list \<Rightarrow> ('s exec, bool) sx" where
  "run_checks clock runId onEvent timeoutMs [] = returnS True"
| "run_checks clock runId onEvent timeoutMs (item # items) =
     bindS (run_check clock runId onEvent timeoutMs item) (\<lambda>done.
     if done then run_checks clock runId onEvent timeoutMs items else returnS False)"

definition executeStatusChecks ::
  "(nat \<Rightarrow> int) \<Rightarrow> jsv \<Rightarrow> (jsv \<Rightarrow> ('s, unit) sx) \<Rightarrow> jsv \<Rightarrow> check_item list option \<Rightarrow> ('s exec, (jsv list \<times> jsv list) option) sx" where
  "executeStatusChecks clock runId onEvent timeoutMs checks =
     bindS (liftS (validateCatalog checks)) (\<lambda>catalog.
     bindS (emit clock runId onEvent ''run-started'' [(''total'', JInt (int (length catalog)))]) (\<lambda>_.
     bindS (run_checks clock runId onEvent (js_default timeoutMs (JInt 30000)) catalog) (\<lambda>done.
     if \<not> done then returnS None
     else bindS getS (\<lambda>x.
          bindS (emit clock runId onEvent ''run-completed'' [(''total'', JInt (int (length (ex_results x))))]) (\<lambda>_.
          bindS getS (\<lambda>x. returnS (Some (ex_results x, ex_events x))))))))"

definition start_exec :: "'s \<Rightarrow> 's exec" where
  "start_exec s = \<lparr>ex_seq = 0, ex_reads = 0, ex_events = [], ex_results = [], ex_sink = s\<rparr>"

section \<open>Frames and back-pressure\<close>

definition newline :: string where
  "newline = [CHR 0x0A]"

definition statusEventFrame :: "jsv \<Rightarrow> string res" where
  "statusEventFrame ev = bindR (boundedInteger_stream (getp ev ''sequence'') 1 max_safe) (\<lambda>n.
     Inr (''id: '' @ show_int n @ newline @ ''event: status'' @ newline @ ''data: '' @ json_stringify ev @ newline @ newline))"

definition keepalive :: string where
  "keepalive = '': keepalive'' @ newline @ newline"

text \<open>What first ends a wait for the response to drain.\<close>

datatype backpressure = Drained | ConnectionClosed | ResponseError | RequestAborted | BackpressureTimeout

record write_io =
  io_aborted :: bool
  io_destroyed :: bool
  io_ended :: bool
  io_flushed :: bool
  io_wait :: backpressure

record stream =
  st_broker :: broker
  st_frames :: "string list"

definition writeSseFrame :: "jsv \<Rightarrow> write_io \<Rightarrow> string \<Rightarrow> (stream, unit) sx" where
  "writeSseFrame timeoutMs io frame =
     bindS (liftS (boundedInteger_stream (js_default timeoutMs (JInt 5000)) 1 60000)) (\<lambda>_.
     if io_aborted io \<or> io_destroyed io \<or> io_ended io
     then throwS (CodedError ''STATUS_STREAM_CONNECTION_CLOSED'' 499)
     else bindS (modifyS (\<lambda>s. s\<lparr>st_frames := st_frames s @ [frame]\<rparr>)) (\<lambda>_.
       if io_flushed io then returnS ()
       else (case io_wait io of
           Drained \<Rightarrow> returnS ()
         | ConnectionClosed \<Rightarrow> throwS (CodedError ''STATUS_STREAM_CONNECTION_CLOSED'' 499)
         | ResponseError \<Rightarrow> throwS (CodedError ''STATUS_STREAM_WRITE_ERROR'' 503)
         | RequestAborted \<Rightarrow> throwS (CodedError ''STATUS_STREAM_ABORTED'' 499)
         | BackpressureTimeout \<Rightarrow> throwS (CodedError ''STATUS_STREAM_BACKPRESSURE_TIMEOUT'' 503))))"

section \<open>The pump\<close>

definition sequenceGap :: js_error where
  "sequenceGap = CodedError ''STATUS_STREAM_SEQUENCE_GAP'' 409"

datatype pumped = Continue int | Finished string int

text \<open>One event, replayed or live: skipped, refused as a gap, or written.\<close>

definition pump_event :: "jsv \<Rightarrow> write_io \<Rightarrow> jsv \<Rightarrow> int \<Rightarrow> (stream, pumped) sx" where
  "pump_event backpressureTimeoutMs io ev cursor =
     bindS (liftS (boundedInteger_stream (getp ev ''sequence'') 1 max_safe)) (\<lambda>n.
     if n \<le> cursor then returnS (Continue cursor)
     else if n \<noteq> cursor + 1 then throwS sequenceGap
     else bindS (liftS (statusEventFrame ev)) (\<lambda>frame.
          bindS (writeSseFrame backpressureTimeoutMs io frame) (\<lambda>_.
          if getp ev ''type'' = JStr ''run-completed'' then returnS (Finished ''run-completed'' n)
          else returnS (Continue n))))"

fun pump_replay :: "jsv \<Rightarrow> (jsv \<times> write_io) list \<Rightarrow> int \<Rightarrow> (stream, pumped) sx" where
  "pump_replay bp [] cursor = returnS (Continue cursor)"
| "pump_replay bp ((ev, io) # evs) cursor = bindS (pump_event bp io ev cursor) (\<lambda>p.
     case p of Finished reason n \<Rightarrow> returnS (Finished reason n) | Continue n \<Rightarrow> pump_replay bp evs n)"

record turn =
  tn_before :: "broker_op list"
  tn_aborted :: bool
  tn_now :: int
  tn_now_wait :: int
  tn_during :: "broker_op list"
  tn_io :: write_io

definition others :: "broker_op list \<Rightarrow> (stream, unit) sx" where
  "others ops = modifyS (\<lambda>s. s\<lparr>st_broker := fold run_op ops (st_broker s)\<rparr>)"

definition on_broker :: "(broker, 'a) sx \<Rightarrow> (stream, 'a) sx" where
  "on_broker m = (\<lambda>s. case m (st_broker s) of (r, b) \<Rightarrow> (r, s\<lparr>st_broker := b\<rparr>))"

text \<open>\<open>await subscription.next(...)\<close>: \<open>None\<close> while the promise is pending.\<close>

definition await_next :: "nat \<Rightarrow> int \<Rightarrow> broker_op list \<Rightarrow> (stream, wait_result option) sx" where
  "await_next sub waitMs during =
     bindS (on_broker (sub_next sub (JInt waitMs))) (\<lambda>r.
     case r of
       Settled item \<Rightarrow> returnS (Some item)
     | Pending w \<Rightarrow> bindS (others during) (\<lambda>_. bindS getS (\<lambda>s. returnS (map_of (settled (st_broker s)) w))))"

fun pump_live :: "nat \<Rightarrow> int \<Rightarrow> int \<Rightarrow> jsv \<Rightarrow> turn list \<Rightarrow> int \<Rightarrow> (stream, (string \<times> int) option) sx" where
  "pump_live sub heartbeat deadline bp [] cursor = returnS None"
| "pump_live sub heartbeat deadline bp (t # ts) cursor =
     bindS (others (tn_before t)) (\<lambda>_.
     if tn_aborted t then returnS (Some (''aborted'', cursor))
     else if \<not> tn_now t < deadline then returnS (Some (''deadline'', cursor))
     else bindS (await_next sub (max 1 (min heartbeat (deadline - tn_now_wait t))) (tn_during t)) (\<lambda>item.
       case item of
         None \<Rightarrow> returnS None
       | Some (ClosedItem reason err) \<Rightarrow>
           (case err of Some e \<Rightarrow> throwS e
            | None \<Rightarrow> returnS (Some (if reason = [] then ''closed'' else reason, cursor)))
       | Some TimeoutItem \<Rightarrow> bindS (writeSseFrame bp (tn_io t) keepalive) (\<lambda>_.
           pump_live sub heartbeat deadline bp ts cursor)
       | Some (EventItem ev) \<Rightarrow> bindS (pump_event bp (tn_io t) ev cursor) (\<lambda>p.
           case p of Finished reason n \<Rightarrow> returnS (Some (reason, n))
           | Continue n \<Rightarrow> pump_live sub heartbeat deadline bp ts n)))"

record pump_options =
  po_afterSequence :: jsv
  po_heartbeatMs :: jsv
  po_maxDurationMs :: jsv
  po_backpressureTimeoutMs :: jsv

text \<open>\<open>finally\<close> runs when the body has returned or thrown, not while it waits.\<close>

definition close_when_over :: "nat \<Rightarrow> bool \<Rightarrow> (stream, 'a option) sx \<Rightarrow> (stream, 'a option) sx" where
  "close_when_over sub aborted m = (\<lambda>s. case m s of
       (Inr None, t) \<Rightarrow> (Inr None, t)
     | (r, t) \<Rightarrow> (r, t\<lparr>st_broker := sub_close sub (if aborted then ''aborted'' else ''stream-finished'') None (st_broker t)\<rparr>))"

definition pumpStatusEventStream ::
  "pump_options \<Rightarrow> nat \<Rightarrow> (jsv \<times> write_io) list \<Rightarrow> int \<Rightarrow> turn list \<Rightarrow> bool \<Rightarrow> (stream, (string \<times> int) option) sx" where
  "pumpStatusEventStream opts sub replayEvents started turns aborted_at_end =
     bindS (liftS (boundedInteger_stream (js_default (po_heartbeatMs opts) (JInt 15000)) 1 300000)) (\<lambda>heartbeat.
     bindS (liftS (boundedInteger_stream (js_default (po_maxDurationMs opts) (JInt 360000)) 1 86400000)) (\<lambda>duration.
     bindS (liftS (boundedInteger_stream (js_default (po_afterSequence opts) (JInt 0)) 0 max_safe)) (\<lambda>cursor.
     (let bp = js_default (po_backpressureTimeoutMs opts) (JInt 5000) in
      close_when_over sub aborted_at_end
        (bindS (pump_replay bp replayEvents cursor) (\<lambda>p.
         case p of Finished reason n \<Rightarrow> returnS (Some (reason, n))
         | Continue n \<Rightarrow> pump_live sub heartbeat (started + duration) bp turns n))))))"

section \<open>The events of a run\<close>

definition feed :: "(jsv \<Rightarrow> ('s, unit) sx) \<Rightarrow> jsv list \<Rightarrow> 's \<Rightarrow> 's" where
  "feed onEvent evs s = fold (\<lambda>ev s. snd (onEvent ev s)) evs s"

lemma feed_append [simp]: "feed f (xs @ ys) s = feed f ys (feed f xs s)"
  by (simp add: feed_def)

text \<open>An event of the run \<open>runId\<close> with its number and type.\<close>

definition run_event :: "jsv \<Rightarrow> int \<Rightarrow> string \<Rightarrow> jsv \<Rightarrow> bool" where
  "run_event runId n type ev \<longleftrightarrow> (\<exists>timestamp details. ev = status_event runId n type timestamp details
     \<and> set (map fst details) \<inter> {''runId'', ''sequence'', ''type''} = {})"

lemma run_event_sel:
  "run_event runId n type ev \<Longrightarrow> getp ev ''runId'' = runId \<and> getp ev ''sequence'' = JInt n \<and> getp ev ''type'' = JStr type"
  by (auto simp: run_event_def status_event_def)

text \<open>The execution so far: the types of the emitted events, numbered from 1, all handed on.\<close>

definition emitted :: "jsv \<Rightarrow> (jsv \<Rightarrow> ('s, unit) sx) \<Rightarrow> 's \<Rightarrow> string list \<Rightarrow> 's exec \<Rightarrow> bool" where
  "emitted runId onEvent s0 types x \<longleftrightarrow>
     ex_seq x = int (length types)
   \<and> list_all2 (\<lambda>(n, type) ev. run_event runId n type ev) (zip [1..int (length types)] types) (ex_events x)
   \<and> ex_sink x = feed onEvent (ex_events x) s0"

lemma upto_snoc_int: "0 \<le> n \<Longrightarrow> [1..1 + n] = [1..n] @ [n + 1]" for n :: int
  by (simp add: upto_rec2)

lemma tick_Inr: "tick clock x = (Inr t, y) \<longleftrightarrow> t = clock (ex_reads x) \<and> y = x\<lparr>ex_reads := Suc (ex_reads x)\<rparr>"
  by (auto simp: tick_def)

lemma to_sink_iff: "to_sink m x = (r, y) \<longleftrightarrow> fst (m (ex_sink x)) = r \<and> y = x\<lparr>ex_sink := snd (m (ex_sink x))\<rparr>"
  by (auto simp: to_sink_def split: prod.splits)

lemma emit_emitted:
  assumes "emit clock runId onEvent type details x = (Inr u, y)" and "emitted runId onEvent s0 types x"
    and "set (map fst details) \<inter> {''runId'', ''sequence'', ''type''} = {}"
  shows "emitted runId onEvent s0 (types @ [type]) y \<and> ex_results y = ex_results x"
proof -
  from assms(1) obtain stamp where
      y: "y = x\<lparr>ex_seq := ex_seq x + 1, ex_reads := Suc (ex_reads x),
                ex_events := ex_events x @ [status_event runId (ex_seq x + 1) type stamp details],
                ex_sink := snd (onEvent (status_event runId (ex_seq x + 1) type stamp details) (ex_sink x))\<rparr>"
    by (auto simp: emit_def res_simps tick_Inr to_sink_iff Let_def)
  let ?ev = "status_event runId (ex_seq x + 1) type stamp details"
  have "run_event runId (ex_seq x + 1) type ?ev" using assms(3) by (auto simp: run_event_def)
  with assms(2) show ?thesis
    by (auto simp: y emitted_def feed_def upto_snoc_int zip_append list_all2_appendI)
qed

lemma emitted_reads [simp]: "emitted runId f s0 types (x\<lparr>ex_reads := n\<rparr>) = emitted runId f s0 types x"
  and emitted_results [simp]: "emitted runId f s0 types (x\<lparr>ex_results := rs\<rparr>) = emitted runId f s0 types x"
  by (simp_all add: emitted_def)

lemma check_details_keys: "set (map fst (check_details item)) \<inter> {''runId'', ''sequence'', ''type''} = {}"
  by (simp add: check_details_def)

definition check_types :: "string list" where
  "check_types = [''check-started'', ''check-completed'']"

lemma run_check_emitted:
  assumes "run_check clock runId f tmo item x = (Inr True, y)" and "emitted runId f s0 types x"
  shows "emitted runId f s0 (types @ check_types) y \<and> length (ex_results y) = Suc (length (ex_results x))"
proof -
  from assms(1) obtain u x1 x2 v details where
      1: "emit clock runId f ''check-started'' (check_details item) x = (Inr u, x1)" and
      2: "\<exists>n rs. x2 = x1\<lparr>ex_reads := n, ex_results := ex_results x1 @ [rs]\<rparr>" and
      3: "emit clock runId f ''check-completed'' (check_details item @ [(''status'', fst details), (''durationMs'', snd details)]) x2 = (Inr v, y)"
    by (fastforce simp: run_check_def res_simps tick_Inr Let_def split: option.splits)
  have e1: "emitted runId f s0 (types @ [''check-started'']) x1" "ex_results x1 = ex_results x"
    using emit_emitted [OF 1 assms(2) check_details_keys] by simp_all
  from 2 e1 have "emitted runId f s0 (types @ [''check-started'']) x2" "length (ex_results x2) = Suc (length (ex_results x))" by auto
  with emit_emitted [OF 3 this(1)] show ?thesis by (simp add: check_details_def check_types_def)
qed

lemma run_checks_emitted:
  assumes "run_checks clock runId f tmo items x = (Inr True, y)" and "emitted runId f s0 types x"
  shows "emitted runId f s0 (types @ concat (replicate (length items) check_types)) y
    \<and> length (ex_results y) = length (ex_results x) + length items"
  using assms
proof (induction items arbitrary: x types)
  case (Cons item items)
  from Cons.prems(1) obtain x1 where 1: "run_check clock runId f tmo item x = (Inr True, x1)"
      "run_checks clock runId f tmo items x1 = (Inr True, y)"
    by (auto simp: res_simps split: if_splits)
  from Cons.IH [OF 1(2) conjunct1 [OF run_check_emitted [OF 1(1) Cons.prems(2)]]]
    run_check_emitted [OF 1(1) Cons.prems(2)]
  show ?case by simp
qed (simp add: res_simps)

definition run_types :: "nat \<Rightarrow> string list" where
  "run_types n = ''run-started'' # concat (replicate n check_types) @ [''run-completed'']"

lemma execute_emitted:
  assumes run: "executeStatusChecks clock runId f tmo checks (start_exec s0) = (Inr (Some (results, events)), x)"
  shows "\<exists>catalog. validateCatalog checks = Inr catalog \<and> length results = length catalog \<and> events = ex_events x
    \<and> emitted runId f s0 (run_types (length catalog)) x"
proof -
  from run obtain catalog u x1 x2 v where cat: "validateCatalog checks = Inr catalog" and
      1: "emit clock runId f ''run-started'' [(''total'', JInt (int (length catalog)))] (start_exec s0) = (Inr u, x1)" and
      2: "run_checks clock runId f (js_default tmo (JInt 30000)) catalog x1 = (Inr True, x2)" and
      3: "emit clock runId f ''run-completed'' [(''total'', JInt (int (length (ex_results x2))))] x2 = (Inr v, x)" and
      res: "results = ex_results x" "events = ex_events x"
    by (auto simp: executeStatusChecks_def res_simps split: if_splits) metis
  have 0: "emitted runId f s0 [] (start_exec s0)" by (simp add: emitted_def start_exec_def feed_def)
  have e1: "emitted runId f s0 [''run-started''] x1" "ex_results x1 = []"
    using emit_emitted [OF 1 0] by (simp_all add: start_exec_def)
  have e2: "emitted runId f s0 ([''run-started''] @ concat (replicate (length catalog) check_types)) x2"
      "length (ex_results x2) = length catalog"
    using run_checks_emitted [OF 2 e1(1)] e1(2) by simp_all
  from emit_emitted [OF 3 e2(1)] e2(2) cat res show ?thesis by (simp add: run_types_def)
qed

lemma length_run_types: "length (run_types n) = 2 * n + 2"
  by (simp add: run_types_def check_types_def length_concat sum_list_replicate)

text \<open>
  A status run that returns has emitted exactly the events \<open>run-started\<close>, then
  \<open>check-started\<close> and \<open>check-completed\<close> for each check of the catalogue, then
  \<open>run-completed\<close>, numbered 1, 2, 3 and so on without a gap, has handed each to the listener
  in that order, and has one result per check.
\<close>

theorem executor_events_numbered:
  assumes "executeStatusChecks clock runId onEvent timeoutMs checks (start_exec s0)
    = (Inr (Some (results, events)), x)"
  shows "\<exists>catalog. validateCatalog checks = Inr catalog \<and> length results = length catalog
    \<and> map (\<lambda>ev. getp ev ''type'') events = map JStr (run_types (length catalog))
    \<and> map (\<lambda>ev. getp ev ''sequence'') events = map JInt [1..2 * int (length catalog) + 2]
    \<and> (\<forall>ev \<in> set events. getp ev ''runId'' = runId)
    \<and> ex_sink x = feed onEvent events s0"
proof -
  from execute_emitted [OF assms] obtain catalog where cat: "validateCatalog checks = Inr catalog"
      "length results = length catalog" "events = ex_events x"
    and em: "emitted runId onEvent s0 (run_types (length catalog)) x"
    by blast
  let ?types = "run_types (length catalog)" and ?nums = "[1..2 * int (length catalog) + 2]"
  have len: "length ?nums = length ?types" by (simp add: length_run_types)
  have all: "list_all2 (\<lambda>(n, type) ev. run_event runId n type ev) (zip ?nums ?types) events"
    using em cat(3) by (simp add: emitted_def length_run_types add.commute)
  then have len': "length events = length ?types" using len by (auto dest: list_all2_lengthD)
  have at: "run_event runId (?nums ! k) (?types ! k) (events ! k)" if "k < length events" for k
    using all that len len' by (auto simp: list_all2_conv_all_nth)
  have "map (\<lambda>ev. getp ev ''type'') events = map JStr ?types"
    using at run_event_sel len' by (intro nth_equalityI) (simp, fastforce)
  moreover have "map (\<lambda>ev. getp ev ''sequence'') events = map JInt ?nums"
    using at run_event_sel len len' by (intro nth_equalityI) (simp, fastforce)
  moreover have "\<forall>ev \<in> set events. getp ev ''runId'' = runId"
    using at run_event_sel by (metis in_set_conv_nth)
  ultimately show ?thesis using cat em by (auto simp: emitted_def)
qed

definition sample_checks :: "check_item list" where
  "sample_checks = [\<lparr>ck_fields = JObj [(''id'', JStr ''disk'')],
     ck_run = Some \<lparr>settles_after = Some 5, settles_with = Inr (JObj [(''status'', JStr ''passed'')])\<rparr>\<rparr>]"

text \<open>
  A listener that accepts the run's events never stops the executor, and a check that settles
  or has a positive timeout never blocks it.
\<close>

definition accepts :: "(jsv \<Rightarrow> ('s, unit) sx) \<Rightarrow> jsv \<Rightarrow> bool" where
  "accepts onEvent runId \<longleftrightarrow> (\<forall>n type stamp details s. 1 \<le> n \<longrightarrow> n \<le> max_safe \<longrightarrow>
     fst (onEvent (status_event runId n type stamp details) s) = Inr ())"

definition clock_ok :: "(nat \<Rightarrow> int) \<Rightarrow> bool" where
  "clock_ok clock \<longleftrightarrow> (\<forall>n. \<bar>clock n\<bar> \<le> 8640000000000000)"

lemma emit_returns:
  assumes "accepts f runId" and "clock_ok clock" and "0 \<le> ex_seq x" and "ex_seq x + 1 \<le> max_safe"
  shows "\<exists>y. emit clock runId f type details x = (Inr (), y) \<and> ex_seq y = ex_seq x + 1"
proof -
  let ?ev = "status_event runId (ex_seq x + 1) type (to_iso (clock (ex_reads x))) details"
  have "fst (f ?ev (ex_sink x)) = Inr ()" using assms by (simp add: accepts_def)
  moreover have "ms_iso (clock (ex_reads x)) = Inr (to_iso (clock (ex_reads x)))"
    using assms(2) by (simp add: ms_iso_def clock_ok_def)
  ultimately show ?thesis
    by (cases "f ?ev (ex_sink x)") (simp add: emit_def sx_defs tick_def to_sink_def Let_def)
qed

lemma bind_tick: "bindS (tick clock) g x = g (clock (ex_reads x)) (x\<lparr>ex_reads := Suc (ex_reads x)\<rparr>)"
  by (simp add: bindS_def tick_def)

lemma bind_modify: "bindS (modifyS h) g x = g () (h x)"
  by (simp add: bindS_def modifyS_def)

lemma then_return: "\<exists>y. m x = (Inr u, y) \<and> P y \<Longrightarrow> \<exists>y. bindS m (\<lambda>_. returnS v) x = (Inr v, y) \<and> P y"
  by (auto simp: bindS_def returnS_def)

lemma run_check_returns:
  assumes "accepts f runId" and "clock_ok clock" and "0 \<le> ex_seq x" and "ex_seq x + 2 \<le> max_safe"
    and "withTimeout (vc_run item) (check_timeout tmo item) \<noteq> None"
  shows "\<exists>y. run_check clock runId f tmo item x = (Inr True, y) \<and> ex_seq y = ex_seq x + 2"
proof -
  obtain out where out: "withTimeout (vc_run item) (check_timeout tmo item) = Some out" using assms(5) by blast
  obtain x1 where 1: "emit clock runId f ''check-started'' (check_details item) x = (Inr (), x1)" "ex_seq x1 = ex_seq x + 1"
    using emit_returns [OF assms(1-3)] assms(4) by force
  have "\<exists>y. emit clock runId f ''check-completed'' d (x1\<lparr>ex_reads := m, ex_results := rs\<rparr>) = (Inr (), y) \<and> ex_seq y = ex_seq x + 2"
    for d m rs
    using emit_returns [OF assms(1,2), of "x1\<lparr>ex_reads := m, ex_results := rs\<rparr>" "''check-completed''" d] 1(2) assms(3,4) by auto
  note completes = this
  show ?thesis
    using 1 out by (simp add: run_check_def bindS_def [of "emit clock runId f ''check-started'' (check_details item)"]
        Let_def bind_tick bind_modify) (rule then_return, rule completes)
qed

lemma run_checks_returns:
  assumes "accepts f runId" and "clock_ok clock" and "0 \<le> ex_seq x" and "ex_seq x + 2 * int (length items) \<le> max_safe"
    and "\<forall>item \<in> set items. withTimeout (vc_run item) (check_timeout tmo item) \<noteq> None"
  shows "\<exists>y. run_checks clock runId f tmo items x = (Inr True, y) \<and> ex_seq y = ex_seq x + 2 * int (length items)"
  using assms(3-5)
proof (induction items arbitrary: x)
  case (Cons item items)
  obtain x1 where 1: "run_check clock runId f tmo item x = (Inr True, x1)" "ex_seq x1 = ex_seq x + 2"
    using run_check_returns [OF assms(1,2) Cons.prems(1)] Cons.prems by fastforce
  obtain y where "run_checks clock runId f tmo items x1 = (Inr True, y)" "ex_seq y = ex_seq x1 + 2 * int (length items)"
    using Cons.IH [of x1] Cons.prems 1(2) by auto
  with 1 show ?case by (auto simp: bindS_def)
qed (simp add: returnS_def)

lemma execute_returns:
  assumes "accepts f runId" and "clock_ok clock" and cat: "validateCatalog checks = Inr catalog"
    and "2 * int (length catalog) + 2 \<le> max_safe"
    and "\<forall>item \<in> set catalog. withTimeout (vc_run item) (check_timeout (js_default tmo (JInt 30000)) item) \<noteq> None"
  shows "\<exists>results events x. executeStatusChecks clock runId f tmo checks (start_exec s0) = (Inr (Some (results, events)), x)"
proof -
  obtain x1 where 1: "emit clock runId f ''run-started'' [(''total'', JInt (int (length catalog)))] (start_exec s0) = (Inr (), x1)"
      "ex_seq x1 = 1"
    using emit_returns [OF assms(1,2), of "start_exec s0"] by (force simp: start_exec_def)
  obtain x2 where 2: "run_checks clock runId f (js_default tmo (JInt 30000)) catalog x1 = (Inr True, x2)"
      "ex_seq x2 = 1 + 2 * int (length catalog)"
    using run_checks_returns [OF assms(1,2), of x1 catalog] assms(4,5) 1(2) by force
  obtain x3 where 3: "emit clock runId f ''run-completed'' [(''total'', JInt (int (length (ex_results x2))))] x2 = (Inr (), x3)"
    using emit_returns [OF assms(1,2), of x2] assms(4) 2(2) by force
  show ?thesis
    using 1 2 3 cat by (simp add: executeStatusChecks_def bindS_def liftS_def getS_def returnS_def)
qed

lemma executor_events_numbered_example:
  "\<exists>results events x. executeStatusChecks (\<lambda>n. 0) (JStr ''r'') (\<lambda>ev. modifyS Suc) JUndef (Some sample_checks) (start_exec 0)
      = (Inr (Some (results, events)), x)
    \<and> map (\<lambda>ev. getp ev ''sequence'') events = map JInt [1, 2, 3, 4] \<and> length results = 1"
proof -
  have cat: "\<exists>c. validateCatalog (Some sample_checks) = Inr [c] \<and> vc_run c = the (ck_run (hd sample_checks))"
    by (simp add: validateCatalog_def sample_checks_def trimmed_or_def js_or_def js_trim_no_space is_js_space_code Let_def)
  then obtain c where c: "validateCatalog (Some sample_checks) = Inr [c]" "settles_after (vc_run c) = Some 5"
    by (auto simp: sample_checks_def)
  have "accepts (\<lambda>ev. modifyS Suc) (JStr ''r'')" by (simp add: accepts_def modifyS_def)
  moreover have "withTimeout (vc_run c) t \<noteq> None" for t
    using c(2) by (simp add: withTimeout_def split: option.split)
  ultimately obtain results events x where
      run: "executeStatusChecks (\<lambda>n. 0) (JStr ''r'') (\<lambda>ev. modifyS Suc) JUndef (Some sample_checks) (start_exec 0)
        = (Inr (Some (results, events)), x)"
    using execute_returns [of "\<lambda>ev. modifyS Suc" "JStr ''r''" "\<lambda>n. 0" "Some sample_checks" "[c]" JUndef 0] c(1)
    by (auto simp: clock_ok_def)
  have "[1..4] = [1, 2, 3, 4 :: int]" by code_simp
  with executor_events_numbered [OF run] c(1) run show ?thesis by auto
qed

section \<open>From the executor to the queue of a subscription\<close>

definition publish_event :: "jsv \<Rightarrow> (broker, unit) sx" where
  "publish_event ev = bindS (publish ev) (\<lambda>_. returnS ())"

lemma snd_publish_event [simp]: "snd (publish_event ev b) = snd (publish ev b)"
  by (simp add: publish_event_def sx_defs split: prod.split sum.split)

lemma boundedInteger_JInt: "lo \<le> n \<Longrightarrow> n \<le> hi \<Longrightarrow> \<bar>n\<bar> \<le> max_safe \<Longrightarrow> boundedInteger_stream (JInt n) lo hi = Inr n"
  by (simp add: boundedInteger_stream_def js_Number_def)

lemma status_event_sel [simp]:
  "getp (status_event runId n type stamp details) ''runId'' = runId"
  "getp (status_event runId n type stamp details) ''sequence'' = JInt n"
  "getp (status_event runId n type stamp details) ''type'' = JStr type"
  by (simp_all add: status_event_def)

lemma publish_accepts: "requiredKey (JStr r) = Inr k \<Longrightarrow> accepts publish_event (JStr r)"
  unfolding accepts_def publish_event_def
  by (auto simp: publish_def sx_defs boundedInteger_JInt Let_def split: prod.split)

text \<open>The broker passes a run's event on as it is.\<close>

lemma safe_event_status_event: "safe_event (status_event (JStr r) n type stamp details) r n = status_event (JStr r) n type stamp details"
  by (simp add: safe_event_def status_event_def)

definition event_bytes :: "jsv \<Rightarrow> int" where
  "event_bytes ev = byte_length (json_stringify ev)"

text \<open>The events of run \<open>r\<close> numbered from \<open>h + 1\<close> on.\<close>

fun numbered :: "string \<Rightarrow> int \<Rightarrow> jsv list \<Rightarrow> bool" where
  "numbered r h [] = True"
| "numbered r h (ev # evs) = ((\<exists>type stamp details. ev = status_event (JStr r) (h + 1) type stamp details) \<and> numbered r (h + 1) evs)"

definition enqueued :: "jsv list \<Rightarrow> subscription \<Rightarrow> subscription" where
  "enqueued evs s = s\<lparr>highWatermark := highWatermark s + int (length evs),
     sub_queue := sub_queue s @ map (\<lambda>ev. (ev, event_bytes ev)) evs,
     queuedBytes := queuedBytes s + (\<Sum>ev \<leftarrow> evs. event_bytes ev)\<rparr>"

lemma event_bytes_nonneg: "0 \<le> event_bytes ev"
  by (simp add: event_bytes_def byte_length_nonneg)

lemma publish_enqueues:
  assumes b: "broker_inv b" and i: "i \<in> set (subscribers b)" and s: "sub_at b i = s"
    and r: "sub_runId s = r" "requiredKey (JStr r) = Inr r" and w: "waiter s = None"
    and ev: "ev = status_event (JStr r) (highWatermark s + 1) type stamp details"
    and h: "0 \<le> highWatermark s" "highWatermark s + 1 \<le> max_safe"
    and room: "int (length (sub_queue s)) < sub_maxQueueEvents s" "queuedBytes s + event_bytes ev \<le> sub_maxQueueBytes s"
  shows "i \<in> set (subscribers (snd (publish ev b))) \<and> sub_at (snd (publish ev b)) i = enqueued [ev] s"
proof -
  have open_b: "\<not> broker_closed b" using b i by (auto simp: broker_inv_def registry_ok_def)
  have safe: "safe_event ev r (highWatermark s + 1) = ev" by (simp add: ev safe_event_status_event)
  have seq: "event_sequence ev = highWatermark s + 1" using h by (simp add: ev event_sequence_def js_Number_def)
  have "hub_open (hub_publish ev (hub_of b)) i = hub_push ev (event_bytes ev) s"
    using open_b i r h s safe
    by (simp add: hub_publish_def event_bytes_def ev boundedInteger_JInt)
  also have "\<dots> = Some (enqueued [ev] s)"
    using w room by (simp add: hub_push_def seq enqueued_def)
  finally have "hub_open (hub_of (snd (publish ev b))) i = Some (enqueued [ev] s)"
    by (simp only: hub_of_publish [OF b])
  then show ?thesis by (simp split: if_splits)
qed

lemma feed_enqueues:
  assumes "broker_inv b" and "i \<in> set (subscribers b)" and "sub_at b i = s"
    and "sub_runId s = r" and "requiredKey (JStr r) = Inr r" and "waiter s = None"
    and "numbered r (highWatermark s) evs"
    and "0 \<le> highWatermark s" and "highWatermark s + int (length evs) \<le> max_safe"
    and "int (length (sub_queue s) + length evs) \<le> sub_maxQueueEvents s"
    and "queuedBytes s + (\<Sum>ev \<leftarrow> evs. event_bytes ev) \<le> sub_maxQueueBytes s"
  shows "broker_inv (feed publish_event evs b) \<and> i \<in> set (subscribers (feed publish_event evs b))
    \<and> sub_at (feed publish_event evs b) i = enqueued evs s"
  using assms
proof (induction evs arbitrary: b s)
  case Nil
  then show ?case by (simp add: feed_def enqueued_def)
next
  case (Cons ev evs)
  let ?b = "snd (publish ev b)"
  obtain type stamp details where ev: "ev = status_event (JStr r) (highWatermark s + 1) type stamp details"
    using Cons.prems(7) by auto
  have "0 \<le> (\<Sum>e \<leftarrow> evs. event_bytes e)" by (rule sum_list_nonneg) (auto simp: event_bytes_nonneg)
  then have step: "i \<in> set (subscribers ?b)" "sub_at ?b i = enqueued [ev] s"
    using publish_enqueues [OF Cons.prems(1-6) ev] Cons.prems(8-11) by auto
  have inv: "broker_inv ?b" using Cons.prems(1) by (rule publish_inv)
  have "broker_inv (feed publish_event evs ?b) \<and> i \<in> set (subscribers (feed publish_event evs ?b))
      \<and> sub_at (feed publish_event evs ?b) i = enqueued evs (enqueued [ev] s)"
    using Cons.prems by (intro Cons.IH [OF inv step]) (auto simp: enqueued_def)
  moreover have "enqueued evs (enqueued [ev] s) = enqueued (ev # evs) s" by (simp add: enqueued_def add.assoc)
  ultimately show ?case by (simp add: feed_def)
qed

lemma emitted_numbered:
  assumes "list_all2 (\<lambda>(n, type) ev. run_event (JStr r) n type ev) (zip [h + 1..h + int (length types)] types) evs"
  shows "numbered r h evs \<and> map (\<lambda>ev. getp ev ''type'') evs = map JStr types"
  using assms
proof (induction types arbitrary: h evs)
  case (Cons type types)
  have "[h + 1..h + int (length (type # types))] = (h + 1) # [(h + 1) + 1..(h + 1) + int (length types)]"
    by (subst upto_rec1) (simp_all add: algebra_simps)
  with Cons.prems obtain ev evs' where evs: "evs = ev # evs'" "run_event (JStr r) (h + 1) type ev"
      "list_all2 (\<lambda>(n, type) ev. run_event (JStr r) n type ev) (zip [(h + 1) + 1..(h + 1) + int (length types)] types) evs'"
    by (auto simp: list_all2_Cons1)
  from Cons.IH [OF evs(3)] evs(1,2) show ?case by (auto simp: run_event_def)
qed simp

section \<open>What the pump writes\<close>

definition frame_of :: "jsv \<Rightarrow> string" where
  "frame_of ev = ''id: '' @ show_int (event_sequence ev) @ newline @ ''event: status'' @ newline @ ''data: ''
     @ json_stringify ev @ newline @ newline"

lemma frame_not_keepalive [simp]: "frame_of ev \<noteq> keepalive"
  by (simp add: frame_of_def keepalive_def)

lemma boundedInteger_sequence: "boundedInteger_stream (getp ev ''sequence'') lo hi = Inr n \<Longrightarrow> event_sequence ev = n"
  by (auto simp: boundedInteger_stream_def event_sequence_def split: option.splits if_splits)

lemma statusEventFrame_Inr: "statusEventFrame ev = Inr f \<Longrightarrow> f = frame_of ev"
  by (auto simp: statusEventFrame_def frame_of_def res_simps dest: boundedInteger_sequence)

text \<open>The frames written so far are those of the events \<open>base + 1\<close> to \<open>c\<close>, and keep-alives.\<close>

definition wrote_upto :: "int \<Rightarrow> int \<Rightarrow> string list \<Rightarrow> bool" where
  "wrote_upto base c frames \<longleftrightarrow> base \<le> c \<and> (\<exists>evs. filter (\<lambda>f. f \<noteq> keepalive) frames = map frame_of evs
     \<and> map event_sequence evs = [base + 1..c])"

lemma wrote_event:
  assumes "wrote_upto base c frames" and "event_sequence ev = c + 1"
  shows "wrote_upto base (c + 1) (frames @ [frame_of ev])"
proof -
  obtain evs where "filter (\<lambda>f. f \<noteq> keepalive) frames = map frame_of evs" "map event_sequence evs = [base + 1..c]" "base \<le> c"
    using assms(1) by (auto simp: wrote_upto_def)
  with assms(2) show ?thesis unfolding wrote_upto_def by (intro conjI exI [of _ "evs @ [ev]"]) (auto simp: upto_rec2)
qed

lemma wrote_keepalive: "wrote_upto base c frames \<Longrightarrow> wrote_upto base c (frames @ [keepalive])"
  by (auto simp: wrote_upto_def)

lemma writeSseFrame_frames:
  "writeSseFrame bp io f s = (r, t) \<Longrightarrow> st_broker t = st_broker s \<and>
     (st_frames t = st_frames s @ [f] \<or> st_frames t = st_frames s \<and> (\<exists>e. r = Inl e))"
  by (auto simp: writeSseFrame_def sx_defs split: sum.splits if_splits backpressure.splits)

lemma pump_event_wrote:
  assumes run: "pump_event bp io ev c s = (r, t)" and w: "wrote_upto base c (st_frames s)"
  shows "(\<exists>n. wrote_upto base n (st_frames t) \<and> (\<forall>p. r = Inr p \<longrightarrow> p = Continue n \<or> (\<exists>reason. p = Finished reason n)))
    \<and> st_broker t = st_broker s"
proof (cases "boundedInteger_stream (getp ev ''sequence'') 1 max_safe")
  case (Inl e)
  with run w show ?thesis by (auto simp: pump_event_def sx_defs)
next
  case (Inr n)
  show ?thesis
  proof (cases "n = c + 1")
    case False
    with run w Inr show ?thesis by (auto simp: pump_event_def sx_defs split: if_splits)
  next
    case True
    have seq: "event_sequence ev = c + 1" using boundedInteger_sequence [OF Inr] True by simp
    have frame: "statusEventFrame ev = Inr (frame_of ev)"
      using Inr seq True by (simp add: statusEventFrame_def frame_of_def)
    obtain r1 t1 where wr: "writeSseFrame bp io (frame_of ev) s = (r1, t1)" by fastforce
    note io = writeSseFrame_frames [OF wr]
    have t: "t = t1 \<and> (r = Inr (Continue n) \<or> r = Inr (Finished ''run-completed'' n) \<or> (\<exists>e. r = Inl e))
        \<and> ((\<exists>e. r1 = Inl e) \<longrightarrow> (\<exists>e. r = Inl e))"
      using run Inr True frame wr
      by (cases r1) (auto simp: pump_event_def bindS_def liftS_def returnS_def split: if_splits)
    from io w wrote_event [OF w seq] t show ?thesis unfolding True by force
  qed
qed

lemma pump_replay_wrote:
  assumes "pump_replay bp evs c s = (r, t)" and "wrote_upto base c (st_frames s)"
  shows "\<exists>n. wrote_upto base n (st_frames t) \<and> (\<forall>p. r = Inr p \<longrightarrow> p = Continue n \<or> (\<exists>reason. p = Finished reason n))"
  using assms
proof (induction evs arbitrary: c s)
  case (Cons x evs)
  obtain ev io where x: "x = (ev, io)" by fastforce
  obtain r1 s1 where 1: "pump_event bp io ev c s = (r1, s1)" by fastforce
  from pump_event_wrote [OF 1 Cons.prems(2)] obtain n where n: "wrote_upto base n (st_frames s1)"
      "\<forall>p. r1 = Inr p \<longrightarrow> p = Continue n \<or> (\<exists>reason. p = Finished reason n)" by blast
  show ?case
  proof (cases "r1 = Inr (Continue n)")
    case True
    with Cons.prems(1) 1 x have "pump_replay bp evs n s1 = (r, t)" by (simp add: bindS_def)
    from Cons.IH [OF this n(1)] show ?thesis .
  next
    case False
    with Cons.prems(1) 1 x n have "t = s1 \<and> (\<forall>p. r = Inr p \<longrightarrow> (\<exists>reason. p = Finished reason n))"
      by (cases r1) (auto simp: bindS_def returnS_def)
    with n show ?thesis by blast
  qed
qed (auto simp: returnS_def)

lemma bindS_run: "m s = (Inr x, t) \<Longrightarrow> bindS m f s = f x t" "m s = (Inl e, t) \<Longrightarrow> bindS m f s = (Inl e, t)"
  by (simp_all add: bindS_def)

lemma bind_lift: "bindS (liftS (Inr x)) g = g x"
  by (simp add: bindS_def liftS_def)

lemma others_bind: "bindS (others ops) g s = g () (s\<lparr>st_broker := fold run_op ops (st_broker s)\<rparr>)"
  by (simp add: bindS_def others_def modifyS_def)

lemma await_frames: "await_next sub w ops s = (r, t) \<Longrightarrow> st_frames t = st_frames s"
  by (auto simp: await_next_def on_broker_def others_def sx_defs split: prod.splits sum.splits next_result.splits)

lemma pump_live_wrote:
  assumes "pump_live sub hb dl bp ts c s = (r, t)" and "wrote_upto base c (st_frames s)"
  shows "\<exists>n. wrote_upto base n (st_frames t) \<and> (\<forall>reason m. r = Inr (Some (reason, m)) \<longrightarrow> m = n)"
  using assms
proof (induction sub hb dl bp ts c arbitrary: s rule: pump_live.induct)
  case (1 sub hb dl bp c)
  then show ?case by (auto simp: returnS_def)
next
  case (2 sub hb dl bp tn ts c)
  define s1 where "s1 = s\<lparr>st_broker := fold run_op (tn_before tn) (st_broker s)\<rparr>"
  have f1: "st_frames s1 = st_frames s" by (simp add: s1_def)
  have w1: "wrote_upto base c (st_frames s1)" using "2.prems"(2) f1 by simp
  show ?case
  proof (cases "tn_aborted tn \<or> \<not> tn_now tn < dl")
    case True
    with "2.prems"(1) w1 show ?thesis
      by (auto simp: bindS_def others_def modifyS_def returnS_def s1_def split: if_splits)
  next
    case False
    then have run: "\<not> tn_aborted tn" "tn_now tn < dl" by simp_all
    obtain r2 s2 where aw: "await_next sub (max 1 (min hb (dl - tn_now_wait tn))) (tn_during tn) s1 = (r2, s2)" by fastforce
    have w2: "wrote_upto base c (st_frames s2)" using await_frames [OF aw] w1 by simp
    have cont: "pump_live sub hb dl bp (tn # ts) c s = (case r2 of Inl e \<Rightarrow> (Inl e, s2) | Inr item \<Rightarrow> (case item of
         None \<Rightarrow> returnS None
       | Some (ClosedItem reason err) \<Rightarrow>
           (case err of Some e \<Rightarrow> throwS e
            | None \<Rightarrow> returnS (Some (if reason = [] then ''closed'' else reason, c)))
       | Some TimeoutItem \<Rightarrow> bindS (writeSseFrame bp (tn_io tn) keepalive) (\<lambda>_.
           pump_live sub hb dl bp ts c)
       | Some (EventItem ev) \<Rightarrow> bindS (pump_event bp (tn_io tn) ev c) (\<lambda>p.
           case p of Finished reason n \<Rightarrow> returnS (Some (reason, n))
           | Continue n \<Rightarrow> pump_live sub hb dl bp ts n)) s2)"
      using False aw by (cases r2) (simp_all add: others_bind s1_def [symmetric] bindS_run)
    consider (over) "t = s2" "\<forall>reason m. r = Inr (Some (reason, m)) \<longrightarrow> m = c"
      | (tick) "r2 = Inr (Some TimeoutItem)"
      | (event) ev where "r2 = Inr (Some (EventItem ev))"
      using "2.prems"(1) unfolding cont
      by (auto simp: returnS_def throwS_def split: sum.splits option.splits wait_result.splits)
    then show ?thesis
    proof cases
      case over
      with w2 show ?thesis by blast
    next
      case tick
      obtain r3 s3 where wr: "writeSseFrame bp (tn_io tn) keepalive s2 = (r3, s3)" by fastforce
      have w3: "wrote_upto base c (st_frames s3)" using writeSseFrame_frames [OF wr] w2 wrote_keepalive by auto
      show ?thesis
      proof (cases r3)
        case (Inl e)
        with "2.prems"(1) tick wr w3 show ?thesis unfolding cont by (auto simp: bindS_def)
      next
        case (Inr u)
        with "2.prems"(1) tick wr have "pump_live sub hb dl bp ts c s3 = (r, t)" unfolding cont by (simp add: bindS_def)
        from "2.IH"(2) [OF _ _ this w3] run show ?thesis by blast
      qed
    next
      case (event ev)
      obtain r3 s3 where pe: "pump_event bp (tn_io tn) ev c s2 = (r3, s3)" by fastforce
      from pump_event_wrote [OF this w2] obtain n where n: "wrote_upto base n (st_frames s3)"
          "\<forall>p. r3 = Inr p \<longrightarrow> p = Continue n \<or> (\<exists>reason. p = Finished reason n)" by blast
      show ?thesis
      proof (cases "r3 = Inr (Continue n)")
        case True
        with "2.prems"(1) event pe have "pump_live sub hb dl bp ts n s3 = (r, t)" unfolding cont by (simp add: bindS_def)
        from "2.IH"(1) [OF _ _ this n(1)] run show ?thesis by blast
      next
        case False
        with "2.prems"(1) event pe n have "t = s3 \<and> (\<forall>reason m. r = Inr (Some (reason, m)) \<longrightarrow> m = n)" unfolding cont
          by (cases r3) (auto simp: bindS_def returnS_def)
        with n show ?thesis by blast
      qed
    qed
  qed
qed

text \<open>
  Whatever the clients of the broker, the clock and the connection do, the status frames
  the pump has written are those of the events directly after the client's cursor, one for
  each sequence number, in order and without a gap, and the last sequence number it returns is
  that of the last frame written.
\<close>

theorem pump_writes_without_gaps:
  assumes "pumpStatusEventStream opts sub replayEvents started turns aborted s = (r, t)"
    and "st_frames s = []" and "boundedInteger_stream (js_default (po_afterSequence opts) (JInt 0)) 0 max_safe = Inr cursor"
  shows "\<exists>evs n. filter (\<lambda>f. f \<noteq> keepalive) (st_frames t) = map frame_of evs
    \<and> map event_sequence evs = [cursor + 1..n] \<and> cursor \<le> n
    \<and> (\<forall>reason m. r = Inr (Some (reason, m)) \<longrightarrow> m = n)"
proof -
  have w0: "wrote_upto cursor cursor (st_frames s)" using assms(2) by (simp add: wrote_upto_def)
  have "\<exists>n. wrote_upto cursor n (st_frames t) \<and> (\<forall>reason m. r = Inr (Some (reason, m)) \<longrightarrow> m = n)"
  proof (cases "(\<exists>e. boundedInteger_stream (js_default (po_heartbeatMs opts) (JInt 15000)) 1 300000 = Inl e)
      \<or> (\<exists>e. boundedInteger_stream (js_default (po_maxDurationMs opts) (JInt 360000)) 1 86400000 = Inl e)")
    case True
    with assms(1) w0 show ?thesis by (auto simp: pumpStatusEventStream_def sx_defs split: sum.splits)
  next
    case False
    then obtain hb du where lims: "boundedInteger_stream (js_default (po_heartbeatMs opts) (JInt 15000)) 1 300000 = Inr hb"
        "boundedInteger_stream (js_default (po_maxDurationMs opts) (JInt 360000)) 1 86400000 = Inr du"
      by (meson sum.exhaust)
    define bp where "bp = js_default (po_backpressureTimeoutMs opts) (JInt 5000)"
    define body where "body = bindS (pump_replay bp replayEvents cursor) (\<lambda>p.
         case p of Finished reason n \<Rightarrow> returnS (Some (reason, n))
         | Continue n \<Rightarrow> pump_live sub hb (started + du) bp turns n)"
    obtain r1 s1 where rp: "pump_replay bp replayEvents cursor s = (r1, s1)" by fastforce
    obtain n1 where n1: "wrote_upto cursor n1 (st_frames s1)"
        "\<forall>p. r1 = Inr p \<longrightarrow> p = Continue n1 \<or> (\<exists>reason. p = Finished reason n1)"
      using pump_replay_wrote [OF rp w0] by blast
    obtain r2 s2 where bd: "body s = (r2, s2)" by fastforce
    have wb: "\<exists>n. wrote_upto cursor n (st_frames s2) \<and> (\<forall>reason m. r2 = Inr (Some (reason, m)) \<longrightarrow> m = n)"
    proof (cases "r1 = Inr (Continue n1)")
      case True
      with bd rp have "pump_live sub hb (started + du) bp turns n1 s1 = (r2, s2)" by (simp add: body_def bindS_run)
      from pump_live_wrote [OF this n1(1)] show ?thesis .
    next
      case False
      with bd rp n1 have "s2 = s1 \<and> (\<forall>reason m. r2 = Inr (Some (reason, m)) \<longrightarrow> m = n1)"
        by (cases r1) (auto simp: body_def bindS_def returnS_def)
      with n1 show ?thesis by blast
    qed
    have "pumpStatusEventStream opts sub replayEvents started turns aborted s = close_when_over sub aborted body s"
      by (simp add: pumpStatusEventStream_def bind_lift lims assms(3) body_def Let_def bp_def [symmetric])
    with assms(1) bd have "r = r2 \<and> st_frames t = st_frames s2"
      by (auto simp: close_when_over_def split: sum.splits option.splits)
    with wb show ?thesis by simp
  qed
  then show ?thesis by (auto simp: wrote_upto_def)
qed

definition sample_io :: write_io where
  "sample_io = \<lparr>io_aborted = False, io_destroyed = False, io_ended = False, io_flushed = True, io_wait = Drained\<rparr>"

definition sample_options :: pump_options where
  "sample_options = \<lparr>po_afterSequence = JUndef, po_heartbeatMs = JUndef, po_maxDurationMs = JUndef,
     po_backpressureTimeoutMs = JUndef\<rparr>"

definition sample_stream :: stream where
  "sample_stream = \<lparr>st_broker = fold run_op [Subscribe (JStr ''a'') (JStr ''r'') JUndef]
     (projr (new_broker JUndef JUndef JUndef JUndef JUndef)), st_frames = []\<rparr>"

lemma pump_writes_without_gaps_example:
  "\<exists>evs. filter (\<lambda>f. f \<noteq> keepalive) (st_frames (snd (pumpStatusEventStream sample_options 0
        [(sample_event 1, sample_io), (sample_event 2, sample_io)] 0 [] False sample_stream))) = map frame_of evs
     \<and> map event_sequence evs = [1, 2]"
proof -
  let ?run = "pumpStatusEventStream sample_options 0 [(sample_event 1, sample_io), (sample_event 2, sample_io)] 0 [] False sample_stream"
  have frames: "length (filter (\<lambda>f. f \<noteq> keepalive) (st_frames (snd ?run))) = 2" by code_simp
  have "st_frames sample_stream = []" by (simp add: sample_stream_def)
  moreover have "boundedInteger_stream (js_default (po_afterSequence sample_options) (JInt 0)) 0 max_safe = Inr 0" by code_simp
  ultimately obtain evs n where evs: "filter (\<lambda>f. f \<noteq> keepalive) (st_frames (snd ?run)) = map frame_of evs"
      "map event_sequence evs = [0 + 1..n]" "0 \<le> n"
    using pump_writes_without_gaps [OF prod.collapse [symmetric]] by blast
  from frames evs have "length [1..n] = 2" by (metis add_0 length_map)
  then have "n = 2" by simp
  moreover have "[1..2] = [1, 2 :: int]" by code_simp
  ultimately show ?thesis using evs by auto
qed

section \<open>A finished run reaches its client\<close>

definition healthy :: "int \<Rightarrow> turn \<Rightarrow> bool" where
  "healthy deadline t \<longleftrightarrow> tn_before t = [] \<and> \<not> tn_aborted t \<and> tn_now t < deadline
     \<and> \<not> io_aborted (tn_io t) \<and> \<not> io_destroyed (tn_io t) \<and> \<not> io_ended (tn_io t)
     \<and> (io_flushed (tn_io t) \<or> io_wait (tn_io t) = Drained)"

lemma pump_event_writes:
  assumes "boundedInteger_stream (js_default bp (JInt 5000)) 1 60000 = Inr w" and "healthy dl t"
    and "ev = status_event (JStr r) (c + 1) type stamp details" and "0 \<le> c" and "c + 1 \<le> max_safe"
  shows "pump_event bp (tn_io t) ev c s =
    (Inr (if type = ''run-completed'' then Finished ''run-completed'' (c + 1) else Continue (c + 1)),
     s\<lparr>st_frames := st_frames s @ [frame_of ev]\<rparr>)"
proof -
  have b: "boundedInteger_stream (getp ev ''sequence'') 1 max_safe = Inr (c + 1)"
    using assms(3-5) by (simp add: boundedInteger_JInt)
  have "statusEventFrame ev = Inr (frame_of ev)"
    using b boundedInteger_sequence [OF b] by (simp add: statusEventFrame_def frame_of_def)
  moreover have "writeSseFrame bp (tn_io t) (frame_of ev) s = (Inr (), s\<lparr>st_frames := st_frames s @ [frame_of ev]\<rparr>)"
    using assms(1,2) by (auto simp: writeSseFrame_def sx_defs healthy_def)
  ultimately show ?thesis
    using b assms(3) by (simp add: pump_event_def bindS_run liftS_def returnS_def)
qed

lemma await_queued:
  assumes "i < length (objects (st_broker s))" and "sub_queue (sub_at (st_broker s) i) = (ev, len) # rest"
    and "1 \<le> w" and "w \<le> 300000"
  shows "\<exists>b. await_next i w ops s = (Inr (Some (EventItem ev)), s\<lparr>st_broker := b\<rparr>)
    \<and> length (objects b) = length (objects (st_broker s)) \<and> sub_queue (sub_at b i) = rest"
  using assms
  by (simp add: await_next_def on_broker_def sub_next_def sx_defs js_default_def boundedInteger_JInt Let_def)
    (rule exI, rule conjI, rule refl, simp add: sub_at_put_sub)

lemma pump_live_drains:
  assumes bp: "boundedInteger_stream (js_default bp (JInt 5000)) 1 60000 = Inr w" and hb: "1 \<le> hb" "hb \<le> 300000"
    and "\<forall>t \<in> set turns. healthy dl t" and "length evs \<le> length turns"
    and "i < length (objects (st_broker s))"
    and "sub_queue (sub_at (st_broker s) i) = map (\<lambda>ev. (ev, event_bytes ev)) evs"
    and "numbered r c evs" and "0 \<le> c" and "c + int (length evs) \<le> max_safe"
    and "map (\<lambda>ev. getp ev ''type'') evs = map JStr (types @ [''run-completed''])" and "''run-completed'' \<notin> set types"
  shows "\<exists>t. pump_live i hb dl bp turns c s = (Inr (Some (''run-completed'', c + int (length evs))), t)
    \<and> st_frames t = st_frames s @ map frame_of evs \<and> i < length (objects (st_broker t))"
  using assms(4-)
proof (induction evs arbitrary: turns s c types)
  case (Cons ev evs)
  obtain t ts where turns: "turns = t # ts" using Cons.prems(2) by (cases turns) auto
  have ht: "healthy dl t" using Cons.prems(1) turns by simp
  obtain type stamp details where ev: "ev = status_event (JStr r) (c + 1) type stamp details"
    using Cons.prems(5) by auto
  obtain b where b: "await_next i (max 1 (min hb (dl - tn_now_wait t))) (tn_during t) s = (Inr (Some (EventItem ev)), s\<lparr>st_broker := b\<rparr>)"
      "length (objects b) = length (objects (st_broker s))" "sub_queue (sub_at b i) = map (\<lambda>ev. (ev, event_bytes ev)) evs"
    using await_queued [OF Cons.prems(3), of ev "event_bytes ev" "map (\<lambda>ev. (ev, event_bytes ev)) evs"
      "max 1 (min hb (dl - tn_now_wait t))" "tn_during t"] Cons.prems(4) hb
    by (auto simp: min_le_iff_disj)
  let ?s = "s\<lparr>st_broker := b, st_frames := st_frames s @ [frame_of ev]\<rparr>"
  have pe: "pump_event bp (tn_io t) ev c (s\<lparr>st_broker := b\<rparr>) =
      (Inr (if type = ''run-completed'' then Finished ''run-completed'' (c + 1) else Continue (c + 1)), ?s)"
    using pump_event_writes [OF bp ht ev] Cons.prems(6,7) by simp
  have live: "pump_live i hb dl bp turns c s = (if type = ''run-completed'' then (Inr (Some (''run-completed'', c + 1)), ?s)
      else pump_live i hb dl bp ts (c + 1) ?s)"
    using ht b(1) pe unfolding turns
    by (simp add: others_bind healthy_def bindS_run returnS_def)
  show ?case
  proof (cases types)
    case Nil
    with Cons.prems(8) ev have "type = ''run-completed''" "evs = []" by auto
    with live Cons.prems(3) b(2) show ?thesis by simp
  next
    case (Cons ty types')
    with Cons.prems(8,9) ev have ty: "type \<noteq> ''run-completed''"
        "map (\<lambda>ev. getp ev ''type'') evs = map JStr (types' @ [''run-completed''])" "''run-completed'' \<notin> set types'"
      by auto
    have "\<exists>t. pump_live i hb dl bp ts (c + 1) ?s = (Inr (Some (''run-completed'', c + 1 + int (length evs))), t)
        \<and> st_frames t = st_frames ?s @ map frame_of evs \<and> i < length (objects (st_broker t))"
      using Cons.prems(1-7) turns b ty by (intro Cons.IH [of ts ?s "c + 1" types']) auto
    with live ty(1) show ?thesis by (auto simp: algebra_simps)
  qed
qed simp


definition sample_turn :: turn where
  "sample_turn = \<lparr>tn_before = [], tn_aborted = False, tn_now = 0, tn_now_wait = 0, tn_during = [], tn_io = sample_io\<rparr>"

lemma byte_length_le:
  assumes "length s \<le> n"
  shows "byte_length s \<le> 2 * int n"
proof -
  have "byte_length s \<le> 2 * int (length s)" by (induction s) (auto simp: byte_length_def)
  with assms show ?thesis by linarith
qed

lemma empty_run_events:
  "executeStatusChecks (\<lambda>n. 0) (JStr ''r'') publish_event JUndef (Some []) (start_exec b) = (Inr (Some (results, evs)), x) \<Longrightarrow>
     evs = [status_event (JStr ''r'') 1 ''run-started'' (to_iso 0) [(''total'', JInt 0)],
            status_event (JStr ''r'') 2 ''run-completed'' (to_iso 0) [(''total'', JInt 0)]]"
  by (auto simp: executeStatusChecks_def emit_def res_simps tick_Inr to_sink_iff Let_def ms_iso_def start_exec_def
      validateCatalog_def)

lemma empty_run_bytes:
  "event_bytes (status_event (JStr ''r'') 1 ''run-started'' (to_iso 0) [(''total'', JInt 0)])
     + event_bytes (status_event (JStr ''r'') 2 ''run-completed'' (to_iso 0) [(''total'', JInt 0)]) \<le> 1048576"
proof -
  have 1: "length (json_stringify (status_event (JStr ''r'') 1 ''run-started'' (to_iso 0) [(''total'', JInt 0)])) \<le> 1000"
    by code_simp
  have 2: "length (json_stringify (status_event (JStr ''r'') 2 ''run-completed'' (to_iso 0) [(''total'', JInt 0)])) \<le> 1000"
    by code_simp
  show ?thesis
    unfolding event_bytes_def
    by (rule order_trans [OF add_mono [OF byte_length_le [OF 1] byte_length_le [OF 2]]]) simp
qed


end
