(* ===== verification/ClientAddress.thy ===== *)
theory ClientAddress
  imports JsValue "HOL-Library.Word"
begin

text \<open>
  Which client a request comes from: the address part of
  \<open>src/control-center/auth/app-passkey.mjs\<close>. A configured CIDR list says which peers are
  trusted proxies; the client address is read from \<open>X-Forwarded-For\<close>, from the right, only as
  far as the chain of trusted proxies reaches.

  \<open>isIP\<close> and \<open>BlockList\<close> are those of \<open>node:net\<close>: dotted IPv4 without leading zeros, IPv6 of
  eight groups with at most one \<open>::\<close> and an optional IPv4 tail, and an optional zone. IPv4
  arithmetic is on 32-bit words, as the bit operators of JavaScript compute it.
\<close>

unbundle bit_operations_syntax

section \<open>IP addresses\<close>

definition v4_segment :: "string \<Rightarrow> bool" where
  "v4_segment s \<longleftrightarrow> all_in is_digit 1 3 s \<and> (length s > 1 \<longrightarrow> hd s \<noteq> CHR ''0'') \<and> digits_val 10 s \<le> 255"

definition is_v4 :: "string \<Rightarrow> bool" where
  "is_v4 s \<longleftrightarrow> (let ps = split_on CHR ''.'' s in length ps = 4 \<and> list_all v4_segment ps)"

text \<open>The 16-bit groups of a colon-separated list; an IPv4 address may stand last.\<close>

definition v6_group :: "string \<Rightarrow> bool" where
  "v6_group s \<longleftrightarrow> all_in is_hex_any 1 4 s"

definition v4_groups :: "string \<Rightarrow> int list" where
  "v4_groups s = (case map (digits_val 10) (split_on CHR ''.'' s) of
     [a, b, c, d] \<Rightarrow> [a * 256 + b, c * 256 + d] | _ \<Rightarrow> [])"

fun v6_groups :: "string list \<Rightarrow> int list option" where
  "v6_groups [] = Some []"
| "v6_groups [p] = (if v6_group p then Some [digits_val 16 p] else if is_v4 p then Some (v4_groups p) else None)"
| "v6_groups (p # q # ps) = (if v6_group p
     then (case v6_groups (q # ps) of None \<Rightarrow> None | Some gs \<Rightarrow> Some (digits_val 16 p # gs)) else None)"

definition groups_of :: "string \<Rightarrow> int list option" where
  "groups_of s = (if s = [] then Some [] else v6_groups (split_on CHR '':'' s))"

text \<open>The parts before and after the first \<open>::\<close>.\<close>

fun split_colons :: "string \<Rightarrow> (string \<times> string) option" where
  "split_colons (a # b # cs) = (if a = CHR '':'' \<and> b = CHR '':'' then Some ([], cs)
     else (case split_colons (b # cs) of None \<Rightarrow> None | Some (l, r) \<Rightarrow> Some (a # l, r)))"
| "split_colons _ = None"

definition strip_zone :: "string \<Rightarrow> string option" where
  "strip_zone s = (let a = takeWhile (\<lambda>c. c \<noteq> CHR ''%'') s; z = dropWhile (\<lambda>c. c \<noteq> CHR ''%'') s
     in if z = [] then Some a
        else if tl z \<noteq> [] \<and> list_all (\<lambda>c. is_alnum c \<or> c \<in> {CHR ''-'', CHR ''.'', CHR '':''}) (tl z) then Some a
        else None)"

text \<open>
  The eight groups of an IPv6 address. An IPv4 tail may not stand before \<open>::\<close>; the part before
  it may have none, which \<open>no_dot\<close> says.
\<close>

definition no_dot :: "string \<Rightarrow> bool" where
  "no_dot s \<longleftrightarrow> CHR ''.'' \<notin> set s"

definition v6_of :: "string \<Rightarrow> int list option" where
  "v6_of s = (case strip_zone s of None \<Rightarrow> None | Some a \<Rightarrow>
     (case split_colons a of
        None \<Rightarrow> (case groups_of a of Some gs \<Rightarrow> if length gs = 8 then Some gs else None | None \<Rightarrow> None)
      | Some (l, r) \<Rightarrow> (case (groups_of l, groups_of r) of
           (Some gl, Some gr) \<Rightarrow> if no_dot l \<and> length gl + length gr \<le> 7
              then Some (gl @ replicate (8 - length gl - length gr) 0 @ gr) else None
         | _ \<Rightarrow> None)))"

definition isIP :: "string \<Rightarrow> int" where
  "isIP s = (if is_v4 s then 4 else if v6_of s \<noteq> None then 6 else 0)"

definition v6_number :: "string \<Rightarrow> int" where
  "v6_number s = (case v6_of s of None \<Rightarrow> 0 | Some gs \<Rightarrow> foldl (\<lambda>n g. n * 65536 + g) 0 gs)"

definition strip_brackets :: "string \<Rightarrow> string" where
  "strip_brackets s = (let t = (if s \<noteq> [] \<and> hd s = CHR ''['' then tl s else s)
     in if t \<noteq> [] \<and> last t = CHR '']'' then butlast t else t)"

definition normalizeIp :: "jsv \<Rightarrow> string" where
  "normalizeIp v =
     (let a = to_lower (js_trim (js_String (js_or v (JStr []))));
          a1 = (if starts_with ''['' a then strip_brackets a else a);
          a2 = (if starts_with ''::ffff:'' a1 then drop 7 a1 else a1)
      in if isIP a2 \<noteq> 0 then a2 else [])"

section \<open>CIDR blocks\<close>

record cidr =
  cidr_address :: string
  cidr_family :: int
  cidr_prefix :: int

text \<open>\<open>((total << 8) | Number(part)) >>> 0\<close> over the parts of an IPv4 address.\<close>

definition ipv4Number :: "string \<Rightarrow> 32 word" where
  "ipv4Number s = foldl (\<lambda>w p. push_bit 8 w OR word_of_int (digits_val 10 p)) 0 (split_on CHR ''.'' s)"

definition v4_mask :: "int \<Rightarrow> 32 word" where
  "v4_mask bits = (if bits = 0 then 0 else push_bit (nat (32 - bits)) (- 1))"

definition cidrContains :: "cidr \<Rightarrow> jsv \<Rightarrow> bool" where
  "cidrContains c rawAddress = (let address = normalizeIp rawAddress in
     if cidr_family c \<noteq> isIP address then False
     else if cidr_family c = 6
     then v6_number address div 2 ^ nat (128 - cidr_prefix c) = v6_number (cidr_address c) div 2 ^ nat (128 - cidr_prefix c)
     else (ipv4Number address AND v4_mask (cidr_prefix c)) = (ipv4Number (cidr_address c) AND v4_mask (cidr_prefix c)))"

definition cidrListContains :: "cidr list \<Rightarrow> jsv \<Rightarrow> bool" where
  "cidrListContains cs address = list_ex (\<lambda>c. cidrContains c address) cs"

definition parseCidr :: "string \<Rightarrow> cidr res" where
  "parseCidr value =
     (let parts = split_on CHR ''/'' value;
          address = normalizeIp (JStr (hd parts));
          family = isIP address;
          maximum = (if family = 4 then 32 else 128);
          bits = (case tl parts of [] \<Rightarrow> Some maximum | p # _ \<Rightarrow> num_int (js_Number (JStr p)))
      in if length parts > 2 \<or> family = 0 then Inl (PlainError (''Invalid CIDR: '' @ value))
         else (case bits of None \<Rightarrow> Inl (PlainError (''Invalid CIDR: '' @ value))
               | Some p \<Rightarrow> if p < 0 \<or> p > maximum then Inl (PlainError (''Invalid CIDR: '' @ value))
                   else Inr \<lparr>cidr_address = address, cidr_family = family, cidr_prefix = p\<rparr>))"

definition parseCidrs :: "jsv \<Rightarrow> cidr list res" where
  "parseCidrs v =
     bindR (mapR parseCidr (filter (\<lambda>s. s \<noteq> []) (map js_trim (split_on CHR '','' (js_String (js_or v (JStr []))))))) (\<lambda>cs.
     if cs = [] \<or> length cs > 32 then Inl (PlainError ''Control Center CIDR lists cannot be empty or exceed 32 entries.'')
     else Inr cs)"

section \<open>The client address of a request\<close>

record request =
  rq_method :: jsv
  rq_url :: jsv
  rq_remote :: jsv
  rq_headers :: jsv
  rq_content :: jsv

definition header :: "request \<Rightarrow> string \<Rightarrow> jsv" where
  "header r name = getp (rq_headers r) name"

definition forwarded_for :: "request \<Rightarrow> string list" where
  "forwarded_for r = filter (\<lambda>a. a \<noteq> []) (map (\<lambda>p. normalizeIp (JStr (js_trim p)))
     (split_on CHR '','' (js_String (js_or (header r ''x-forwarded-for'') (JStr [])))))"

text \<open>The loop from the right: \<open>addresses\<close> are those still to be looked at, the nearest first.\<close>

fun walk_proxies :: "cidr list \<Rightarrow> string \<Rightarrow> string list \<Rightarrow> string" where
  "walk_proxies trusted current [] = current"
| "walk_proxies trusted current (a # as) =
     (if \<not> cidrListContains trusted (JStr current) then current else walk_proxies trusted a as)"

definition resolveClientAddress :: "cidr list \<Rightarrow> request \<Rightarrow> string" where
  "resolveClientAddress trusted r =
     (let current = normalizeIp (js_or (rq_remote r) (JStr [])) in
      if current = [] then []
      else if \<not> cidrListContains trusted (JStr current) then current
      else (let forwarded = forwarded_for r in
        if forwarded = [] \<or> length forwarded > 8 then []
        else walk_proxies trusted current (rev forwarded)))"

section \<open>A CIDR match is a prefix match\<close>

text \<open>The reference: an IPv4 address is a number below \<open>2 ^ 32\<close>.\<close>

definition v4_value :: "string \<Rightarrow> int" where
  "v4_value s = foldl (\<lambda>n p. n * 256 + digits_val 10 p) 0 (split_on CHR ''.'' s)"

lemma digit_val_nonneg: "is_digit c \<Longrightarrow> 0 \<le> digit_val c"
  by (simp add: digit_val_def is_digit_def)

lemma digits_val_nonneg: "list_all is_digit s \<Longrightarrow> 0 \<le> digits_val 10 s"
proof -
  have "0 \<le> n \<Longrightarrow> list_all is_digit s \<Longrightarrow> 0 \<le> foldl (\<lambda>n c. n * 10 + digit_val c) n s" for n
    by (induction s arbitrary: n) (auto simp: digit_val_nonneg)
  then show "list_all is_digit s \<Longrightarrow> ?thesis" by (simp add: digits_val_def)
qed

lemma v4_segment_range: "v4_segment p \<Longrightarrow> 0 \<le> digits_val 10 p \<and> digits_val 10 p < 256"
  by (auto simp: v4_segment_def all_in_def digits_val_nonneg)

lemma or_is_plus:
  fixes w :: "32 word"
  assumes "0 \<le> n" "n < 256"
  shows "push_bit 8 w OR word_of_int n = push_bit 8 w + word_of_int n"
proof -
  have "take_bit 8 n = n" using assms by (simp add: take_bit_int_eq_self)
  then have low: "bit n k \<Longrightarrow> k < 8" for k by (metis bit_take_bit_iff)
  then have "push_bit 8 w AND word_of_int n = 0" by (intro bit_eqI) (auto simp: bit_simps dest: low)
  then show ?thesis by (metis disjunctive_add_eq_or)
qed

lemma ipv4Number_foldl:
  assumes "list_all v4_segment ps"
  shows "foldl (\<lambda>w p. push_bit 8 w OR word_of_int (digits_val 10 p)) (word_of_int n :: 32 word) ps
    = word_of_int (foldl (\<lambda>n p. n * 256 + digits_val 10 p) n ps)"
  using assms
proof (induction ps arbitrary: n)
  case (Cons p ps)
  have step: "push_bit 8 (word_of_int n :: 32 word) OR word_of_int (digits_val 10 p)
      = word_of_int (n * 256 + digits_val 10 p)"
    using or_is_plus v4_segment_range Cons.prems by (simp add: push_bit_eq_mult)
  have "list_all v4_segment ps" using Cons.prems by simp
  then show ?case by (simp only: foldl_Cons step Cons.IH)
qed simp

lemma ipv4Number_value: "is_v4 s \<Longrightarrow> ipv4Number s = word_of_int (v4_value s)"
  using ipv4Number_foldl [of "split_on CHR ''.'' s" 0] by (simp add: ipv4Number_def v4_value_def is_v4_def Let_def)

lemma v4_value_range:
  assumes "is_v4 s"
  shows "0 \<le> v4_value s \<and> v4_value s < 2 ^ 32"
proof -
  obtain a b c d where parts: "split_on CHR ''.'' s = [a, b, c, d]"
    using assms by (auto simp: is_v4_def Let_def length_Suc_conv numeral_eq_Suc)
  then have "v4_segment a" "v4_segment b" "v4_segment c" "v4_segment d" using assms by (simp_all add: is_v4_def Let_def)
  from this [THEN v4_segment_range] parts show ?thesis by (simp add: v4_value_def)
qed

lemma mask_eq_iff:
  fixes a b :: "32 word"
  assumes "0 \<le> p" "p \<le> 32"
  shows "a AND v4_mask p = b AND v4_mask p \<longleftrightarrow> uint a div 2 ^ nat (32 - p) = uint b div 2 ^ nat (32 - p)"
proof (cases "p = 0")
  case True
  have "uint x div 2 ^ 32 = 0" for x :: "32 word" using uint_lt2p [of x] by simp
  with True show ?thesis by (simp add: v4_mask_def)
next
  case False
  define k where "k = nat (32 - p)"
  have shifted: "uint (drop_bit k x) = uint x div 2 ^ k" for x :: "32 word"
  proof -
    have "take_bit LENGTH(32) (uint x) = uint x" using uint_lt2p [of x] by (intro take_bit_int_eq_self) simp_all
    then have "uint (drop_bit k x) = drop_bit k (uint x)" by (simp only: unsigned_drop_bit_eq)
    also have "\<dots> = uint x div 2 ^ k" by (rule drop_bit_eq_div)
    finally show ?thesis .
  qed
  have "a AND push_bit k (- 1) = b AND push_bit k (- 1) \<longleftrightarrow> drop_bit k a = drop_bit k b"
  proof
    assume eq: "a AND push_bit k (- 1) = b AND push_bit k (- 1)"
    show "drop_bit k a = drop_bit k b"
    proof (rule bit_eqI)
      fix n
      from eq have "bit (a AND push_bit k (- 1)) (k + n) = bit (b AND push_bit k (- 1)) (k + n)" by simp
      then show "bit (drop_bit k a) n = bit (drop_bit k b) n" by (auto simp: bit_simps dest: bit_imp_le_length)
    qed
  next
    assume eq: "drop_bit k a = drop_bit k b"
    show "a AND push_bit k (- 1) = b AND push_bit k (- 1)"
    proof (rule bit_eqI)
      fix n
      have "bit (drop_bit k a) (n - k) = bit (drop_bit k b) (n - k)" using eq by simp
      then show "bit (a AND push_bit k (- 1)) n = bit (b AND push_bit k (- 1)) n" by (auto simp: bit_simps)
    qed
  qed
  also have "\<dots> \<longleftrightarrow> uint (drop_bit k a) = uint (drop_bit k b)" by (simp only: word_uint_eq_iff)
  also have "\<dots> \<longleftrightarrow> uint a div 2 ^ k = uint b div 2 ^ k"
    by (simp only: shifted)
  finally show ?thesis using False by (simp add: v4_mask_def k_def)
qed

lemma parseCidr_Inr:
  assumes "parseCidr v = Inr c"
  shows "isIP (cidr_address c) = cidr_family c \<and> cidr_family c \<in> {4, 6} \<and> 0 \<le> cidr_prefix c
    \<and> cidr_prefix c \<le> (if cidr_family c = 4 then 32 else 128)"
  using assms by (auto simp: parseCidr_def Let_def isIP_def split: option.splits if_splits list.splits)

lemma isIP_4: "isIP s = 4 \<longleftrightarrow> is_v4 s"
  by (simp add: isIP_def)

text \<open>
  For every IPv4 block the configuration accepts, the bit arithmetic on 32-bit words is a
  prefix match: an address is in the block exactly when it is an IPv4 address whose number
  agrees with the block's in the leading prefix bits, for every prefix length from 0 to 32.
\<close>

theorem ipv4_block_is_prefix_match:
  assumes "parseCidr value = Inr c" and "cidr_family c = 4" and "address = normalizeIp rawAddress"
  shows "cidrContains c rawAddress \<longleftrightarrow> is_v4 address
    \<and> v4_value address div 2 ^ nat (32 - cidr_prefix c) = v4_value (cidr_address c) div 2 ^ nat (32 - cidr_prefix c)"
proof -
  from parseCidr_Inr [OF assms(1)] assms(2) have c: "is_v4 (cidr_address c)" "0 \<le> cidr_prefix c" "cidr_prefix c \<le> 32"
    by (simp_all add: isIP_4)
  have num: "uint (ipv4Number s) = v4_value s" if "is_v4 s" for s
    using ipv4Number_value [OF that] v4_value_range [OF that] by (simp add: uint_word_of_int_eq take_bit_int_eq_self)
  show ?thesis
    using assms(2,3) c mask_eq_iff [OF c(2,3)]
    by (auto simp: cidrContains_def Let_def isIP_4 num)
qed

lemma ipv4_block_is_prefix_match_example:
  "\<exists>c. parseCidr ''10.1.0.0/16'' = Inr c \<and> cidrContains c (JStr ''10.1.255.7'') \<and> \<not> cidrContains c (JStr ''10.2.0.1'')"
proof -
  have "parseCidr ''10.1.0.0/16'' = Inr \<lparr>cidr_address = ''10.1.0.0'', cidr_family = 4, cidr_prefix = 16\<rparr>" by code_simp
  moreover have "normalizeIp (JStr ''10.1.255.7'') = ''10.1.255.7''" "normalizeIp (JStr ''10.2.0.1'') = ''10.2.0.1''"
    by code_simp+
  moreover have "is_v4 ''10.1.255.7''" "v4_value ''10.1.255.7'' = 167902983" "v4_value ''10.2.0.1'' = 167903233"
    "v4_value ''10.1.0.0'' = 167837696" by code_simp+
  ultimately show ?thesis
    using ipv4_block_is_prefix_match [of "''10.1.0.0/16''" _ _ "JStr ''10.1.255.7''"]
      ipv4_block_is_prefix_match [of "''10.1.0.0/16''" _ _ "JStr ''10.2.0.1''"] by auto
qed

text \<open>
  A block written with a slash and no prefix length is accepted with prefix length 0: it
  contains every IPv4 address, although the length is missing.
\<close>

theorem empty_prefix_matches_everything:
  assumes "is_v4 address" and "normalizeIp (JStr address) = address" and "CHR ''/'' \<notin> set address"
  shows "\<exists>c. parseCidr (address @ ''/'') = Inr c \<and> cidr_prefix c = 0
    \<and> (\<forall>raw. is_v4 (normalizeIp raw) \<longrightarrow> cidrContains c raw)"
proof -
  have parts: "split_on CHR ''/'' (address @ ''/'') = [address, []]"
    using assms(3) split_on_cons_sep [of "CHR ''/''" address "[]"] by simp
  have "js_Number (JStr []) = Dec 0 0" by (simp add: js_Number_def string_to_number_def js_trim_def)
  then have "parseCidr (address @ ''/'') = Inr \<lparr>cidr_address = address, cidr_family = 4, cidr_prefix = 0\<rparr>"
    using assms by (simp add: parseCidr_def parts isIP_def)
  then show ?thesis by (auto simp: cidrContains_def isIP_def v4_mask_def)
qed

lemma empty_prefix_matches_everything_example:
  "\<exists>c. parseCidr ''10.0.0.0/'' = Inr c \<and> cidrContains c (JStr ''203.0.113.9'')"
proof -
  have a: "is_v4 ''10.0.0.0''" by code_simp
  have b: "normalizeIp (JStr ''10.0.0.0'') = ''10.0.0.0''" by code_simp
  have c: "is_v4 (normalizeIp (JStr ''203.0.113.9''))" by code_simp
  show ?thesis using empty_prefix_matches_everything [OF a b] c by auto
qed

section \<open>The forwarded chain\<close>

lemma walk_stops:
  assumes "\<not> cidrListContains trusted (JStr client)"
    and "\<forall>a \<in> set (current # near). cidrListContains trusted (JStr a)"
  shows "walk_proxies trusted current (near @ client # far) = client"
  using assms(2)
proof (induction near arbitrary: current)
  case Nil
  with assms(1) show ?case by (cases far) simp_all
qed simp

text \<open>
  C17. The client address cannot be forged. If the peer is not a trusted proxy, its own address
  is the client's, whatever the headers say. If it is, and the addresses at the right end of
  \<open>X-Forwarded-For\<close>, added by trusted proxies, follow an address that is not trusted, then that
  address is the client's, whatever stands to the left of it.
\<close>

theorem client_address_not_forgeable:
  assumes peer: "normalizeIp (js_or (rq_remote r) (JStr [])) = peer" "peer \<noteq> []"
    and fwd: "cidrListContains trusted (JStr peer) \<Longrightarrow> forwarded_for r = left @ client # right
        \<and> length (left @ client # right) \<le> 8
        \<and> \<not> cidrListContains trusted (JStr client) \<and> (\<forall>a \<in> set right. cidrListContains trusted (JStr a))"
  shows "resolveClientAddress trusted r = (if cidrListContains trusted (JStr peer) then client else peer)"
proof (cases "cidrListContains trusted (JStr peer)")
  case False
  with peer show ?thesis by (simp add: resolveClientAddress_def Let_def)
next
  case True
  have "walk_proxies trusted peer (rev right @ client # rev left) = client"
    using fwd [OF True] True by (intro walk_stops) auto
  with fwd [OF True] True peer show ?thesis by (simp add: resolveClientAddress_def Let_def)
qed

definition sample_request :: request where
  "sample_request = \<lparr>rq_method = JStr ''GET'', rq_url = JStr ''/'', rq_remote = JStr ''127.0.0.1'',
     rq_headers = JObj [(''x-forwarded-for'', JStr ''6.6.6.6, 203.0.113.9, 127.0.0.2'')], rq_content = JUndef\<rparr>"

definition sample_trusted :: "cidr list" where
  "sample_trusted = [\<lparr>cidr_address = ''127.0.0.0'', cidr_family = 4, cidr_prefix = 8\<rparr>]"

theorem client_address_not_forgeable_witness:
  "resolveClientAddress sample_trusted sample_request = ''203.0.113.9''"
proof -
  have peer: "normalizeIp (js_or (rq_remote sample_request) (JStr [])) = ''127.0.0.1''" by code_simp
  have fwd: "forwarded_for sample_request = [''6.6.6.6''] @ ''203.0.113.9'' # [''127.0.0.2'']" by code_simp
  have t: "cidrListContains sample_trusted (JStr ''127.0.0.1'') \<and> cidrListContains sample_trusted (JStr ''127.0.0.2'')
      \<and> \<not> cidrListContains sample_trusted (JStr ''203.0.113.9'')" by code_simp
  show ?thesis
    using client_address_not_forgeable [OF peer, of sample_trusted "[''6.6.6.6'']" "''203.0.113.9''" "[''127.0.0.2'']"] fwd t
    by simp
qed

end
