(* ===== verification/PasskeyStore.thy ===== *)
theory PasskeyStore
  imports JsValue "HOL-Library.AList"
begin

text \<open>
  \<open>MemoryAppPasskeyStore\<close> of \<open>src/control-center/auth/app-passkey.mjs\<close>: sessions, login
  throttle, passkeys and WebAuthn challenges. A \<open>Map\<close> is the association list of its entries in
  insertion order. The readings of the clock in one store call are one instant, the argument
  \<open>now\<close>, in milliseconds.
\<close>

section \<open>Data\<close>

record session =
  se_csrfHash :: string
  se_policyVersion :: string
  se_subject :: string
  se_email :: string
  se_displayName :: string
  se_role :: string
  se_roles :: "string list"
  se_acr :: string
  se_amr :: "string list"
  se_authTime :: int
  se_issuer :: string
  se_sessionId :: string
  se_keyId :: string
  se_expiresAt :: int
  se_createdAt :: int
  se_lastSeenAt :: int
  se_revokedAt :: "int option"

record throttle =
  th_windowStarted :: int
  th_attempts :: int
  th_lockedUntil :: int

record passkey =
  pk_userId :: string
  pk_webauthnUserId :: string
  pk_publicKey :: string
  pk_counter :: int
  pk_transports :: jsv
  pk_deviceType :: string
  pk_backedUp :: bool
  pk_createdAt :: int
  pk_expiresAt :: int
  pk_lastUsedAt :: "int option"
  pk_updatedAt :: "int option"

record challenge =
  ch_challenge :: string
  ch_flow :: string
  ch_userId :: string
  ch_peerHash :: string
  ch_expiresAt :: int

record store =
  sessions :: "(string \<times> session) list"
  loginThrottle :: "(string \<times> throttle) list"
  passkeys :: "(string \<times> passkey) list"
  webauthnChallenges :: "(string \<times> challenge) list"

definition new_store :: store where
  "new_store = \<lparr>sessions = [], loginThrottle = [], passkeys = [], webauthnChallenges = []\<rparr>"

section \<open>Sessions\<close>

definition createSession :: "string \<Rightarrow> session \<Rightarrow> int \<Rightarrow> store \<Rightarrow> store" where
  "createSession tokenHash item now st =
     st\<lparr>sessions := AList.update tokenHash
         (item\<lparr>se_createdAt := now, se_lastSeenAt := now, se_revokedAt := None\<rparr>) (sessions st)\<rparr>"

definition getSession :: "string \<Rightarrow> int \<Rightarrow> int \<Rightarrow> store \<Rightarrow> session option \<times> store" where
  "getSession tokenHash idleSeconds now st = (case map_of (sessions st) tokenHash of
       None \<Rightarrow> (None, st)
     | Some item \<Rightarrow>
         if se_revokedAt item \<noteq> None \<or> se_expiresAt item \<le> now \<or> se_lastSeenAt item \<le> now - idleSeconds * 1000
         then (None, st)
         else (let item' = item\<lparr>se_lastSeenAt := now\<rparr>
               in (Some item', st\<lparr>sessions := AList.update tokenHash item' (sessions st)\<rparr>)))"

definition revokeSession :: "string \<Rightarrow> int \<Rightarrow> store \<Rightarrow> store" where
  "revokeSession tokenHash now st = (case map_of (sessions st) tokenHash of
       None \<Rightarrow> st
     | Some item \<Rightarrow> st\<lparr>sessions := AList.update tokenHash (item\<lparr>se_revokedAt := Some now\<rparr>) (sessions st)\<rparr>)"

section \<open>Login throttle\<close>

definition ceil_div :: "int \<Rightarrow> int \<Rightarrow> int" where
  "ceil_div a b = - ((- a) div b)"

record permit =
  allowed :: bool
  retryAfterSeconds :: int

definition registerLoginAttempt :: "string \<Rightarrow> int \<Rightarrow> int \<Rightarrow> int \<Rightarrow> int \<Rightarrow> store \<Rightarrow> permit \<times> store" where
  "registerLoginAttempt keyHash maxAttempts windowSeconds lockSeconds now st =
     (let current = map_of (loginThrottle st) keyHash in
      case current of
        Some c \<Rightarrow>
          if th_lockedUntil c > now
          then (\<lparr>allowed = False, retryAfterSeconds = ceil_div (th_lockedUntil c - now) 1000\<rparr>, st)
          else (let expired = (th_windowStarted c \<le> now - windowSeconds * 1000);
                    attempts = (if expired then 1 else th_attempts c + 1);
                    lockedUntil = (if attempts > maxAttempts then now + lockSeconds * 1000 else 0)
                in (\<lparr>allowed = (attempts \<le> maxAttempts), retryAfterSeconds = (if lockedUntil \<noteq> 0 then lockSeconds else 0)\<rparr>,
                    st\<lparr>loginThrottle := AList.update keyHash
                         \<lparr>th_windowStarted = (if expired then now else th_windowStarted c), th_attempts = attempts,
                          th_lockedUntil = lockedUntil\<rparr> (loginThrottle st)\<rparr>))
      | None \<Rightarrow>
          (let lockedUntil = (if 1 > maxAttempts then now + lockSeconds * 1000 else 0)
           in (\<lparr>allowed = (1 \<le> maxAttempts), retryAfterSeconds = (if lockedUntil \<noteq> 0 then lockSeconds else 0)\<rparr>,
               st\<lparr>loginThrottle := AList.update keyHash
                    \<lparr>th_windowStarted = now, th_attempts = 1, th_lockedUntil = lockedUntil\<rparr> (loginThrottle st)\<rparr>)))"

definition clearLoginThrottle :: "string \<Rightarrow> store \<Rightarrow> store" where
  "clearLoginThrottle keyHash st = st\<lparr>loginThrottle := AList.delete keyHash (loginThrottle st)\<rparr>"

section \<open>Challenges\<close>

definition createWebAuthnChallenge :: "string \<Rightarrow> challenge \<Rightarrow> int \<Rightarrow> store \<Rightarrow> store" where
  "createWebAuthnChallenge challengeHash item now st =
     st\<lparr>webauthnChallenges := AList.update challengeHash item
         (filter (\<lambda>(k, c). ch_expiresAt c > now) (webauthnChallenges st))\<rparr>"

definition challenge_matches :: "string \<Rightarrow> string \<Rightarrow> string \<Rightarrow> string \<Rightarrow> int \<Rightarrow> challenge \<Rightarrow> bool" where
  "challenge_matches chal flow userId peerHash now item \<longleftrightarrow> ch_challenge item = chal \<and> ch_flow item = flow
     \<and> ch_userId item = userId \<and> ch_peerHash item = peerHash \<and> ch_expiresAt item > now"

definition consumeWebAuthnChallenge ::
  "string \<Rightarrow> string \<Rightarrow> string \<Rightarrow> string \<Rightarrow> string \<Rightarrow> int \<Rightarrow> store \<Rightarrow> challenge option \<times> store" where
  "consumeWebAuthnChallenge challengeHash chal flow userId peerHash now st =
     (let st' = st\<lparr>webauthnChallenges := AList.delete challengeHash (webauthnChallenges st)\<rparr>
      in case map_of (webauthnChallenges st) challengeHash of
           None \<Rightarrow> (None, st')
         | Some item \<Rightarrow> (if challenge_matches chal flow userId peerHash now item then Some item else None, st'))"

section \<open>Passkeys\<close>

definition created_order :: "(string \<times> passkey) \<Rightarrow> (string \<times> passkey) \<Rightarrow> int" where
  "created_order a b = pk_createdAt (snd a) - pk_createdAt (snd b)"

definition listPasskeys :: "string \<Rightarrow> int \<Rightarrow> store \<Rightarrow> (string \<times> passkey) list \<times> store" where
  "listPasskeys userId now st =
     (let live = filter (\<lambda>(k, p). pk_expiresAt p > now) (passkeys st)
      in (js_sort_by created_order (filter (\<lambda>(k, p). pk_userId p = userId \<and> pk_expiresAt p > now) live),
          st\<lparr>passkeys := live\<rparr>))"

text \<open>The loop of \<open>createPasskey\<close>: entries before the first live one of the user that are expired are gone.\<close>

fun purge_until :: "string \<Rightarrow> int \<Rightarrow> (string \<times> passkey) list \<Rightarrow> bool \<times> (string \<times> passkey) list" where
  "purge_until userId now [] = (False, [])"
| "purge_until userId now ((k, p) # ps) =
     (if pk_expiresAt p \<le> now then purge_until userId now ps
      else if pk_userId p = userId then (True, (k, p) # ps)
      else (case purge_until userId now ps of (found, ps') \<Rightarrow> (found, (k, p) # ps')))"

definition createPasskey :: "string \<Rightarrow> passkey \<Rightarrow> int \<Rightarrow> store \<Rightarrow> bool \<times> store" where
  "createPasskey ident item now st = (case purge_until (pk_userId item) now (passkeys st) of (found, ps) \<Rightarrow>
     (let st' = st\<lparr>passkeys := ps\<rparr> in
      if found then (False, st')
      else if map_of ps ident \<noteq> None then (False, st')
      else (True, st'\<lparr>passkeys := AList.update ident item ps\<rparr>)))"

definition updatePasskeyCounter ::
  "string \<Rightarrow> string \<Rightarrow> int \<Rightarrow> string \<Rightarrow> bool option \<Rightarrow> int \<Rightarrow> store \<Rightarrow> bool \<times> store" where
  "updatePasskeyCounter credentialId userId counter deviceType backedUp now st =
     (case map_of (passkeys st) credentialId of
        None \<Rightarrow> (False, st)
      | Some p \<Rightarrow>
          if pk_userId p \<noteq> userId \<or> pk_expiresAt p \<le> now \<or> pk_counter p > counter then (False, st)
          else (True, st\<lparr>passkeys := AList.update credentialId
                  (p\<lparr>pk_counter := counter,
                     pk_deviceType := (if deviceType = [] then pk_deviceType p else deviceType),
                     pk_backedUp := (case backedUp of None \<Rightarrow> pk_backedUp p | Some b \<Rightarrow> b),
                     pk_lastUsedAt := Some now, pk_updatedAt := Some now\<rparr>) (passkeys st)\<rparr>))"

section \<open>The challenge contract\<close>

text \<open>
  What the authentication relies on, whichever store it is given: a challenge is handed out
  only as it was created and unexpired, and looking for it removes it, found or not.
\<close>

locale challenge_store =
  fixes create :: "string \<Rightarrow> challenge \<Rightarrow> int \<Rightarrow> 's \<Rightarrow> 's"
    and consume :: "string \<Rightarrow> string \<Rightarrow> string \<Rightarrow> string \<Rightarrow> string \<Rightarrow> int \<Rightarrow> 's \<Rightarrow> challenge option \<times> 's"
    and pending :: "'s \<Rightarrow> string \<Rightarrow> challenge option"
  assumes create_pending: "pending (create h item now st) h = Some item"
    and create_adds: "k \<noteq> h \<Longrightarrow> pending st k = None \<Longrightarrow> pending (create h item now st) k = None"
    and consume_result: "consume h c f u p now st = (Some item, st') \<Longrightarrow> pending st h = Some item \<and> challenge_matches c f u p now item"
    and consume_pending: "consume h c f u p now st = (r, st') \<Longrightarrow> pending st' k = (if k = h then None else pending st k)"
begin

lemma never_created:
  assumes "pending st h = None"
  shows "fst (consume h c f u p now st) = None"
proof (rule ccontr)
  assume "fst (consume h c f u p now st) \<noteq> None"
  then obtain item st' where "consume h c f u p now st = (Some item, st')"
    by (cases "consume h c f u p now st") auto
  from consume_result [OF this] assms show False by simp
qed

lemma consumed_once:
  assumes "consume h c f u p now st = (r, st')"
  shows "fst (consume h c' f' u' p' now' st') = None"
  using consume_pending [OF assms, of h] by (intro never_created) simp

end

definition pending_challenge :: "store \<Rightarrow> string \<Rightarrow> challenge option" where
  "pending_challenge st h = map_of (webauthnChallenges st) h"

interpretation memory: challenge_store createWebAuthnChallenge consumeWebAuthnChallenge pending_challenge
proof
  fix h :: string and item :: challenge and now :: int and st :: store
  show "pending_challenge (createWebAuthnChallenge h item now st) h = Some item"
    by (simp add: pending_challenge_def createWebAuthnChallenge_def update_conv')
next
  fix k h :: string and item :: challenge and now :: int and st :: store
  assume "k \<noteq> h" and "pending_challenge st k = None"
  then show "pending_challenge (createWebAuthnChallenge h item now st) k = None"
    by (auto simp: pending_challenge_def createWebAuthnChallenge_def update_conv' map_of_eq_None_iff)
next
  fix h c f u p :: string and now :: int and st st' :: store and item
  assume "consumeWebAuthnChallenge h c f u p now st = (Some item, st')"
  then show "pending_challenge st h = Some item \<and> challenge_matches c f u p now item"
    by (auto simp: consumeWebAuthnChallenge_def pending_challenge_def Let_def split: option.splits if_splits)
next
  fix h c f u p k :: string and now :: int and st st' :: store and r
  assume "consumeWebAuthnChallenge h c f u p now st = (r, st')"
  then show "pending_challenge st' k = (if k = h then None else pending_challenge st k)"
    by (auto simp: consumeWebAuthnChallenge_def pending_challenge_def Let_def delete_conv' split: option.splits)
qed

section \<open>The throttle bounds the logins of a peer\<close>

fun attempts_allowed :: "string \<Rightarrow> int \<Rightarrow> int \<Rightarrow> int \<Rightarrow> int list \<Rightarrow> store \<Rightarrow> int" where
  "attempts_allowed key maxA win lock [] st = 0"
| "attempts_allowed key maxA win lock (t # ts) st = (case registerLoginAttempt key maxA win lock t st of
     (p, st') \<Rightarrow> (if allowed p then 1 else 0) + attempts_allowed key maxA win lock ts st')"

lemma throttle_window:
  assumes "map_of (loginThrottle st) key = Some c" and "th_attempts c = k" and "th_windowStarted c = t0"
    and "th_lockedUntil c = 0 \<or> k > maxA" and "\<forall>t \<in> set ts. 0 \<le> t \<and> t0 \<le> t \<and> t < t0 + win * 1000" and "0 \<le> lock" and "0 \<le> k"
  shows "attempts_allowed key maxA win lock ts st = min (int (length ts)) (max 0 (maxA - k))"
  using assms
proof (induction ts arbitrary: st c k)
  case (Cons t ts)
  have t: "0 \<le> t" "t0 \<le> t" "t < t0 + win * 1000" using Cons.prems(5) by auto
  show ?case
  proof (cases "th_lockedUntil c > t")
    case True
    then have k: "k > maxA" using Cons.prems(4) t(1) by auto
    have "registerLoginAttempt key maxA win lock t st = (\<lparr>allowed = False, retryAfterSeconds = ceil_div (th_lockedUntil c - t) 1000\<rparr>, st)"
      using True Cons.prems(1) by (simp add: registerLoginAttempt_def)
    with Cons.IH [OF Cons.prems(1-4) _ Cons.prems(6,7)] Cons.prems(5) k show ?thesis by simp
  next
    case False
    define c' where "c' = \<lparr>th_windowStarted = t0, th_attempts = k + 1, th_lockedUntil = (if k + 1 > maxA then t + lock * 1000 else 0)\<rparr>"
    define st' where "st' = st\<lparr>loginThrottle := AList.update key c' (loginThrottle st)\<rparr>"
    have reg: "\<exists>ra. registerLoginAttempt key maxA win lock t st = (\<lparr>allowed = (k + 1 \<le> maxA), retryAfterSeconds = ra\<rparr>, st')"
      using False Cons.prems(1-3) t by (simp add: registerLoginAttempt_def Let_def c'_def st'_def)
    have "attempts_allowed key maxA win lock ts st' = min (int (length ts)) (max 0 (maxA - (k + 1)))"
      using Cons.prems(5-7) by (intro Cons.IH [of st' c' "k + 1"]) (auto simp: st'_def c'_def update_conv')
    with reg Cons.prems(7) show ?thesis by (auto simp: min_def max_def)
  qed
qed simp

text \<open>
  In the window that a peer's first login attempt opens, exactly the first
  \<open>maxAttempts\<close> attempts are allowed, however many are made and whenever, also after a lock
  inside the window has run out.
\<close>

theorem throttle_allows_exactly_max:
  assumes "map_of (loginThrottle st) key = None" and "1 \<le> maxAttempts" and "0 \<le> lockSeconds" and "0 \<le> first"
    and "\<forall>t \<in> set later. first \<le> t \<and> t < first + windowSeconds * 1000"
  shows "attempts_allowed key maxAttempts windowSeconds lockSeconds (first # later) st
    = min (int (length (first # later))) maxAttempts"
proof -
  define c where "c = \<lparr>th_windowStarted = first, th_attempts = 1, th_lockedUntil = 0\<rparr>"
  define st' where "st' = st\<lparr>loginThrottle := AList.update key c (loginThrottle st)\<rparr>"
  have "\<exists>ra. registerLoginAttempt key maxAttempts windowSeconds lockSeconds first st = (\<lparr>allowed = True, retryAfterSeconds = ra\<rparr>, st')"
    using assms(1,2) by (simp add: registerLoginAttempt_def Let_def c_def st'_def)
  moreover have "attempts_allowed key maxAttempts windowSeconds lockSeconds later st'
      = min (int (length later)) (max 0 (maxAttempts - 1))"
    using assms by (intro throttle_window [of st' key c]) (auto simp: st'_def c_def update_conv')
  ultimately show ?thesis using assms(2) by auto
qed

lemma throttle_allows_exactly_max_example:
  "attempts_allowed ''k'' 2 60 1 [0, 1, 2, 1500, 59999] new_store = 2"
  using throttle_allows_exactly_max [of new_store "''k''" 2 1 0 "[1, 2, 1500, 59999]" 60] by (simp add: new_store_def)

end
