(* ===== verification/PasskeyAuth.thy ===== *)
theory PasskeyAuth
  imports ClientAddress PasskeyStore RouteCapabilities
begin

text \<open>
  \<open>AppPasskeyAuth\<close> of \<open>src/control-center/auth/app-passkey.mjs\<close> over the in-memory store:
  first enrolment, login, sessions, authorization and the checks of a mutating request, and
  the gate of \<open>src/control-center/server.mjs\<close> that composes them with the route catalogue.

  Code outside the repository is the record \<open>auth_env\<close>: SHA-256 and the random tokens of
  \<open>node:crypto\<close>, \<open>decodeURIComponent\<close>, and the option and verification functions of
  \<open>@simplewebauthn/server\<close>, which may throw (\<open>None\<close>). The world of a call is the store, the clock
  (a function from the number of readings so far) and the counters of readings and drawn tokens.
\<close>

section \<open>Configuration and world\<close>

record enrollment_gate =
  eg_tokenSha256 :: string
  eg_issuedAt :: int
  eg_expiresAt :: int

record auth_config =
  ac_nodeEnvironment :: string
  ac_store :: string
  ac_bindHost :: string
  ac_publicOrigin :: string
  ac_publicHost :: string
  ac_rpId :: string
  ac_adminEmail :: string
  ac_adminDisplayName :: string
  ac_adminSubject :: string
  ac_webauthnUserId :: string
  ac_sessionMaxAgeSeconds :: int
  ac_sessionIdleSeconds :: int
  ac_passkeyTtlSeconds :: int
  ac_challengeTtlSeconds :: int
  ac_freshAuthSeconds :: int
  ac_loginMaxAttempts :: int
  ac_loginWindowSeconds :: int
  ac_loginLockSeconds :: int
  ac_sessionPolicyVersion :: string
  ac_allowedCidrs :: "cidr list"
  ac_requireManagementCidr :: bool
  ac_trustedProxyCidrs :: "cidr list"
  ac_firstEnrollmentToken :: "enrollment_gate option"
  ac_testFixtureSubjects :: "string list"

record registration_info =
  ri_verified :: bool
  ri_id :: string
  ri_publicKey :: string
  ri_counter :: int
  ri_transports :: jsv
  ri_deviceType :: string
  ri_backedUp :: bool

record authentication_info =
  ai_verified :: bool
  ai_present :: bool
  ai_newCounter :: int
  ai_deviceType :: string
  ai_backedUp :: "bool option"

record auth_env =
  ae_sha256 :: "string \<Rightarrow> string"
  ae_token :: "nat \<Rightarrow> string"
  ae_decodeURIComponent :: "string \<Rightarrow> string option"
  ae_registrationOptions :: "nat \<Rightarrow> jsv"
  ae_authenticationOptions :: "(string \<times> jsv) list \<Rightarrow> nat \<Rightarrow> jsv"
  ae_verifyRegistration :: "jsv \<Rightarrow> string \<Rightarrow> string \<Rightarrow> string \<Rightarrow> registration_info option"
  ae_verifyAuthentication :: "jsv \<Rightarrow> string \<Rightarrow> string \<Rightarrow> string \<Rightarrow> string \<times> passkey \<Rightarrow> authentication_info option"

record world =
  wd_store :: store
  wd_clock :: "nat \<Rightarrow> int"
  wd_reads :: nat
  wd_draws :: nat

definition now :: "(world, int) sx" where
  "now = (\<lambda>w. (Inr (wd_clock w (wd_reads w)), w\<lparr>wd_reads := Suc (wd_reads w)\<rparr>))"

definition draw :: "(nat \<Rightarrow> 'a) \<Rightarrow> (world, 'a) sx" where
  "draw f = (\<lambda>w. (Inr (f (wd_draws w)), w\<lparr>wd_draws := Suc (wd_draws w)\<rparr>))"

definition on_store :: "(store \<Rightarrow> 'a \<times> store) \<Rightarrow> (world, 'a) sx" where
  "on_store f = (\<lambda>w. case f (wd_store w) of (r, st) \<Rightarrow> (Inr r, w\<lparr>wd_store := st\<rparr>))"

definition to_store :: "(store \<Rightarrow> store) \<Rightarrow> (world, unit) sx" where
  "to_store f = modifyS (\<lambda>w. w\<lparr>wd_store := f (wd_store w)\<rparr>)"

section \<open>Request checks\<close>

definition DATABASE_ADMIN_AUTHORIZATION_PATH :: string where
  "DATABASE_ADMIN_AUTHORIZATION_PATH = ''/control/internal/database-admin-authorize''"

definition request_path :: "request \<Rightarrow> string" where
  "request_path r = hd (split_on CHR ''?'' (js_String (js_or (rq_url r) (JStr []))))"

definition firstEnrollmentPage :: "request \<Rightarrow> bool" where
  "firstEnrollmentPage r \<longleftrightarrow> request_path r \<in> {''/first-configuration'', ''/first-configuration/''}"

definition appPasskeyRequestHost :: "auth_config \<Rightarrow> request \<Rightarrow> string" where
  "appPasskeyRequestHost cfg r =
     (let directHost = to_lower (js_trim (js_String (js_or (header r ''host'') (JStr [])))) in
      if directHost = ac_publicHost cfg then directHost
      else (let verb = to_upper (js_trim (js_String (js_or (rq_method r) (JStr ''GET''))));
                peerAddress = js_trim (js_String (js_or (rq_remote r) (JStr []))) in
        if verb \<notin> {''GET'', ''HEAD''} \<or> request_path r \<noteq> DATABASE_ADMIN_AUTHORIZATION_PATH
           \<or> \<not> cidrListContains (ac_trustedProxyCidrs cfg) (JStr peerAddress)
        then directHost
        else (let forwardedValues = (case header r ''x-forwarded-host'' of JArr vs \<Rightarrow> vs | v \<Rightarrow> [v]) in
          if length forwardedValues \<noteq> 1 then directHost
          else (let forwardedHost = to_lower (js_trim (js_String (js_or (hd forwardedValues) (JStr [])))) in
            if forwardedHost = [] \<or> CHR '','' \<in> set forwardedHost
               \<or> list_ex (\<lambda>c. code c = 13 \<or> code c = 10) forwardedHost
            then directHost
            else if forwardedHost = ac_publicHost cfg then forwardedHost else directHost))))"

definition nul :: char where
  "nul = CHR 0x00"

definition peer_text :: "auth_config \<Rightarrow> bool \<Rightarrow> string \<Rightarrow> string" where
  "peer_text cfg firstEnrollment clientAddress =
     (if firstEnrollment \<and> ac_firstEnrollmentToken cfg \<noteq> None
      then (case List.find (\<lambda>c. cidrContains c (JStr clientAddress)) (ac_allowedCidrs cfg) of
              None \<Rightarrow> clientAddress
            | Some c \<Rightarrow> cidr_address c @ ''/'' @ show_int (cidr_prefix c))
      else clientAddress)"

definition assertRequest :: "auth_env \<Rightarrow> auth_config \<Rightarrow> request \<Rightarrow> bool \<Rightarrow> bool \<Rightarrow> (string \<times> string) res" where
  "assertRequest E cfg r mutation firstEnrollment =
     (let host = appPasskeyRequestHost cfg r; clientAddress = resolveClientAddress (ac_trustedProxyCidrs cfg) r in
      bindR (requireR (host \<noteq> [] \<and> host = ac_publicHost cfg)
        (CodedError ''The exact Control Center host is required.'' 421)) (\<lambda>_.
      bindR (requireR (clientAddress \<noteq> [])
        (CodedError ''The Control Center client address could not be verified.'' 403)) (\<lambda>_.
      bindR (requireR (\<not> ac_requireManagementCidr cfg \<or> cidrListContains (ac_allowedCidrs cfg) (JStr clientAddress))
        (CodedError ''Passkey authentication is available only from the management LAN.'' 403)) (\<lambda>_.
      bindR (requireR (firstEnrollment \<longrightarrow> cidrListContains (ac_allowedCidrs cfg) (JStr clientAddress))
        (CodedError ''First passkey registration is available only from an approved client address.'' 403)) (\<lambda>_.
      bindR (requireR (mutation \<longrightarrow> js_String (js_or (header r ''origin'') (JStr [])) = ac_publicOrigin cfg)
        (CodedError ''Exact request origin is required.'' 403)) (\<lambda>_.
      bindR (requireR (mutation \<longrightarrow> to_lower (js_trim (js_String (js_or (header r ''sec-fetch-site'') (JStr [])))) = ''same-origin'')
        (CodedError ''Same-origin Fetch Metadata is required.'' 403)) (\<lambda>_.
      Inr (clientAddress, ae_sha256 E (''app-passkey-peer'' @ [nul] @ peer_text cfg firstEnrollment clientAddress)))))))))"

definition assertFirstEnrollmentToken :: "auth_env \<Rightarrow> auth_config \<Rightarrow> jsv \<Rightarrow> (world, unit) sx" where
  "assertFirstEnrollmentToken E cfg rawToken = (case ac_firstEnrollmentToken cfg of
       None \<Rightarrow> returnS ()
     | Some gate \<Rightarrow> bindS now (\<lambda>t.
         (let token = js_trim (js_String (js_or rawToken (JStr []))) in
          requireS (\<not> (t < eg_issuedAt gate - 60000) \<and> t < eg_expiresAt gate
              \<and> hex64 token \<and> ae_sha256 E token = eg_tokenSha256 gate)
            (CodedError ''The first-enrollment token is invalid or expired.'' 403))))"

section \<open>Credentials\<close>

definition is_base64url :: "char \<Rightarrow> bool" where
  "is_base64url c \<longleftrightarrow> is_alnum c \<or> c = CHR ''_'' \<or> c = CHR ''-''"

definition boundedBase64url :: "jsv \<Rightarrow> bool" where
  "boundedBase64url v \<longleftrightarrow> all_in is_base64url 1 4096 (js_String (js_or v (JStr [])))"

definition boundedCredentialId :: "jsv \<Rightarrow> string res" where
  "boundedCredentialId v = (let ident = js_String (js_or v (JStr [])) in
     if \<not> boundedBase64url (JStr ident) \<or> length ident > 1024
     then Inl (CodedError ''The passkey credential id is invalid.'' 400) else Inr ident)"

definition boundedChallenge :: "jsv \<Rightarrow> string res" where
  "boundedChallenge v = (let chal = js_String (js_or v (JStr [])) in
     if all_in is_base64url 16 256 chal then Inr chal
     else Inl (CodedError ''The passkey challenge is invalid.'' 400))"

definition normalizeCredential :: "jsv \<Rightarrow> string \<Rightarrow> jsv res" where
  "normalizeCredential v flow =
     bindR (requireR (is_object v) (CodedError (''The '' @ flow @ '' credential payload is invalid.'') 400)) (\<lambda>_.
     bindR (requireR (getp v ''type'' = JStr ''public-key'') (CodedError (''The '' @ flow @ '' credential type is invalid.'') 400)) (\<lambda>_.
     bindR (boundedCredentialId (getp v ''id'')) (\<lambda>ident.
     bindR (boundedCredentialId (js_or (getp v ''rawId'') (getp v ''id''))) (\<lambda>rawId.
     (let response = getp v ''response'';
          required = (if flow = ''registration'' then [''clientDataJSON'', ''attestationObject'']
                      else [''clientDataJSON'', ''authenticatorData'', ''signature'']) in
      bindR (requireR (is_object response) (CodedError (''The '' @ flow @ '' credential response is invalid.'') 400)) (\<lambda>_.
      bindR (requireR (list_all (\<lambda>k. boundedBase64url (getp response k)) required)
        (CodedError (''The '' @ flow @ '' credential response is incomplete.'') 400)) (\<lambda>_.
      bindR (requireR (nullish (getp response ''userHandle'') \<or> boundedBase64url (getp response ''userHandle''))
        (CodedError ''The passkey user handle is invalid.'' 400)) (\<lambda>_.
      (let texts = (if flow = ''registration'' then [''clientDataJSON'', ''attestationObject'']
                    else [''clientDataJSON'', ''authenticatorData'', ''signature'']
                         @ (if js_truthy (getp response ''userHandle'') then [''userHandle''] else []));
           response2 = fold (\<lambda>k w. set_prop k (JStr (js_String (getp response k))) w) texts response;
           ext = getp v ''clientExtensionResults'';
           attachment = getp v ''authenticatorAttachment''
       in Inr (JObj ([(''id'', JStr ident), (''rawId'', JStr rawId), (''response'', response2),
                      (''type'', JStr ''public-key''),
                      (''clientExtensionResults'', case ext of JObj ps \<Rightarrow> JObj ps | JArr xs \<Rightarrow> JArr xs | _ \<Rightarrow> JObj [])]
                  @ (if js_truthy attachment then [(''authenticatorAttachment'', JStr (js_String attachment))] else []))))))))))))"

section \<open>Sessions and cookies\<close>

definition SESSION_COOKIE :: string where
  "SESSION_COOKIE = ''__Host-platform_cc_session''"

definition CSRF_COOKIE :: string where
  "CSRF_COOKIE = ''__Host-platform_cc_csrf''"

definition max_age :: "int \<Rightarrow> int \<Rightarrow> string" where
  "max_age expiresAt t = show_int (max 0 ((expiresAt - t) div 1000))"

definition sessionCookie :: "string \<Rightarrow> int \<Rightarrow> int \<Rightarrow> string" where
  "sessionCookie token expiresAt t = SESSION_COOKIE @ ''='' @ token @ ''; Path=/; Max-Age='' @ max_age expiresAt t
     @ ''; HttpOnly; Secure; SameSite=Lax''"

definition csrfCookie :: "string \<Rightarrow> int \<Rightarrow> int \<Rightarrow> string" where
  "csrfCookie token expiresAt t = CSRF_COOKIE @ ''='' @ token @ ''; Path=/; Max-Age='' @ max_age expiresAt t
     @ ''; Secure; SameSite=Strict''"

definition clearSessionCookies :: "string list" where
  "clearSessionCookies = [SESSION_COOKIE @ ''=; Path=/; Max-Age=0; HttpOnly; Secure; SameSite=Lax'',
     CSRF_COOKIE @ ''=; Path=/; Max-Age=0; Secure; SameSite=Strict'']"

text \<open>One \<open>name=value\<close> part; a part that does not decode is skipped, a later name replaces an earlier.\<close>

definition cookie_part :: "auth_env \<Rightarrow> string \<Rightarrow> (string \<times> string) option" where
  "cookie_part E part =
     (let name = takeWhile (\<lambda>c. c \<noteq> CHR ''='') part; rest = dropWhile (\<lambda>c. c \<noteq> CHR ''='') part in
      if rest = [] \<or> name = [] then None
      else (case (ae_decodeURIComponent E (js_trim name), ae_decodeURIComponent E (js_trim (tl rest))) of
              (Some k, Some v) \<Rightarrow> Some (k, v) | _ \<Rightarrow> None))"

definition parseCookie :: "auth_env \<Rightarrow> jsv \<Rightarrow> (string \<times> string) list" where
  "parseCookie E v = fold (\<lambda>part out. case cookie_part E part of None \<Rightarrow> out | Some (k, x) \<Rightarrow> AList.update k x out)
     (split_on CHR '';'' (js_String (js_or v (JStr [])))) []"

definition cookie :: "auth_env \<Rightarrow> request \<Rightarrow> string \<Rightarrow> string" where
  "cookie E r name = (case map_of (parseCookie E (js_or (header r ''cookie'') (JStr []))) name of None \<Rightarrow> [] | Some v \<Rightarrow> v)"

record session_result =
  sr_cookies :: "string list"
  sr_role :: string
  sr_subject :: string
  sr_sessionTokenHash :: string

definition createSessionResult :: "auth_env \<Rightarrow> auth_config \<Rightarrow> (world, session_result) sx" where
  "createSessionResult E cfg =
     bindS (draw (ae_token E)) (\<lambda>rawSessionToken.
     bindS (draw (ae_token E)) (\<lambda>rawCsrfToken.
     bindS now (\<lambda>authTime.
     bindS now (\<lambda>t.
     (let expiresAt = t + ac_sessionMaxAgeSeconds cfg * 1000;
          tokenHash = ae_sha256 E rawSessionToken;
          item = \<lparr>se_csrfHash = ae_sha256 E rawCsrfToken, se_policyVersion = ac_sessionPolicyVersion cfg,
                   se_subject = ac_adminSubject cfg, se_email = ac_adminEmail cfg,
                   se_displayName = ac_adminDisplayName cfg, se_role = ''owner'', se_roles = [''owner''],
                   se_acr = ''app-passkey'', se_amr = [''webauthn''], se_authTime = authTime,
                   se_issuer = ac_publicOrigin cfg, se_sessionId = [], se_keyId = [], se_expiresAt = expiresAt,
                   se_createdAt = 0, se_lastSeenAt = 0, se_revokedAt = None\<rparr> in
      bindS now (\<lambda>t1.
      bindS (to_store (createSession tokenHash item t1)) (\<lambda>_.
      bindS now (\<lambda>t2.
      bindS now (\<lambda>t3.
      returnS \<lparr>sr_cookies = [sessionCookie rawSessionToken expiresAt t2, csrfCookie rawCsrfToken expiresAt t3],
               sr_role = ''owner'', sr_subject = ac_adminSubject cfg, sr_sessionTokenHash = tokenHash\<rparr>))))))))) "

section \<open>First enrolment\<close>

definition new_challenge :: "auth_env \<Rightarrow> auth_config \<Rightarrow> string \<Rightarrow> string \<Rightarrow> jsv \<Rightarrow> (world, unit) sx" where
  "new_challenge E cfg flow peerHash options =
     (let chal = js_String (getp options ''challenge'') in
      bindS now (\<lambda>t.
      bindS now (\<lambda>t1.
      to_store (createWebAuthnChallenge (ae_sha256 E chal)
        \<lparr>ch_challenge = chal, ch_flow = flow, ch_userId = ac_adminSubject cfg, ch_peerHash = peerHash,
         ch_expiresAt = t + ac_challengeTtlSeconds cfg * 1000\<rparr> t1))))"

definition list_passkeys :: "auth_config \<Rightarrow> (world, (string \<times> passkey) list) sx" where
  "list_passkeys cfg = bindS now (\<lambda>t. on_store (listPasskeys (ac_adminSubject cfg) t))"

definition beginPasskeyRegistration :: "auth_env \<Rightarrow> auth_config \<Rightarrow> request \<Rightarrow> jsv \<Rightarrow> (world, jsv) sx" where
  "beginPasskeyRegistration E cfg r bootstrapToken =
     bindS (liftS (assertRequest E cfg r True True)) (\<lambda>(clientAddress, peerHash).
     bindS (list_passkeys cfg) (\<lambda>existing.
     bindS (requireS (existing = [])
       (CodedError ''A Control Center passkey is already registered. Authenticate to manage it.'' 409)) (\<lambda>_.
     bindS (assertFirstEnrollmentToken E cfg bootstrapToken) (\<lambda>_.
     bindS (draw (ae_registrationOptions E)) (\<lambda>options.
     bindS (new_challenge E cfg ''registration'' peerHash options) (\<lambda>_.
     returnS options))))))"

definition consume :: "auth_env \<Rightarrow> auth_config \<Rightarrow> string \<Rightarrow> string \<Rightarrow> string \<Rightarrow> (world, challenge option) sx" where
  "consume E cfg chal flow peerHash = bindS now (\<lambda>t.
     on_store (consumeWebAuthnChallenge (ae_sha256 E chal) chal flow (ac_adminSubject cfg) peerHash t))"

text \<open>The ceremony after its challenge has been consumed.\<close>

definition verify_registration :: "auth_env \<Rightarrow> auth_config \<Rightarrow> string \<Rightarrow> jsv \<Rightarrow> (world, session_result) sx" where
  "verify_registration E cfg chal credential =
     (case ae_verifyRegistration E credential chal (ac_publicOrigin cfg) (ac_rpId cfg) of
       None \<Rightarrow> throwS (CodedError ''The passkey registration assertion is invalid.'' 401)
     | Some info \<Rightarrow>
         bindS (requireS (ri_verified info \<and> ri_id info \<noteq> [] \<and> ri_publicKey info \<noteq> [])
           (CodedError ''The passkey registration assertion was not verified.'' 401)) (\<lambda>_.
         bindS (list_passkeys cfg) (\<lambda>stored.
         bindS (requireS (stored = []) (CodedError ''A Control Center passkey is already registered.'' 409)) (\<lambda>_.
         bindS now (\<lambda>createdAt.
         bindS now (\<lambda>t.
         bindS now (\<lambda>t1.
         bindS (on_store (createPasskey (ri_id info)
            \<lparr>pk_userId = ac_adminSubject cfg, pk_webauthnUserId = ac_webauthnUserId cfg,
             pk_publicKey = ri_publicKey info, pk_counter = ri_counter info,
             pk_transports = js_or (ri_transports info)
               (js_or (getp (getp credential ''response'') ''transports'') (JArr [])),
             pk_deviceType = ri_deviceType info, pk_backedUp = ri_backedUp info,
             pk_createdAt = createdAt, pk_expiresAt = t + ac_passkeyTtlSeconds cfg * 1000,
             pk_lastUsedAt = None, pk_updatedAt = None\<rparr> t1)) (\<lambda>created.
         bindS (requireS created (CodedError ''A Control Center passkey is already registered.'' 409)) (\<lambda>_.
         createSessionResult E cfg)))))))))"

definition completePasskeyRegistration :: "auth_env \<Rightarrow> auth_config \<Rightarrow> request \<Rightarrow> jsv \<Rightarrow> (world, session_result) sx" where
  "completePasskeyRegistration E cfg r payload =
     bindS (liftS (assertRequest E cfg r True True)) (\<lambda>(clientAddress, peerHash).
     bindS (list_passkeys cfg) (\<lambda>existing.
     bindS (requireS (existing = []) (CodedError ''A Control Center passkey is already registered.'' 409)) (\<lambda>_.
     bindS (assertFirstEnrollmentToken E cfg (getp payload ''bootstrapToken'')) (\<lambda>_.
     bindS (liftS (boundedChallenge (getp payload ''challenge''))) (\<lambda>chal.
     bindS (liftS (normalizeCredential (js_or (getp payload ''credential'') payload) ''registration'')) (\<lambda>credential.
     bindS (consume E cfg chal ''registration'' peerHash) (\<lambda>consumed.
     bindS (requireS (consumed \<noteq> None) (CodedError ''The passkey registration challenge is invalid or expired.'' 401)) (\<lambda>_.
     verify_registration E cfg chal credential))))))))"

section \<open>Login\<close>

definition throttle_key :: "auth_env \<Rightarrow> string \<Rightarrow> string" where
  "throttle_key E peerHash = ae_sha256 E (''app-passkey-login'' @ [nul] @ peerHash)"

definition beginLogin :: "auth_env \<Rightarrow> auth_config \<Rightarrow> request \<Rightarrow> (world, jsv) sx" where
  "beginLogin E cfg r =
     bindS (liftS (assertRequest E cfg r True (firstEnrollmentPage r))) (\<lambda>(clientAddress, peerHash).
     bindS now (\<lambda>t.
     bindS (on_store (registerLoginAttempt (throttle_key E peerHash) (ac_loginMaxAttempts cfg)
        (ac_loginWindowSeconds cfg) (ac_loginLockSeconds cfg) t)) (\<lambda>permit.
     bindS (requireS (allowed permit) (CodedError ''Too many authentication attempts. Retry later.'' 429)) (\<lambda>_.
     bindS (list_passkeys cfg) (\<lambda>credentials.
     bindS (requireS (credentials \<noteq> []) (CodedError ''No Control Center passkey is registered yet.'' 409)) (\<lambda>_.
     bindS (draw (ae_authenticationOptions E (map (\<lambda>(k, p). (k, pk_transports p)) credentials))) (\<lambda>options.
     bindS (new_challenge E cfg ''authentication'' peerHash options) (\<lambda>_.
     returnS options))))))))"

text \<open>The ceremony after its challenge has been consumed.\<close>

definition verify_login :: "auth_env \<Rightarrow> auth_config \<Rightarrow> string \<Rightarrow> string \<Rightarrow> jsv \<Rightarrow> (world, session_result) sx" where
  "verify_login E cfg peerHash chal credential =
     bindS (list_passkeys cfg) (\<lambda>credentials.
     case List.find (\<lambda>(k, p). JStr k = getp credential ''id'') credentials of
       None \<Rightarrow> throwS (CodedError ''The supplied passkey is not registered for this Control Center.'' 401)
     | Some (ident, current) \<Rightarrow>
        (case ae_verifyAuthentication E credential chal (ac_publicOrigin cfg) (ac_rpId cfg) (ident, current) of
           None \<Rightarrow> throwS (CodedError ''The passkey authentication assertion is invalid.'' 401)
         | Some info \<Rightarrow>
             bindS (requireS (ai_verified info \<and> ai_present info)
               (CodedError ''The passkey authentication assertion was not verified.'' 401)) (\<lambda>_.
             bindS now (\<lambda>t.
             bindS (on_store (updatePasskeyCounter ident (ac_adminSubject cfg) (ai_newCounter info)
                (ai_deviceType info) (ai_backedUp info) t)) (\<lambda>updated.
             bindS (requireS updated (CodedError ''The passkey counter is stale; authenticate again.'' 401)) (\<lambda>_.
             bindS (to_store (clearLoginThrottle (throttle_key E peerHash))) (\<lambda>_.
             createSessionResult E cfg)))))))"

definition completeLogin :: "auth_env \<Rightarrow> auth_config \<Rightarrow> request \<Rightarrow> jsv \<Rightarrow> (world, session_result) sx" where
  "completeLogin E cfg r payload =
     bindS (liftS (assertRequest E cfg r True (firstEnrollmentPage r))) (\<lambda>(clientAddress, peerHash).
     bindS (liftS (boundedChallenge (getp payload ''challenge''))) (\<lambda>chal.
     bindS (liftS (normalizeCredential (js_or (getp payload ''credential'') payload) ''authentication'')) (\<lambda>credential.
     bindS (consume E cfg chal ''authentication'' peerHash) (\<lambda>consumed.
     bindS (requireS (consumed \<noteq> None) (CodedError ''The passkey authentication challenge is invalid or expired.'' 401)) (\<lambda>_.
     verify_login E cfg peerHash chal credential)))))"

section \<open>Authentication and authorization\<close>

record grant =
  gr_role :: string
  gr_sessionTokenHash :: string
  gr_session :: session
  gr_csrfToken :: string

datatype decision = Granted grant | Denied nat string string

definition isLoopback :: "string \<Rightarrow> bool" where
  "isLoopback host \<longleftrightarrow> to_lower host \<in> {''127.0.0.1'', ''::1'', ''localhost''}"

fun error_status :: "js_error \<Rightarrow> nat" where
  "error_status (CodedError m st) = (if st = 0 then 403 else st)"
| "error_status (PlainError m) = 403"

fun error_message :: "js_error \<Rightarrow> string" where
  "error_message (CodedError m st) = m"
| "error_message (PlainError m) = m"

definition session_accepted :: "auth_config \<Rightarrow> session \<Rightarrow> bool" where
  "session_accepted cfg s \<longleftrightarrow> se_policyVersion s = ac_sessionPolicyVersion cfg
     \<and> (se_subject s = ac_adminSubject cfg
        \<or> (ac_nodeEnvironment cfg = ''test'' \<and> ac_store cfg = ''memory'' \<and> isLoopback (ac_bindHost cfg)
            \<and> se_subject s \<in> set (ac_testFixtureSubjects cfg)))"

definition authenticate :: "auth_env \<Rightarrow> auth_config \<Rightarrow> request \<Rightarrow> (world, decision) sx" where
  "authenticate E cfg r = (case assertRequest E cfg r False (firstEnrollmentPage r) of
       Inl e \<Rightarrow> returnS (Denied (error_status e)
          (if error_message e = [] then ''Admin authentication required.'' else error_message e) ''admin_request_rejected'')
     | Inr _ \<Rightarrow>
        (let token = cookie E r SESSION_COOKIE in
         if token = [] then returnS (Denied 401 ''Admin authentication required.'' [])
         else bindS now (\<lambda>t.
              bindS (on_store (getSession (ae_sha256 E token) (ac_sessionIdleSeconds cfg) t)) (\<lambda>found.
              case found of
                None \<Rightarrow> returnS (Denied 401 ''Admin authentication required.'' [])
              | Some s \<Rightarrow>
                  if \<not> session_accepted cfg s then returnS (Denied 401 ''Admin authentication required.'' [])
                  else (let csrfToken = cookie E r CSRF_COOKIE;
                            csrfCookieValid = (csrfToken \<noteq> [] \<and> ae_sha256 E csrfToken = se_csrfHash s)
                        in returnS (Granted \<lparr>gr_role = se_role s, gr_sessionTokenHash = ae_sha256 E token,
                             gr_session = s, gr_csrfToken = (if csrfCookieValid then csrfToken else [])\<rparr>)))))) "

definition request_method :: "request \<Rightarrow> string" where
  "request_method r = to_upper (js_String (js_or (rq_method r) (JStr ''GET'')))"

definition authorize :: "auth_config \<Rightarrow> request \<Rightarrow> capability option \<Rightarrow> string \<Rightarrow> decision \<Rightarrow> (world, decision) sx" where
  "authorize cfg r declared pathname d = (case d of
       Denied st m e \<Rightarrow> returnS d
     | Granted g \<Rightarrow>
        (let capab = (case declared of Some c \<Rightarrow> c
               | None \<Rightarrow> op_capability (resolveAuthorizationCapability (request_method r) pathname pathname)) in
         if capab = Deny then returnS (Denied 403 ''Endpoint capability is not declared.'' ''endpoint_capability_denied'')
         else if capab = Owner \<and> gr_role g \<noteq> ''owner'' then returnS (Denied 403 ''Platform owner authorization required.'' [])
         else if capab = OwnerFresh \<and> gr_role g \<noteq> ''owner'' then returnS (Denied 403 ''Platform owner authorization required.'' [])
         else if capab = OwnerFresh then
           bindS now (\<lambda>t1. bindS now (\<lambda>t2.
             if se_authTime (gr_session g) > t1
                \<or> t2 - se_authTime (gr_session g) > ac_freshAuthSeconds cfg * 1000
             then returnS (Denied 428 ''A recent passkey authentication is required.'' ''admin_reauthentication_required'')
             else returnS d))
         else if capab = Admin \<and> gr_role g \<notin> {''owner'', ''admin''}
         then returnS (Denied 403 ''Administrative authorization required.'' [])
         else if capab = Viewer \<and> gr_role g \<notin> {''owner'', ''admin'', ''viewer''}
         then returnS (Denied 403 ''Control Center authorization required.'' [])
         else returnS d))"

section \<open>Mutating requests\<close>

definition boundary_char :: "char \<Rightarrow> bool" where
  "boundary_char c \<longleftrightarrow> is_alnum c \<or> c \<in> {CHR 0x27, CHR ''('', CHR '')'', CHR ''+'', CHR ''_'', CHR '','', CHR ''.'',
     CHR ''/'', CHR '':'', CHR ''='', CHR ''?'', CHR ''-''}"

text \<open>The pattern of a multipart content type with a boundary, plain or quoted.\<close>

definition multipart_boundary :: "string \<Rightarrow> bool" where
  "multipart_boundary b =
     (let t = rev (dropWhile is_js_space (rev b)) in
      if t \<noteq> [] \<and> hd t = CHR 0x22
      then length t \<ge> 3 \<and> last t = CHR 0x22 \<and> all_in (\<lambda>c. boundary_char c \<or> c = CHR '' '') 1 70 (butlast (tl t))
      else all_in boundary_char 1 70 t)"

definition is_multipart :: "string \<Rightarrow> bool" where
  "is_multipart s =
     (to_lower (take 19 s) = ''multipart/form-data'' \<and>
      (let a = dropWhile is_js_space (drop 19 s) in a \<noteq> [] \<and> hd a = CHR '';'' \<and>
        (let b = dropWhile is_js_space (tl a) in
         to_lower (take 9 b) = ''boundary='' \<and> multipart_boundary (drop 9 b))))"

definition STREAMED_MULTIPART_OPERATIONS :: "string list" where
  "STREAMED_MULTIPART_OPERATIONS = [''ai.conversations.attachments.create'', ''ai.conversations.uploads.chunk'']"

definition streamed_multipart :: "operation option \<Rightarrow> bool" where
  "streamed_multipart declared = (case declared of None \<Rightarrow> False
     | Some op \<Rightarrow> op_classified op \<and> op_control op \<and> op_method op = ''POST'' \<and> op_capability op = Viewer
         \<and> op_operationId op \<in> set STREAMED_MULTIPART_OPERATIONS)"

definition validateMutation ::
  "auth_env \<Rightarrow> auth_config \<Rightarrow> request \<Rightarrow> operation option \<Rightarrow> jsv res \<Rightarrow> decision \<Rightarrow> decision res" where
  "validateMutation E cfg r declared readPayload d =
     (if request_method r \<in> {''GET'', ''HEAD'', ''OPTIONS''} then Inr d
      else (case assertRequest E cfg r True (firstEnrollmentPage r) of
        Inl e \<Rightarrow> Inr (Denied (error_status e) (if error_message e = [] then ''Request rejected.'' else error_message e)
          (if error_message e = ''Exact request origin is required.'' then ''csrf_origin_rejected''
           else if error_message e = ''Same-origin Fetch Metadata is required.'' then ''csrf_fetch_site_rejected''
           else ''admin_request_rejected''))
      | Inr _ \<Rightarrow>
        if js_String (js_or (header r ''origin'') (JStr [])) \<noteq> ac_publicOrigin cfg
        then Inr (Denied 403 ''Exact request origin is required.'' ''csrf_origin_rejected'')
        else if to_lower (js_String (js_or (header r ''sec-fetch-site'') (JStr []))) \<noteq> ''same-origin''
        then Inr (Denied 403 ''Same-origin Fetch Metadata is required.'' ''csrf_fetch_site_rejected'')
        else if streamed_multipart declared
                \<and> \<not> is_multipart (js_String (js_or (header r ''content-type'') (JStr [])))
        then Inr (Denied 415 ''Multipart upload content type is required.'' ''upload_content_type_rejected'')
        else bindR (if streamed_multipart declared then Inr JNull else readPayload) (\<lambda>payload.
          (let provided = js_String (js_or (header r ''x-csrf-token'') (js_or (getp payload ''_csrf'') (JStr [])));
               expected = (case d of Granted g \<Rightarrow> gr_csrfToken g | Denied _ _ _ \<Rightarrow> [])
           in if provided = [] \<or> expected = [] \<or> provided \<noteq> expected
              then Inr (Denied 403 ''CSRF validation failed.'' ''csrf_token_rejected'')
              else Inr d))))"

definition logout :: "auth_env \<Rightarrow> request \<Rightarrow> (world, string list) sx" where
  "logout E r =
     (let token = cookie E r SESSION_COOKIE in
      bindS (if token = [] then returnS ()
             else bindS now (\<lambda>t. to_store (revokeSession (ae_sha256 E token) t))) (\<lambda>_.
      returnS clearSessionCookies))"

section \<open>The gate of the server\<close>

text \<open>
  What \<open>server.mjs\<close> does before it dispatches a request: one resolution of the operation,
  authentication, authorization (again for the secrets section), the mutation checks.
\<close>

datatype gated = Dispatched operation grant | Refused decision

definition request_gate ::
  "auth_env \<Rightarrow> auth_config \<Rightarrow> request \<Rightarrow> string \<Rightarrow> string \<Rightarrow> bool \<Rightarrow> jsv res \<Rightarrow> (world, gated) sx" where
  "request_gate E cfg r pathname rawPathname secretsSection readPayload =
     (let requestOperation = resolveAuthorizationCapability (js_String (js_or (rq_method r) (JStr ''GET''))) pathname rawPathname;
          controlOperation = (if op_control requestOperation then Some requestOperation else None) in
      bindS (authenticate E cfg r) (\<lambda>session.
      case session of
        Denied _ _ _ \<Rightarrow> returnS (Refused session)
      | Granted g \<Rightarrow>
      bindS (authorize cfg r (map_option op_capability controlOperation) pathname session) (\<lambda>authorization.
      case authorization of
        Denied _ _ _ \<Rightarrow> returnS (Refused authorization)
      | Granted g1 \<Rightarrow>
      bindS (if rq_method r = JStr ''GET'' \<and> pathname \<in> {''/'', ''/index.html''} \<and> secretsSection
             then authorize cfg r (Some Owner) pathname session else returnS session) (\<lambda>secrets.
      case secrets of
        Denied _ _ _ \<Rightarrow> returnS (Refused secrets)
      | Granted g2 \<Rightarrow>
      bindS (liftS (validateMutation E cfg r controlOperation readPayload authorization)) (\<lambda>csrf.
      case csrf of
        Denied _ _ _ \<Rightarrow> returnS (Refused csrf)
      | Granted g3 \<Rightarrow> returnS (Dispatched requestOperation g))))))"

section \<open>What a dispatched request guarantees\<close>

lemma code_char_of: "n < 256 \<Longrightarrow> code (char_of n) = n"
  by (simp add: code_def)

lemma upper_char_idem: "upper_char (upper_char c) = upper_char c"
proof (cases "has_upper c")
  case True
  have "code c < 256" by (simp add: code_def)
  then have "code (char_of (code c - 32)) = code c - 32" by (simp add: code_char_of)
  then have "\<not> has_upper (char_of (code c - 32))" using True by (auto simp: has_upper_def is_lower_def)
  with True show ?thesis by (simp add: upper_char_def)
qed (simp add: upper_char_def)

lemma to_upper_idem: "to_upper (to_upper s) = to_upper s"
  by (simp add: to_upper_def upper_char_idem)

lemma request_verb_method: "request_verb (request_method r) = request_verb (js_String (js_or (rq_method r) (JStr ''GET'')))"
  by (simp add: request_verb_def request_method_def to_upper_idem) (simp add: to_upper_def)

text \<open>Authorization resolves a path outside the Control API again; it can only be stricter.\<close>

lemma resolve_again:
  assumes "request_verb m' = request_verb m" and "\<not> op_control (resolveAuthorizationCapability m p raw)"
  shows "op_capability (resolveAuthorizationCapability m' p p) \<in> {Deny, op_capability (resolveAuthorizationCapability m p raw)}"
proof -
  have "resolveAuthorizationCapability m p raw = resolve_path (request_verb m) p"
    using assms(2) by (auto simp: resolveAuthorizationCapability_def split: if_splits)
  with assms(1) show ?thesis by (simp add: resolveAuthorizationCapability_def)
qed

lemma authenticate_Granted:
  assumes "authenticate E cfg r w = (Inr (Granted g), w')"
  shows "\<exists>token t s. token = cookie E r SESSION_COOKIE \<and> token \<noteq> [] \<and> t = wd_clock w (wd_reads w)
    \<and> map_of (sessions (wd_store w)) (ae_sha256 E token) = Some s
    \<and> se_revokedAt s = None \<and> t < se_expiresAt s \<and> t - ac_sessionIdleSeconds cfg * 1000 < se_lastSeenAt s
    \<and> session_accepted cfg s \<and> gr_role g = se_role s \<and> gr_session g = s\<lparr>se_lastSeenAt := t\<rparr>
    \<and> (gr_csrfToken g \<noteq> [] \<longrightarrow> gr_csrfToken g = cookie E r CSRF_COOKIE \<and> ae_sha256 E (gr_csrfToken g) = se_csrfHash s)"
proof -
  have acc: "session_accepted cfg (s\<lparr>se_lastSeenAt := t\<rparr>) = session_accepted cfg s" for s :: session and t
    by (simp add: session_accepted_def)
  from assms show ?thesis
    by (auto simp: authenticate_def sx_defs now_def on_store_def getSession_def Let_def acc
        split: sum.splits if_splits option.splits)
qed

lemma authorize_Granted:
  assumes "authorize cfg r declared p (Granted g) w = (Inr (Granted g'), w')"
  shows "g' = g \<and> (let capab = (case declared of Some c \<Rightarrow> c
               | None \<Rightarrow> op_capability (resolveAuthorizationCapability (request_method r) p p)) in
      capab \<noteq> Deny
    \<and> (capab \<in> {Owner, OwnerFresh} \<longrightarrow> gr_role g = ''owner'')
    \<and> (capab = OwnerFresh \<longrightarrow> wd_clock w (Suc (wd_reads w)) - se_authTime (gr_session g) \<le> ac_freshAuthSeconds cfg * 1000)
    \<and> (capab = Admin \<longrightarrow> gr_role g \<in> {''owner'', ''admin''})
    \<and> (capab = Viewer \<longrightarrow> gr_role g \<in> {''owner'', ''admin'', ''viewer''}))"
  using assms
  by (auto simp: authorize_def sx_defs now_def Let_def split: if_splits)

lemma assertRequest_mutation:
  "assertRequest E cfg r True first = Inr x \<Longrightarrow> js_String (js_or (header r ''origin'') (JStr [])) = ac_publicOrigin cfg"
  by (auto simp: assertRequest_def Let_def res_simps)

lemma validateMutation_Granted:
  assumes "validateMutation E cfg r declared payload (Granted g) = Inr (Granted g')"
    and "request_method r \<notin> {''GET'', ''HEAD'', ''OPTIONS''}"
  shows "js_String (js_or (header r ''origin'') (JStr [])) = ac_publicOrigin cfg
    \<and> to_lower (js_String (js_or (header r ''sec-fetch-site'') (JStr []))) = ''same-origin''
    \<and> gr_csrfToken g \<noteq> []
    \<and> (js_String (header r ''x-csrf-token'') = gr_csrfToken g
       \<or> (\<exists>p. payload = Inr p \<and> js_String (getp p ''_csrf'') = gr_csrfToken g))"
  using assms
  by (auto simp: validateMutation_def Let_def res_simps js_or_def split: sum.splits if_splits)

definition role_suffices :: "capability \<Rightarrow> string \<Rightarrow> bool" where
  "role_suffices c role = (case c of Viewer \<Rightarrow> role \<in> {''owner'', ''admin'', ''viewer''}
     | Admin \<Rightarrow> role \<in> {''owner'', ''admin''} | Owner \<Rightarrow> role = ''owner'' | OwnerFresh \<Rightarrow> role = ''owner'' | Deny \<Rightarrow> False)"

lemma gate_step:
  "bindS m (\<lambda>d. case d of Granted g \<Rightarrow> k d g | Denied st msg e \<Rightarrow> returnS (Refused d)) w = (Inr (Dispatched op g'), w') \<longleftrightarrow>
     (\<exists>g w1. m w = (Inr (Granted g), w1) \<and> k (Granted g) g w1 = (Inr (Dispatched op g'), w'))"
  by (auto simp: bindS_Inr basicS_iff split: decision.splits) (metis decision.exhaust decision.simps(5) decision.simps(6) gated.distinct(1))+

lemma request_gate_steps:
  assumes "request_gate E cfg r p raw secrets payload w = (Inr (Dispatched op g), w')"
  shows "\<exists>w1 w2 declared. op = resolveAuthorizationCapability (js_String (js_or (rq_method r) (JStr ''GET''))) p raw
    \<and> declared = (if op_control op then Some op else None)
    \<and> authenticate E cfg r w = (Inr (Granted g), w1)
    \<and> authorize cfg r (map_option op_capability declared) p (Granted g) w1 = (Inr (Granted g), w2)
    \<and> validateMutation E cfg r declared payload (Granted g) = Inr (Granted g)"
proof -
  define ro where "ro = resolveAuthorizationCapability (js_String (js_or (rq_method r) (JStr ''GET''))) p raw"
  define declared where "declared = (if op_control ro then Some ro else None)"
  from assms obtain g0 w1 a1 w2 c where
      1: "authenticate E cfg r w = (Inr (Granted g0), w1)" and
      2: "authorize cfg r (map_option op_capability declared) p (Granted g0) w1 = (Inr (Granted a1), w2)" and
      3: "validateMutation E cfg r declared payload (Granted a1) = Inr (Granted c)" and
      4: "op = ro" "g = g0"
    unfolding request_gate_def ro_def [symmetric] declared_def [symmetric] Let_def
    by (auto simp: gate_step basicS_iff dest!: sym [of "Inr _" "validateMutation _ _ _ _ _ _"])
  have "a1 = g0" using authorize_Granted [OF 2] by simp
  moreover have "c = a1" using 3
    by (auto simp: validateMutation_def Let_def res_simps split: sum.splits if_splits)
  ultimately show ?thesis using 1 2 3 4 ro_def declared_def by blast
qed

text \<open>
  C1. A request the server dispatches carries the cookie of a stored session that is neither
  revoked nor expired nor idle and that the configuration accepts; its operation is declared
  and the session's role suffices for the operation's capability, for an owner-fresh operation
  with a recent passkey authentication; and if the method changes state, the request is from
  the control center's own origin and presents the session's own CSRF token.
\<close>

theorem dispatched_request_is_authorized:
  assumes run: "request_gate E cfg r pathname rawPathname secretsSection readPayload w = (Inr (Dispatched op g), w')"
  shows "\<exists>s. map_of (sessions (wd_store w)) (ae_sha256 E (cookie E r SESSION_COOKIE)) = Some s
      \<and> se_revokedAt s = None \<and> wd_clock w (wd_reads w) < se_expiresAt s
      \<and> wd_clock w (wd_reads w) - ac_sessionIdleSeconds cfg * 1000 < se_lastSeenAt s \<and> session_accepted cfg s
      \<and> op = resolveAuthorizationCapability (js_String (js_or (rq_method r) (JStr ''GET''))) pathname rawPathname
      \<and> role_suffices (op_capability op) (se_role s)
      \<and> (op_capability op = OwnerFresh \<longrightarrow> (\<exists>n. wd_clock w n - se_authTime s \<le> ac_freshAuthSeconds cfg * 1000))
      \<and> (request_method r \<notin> {''GET'', ''HEAD'', ''OPTIONS''} \<longrightarrow>
           js_String (js_or (header r ''origin'') (JStr [])) = ac_publicOrigin cfg
         \<and> to_lower (js_String (js_or (header r ''sec-fetch-site'') (JStr []))) = ''same-origin''
         \<and> (\<exists>token. token \<noteq> [] \<and> ae_sha256 E token = se_csrfHash s \<and> token = cookie E r CSRF_COOKIE
              \<and> (js_String (header r ''x-csrf-token'') = token
                 \<or> (\<exists>p. readPayload = Inr p \<and> js_String (getp p ''_csrf'') = token))))"
proof -
  define declared where "declared = (if op_control op then Some op else None)"
  from request_gate_steps [OF run] obtain w1 w2 where
      op: "op = resolveAuthorizationCapability (js_String (js_or (rq_method r) (JStr ''GET''))) pathname rawPathname" and
      1: "authenticate E cfg r w = (Inr (Granted g), w1)" and
      2: "authorize cfg r (map_option op_capability declared) pathname (Granted g) w1 = (Inr (Granted g), w2)" and
      3: "validateMutation E cfg r declared readPayload (Granted g) = Inr (Granted g)"
    unfolding declared_def by blast
  from authenticate_Granted [OF 1] obtain s where
      s: "map_of (sessions (wd_store w)) (ae_sha256 E (cookie E r SESSION_COOKIE)) = Some s" "se_revokedAt s = None"
        "wd_clock w (wd_reads w) < se_expiresAt s"
        "wd_clock w (wd_reads w) - ac_sessionIdleSeconds cfg * 1000 < se_lastSeenAt s" "session_accepted cfg s"
      and g: "gr_role g = se_role s" "se_authTime (gr_session g) = se_authTime s"
        "gr_csrfToken g \<noteq> [] \<longrightarrow> gr_csrfToken g = cookie E r CSRF_COOKIE \<and> ae_sha256 E (gr_csrfToken g) = se_csrfHash s"
    by auto
  have clock: "wd_clock w1 = wd_clock w"
    using 1 by (auto simp: authenticate_def sx_defs now_def on_store_def getSession_def Let_def
        split: sum.splits if_splits option.splits)
  define capab where "capab = (case map_option op_capability declared of Some c \<Rightarrow> c
      | None \<Rightarrow> op_capability (resolveAuthorizationCapability (request_method r) pathname pathname))"
  have auth: "capab \<noteq> Deny" "capab \<in> {Owner, OwnerFresh} \<longrightarrow> gr_role g = ''owner''"
      "capab = OwnerFresh \<longrightarrow> wd_clock w (Suc (wd_reads w1)) - se_authTime s \<le> ac_freshAuthSeconds cfg * 1000"
      "capab = Admin \<longrightarrow> gr_role g \<in> {''owner'', ''admin''}" "capab = Viewer \<longrightarrow> gr_role g \<in> {''owner'', ''admin'', ''viewer''}"
    using authorize_Granted [OF 2] g(2) clock unfolding capab_def Let_def by simp_all
  have cap: "op_capability op = capab"
    using auth(1) resolve_again [OF request_verb_method, of r pathname rawPathname] op
    by (auto simp: capab_def declared_def split: if_splits)
  have "role_suffices (op_capability op) (se_role s)"
    using auth g(1) unfolding cap role_suffices_def by (cases capab) auto
  moreover have "op_capability op = OwnerFresh \<longrightarrow> (\<exists>n. wd_clock w n - se_authTime s \<le> ac_freshAuthSeconds cfg * 1000)"
    using auth(3) cap by blast
  moreover note validateMutation_Granted [OF 3] g(3)
  ultimately show ?thesis using s op by (intro exI [of _ s]) auto
qed

definition sample_auth_env :: auth_env where
  "sample_auth_env = \<lparr>ae_sha256 = (\<lambda>s. s), ae_token = (\<lambda>n. ''token'' @ show_int (int n)), ae_decodeURIComponent = Some,
     ae_registrationOptions = (\<lambda>n. JObj [(''challenge'', JStr ''abcdefghijklmnop'')]),
     ae_authenticationOptions = (\<lambda>cs n. JObj [(''challenge'', JStr ''abcdefghijklmnop'')]),
     ae_verifyRegistration = (\<lambda>c chal origin rp. Some \<lparr>ri_verified = True, ri_id = ''cred'', ri_publicKey = ''key'',
        ri_counter = 0, ri_transports = JUndef, ri_deviceType = ''singleDevice'', ri_backedUp = False\<rparr>),
     ae_verifyAuthentication = (\<lambda>c chal origin rp p. Some \<lparr>ai_verified = True, ai_present = True,
        ai_newCounter = 1, ai_deviceType = [], ai_backedUp = None\<rparr>)\<rparr>"

definition sample_auth_config :: auth_config where
  "sample_auth_config = \<lparr>ac_nodeEnvironment = ''production'', ac_store = ''postgres'', ac_bindHost = ''0.0.0.0'',
     ac_publicOrigin = ''https://h'', ac_publicHost = ''h'', ac_rpId = ''h'', ac_adminEmail = ''e'',
     ac_adminDisplayName = ''n'', ac_adminSubject = ''admin'', ac_webauthnUserId = ''u'',
     ac_sessionMaxAgeSeconds = 3600, ac_sessionIdleSeconds = 600, ac_passkeyTtlSeconds = 86400,
     ac_challengeTtlSeconds = 300, ac_freshAuthSeconds = 300, ac_loginMaxAttempts = 2, ac_loginWindowSeconds = 60,
     ac_loginLockSeconds = 60, ac_sessionPolicyVersion = ''1'',
     ac_allowedCidrs = [\<lparr>cidr_address = ''10.0.0.0'', cidr_family = 4, cidr_prefix = 8\<rparr>],
     ac_requireManagementCidr = False, ac_trustedProxyCidrs = [], ac_firstEnrollmentToken = None,
     ac_testFixtureSubjects = []\<rparr>"

definition sample_session :: session where
  "sample_session = \<lparr>se_csrfHash = ''csrf'', se_policyVersion = ''1'', se_subject = ''admin'', se_email = ''e'',
     se_displayName = ''n'', se_role = ''owner'', se_roles = [''owner''], se_acr = ''app-passkey'', se_amr = [''webauthn''],
     se_authTime = 0, se_issuer = ''https://h'', se_sessionId = [], se_keyId = [], se_expiresAt = 3600000,
     se_createdAt = 0, se_lastSeenAt = 0, se_revokedAt = None\<rparr>"

definition sample_world :: world where
  "sample_world = \<lparr>wd_store = new_store\<lparr>sessions := [(''tok'', sample_session)]\<rparr>, wd_clock = (\<lambda>n. 1000),
     wd_reads = 0, wd_draws = 0\<rparr>"

definition sample_post :: request where
  "sample_post = \<lparr>rq_method = JStr ''POST'', rq_url = JStr ''/x'', rq_remote = JStr ''10.0.0.9'',
     rq_headers = JObj [(''host'', JStr ''h''), (''origin'', JStr ''https://h''), (''sec-fetch-site'', JStr ''same-origin''),
        (''cookie'', JStr ''__Host-platform_cc_session=tok; __Host-platform_cc_csrf=csrf''),
        (''x-csrf-token'', JStr ''csrf'')], rq_content = JUndef\<rparr>"

theorem dispatched_request_is_authorized_witness:
  "\<exists>op g w' s. request_gate sample_auth_env sample_auth_config sample_post ''/x'' ''/x'' False (Inr JUndef) sample_world
      = (Inr (Dispatched op g), w')
    \<and> map_of (sessions (wd_store sample_world)) ''tok'' = Some s \<and> role_suffices (op_capability op) (se_role s)"
proof -
  have "case fst (request_gate sample_auth_env sample_auth_config sample_post ''/x'' ''/x'' False (Inr JUndef) sample_world)
      of Inr (Dispatched op g) \<Rightarrow> True | _ \<Rightarrow> False" by code_simp
  then obtain op g w' where run: "request_gate sample_auth_env sample_auth_config sample_post ''/x'' ''/x'' False (Inr JUndef) sample_world
      = (Inr (Dispatched op g), w')"
    by (cases "request_gate sample_auth_env sample_auth_config sample_post ''/x'' ''/x'' False (Inr JUndef) sample_world")
      (auto split: sum.splits gated.splits)
  have "ae_sha256 sample_auth_env (cookie sample_auth_env sample_post SESSION_COOKIE) = ''tok''" by code_simp
  with dispatched_request_is_authorized [OF run] run show ?thesis by fastforce
qed

section \<open>A challenge completes one ceremony\<close>

abbreviation chs :: "world \<Rightarrow> (string \<times> challenge) list" where
  "chs w \<equiv> webauthnChallenges (wd_store w)"

text \<open>What the steps after the consumption of a challenge leave of the pending challenges.\<close>

lemma keeps_chs [intro]:
  "keepsS chs now" "keepsS chs (draw f)" "keepsS chs (list_passkeys cfg)"
  "keepsS chs (on_store (createPasskey k p t))" "keepsS chs (on_store (updatePasskeyCounter k u n d b t))"
  "keepsS chs (to_store (clearLoginThrottle k))" "keepsS chs (to_store (createSession k item t))"
  "keepsS chs (assertFirstEnrollmentToken E cfg tok)"
  by (auto simp: keepsS_def now_def draw_def list_passkeys_def on_store_def to_store_def sx_defs listPasskeys_def
      createPasskey_def updatePasskeyCounter_def clearLoginThrottle_def createSession_def assertFirstEnrollmentToken_def
      Let_def split: prod.splits option.splits)

lemma keeps_createSessionResult [intro]: "keepsS chs (createSessionResult E cfg)"
  unfolding createSessionResult_def Let_def by (intro keepsS_bind keeps_chs keepsS_basic)

lemma consume_world:
  assumes "consume E cfg chal flow peer w = (r, w1)"
  shows "\<exists>c. r = Inr c \<and> consumeWebAuthnChallenge (ae_sha256 E chal) chal flow (ac_adminSubject cfg) peer
     (wd_clock w (wd_reads w)) (wd_store w) = (c, wd_store w1)"
  using assms by (auto simp: consume_def now_def on_store_def sx_defs split: prod.splits)

lemma keeps_verify_login: "keepsS chs (verify_login E cfg peer chal cred)"
  unfolding verify_login_def
  by (intro keepsS_bind keeps_chs) (auto split: option.splits intro!: keepsS_bind keeps_chs keepsS_basic)

lemma lift_Inr: "bindS (liftS m) f s = (Inr y, t) \<longleftrightarrow> (\<exists>x. m = Inr x \<and> f x s = (Inr y, t))"
  by (cases m) (auto simp: bindS_def liftS_def)

lemma require_Inr: "bindS (requireS ok e) f s = (Inr y, t) \<longleftrightarrow> ok \<and> f () s = (Inr y, t)"
  by (simp add: bindS_def requireS_def returnS_def throwS_def)

lemma completeLogin_consumes:
  assumes "completeLogin E cfg r payload w = (Inr res, w')"
  shows "\<exists>a peer chal item w1. assertRequest E cfg r True (firstEnrollmentPage r) = Inr (a, peer)
    \<and> boundedChallenge (getp payload ''challenge'') = Inr chal
    \<and> consume E cfg chal ''authentication'' peer w = (Inr (Some item), w1) \<and> chs w' = chs w1"
proof -
  from assms obtain a peer chal cred item w1 where
      1: "assertRequest E cfg r True (firstEnrollmentPage r) = Inr (a, peer)"
        "boundedChallenge (getp payload ''challenge'') = Inr chal"
        "consume E cfg chal ''authentication'' peer w = (Inr (Some item), w1)" and
      2: "verify_login E cfg peer chal cred w1 = (Inr res, w')"
    unfolding completeLogin_def by (auto simp: lift_Inr require_Inr bindS_Inr [of "consume _ _ _ _ _"])
  with keepsS_D [OF keeps_verify_login 2] show ?thesis by blast
qed

lemma completeRegistration_consumes:
  assumes "completePasskeyRegistration E cfg r payload w = (Inr res, w')"
  shows "\<exists>peer chal item w0 w1. boundedChallenge (getp payload ''challenge'') = Inr chal \<and> chs w0 = chs w
    \<and> consume E cfg chal ''registration'' peer w0 = (Inr (Some item), w1)"
proof -
  from assms obtain peer chal item existing u w0 w1 w2 where
      1: "list_passkeys cfg w = (Inr existing, w0)"
        "assertFirstEnrollmentToken E cfg (getp payload ''bootstrapToken'') w0 = (Inr u, w1)"
        "boundedChallenge (getp payload ''challenge'') = Inr chal"
        "consume E cfg chal ''registration'' peer w1 = (Inr (Some item), w2)"
    unfolding completePasskeyRegistration_def
    by (auto simp: lift_Inr require_Inr bindS_Inr [of "consume _ _ _ _ _"] bindS_Inr [of "list_passkeys _"]
        bindS_Inr [of "assertFirstEnrollmentToken _ _ _"])
  have "chs w1 = chs w" using keepsS_D [OF keeps_chs(3) 1(1)] keepsS_D [OF keeps_chs(8) 1(2)] by simp
  with 1 show ?thesis by blast
qed

text \<open>
  C6. A login completes only with a challenge that is pending for this user, flow and peer and
  has not expired, and the challenge is used up: in the state after the login no ceremony, a
  login or an enrolment, completes with the same challenge, whoever sends it.
\<close>

theorem login_uses_up_its_challenge:
  assumes run: "completeLogin E cfg r payload w = (Inr res, w')"
    and chal: "boundedChallenge (getp payload ''challenge'') = Inr chal"
  shows "(\<exists>a peer item. assertRequest E cfg r True (firstEnrollmentPage r) = Inr (a, peer)
      \<and> pending_challenge (wd_store w) (ae_sha256 E chal) = Some item
      \<and> challenge_matches chal ''authentication'' (ac_adminSubject cfg) peer (wd_clock w (wd_reads w)) item)
    \<and> (\<forall>r2 payload2 res2 w2. boundedChallenge (getp payload2 ''challenge'') = Inr chal \<longrightarrow>
         completeLogin E cfg r2 payload2 w' \<noteq> (Inr res2, w2)
       \<and> completePasskeyRegistration E cfg r2 payload2 w' \<noteq> (Inr res2, w2))"
proof -
  from completeLogin_consumes [OF run] chal obtain a peer item w1 where
      req: "assertRequest E cfg r True (firstEnrollmentPage r) = Inr (a, peer)"
      and con: "consume E cfg chal ''authentication'' peer w = (Inr (Some item), w1)" and same: "chs w' = chs w1"
    by auto
  from consume_world [OF con] have st: "consumeWebAuthnChallenge (ae_sha256 E chal) chal ''authentication''
      (ac_adminSubject cfg) peer (wd_clock w (wd_reads w)) (wd_store w) = (Some item, wd_store w1)" by auto
  have gone: "pending_challenge st (ae_sha256 E chal) = None" if "webauthnChallenges st = chs w'" for st
    using memory.consume_pending [OF st, of "ae_sha256 E chal"] that same by (simp add: pending_challenge_def)
  have no: "consume E cfg chal flow peer2 w0 \<noteq> (Inr (Some item2), w3)" if "chs w0 = chs w'" for flow peer2 w0 item2 w3
  proof
    assume "consume E cfg chal flow peer2 w0 = (Inr (Some item2), w3)"
    from consume_world [OF this] memory.never_created [OF gone [OF that]] show False by (metis fst_conv option.distinct(1) sum.inject(2))
  qed
  have "completeLogin E cfg r2 payload2 w' \<noteq> (Inr res2, w2)
       \<and> completePasskeyRegistration E cfg r2 payload2 w' \<noteq> (Inr res2, w2)"
    if "boundedChallenge (getp payload2 ''challenge'') = Inr chal" for r2 payload2 res2 w2
    using that no completeLogin_consumes [of E cfg r2 payload2 w' res2 w2]
      completeRegistration_consumes [of E cfg r2 payload2 w' res2 w2] by auto
  with memory.consume_result [OF st] req show ?thesis by blast
qed

definition sample_login :: jsv where
  "sample_login = JObj [(''challenge'', JStr ''abcdefghijklmnop''),
     (''credential'', JObj [(''type'', JStr ''public-key''), (''id'', JStr ''cred''),
        (''response'', JObj [(''clientDataJSON'', JStr ''a''), (''authenticatorData'', JStr ''b''), (''signature'', JStr ''c''),
           (''attestationObject'', JStr ''d'')])])]"

definition sample_passkey :: passkey where
  "sample_passkey = \<lparr>pk_userId = ''admin'', pk_webauthnUserId = ''u'', pk_publicKey = ''key'', pk_counter = 0,
     pk_transports = JArr [], pk_deviceType = ''singleDevice'', pk_backedUp = False, pk_createdAt = 0,
     pk_expiresAt = 9000000, pk_lastUsedAt = None, pk_updatedAt = None\<rparr>"

definition sample_pending :: world where
  "sample_pending = sample_world\<lparr>wd_store := new_store\<lparr>passkeys := [(''cred'', sample_passkey)],
     webauthnChallenges := [(''abcdefghijklmnop'', \<lparr>ch_challenge = ''abcdefghijklmnop'', ch_flow = ''authentication'',
        ch_userId = ''admin'', ch_peerHash = ''app-passkey-peer'' @ [nul] @ ''10.0.0.9'', ch_expiresAt = 300000\<rparr>)]\<rparr>\<rparr>"

lemma sample_login_completes:
  "\<exists>res w'. completeLogin sample_auth_env sample_auth_config sample_post sample_login sample_pending = (Inr res, w')"
proof -
  have "case fst (completeLogin sample_auth_env sample_auth_config sample_post sample_login sample_pending) of
      Inr res \<Rightarrow> True | Inl e \<Rightarrow> False" by code_simp
  then show ?thesis
    by (cases "completeLogin sample_auth_env sample_auth_config sample_post sample_login sample_pending") (auto split: sum.splits)
qed

theorem login_uses_up_its_challenge_witness:
  "\<exists>res w'. completeLogin sample_auth_env sample_auth_config sample_post sample_login sample_pending = (Inr res, w')
     \<and> (\<nexists>res2 w2. completeLogin sample_auth_env sample_auth_config sample_post sample_login w' = (Inr res2, w2))"
proof -
  obtain res w' where run: "completeLogin sample_auth_env sample_auth_config sample_post sample_login sample_pending = (Inr res, w')"
    using sample_login_completes by blast
  have "boundedChallenge (getp sample_login ''challenge'') = Inr ''abcdefghijklmnop''" by code_simp
  with login_uses_up_its_challenge [OF run this] run show ?thesis by blast
qed

section \<open>First enrolment\<close>

abbreviation keys :: "world \<Rightarrow> (string \<times> passkey) list" where
  "keys w \<equiv> passkeys (wd_store w)"

lemma keeps_keys [intro]:
  "keepsS keys now" "keepsS keys (draw f)" "keepsS keys (to_store (createSession k item t))"
  "keepsS keys (assertFirstEnrollmentToken E cfg tok)" "keepsS keys (consume E cfg chal flow peer)"
  by (auto simp: keepsS_def now_def draw_def consume_def on_store_def to_store_def sx_defs createSession_def
      consumeWebAuthnChallenge_def assertFirstEnrollmentToken_def Let_def split: prod.splits option.splits)

lemma keeps_keys_session: "keepsS keys (createSessionResult E cfg)"
  unfolding createSessionResult_def Let_def by (intro keepsS_bind keeps_keys keepsS_basic)

lemma list_passkeys_empty:
  assumes "list_passkeys cfg w = (Inr [], w')"
  shows "\<forall>(k, p) \<in> set (keys w). pk_userId p = ac_adminSubject cfg \<longrightarrow> pk_expiresAt p \<le> wd_clock w (wd_reads w)"
proof -
  let ?mine = "filter (\<lambda>(k, p). pk_userId p = ac_adminSubject cfg \<and> pk_expiresAt p > wd_clock w (wd_reads w))
      (filter (\<lambda>(k, p). pk_expiresAt p > wd_clock w (wd_reads w)) (keys w))"
  have "js_sort_by created_order ?mine = []"
    using assms by (auto simp: list_passkeys_def now_def on_store_def listPasskeys_def sx_defs Let_def)
  moreover have "set (js_sort_by created_order ?mine) = set ?mine" by (rule set_js_sort_by)
  ultimately have "set ?mine = {}" by (simp only: list.set(1))
  then have "?mine = []" by (simp only: set_empty)
  then show ?thesis by (fastforce simp: filter_empty_conv)
qed

lemma purge_until_None: "purge_until u t ps = (False, qs) \<Longrightarrow> \<forall>(k, p) \<in> set qs. pk_userId p \<noteq> u"
  by (induction u t ps arbitrary: qs rule: purge_until.induct) (auto split: if_splits prod.splits)

lemma createPasskey_True:
  assumes "createPasskey ident item t st = (True, st')"
  shows "filter (\<lambda>(k, p). pk_userId p = pk_userId item) (passkeys st') = [(ident, item)]"
proof -
  obtain found ps where purge: "purge_until (pk_userId item) t (passkeys st) = (found, ps)" by fastforce
  with assms have "\<not> found" "map_of ps ident = None" "passkeys st' = AList.update ident item ps"
    by (auto simp: createPasskey_def Let_def split: if_splits)
  moreover have "filter (\<lambda>(k, p). pk_userId p = pk_userId item) ps = []"
    using purge_until_None [of "pk_userId item" t "passkeys st" ps] purge \<open>\<not> found\<close> by (auto simp: filter_empty_conv)
  moreover have "map_of qs ident = None \<Longrightarrow> AList.update ident item qs = qs @ [(ident, item)]" for qs
    by (induction qs) (auto split: if_splits)
  ultimately show ?thesis by simp
qed

lemma verify_registration_keys:
  assumes "verify_registration E cfg chal cred w = (Inr res, w')"
  shows "\<exists>ident p. filter (\<lambda>(k, p). pk_userId p = ac_adminSubject cfg) (keys w') = [(ident, p)]"
proof -
  obtain info where info: "ae_verifyRegistration E cred chal (ac_publicOrigin cfg) (ac_rpId cfg) = Some info"
    using assms by (auto simp: verify_registration_def basicS_iff split: option.splits)
  from assms obtain ident item t w1 w2 where
      1: "on_store (createPasskey ident item t) w1 = (Inr True, w2)" "pk_userId item = ac_adminSubject cfg"
      and 2: "createSessionResult E cfg w2 = (Inr res, w')"
    unfolding verify_registration_def info option.case
    by (simp only: require_Inr bindS_Inr [of "list_passkeys _"] bindS_Inr [of now] bindS_Inr [of "on_store _"])
      (elim conjE exE, simp)
  have "createPasskey ident item t (wd_store w1) = (True, wd_store w2)"
    using 1(1) by (auto simp: on_store_def split: prod.splits)
  from createPasskey_True [OF this] keepsS_D [OF keeps_keys_session 2] 1(2) show ?thesis by simp
qed


definition sample_enrolling :: world where
  "sample_enrolling = sample_world\<lparr>wd_store := new_store\<lparr>
     webauthnChallenges := [(''abcdefghijklmnop'', \<lparr>ch_challenge = ''abcdefghijklmnop'', ch_flow = ''registration'',
        ch_userId = ''admin'', ch_peerHash = ''app-passkey-peer'' @ [nul] @ ''10.0.0.9'', ch_expiresAt = 300000\<rparr>)]\<rparr>\<rparr>"


end
