(* ===== verification/DatabaseOwnership.thy ===== *)
theory DatabaseOwnership
  imports JsValue StepSystems
begin

text \<open>
  \<open>src/control-center/database/ownership.mjs\<close>: which database principal an application
  database has, and when it may be created, rotated, deleted or cleaned up. A principal is
  generated from the engine, the project and the database name; a registry binds it to the
  database; every operation is refused unless registry and catalogue agree.

  Databases, registries and catalogues are JSON values, as the callers pass them. \<open>own_or_proto\<close> is
  \<open>bindings[id]\<close>: an identifier that names a member of \<open>Object.prototype\<close> finds that member.
\<close>

section \<open>Names\<close>

definition own_error :: "string \<Rightarrow> js_error" where
  "own_error m = PlainError m"

definition lower_text :: "jsv \<Rightarrow> string" where
  "lower_text v = to_lower (js_trim (js_String (js_or v (JStr []))))"

definition is_identifier :: "string \<Rightarrow> bool" where
  "is_identifier s \<longleftrightarrow> s \<noteq> [] \<and> is_lower (hd s) \<and> length s \<le> 63 \<and> list_all (\<lambda>c. is_lower_alnum c \<or> c = CHR ''_'') s"

definition normalizedProjectId :: "jsv \<Rightarrow> string res" where
  "normalizedProjectId v = (let project = lower_text v in
     if project \<noteq> [] \<and> is_lower_alnum (hd project) \<and> length project \<le> 63
        \<and> list_all (\<lambda>c. is_lower_alnum c \<or> c = CHR ''-'') project
     then Inr project else Inl (own_error ''Valid project id is required for database ownership.''))"

definition normalizedEngine :: "jsv \<Rightarrow> string res" where
  "normalizedEngine v = (let engine = lower_text v in
     if engine \<in> {''mariadb'', ''postgres''} then Inr engine else Inl (own_error ''Unsupported database engine.''))"

definition normalizedIdentifier :: "jsv \<Rightarrow> string \<Rightarrow> string res" where
  "normalizedIdentifier v label = (let ident = lower_text v in
     if is_identifier ident then Inr ident else Inl (own_error (''Invalid '' @ label @ ''.'')))"

definition normalizedBindingStatus :: "jsv \<Rightarrow> string res" where
  "normalizedBindingStatus v = (let status = js_String (js_or v (JStr ''reserved'')) in
     if status \<in> {''reserved'', ''active'', ''migration-required'', ''retired''} then Inr status
     else Inl (own_error ''Invalid database principal binding status.''))"

definition PROTECTED_DATABASES :: "string \<Rightarrow> string list" where
  "PROTECTED_DATABASES engine =
     (if engine = ''mariadb'' then [''information_schema'', ''mysql'', ''performance_schema'', ''sys'']
      else [''postgres'', ''template0'', ''template1''])"

definition PROTECTED_PRINCIPALS :: "string list" where
  "PROTECTED_PRINCIPALS = [''admin'', ''administrator'', ''mariadb.sys'', ''mysql'', ''mysql.session'', ''mysql.sys'',
     ''pma'', ''postgres'', ''root'']"

definition assertManagedDatabaseName :: "jsv \<Rightarrow> jsv \<Rightarrow> string res" where
  "assertManagedDatabaseName engine databaseName =
     bindR (normalizedEngine engine) (\<lambda>cleanEngine.
     bindR (normalizedIdentifier databaseName ''database name'') (\<lambda>cleanName.
     if cleanName \<in> set (PROTECTED_DATABASES cleanEngine)
     then Inl (own_error ''Protected system database cannot be managed as an application database.'')
     else Inr cleanName))"

text \<open>\<open>replace(/[^a-z0-9]+/g, "_")\<close> and \<open>replace(/^_+|_+$/g, "")\<close>.\<close>

fun runs_to_underscore :: "bool \<Rightarrow> string \<Rightarrow> string" where
  "runs_to_underscore inside [] = []"
| "runs_to_underscore inside (c # cs) =
     (if is_lower_alnum c then c # runs_to_underscore False cs
      else if inside then runs_to_underscore True cs
      else CHR ''_'' # runs_to_underscore True cs)"

definition strip_underscores :: "string \<Rightarrow> string" where
  "strip_underscores s = rev (dropWhile (\<lambda>c. c = CHR ''_'') (rev (dropWhile (\<lambda>c. c = CHR ''_'') s)))"

definition project_part :: "string \<Rightarrow> string" where
  "project_part project = (let p = take 10 (strip_underscores (runs_to_underscore False project))
     in if p = [] then ''app'' else p)"

definition engine_prefix :: "string \<Rightarrow> string" where
  "engine_prefix engine = ''pi_'' @ (if engine = ''postgres'' then ''p'' else ''m'') @ ''_''"

definition generatedDatabasePrincipal :: "runtime \<Rightarrow> jsv \<Rightarrow> jsv \<Rightarrow> jsv \<Rightarrow> string res" where
  "generatedDatabasePrincipal R projectId engine databaseName =
     bindR (normalizedProjectId projectId) (\<lambda>cleanProject.
     bindR (normalizedEngine engine) (\<lambda>cleanEngine.
     bindR (normalizedIdentifier databaseName ''database name'') (\<lambda>cleanDatabase.
     bindR (assertManagedDatabaseName (JStr cleanEngine) (JStr cleanDatabase)) (\<lambda>_.
     Inr (engine_prefix cleanEngine @ project_part cleanProject @ ''_''
          @ take 12 (rt_sha256 R (''platform-database-principal:v1:'' @ cleanEngine @ '':'' @ cleanProject @ '':'' @ cleanDatabase)))))))"

section \<open>Bindings\<close>

record database =
  db_id :: string
  db_projectId :: string
  db_engine :: string
  db_databaseName :: string
  db_ownerRole :: string

definition normalizedDatabase :: "jsv \<Rightarrow> database res" where
  "normalizedDatabase d =
     (let ident = js_trim (js_String (js_or (getp d ''id'') (JStr []))) in
      bindR (normalizedProjectId (getp d ''projectId'')) (\<lambda>projectId.
      bindR (normalizedEngine (getp d ''engine'')) (\<lambda>engine.
      bindR (assertManagedDatabaseName (JStr engine) (js_or (getp d ''name'') (getp d ''databaseName''))) (\<lambda>databaseName.
      if ident = [] then Inl (own_error ''Database id is required for principal ownership.'')
      else Inr \<lparr>db_id = ident, db_projectId = projectId, db_engine = engine, db_databaseName = databaseName,
                db_ownerRole = lower_text (getp d ''ownerRole'')\<rparr>))))"

record binding =
  bd_id :: string
  bd_databaseId :: string
  bd_projectId :: string
  bd_engine :: string
  bd_databaseName :: string
  bd_principalName :: string
  bd_status :: string
  bd_createdAt :: jsv
  bd_activatedAt :: jsv

definition createPrincipalBinding :: "runtime \<Rightarrow> jsv \<Rightarrow> jsv \<Rightarrow> jsv \<Rightarrow> binding res" where
  "createPrincipalBinding R d status now =
     bindR (normalizedDatabase d) (\<lambda>n.
     bindR (generatedDatabasePrincipal R (JStr (db_projectId n)) (JStr (db_engine n)) (JStr (db_databaseName n))) (\<lambda>principalName.
     if db_ownerRole n \<noteq> [] \<and> db_ownerRole n \<noteq> principalName
     then Inl (own_error ''Database principal does not match the server-generated owner.'')
     else bindR (normalizedBindingStatus status) (\<lambda>st.
       Inr \<lparr>bd_id = db_id n, bd_databaseId = db_id n, bd_projectId = db_projectId n, bd_engine = db_engine n,
            bd_databaseName = db_databaseName n, bd_principalName = principalName, bd_status = st,
            bd_createdAt = now, bd_activatedAt = (if status = JStr ''active'' then now else JNull)\<rparr>)))"

definition binding_json :: "binding \<Rightarrow> jsv" where
  "binding_json b = JObj [(''id'', JStr (bd_id b)), (''databaseId'', JStr (bd_databaseId b)),
     (''projectId'', JStr (bd_projectId b)), (''engine'', JStr (bd_engine b)),
     (''databaseName'', JStr (bd_databaseName b)), (''principalName'', JStr (bd_principalName b)),
     (''status'', JStr (bd_status b)), (''ownershipVersion'', JInt 1), (''createdAt'', bd_createdAt b),
     (''updatedAt'', bd_createdAt b), (''activatedAt'', bd_activatedAt b)]"

fun normalizedBindings :: "jsv \<Rightarrow> (string \<times> jsv) list" where
  "normalizedBindings registry =
     (let inner = getp registry ''bindings'';
          source = (case inner of JObj _ \<Rightarrow> inner | JArr _ \<Rightarrow> inner | _ \<Rightarrow> registry)
      in (case source of JObj ps \<Rightarrow> ps | _ \<Rightarrow> []))"

definition prototype_members :: "string list" where
  "prototype_members = [''constructor'', ''__defineGetter__'', ''__defineSetter__'', ''hasOwnProperty'',
     ''__lookupGetter__'', ''__lookupSetter__'', ''isPrototypeOf'', ''propertyIsEnumerable'', ''toString'',
     ''valueOf'', ''__proto__'', ''toLocaleString'']"

definition own_or_proto :: "(string \<times> jsv) list \<Rightarrow> string \<Rightarrow> jsv" where
  "own_or_proto ps k = (case map_of ps k of Some v \<Rightarrow> v
     | None \<Rightarrow> if k \<in> set prototype_members then JObj [] else JUndef)"

definition text_field :: "jsv \<Rightarrow> string \<Rightarrow> string" where
  "text_field v k = js_String (js_or (getp v k) (JStr []))"

definition assertBindingMatches :: "jsv \<Rightarrow> binding \<Rightarrow> unit res" where
  "assertBindingMatches actual expected =
     requireR (text_field actual ''databaseId'' = bd_databaseId expected
       \<and> text_field actual ''projectId'' = bd_projectId expected
       \<and> text_field actual ''engine'' = bd_engine expected
       \<and> text_field actual ''databaseName'' = bd_databaseName expected
       \<and> text_field actual ''principalName'' = bd_principalName expected)
       (own_error ''Database principal binding belongs to another resource.'')"

definition reservePrincipalBinding :: "runtime \<Rightarrow> jsv \<Rightarrow> jsv \<Rightarrow> jsv \<Rightarrow> jsv res" where
  "reservePrincipalBinding R registry d now =
     (let bindings = normalizedBindings registry in
      bindR (createPrincipalBinding R d (JStr ''reserved'') now) (\<lambda>candidate.
      (let current = own_or_proto bindings (bd_id candidate) in
       if js_truthy current
       then bindR (assertBindingMatches current candidate) (\<lambda>_.
            Inr (JObj (put_prop (bd_id candidate) (JObj (put_prop ''updatedAt'' now (spread current))) bindings)))
       else if list_ex (\<lambda>(k, b). getp b ''principalName'' = JStr (bd_principalName candidate)
                                 \<and> getp b ''databaseId'' \<noteq> JStr (bd_databaseId candidate)) bindings
       then Inl (own_error ''Generated database principal is already bound to another resource.'')
       else Inr (JObj (put_prop (bd_id candidate) (binding_json candidate) bindings)))))"

definition activatePrincipalBinding :: "runtime \<Rightarrow> jsv \<Rightarrow> jsv \<Rightarrow> jsv \<Rightarrow> jsv res" where
  "activatePrincipalBinding R registry d now =
     (let bindings = normalizedBindings registry in
      bindR (createPrincipalBinding R d (JStr ''active'') now) (\<lambda>expected.
      (let current = own_or_proto bindings (bd_id expected) in
       bindR (requireR (js_truthy current) (own_error ''Database principal binding is missing.'')) (\<lambda>_.
       bindR (assertBindingMatches current expected) (\<lambda>_.
       Inr (JObj (put_prop (bd_id expected)
         (JObj (put_prop ''activatedAt'' (js_or (getp current ''activatedAt'') now)
           (put_prop ''updatedAt'' now (put_prop ''status'' (JStr ''active'') (spread current))))) bindings)))))))"

section \<open>Guards\<close>

definition assertPrincipalIsManaged :: "string \<Rightarrow> string \<Rightarrow> unit res" where
  "assertPrincipalIsManaged principal_name engine =
     bindR (normalizedIdentifier (JStr principal_name) ''database principal'') (\<lambda>value.
     requireR (starts_with (engine_prefix engine) value \<and> value \<notin> set PROTECTED_PRINCIPALS
         \<and> \<not> starts_with ''pg_'' value \<and> \<not> starts_with ''rds'' value \<and> \<not> starts_with ''azure_'' value
         \<and> \<not> starts_with ''cloudsql'' value)
       (own_error ''Protected or unmanaged database principal is not allowed.''))"

definition catalog_exists :: "jsv \<Rightarrow> string \<Rightarrow> bool" where
  "catalog_exists catalog what = js_truthy (getp (getp catalog what) ''exists'')"

definition privilegeFlags :: "string list" where
  "privilegeFlags = [''superuser'', ''createRole'', ''createDb'', ''replication'', ''bypassRls'', ''admin'',
     ''grantOption'', ''identityMismatch'']"

definition assertPrincipalCreateAllowed :: "runtime \<Rightarrow> jsv \<Rightarrow> jsv \<Rightarrow> jsv \<Rightarrow> jsv \<Rightarrow> binding res" where
  "assertPrincipalCreateAllowed R d registry catalog now =
     bindR (createPrincipalBinding R d (JStr ''reserved'') now) (\<lambda>expected.
     (let b = own_or_proto (normalizedBindings registry) (bd_id expected) in
      bindR (requireR (js_truthy b) (own_error ''Database principal binding is missing.'')) (\<lambda>_.
      bindR (assertBindingMatches b expected) (\<lambda>_.
      bindR (requireR (getp b ''status'' = JStr ''reserved'')
        (own_error ''Database principal is not in the reserved provisioning state.'')) (\<lambda>_.
      bindR (assertPrincipalIsManaged (bd_principalName expected) (bd_engine expected)) (\<lambda>_.
      bindR (requireR (\<not> catalog_exists catalog ''principal'')
        (own_error ''Database principal already exists and will not be altered during provisioning.'')) (\<lambda>_.
      bindR (requireR (\<not> catalog_exists catalog ''database'')
        (own_error ''Database already exists and is not owned by this new binding.'')) (\<lambda>_.
      Inr expected))))))))"

definition assertActiveManagedPrincipal :: "runtime \<Rightarrow> jsv \<Rightarrow> jsv \<Rightarrow> jsv \<Rightarrow> jsv \<Rightarrow> binding res" where
  "assertActiveManagedPrincipal R d registry catalog now =
     bindR (createPrincipalBinding R d (JStr ''active'') now) (\<lambda>expected.
     (let b = own_or_proto (normalizedBindings registry) (bd_id expected) in
      bindR (requireR (js_truthy b) (own_error ''Database principal binding is missing.'')) (\<lambda>_.
      bindR (assertBindingMatches b expected) (\<lambda>_.
      bindR (requireR (getp b ''status'' = JStr ''active'')
        (own_error ''Database principal binding is not active.'')) (\<lambda>_.
      bindR (assertPrincipalIsManaged (bd_principalName expected) (bd_engine expected)) (\<lambda>_.
      bindR (requireR (catalog_exists catalog ''principal'')
        (own_error ''Bound database principal does not exist.'')) (\<lambda>_.
      bindR (requireR (\<not> list_ex (\<lambda>flag. js_truthy (getp (getp catalog ''principal'') flag)) privilegeFlags)
        (own_error ''Database principal has privileged capabilities and will not be altered.'')) (\<lambda>_.
      Inr expected))))))))"

definition assertPrincipalRotationAllowed :: "runtime \<Rightarrow> jsv \<Rightarrow> jsv \<Rightarrow> jsv \<Rightarrow> jsv \<Rightarrow> binding res" where
  "assertPrincipalRotationAllowed R d registry catalog now =
     bindR (assertActiveManagedPrincipal R d registry catalog now) (\<lambda>expected.
     bindR (requireR (catalog_exists catalog ''database'') (own_error ''Bound database does not exist.'')) (\<lambda>_.
     bindR (requireR (text_field (getp catalog ''database'') ''owner'' = bd_principalName expected)
       (own_error ''Database ownership does not match the registered principal.'')) (\<lambda>_.
     Inr expected)))"

definition assertPrincipalDeletionAllowed :: "runtime \<Rightarrow> jsv \<Rightarrow> jsv \<Rightarrow> jsv \<Rightarrow> jsv \<Rightarrow> binding res" where
  "assertPrincipalDeletionAllowed R d registry catalog now = assertPrincipalRotationAllowed R d registry catalog now"

definition assertPrincipalCleanupAllowed :: "runtime \<Rightarrow> jsv \<Rightarrow> jsv \<Rightarrow> jsv \<Rightarrow> jsv \<Rightarrow> binding res" where
  "assertPrincipalCleanupAllowed R d registry catalog now =
     bindR (assertActiveManagedPrincipal R d registry catalog now) (\<lambda>expected.
     bindR (requireR (\<not> catalog_exists catalog ''database'')
       (own_error ''Database principal cleanup is allowed only after the exact database was dropped.'')) (\<lambda>_.
     Inr expected))"

definition principalBindingFor :: "runtime \<Rightarrow> jsv \<Rightarrow> jsv \<Rightarrow> jsv \<Rightarrow> jsv option" where
  "principalBindingFor R registry d now =
     (let b = own_or_proto (normalizedBindings registry) (js_String (js_or (getp d ''id'') (JStr []))) in
      if \<not> js_truthy b then None
      else (case bindR (createPrincipalBinding R d (js_or (getp b ''status'') (JStr ''reserved'')) now) (assertBindingMatches b) of
              Inl e \<Rightarrow> None
            | Inr _ \<Rightarrow> Some (JObj (spread b))))"

section \<open>Migration plan\<close>

definition migration_steps :: "jsv list" where
  "migration_steps = map JStr [''create generated principal with a new credential'', ''grant only the target database'',
     ''deploy the application with the new credential'', ''verify application and backup/restore behavior'',
     ''revoke the legacy principal only after separate approval'']"

definition migration_entry :: "runtime \<Rightarrow> jsv \<Rightarrow> jsv \<Rightarrow> jsv \<Rightarrow> (string \<times> jsv) res" where
  "migration_entry R bindings now d =
     bindR (normalizedDatabase d) (\<lambda>n.
     bindR (generatedDatabasePrincipal R (JStr (db_projectId n)) (JStr (db_engine n)) (JStr (db_databaseName n))) (\<lambda>target.
     (let b = principalBindingFor R bindings (JObj (put_prop ''ownerRole'' (JStr target) (spread d))) now;
          managed = (case b of None \<Rightarrow> False | Some v \<Rightarrow> getp v ''status'' = JStr ''active'')
      in Inr (db_id n, JObj [(''databaseId'', JStr (db_id n)), (''projectId'', JStr (db_projectId n)),
            (''engine'', JStr (db_engine n)), (''databaseName'', JStr (db_databaseName n)),
            (''currentPrincipal'', JStr (text_field d ''ownerRole'')), (''targetPrincipal'', JStr target),
            (''status'', JStr (if managed then ''managed'' else ''migration-required'')),
            (''mutationExecuted'', JBool False), (''steps'', JArr (if managed then [] else migration_steps))]))))"

definition buildPrincipalMigrationPlan :: "runtime \<Rightarrow> jsv \<Rightarrow> jsv \<Rightarrow> jsv \<Rightarrow> jsv list res" where
  "buildPrincipalMigrationPlan R databases registry now =
     bindR (mapR (migration_entry R (JObj (normalizedBindings registry)) now)
       (filter (\<lambda>d. js_truthy d \<and> \<not> js_truthy (getp d ''deletedAt'') \<and> getp d ''status'' \<noteq> JStr ''deleted'')
         (map snd (spread databases)))) (\<lambda>entries.
     Inr (map snd (js_sort_by (\<lambda>a b. rt_localeCompare R (fst a) (fst b)) entries)))"

section \<open>Generated principals\<close>

lemma lower_alnum_code: "is_lower_alnum c \<longleftrightarrow> (97 \<le> code c \<and> code c \<le> 122) \<or> (48 \<le> code c \<and> code c \<le> 57)"
  by (simp add: is_lower_alnum_def is_lower_def is_digit_def)

lemma hex_lower_alnum: "is_hex_lower c \<Longrightarrow> is_lower_alnum c"
  by (auto simp: is_hex_lower_def lower_alnum_code is_digit_def)

abbreviation name_char :: "char \<Rightarrow> bool" where
  "name_char c \<equiv> is_lower_alnum c \<or> c = CHR ''_''"

lemma name_char_plain:
  assumes "name_char c"
  shows "lower_char c = c" and "\<not> is_js_space c"
  using assms by (auto simp: lower_char_def has_lower_def is_upper_def is_js_space_def lower_alnum_code code_def)

lemma lower_text_name:
  assumes "list_all name_char s"
  shows "lower_text (JStr s) = s"
proof -
  have "js_or (JStr s) (JStr []) = JStr s" by (simp add: js_or_def)
  moreover have "js_trim s = s" using assms by (intro js_trim_no_space) (auto simp: list_all_iff name_char_plain)
  moreover have "to_lower s = s" using assms by (simp add: to_lower_def list_all_iff name_char_plain map_idI)
  ultimately show ?thesis by (simp add: lower_text_def)
qed

lemma runs_name_chars: "list_all name_char (runs_to_underscore inside s)"
  by (induction inside s rule: runs_to_underscore.induct) auto

lemma project_part_name: "list_all name_char (project_part p) \<and> length (project_part p) \<le> 10"
proof -
  have "set (strip_underscores s) \<subseteq> set s" for s
    unfolding strip_underscores_def by (auto dest!: set_dropWhileD)
  then have "list_all name_char (take 10 (strip_underscores (runs_to_underscore False p)))"
    using runs_name_chars [of False p] by (auto simp: list_all_iff dest!: in_set_takeD)
  moreover have "list_all name_char ''app''" by (simp add: lower_alnum_code code_def)
  ultimately show ?thesis by (simp add: project_part_def Let_def)
qed

lemma engine_prefix_chars: "list_all name_char (engine_prefix e) \<and> length (engine_prefix e) = 5 \<and> is_lower (hd (engine_prefix e))"
  by (simp add: engine_prefix_def lower_alnum_code is_lower_def code_def)

lemma assertManaged_again:
  "normalizedEngine v = Inr e \<Longrightarrow> normalizedEngine (JStr e) = Inr e"
  by (auto simp: normalizedEngine_def Let_def lower_text_name lower_alnum_code code_def split: if_splits)

text \<open>
  Every generated principal is one the guards accept as managed: a valid identifier of at
  most 28 characters in the namespace of its engine, never a protected or provider-reserved name.
\<close>

theorem generated_principal_is_managed:
  assumes gen: "generatedDatabasePrincipal R projectId engine databaseName = Inr name"
    and eng: "normalizedEngine engine = Inr e" and hash: "\<forall>s. hex64 (rt_sha256 R s)"
  shows "assertPrincipalIsManaged name e = Inr () \<and> is_identifier name \<and> length name \<le> 28"
proof -
  from gen eng obtain proj rest where name: "name = engine_prefix e @ project_part proj @ ''_'' @ take 12 (rt_sha256 R rest)"
    by (auto simp: generatedDatabasePrincipal_def bindR_eq_Inr)
  have "list_all is_hex_lower (rt_sha256 R rest)" using hash by (simp add: all_in_def)
  then have h: "list_all name_char (take 12 (rt_sha256 R rest))"
    by (auto simp: list_all_iff hex_lower_alnum dest!: in_set_takeD)
  have chars: "list_all name_char name" using engine_prefix_chars project_part_name h by (simp add: name)
  have len: "length name \<le> 28"
    using engine_prefix_chars [of e] project_part_name [of proj] min.cobounded2 [of "length (rt_sha256 R rest)" 12]
    by (simp add: name del: min.cobounded2)
  have hd_name: "name \<noteq> [] \<and> is_lower (hd name)"
    using engine_prefix_chars [of e] by (cases "engine_prefix e") (auto simp: name)
  have ident: "is_identifier name" using chars len hd_name by (simp add: is_identifier_def)
  have pi: "\<exists>t. name = ''pi_'' @ t" by (auto simp: name engine_prefix_def)
  have "starts_with (engine_prefix e) name" by (simp add: name)
  moreover from pi have "name \<notin> set PROTECTED_PRINCIPALS" "\<not> starts_with ''pg_'' name" "\<not> starts_with ''rds'' name"
      "\<not> starts_with ''azure_'' name" "\<not> starts_with ''cloudsql'' name"
    by (auto simp: PROTECTED_PRINCIPALS_def starts_with_def)
  ultimately show ?thesis
    using ident len chars by (simp add: assertPrincipalIsManaged_def normalizedIdentifier_def lower_text_name)
qed

lemma generated_principal_is_managed_example:
  "\<exists>name. generatedDatabasePrincipal sample_runtime (JStr ''shop'') (JStr ''postgres'') (JStr ''orders'') = Inr name
     \<and> assertPrincipalIsManaged name ''postgres'' = Inr ()"
proof -
  have e: "normalizedEngine (JStr ''postgres'') = Inr ''postgres''" by code_simp
  have p: "normalizedProjectId (JStr ''shop'') = Inr ''shop''" by code_simp
  have d: "normalizedIdentifier (JStr ''orders'') ''database name'' = Inr ''orders''" by code_simp
  have m: "assertManagedDatabaseName (JStr ''postgres'') (JStr ''orders'') = Inr ''orders''" by code_simp
  obtain name where g: "generatedDatabasePrincipal sample_runtime (JStr ''shop'') (JStr ''postgres'') (JStr ''orders'') = Inr name"
    using e p d m by (simp add: generatedDatabasePrincipal_def)
  from generated_principal_is_managed [OF g e] g show ?thesis by (auto simp: hex64_sample_sha256)
qed

section \<open>Guards\<close>

lemma createPrincipalBinding_Inr:
  assumes "createPrincipalBinding R d status now = Inr b"
  shows "bd_id b \<noteq> [] \<and> bd_databaseId b = bd_id b
    \<and> generatedDatabasePrincipal R (JStr (bd_projectId b)) (JStr (bd_engine b)) (JStr (bd_databaseName b)) = Inr (bd_principalName b)"
  using assms by (auto simp: createPrincipalBinding_def normalizedDatabase_def Let_def res_simps split: if_splits)

text \<open>
  C10. A principal may be rotated or deleted only if the registry has an active binding of it to
  exactly this database, its name is the one the server generates, the catalogue has it without
  any privileged capability, and it owns the existing database; and when that holds, neither the
  creation nor the cleanup of the principal is allowed.
\<close>

theorem deletion_needs_own_managed_principal:
  assumes ok: "assertPrincipalDeletionAllowed R d registry catalog now = Inr e"
  shows "(\<exists>b. own_or_proto (normalizedBindings registry) (bd_id e) = b
      \<and> text_field b ''databaseId'' = bd_id e \<and> text_field b ''principalName'' = bd_principalName e
      \<and> getp b ''status'' = JStr ''active'')
    \<and> generatedDatabasePrincipal R (JStr (bd_projectId e)) (JStr (bd_engine e)) (JStr (bd_databaseName e)) = Inr (bd_principalName e)
    \<and> assertPrincipalIsManaged (bd_principalName e) (bd_engine e) = Inr ()
    \<and> catalog_exists catalog ''principal'' \<and> (\<forall>flag \<in> set privilegeFlags. \<not> js_truthy (getp (getp catalog ''principal'') flag))
    \<and> catalog_exists catalog ''database'' \<and> text_field (getp catalog ''database'') ''owner'' = bd_principalName e
    \<and> (\<forall>x. assertPrincipalCreateAllowed R d registry catalog now \<noteq> Inr x)
    \<and> (\<forall>x. assertPrincipalCleanupAllowed R d registry catalog now \<noteq> Inr x)"
proof -
  from ok have act: "assertActiveManagedPrincipal R d registry catalog now = Inr e"
      and db: "catalog_exists catalog ''database''" "text_field (getp catalog ''database'') ''owner'' = bd_principalName e"
    by (auto simp: assertPrincipalDeletionAllowed_def assertPrincipalRotationAllowed_def res_simps)
  from act have new: "createPrincipalBinding R d (JStr ''active'') now = Inr e"
      and b: "getp (own_or_proto (normalizedBindings registry) (bd_id e)) ''status'' = JStr ''active''"
        "assertBindingMatches (own_or_proto (normalizedBindings registry) (bd_id e)) e = Inr ()"
        "assertPrincipalIsManaged (bd_principalName e) (bd_engine e) = Inr ()" "catalog_exists catalog ''principal''"
        "\<forall>flag \<in> set privilegeFlags. \<not> js_truthy (getp (getp catalog ''principal'') flag)"
    by (auto simp: assertActiveManagedPrincipal_def bindR_eq_Inr requireR_eq Let_def list_ex_iff)
  have "assertPrincipalCreateAllowed R d registry catalog now \<noteq> Inr x" for x
    using b(4) by (auto simp: assertPrincipalCreateAllowed_def bindR_eq_Inr requireR_eq Let_def)
  moreover have "assertPrincipalCleanupAllowed R d registry catalog now \<noteq> Inr x" for x
    using db by (auto simp: assertPrincipalCleanupAllowed_def bindR_eq_Inr requireR_eq)
  moreover have "text_field (own_or_proto (normalizedBindings registry) (bd_id e)) ''databaseId'' = bd_id e
      \<and> text_field (own_or_proto (normalizedBindings registry) (bd_id e)) ''principalName'' = bd_principalName e"
    using b(2) createPrincipalBinding_Inr [OF new] by (simp add: assertBindingMatches_def requireR_eq)
  ultimately show ?thesis using createPrincipalBinding_Inr [OF new] b db by blast
qed

definition sample_database :: jsv where
  "sample_database = JObj [(''id'', JStr ''db1''), (''projectId'', JStr ''shop''), (''engine'', JStr ''postgres''), (''name'', JStr ''orders'')]"

definition plain_runtime :: runtime where
  "plain_runtime = sample_runtime\<lparr>rt_sha256 := (\<lambda>s. ''0123456789abcdef'')\<rparr>"

definition sample_registry :: jsv where
  "sample_registry = JObj [(''db1'', JObj [(''databaseId'', JStr ''db1''), (''projectId'', JStr ''shop''),
     (''engine'', JStr ''postgres''), (''databaseName'', JStr ''orders''),
     (''principalName'', JStr ''pi_p_shop_0123456789ab''), (''status'', JStr ''active'')])]"

definition sample_catalog :: jsv where
  "sample_catalog = JObj [(''principal'', JObj [(''exists'', JBool True)]),
     (''database'', JObj [(''exists'', JBool True), (''owner'', JStr ''pi_p_shop_0123456789ab'')])]"

theorem deletion_needs_own_managed_principal_witness:
  "\<exists>e. assertPrincipalDeletionAllowed plain_runtime sample_database sample_registry sample_catalog JNull = Inr e
     \<and> (\<forall>x. assertPrincipalCreateAllowed plain_runtime sample_database sample_registry sample_catalog JNull \<noteq> Inr x)"
proof -
  have "case assertPrincipalDeletionAllowed plain_runtime sample_database sample_registry sample_catalog JNull of
      Inr e \<Rightarrow> True | Inl _ \<Rightarrow> False" by code_simp
  then obtain e where e: "assertPrincipalDeletionAllowed plain_runtime sample_database sample_registry sample_catalog JNull = Inr e"
    by (auto split: sum.splits)
  from deletion_needs_own_managed_principal [OF e] e show ?thesis by blast
qed

section \<open>One principal, one database\<close>

text \<open>
  A registry is consistent if every entry is filed under its own database id and no principal
  stands in two entries. \<open>bindings\<close> is not a database id: an entry of that name would be read
  as the registry itself.
\<close>

definition registry_ok :: "jsv \<Rightarrow> bool" where
  "registry_ok reg \<longleftrightarrow> (\<exists>ps. reg = JObj ps \<and> map_of ps ''bindings'' = None
     \<and> (\<forall>k b. map_of ps k = Some b \<longrightarrow> getp b ''databaseId'' = JStr k)
     \<and> (\<forall>k1 k2 b1 b2. map_of ps k1 = Some b1 \<longrightarrow> map_of ps k2 = Some b2 \<longrightarrow>
          getp b1 ''principalName'' = getp b2 ''principalName'' \<longrightarrow> k1 = k2))"

inductive registry_step :: "runtime \<Rightarrow> jsv \<Rightarrow> jsv \<Rightarrow> bool" for R where
  reserve: "reservePrincipalBinding R reg d now = Inr reg' \<Longrightarrow> js_trim (text_field d ''id'') \<noteq> ''bindings'' \<Longrightarrow> registry_step R reg reg'"
| activate: "activatePrincipalBinding R reg d now = Inr reg' \<Longrightarrow> js_trim (text_field d ''id'') \<noteq> ''bindings'' \<Longrightarrow> registry_step R reg reg'"

lemma registry_bindings: "registry_ok reg \<Longrightarrow> reg = JObj (normalizedBindings reg)"
  by (auto simp: registry_ok_def split: option.splits)

lemma createPrincipalBinding_id: "createPrincipalBinding R d st now = Inr b \<Longrightarrow> bd_id b = js_trim (text_field d ''id'')"
  by (auto simp: createPrincipalBinding_def normalizedDatabase_def Let_def res_simps text_field_def split: if_splits)

text \<open>Replacing an entry by one with the same database id and principal.\<close>

lemma registry_ok_replace:
  assumes "registry_ok (JObj ps)" and "map_of ps k = Some b"
    and "getp b' ''databaseId'' = getp b ''databaseId''" "getp b' ''principalName'' = getp b ''principalName''"
  shows "registry_ok (JObj (put_prop k b' ps))"
proof -
  from assms(1) have ok: "map_of ps ''bindings'' = None" "\<And>k b. map_of ps k = Some b \<Longrightarrow> getp b ''databaseId'' = JStr k"
      "\<And>k1 k2 b1 b2. map_of ps k1 = Some b1 \<Longrightarrow> map_of ps k2 = Some b2 \<Longrightarrow>
          getp b1 ''principalName'' = getp b2 ''principalName'' \<Longrightarrow> k1 = k2"
    by (auto simp: registry_ok_def)
  have "k \<noteq> ''bindings''" using ok(1) assms(2) by auto
  have at: "\<exists>b1. map_of ps k1 = Some b1 \<and> getp b1 ''databaseId'' = getp b2 ''databaseId'' \<and> getp b1 ''principalName'' = getp b2 ''principalName''"
    if "map_of (put_prop k b' ps) k1 = Some b2" for k1 b2
    using that assms(2-4) by (cases "k1 = k") auto
  have ids: "getp b2 ''databaseId'' = JStr k1" if "map_of (put_prop k b' ps) k1 = Some b2" for k1 b2
    using at [OF that] ok(2) by metis
  have uniq: "k1 = k2" if "map_of (put_prop k b' ps) k1 = Some b1" "map_of (put_prop k b' ps) k2 = Some b2"
      "getp b1 ''principalName'' = getp b2 ''principalName''" for k1 k2 b1 b2
    using at [OF that(1)] at [OF that(2)] that(3) ok(3) by metis
  have "map_of (put_prop k b' ps) ''bindings'' = None" using ok(1) \<open>k \<noteq> ''bindings''\<close> by simp
  with ids uniq show ?thesis unfolding registry_ok_def by (intro exI [of _ "put_prop k b' ps"]) blast
qed

lemma matching_current:
  assumes "registry_ok (JObj ps)" and "assertBindingMatches (own_or_proto ps k) e = Inr ()"
    and "bd_databaseId e = k" "k \<noteq> []"
  shows "map_of ps k = Some (own_or_proto ps k)"
  using assms by (auto simp: own_or_proto_def assertBindingMatches_def requireR_eq text_field_def js_or_def split: option.splits if_splits)

lemma reserve_keeps_registry:
  assumes reg: "registry_ok reg" and run: "reservePrincipalBinding R reg d now = Inr reg'"
    and id: "js_trim (text_field d ''id'') \<noteq> ''bindings''"
  shows "registry_ok reg'"
proof -
  obtain ps where ps: "reg = JObj ps" "normalizedBindings reg = ps" using registry_bindings [OF reg] by blast
  from run obtain c where c: "createPrincipalBinding R d (JStr ''reserved'') now = Inr c"
    by (auto simp: reservePrincipalBinding_def Let_def bindR_eq_Inr)
  have idc: "bd_id c \<noteq> []" "bd_databaseId c = bd_id c" "bd_id c \<noteq> ''bindings''"
    using createPrincipalBinding_Inr [OF c] createPrincipalBinding_id [OF c] id by simp_all
  show ?thesis
  proof (cases "js_truthy (own_or_proto ps (bd_id c))")
    case True
    let ?b = "own_or_proto ps (bd_id c)"
    from run True c ps have m: "assertBindingMatches ?b c = Inr ()"
        and reg': "reg' = JObj (put_prop (bd_id c) (JObj (put_prop ''updatedAt'' now (spread ?b))) ps)"
      by (auto simp: reservePrincipalBinding_def Let_def bindR_eq_Inr)
    have cur: "map_of ps (bd_id c) = Some ?b" using matching_current [OF _ m idc(2,1)] reg ps(1) by simp
    have "getp ?b ''databaseId'' = JStr (bd_id c)" using reg ps(1) cur by (auto simp: registry_ok_def)
    then obtain qs where qs: "?b = JObj qs" by (cases ?b) auto
    show ?thesis
      unfolding reg' using reg ps(1) cur by (intro registry_ok_replace [of ps _ ?b]) (simp_all add: qs)
  next
    case False
    from reg ps(1) have ok: "map_of ps ''bindings'' = None" "\<And>k b. map_of ps k = Some b \<Longrightarrow> getp b ''databaseId'' = JStr k"
        "\<And>k1 k2 b1 b2. map_of ps k1 = Some b1 \<Longrightarrow> map_of ps k2 = Some b2 \<Longrightarrow>
            getp b1 ''principalName'' = getp b2 ''principalName'' \<Longrightarrow> k1 = k2"
      by (auto simp: registry_ok_def)
    have none: "map_of ps (bd_id c) = None"
    proof (rule ccontr)
      assume "map_of ps (bd_id c) \<noteq> None"
      then obtain b where b: "map_of ps (bd_id c) = Some b" by blast
      with ok(2) have "getp b ''databaseId'' = JStr (bd_id c)" by blast
      with b False show False by (cases b) (auto simp: own_or_proto_def)
    qed
    from run False c ps have reg': "reg' = JObj (put_prop (bd_id c) (binding_json c) ps)"
        and free: "\<not> list_ex (\<lambda>(k, b). getp b ''principalName'' = JStr (bd_principalName c)
                                 \<and> getp b ''databaseId'' \<noteq> JStr (bd_databaseId c)) ps"
      by (auto simp: reservePrincipalBinding_def Let_def bindR_eq_Inr split: if_splits)
    have other: "getp b ''principalName'' \<noteq> JStr (bd_principalName c)" if "map_of ps k = Some b" for k b
      using that free ok(2) [OF that] none idc(2) by (fastforce simp: list_ex_iff dest: map_of_SomeD)
    show ?thesis unfolding reg' registry_ok_def
      using ok idc other none by (intro exI [of _ "put_prop (bd_id c) (binding_json c) ps"])
        (auto simp: binding_json_def split: if_splits, metis)
  qed
qed

lemma activate_keeps_registry:
  assumes reg: "registry_ok reg" and run: "activatePrincipalBinding R reg d now = Inr reg'"
  shows "registry_ok reg'"
proof -
  obtain ps where ps: "reg = JObj ps" "normalizedBindings reg = ps" using registry_bindings [OF reg] by blast
  from run obtain c where c: "createPrincipalBinding R d (JStr ''active'') now = Inr c"
    by (auto simp: activatePrincipalBinding_def Let_def bindR_eq_Inr)
  let ?b = "own_or_proto ps (bd_id c)"
  let ?b' = "JObj (put_prop ''activatedAt'' (js_or (getp ?b ''activatedAt'') now)
      (put_prop ''updatedAt'' now (put_prop ''status'' (JStr ''active'') (spread ?b))))"
  have idc: "bd_id c \<noteq> []" "bd_databaseId c = bd_id c" using createPrincipalBinding_Inr [OF c] by simp_all
  from run c ps have m: "assertBindingMatches ?b c = Inr ()" and reg': "reg' = JObj (put_prop (bd_id c) ?b' ps)"
    by (auto simp: activatePrincipalBinding_def Let_def bindR_eq_Inr)
  have cur: "map_of ps (bd_id c) = Some ?b" using matching_current [OF _ m idc(2,1)] reg ps(1) by simp
  have "getp ?b ''databaseId'' = JStr (bd_id c)" using reg ps(1) cur by (auto simp: registry_ok_def)
  then obtain qs where qs: "?b = JObj qs" by (cases ?b) auto
  show ?thesis unfolding reg' using reg ps(1) cur by (intro registry_ok_replace [of ps _ ?b]) (simp_all add: qs)
qed

interpretation registry: step_system "\<lambda>reg. reg = JObj []" "registry_step R" registry_ok for R
proof
  fix s t
  assume "registry_ok s" and "registry_step R s t"
  then show "registry_ok t" by (blast elim: registry_step.cases intro: reserve_keeps_registry activate_keeps_registry)
qed (simp add: registry_ok_def)

text \<open>
  C30. In every registry built by reservations and activations, an entry is filed under its own
  database id and no principal is bound to two databases.
\<close>

theorem principal_bound_to_one_database:
  assumes "reachable (\<lambda>reg. reg = JObj []) (registry_step R) (JObj ps)"
    and "map_of ps k1 = Some b1" "map_of ps k2 = Some b2"
  shows "getp b1 ''databaseId'' = JStr k1 \<and> (getp b1 ''principalName'' = getp b2 ''principalName'' \<longrightarrow> k1 = k2)"
  using registry.reachable_inv [OF assms(1)] assms(2,3) by (auto simp: registry_ok_def)

theorem principal_bound_to_one_database_witness:
  "\<exists>ps b. reservePrincipalBinding plain_runtime (JObj []) sample_database (JStr ''t'') = Inr (JObj ps)
     \<and> map_of ps ''db1'' = Some b \<and> getp b ''databaseId'' = JStr ''db1''"
proof -
  have "case reservePrincipalBinding plain_runtime (JObj []) sample_database (JStr ''t'') of
      Inr (JObj ps) \<Rightarrow> map_of ps ''db1'' \<noteq> None | _ \<Rightarrow> False" by code_simp
  then obtain ps b where ps: "reservePrincipalBinding plain_runtime (JObj []) sample_database (JStr ''t'') = Inr (JObj ps)"
      "map_of ps ''db1'' = Some b"
    by (auto split: sum.splits jsv.splits)
  have "js_trim (text_field sample_database ''id'') \<noteq> ''bindings''" by code_simp
  with ps(1) have "reachable (\<lambda>reg. reg = JObj []) (registry_step plain_runtime) (JObj ps)"
    by (intro reachable.more [OF reachable.start] registry_step.reserve) auto
  from principal_bound_to_one_database [OF this ps(2) ps(2)] ps show ?thesis by blast
qed

end
