(* ===== verification/DatabaseDelete.thy ===== *)
theory DatabaseDelete
  imports BackupContracts StepSystems
begin

text \<open>
  \<open>src/control-center/database/destructive-workflow.mjs\<close>: a database may be deleted only with
  fresh evidence that it can be restored (a signed manifest with its artifact, a restore drill
  and an off-site copy), and the delete operation passes through a fixed state machine.

  The files read are the record \<open>disk\<close>: the names in a directory, the node at a path with its
  text, size and modification time, and \<open>JSON.parse\<close>. The roots are absolute paths other than
  \<open>/\<close>; \<open>now\<close> and \<open>clock\<close> are the current time the defaults \<open>new Date()\<close> read. Text checks and
  identifiers are those of the backup documents, which the module repeats literally.
\<close>

section \<open>Files\<close>

record node =
  nd_regular :: bool
  nd_text :: string
  nd_size :: int
  nd_mtime :: int

record disk =
  dk_names :: "string \<Rightarrow> string list option"
  dk_node :: "string \<Rightarrow> node option"
  dk_parse :: "string \<Rightarrow> jsv option"

text \<open>\<open>path.resolve\<close> of an absolute path, and of a path below it.\<close>

definition path_resolve :: "string \<Rightarrow> string \<Rightarrow> string" where
  "path_resolve root p = ''/'' @ join ''/'' (normalize_segments (normalize_segments [] (split_on CHR ''/'' root)) (split_on CHR ''/'' p))"

text \<open>\<open>path.join\<close> of a normalised directory and a name.\<close>

definition path_join :: "string \<Rightarrow> string \<Rightarrow> string" where
  "path_join directory name = directory @ ''/'' @ name"

definition regularFiles :: "disk \<Rightarrow> string \<Rightarrow> string list res" where
  "regularFiles D directory = (case dk_names D directory of
       None \<Rightarrow> Inr []
     | Some names \<Rightarrow>
         (let paths = take 1000 (filter (ends_with ''.json'') names) in
          bindR (mapR (\<lambda>name. case dk_node D (path_join directory name) of
              None \<Rightarrow> Inl (PlainError ''ENOENT'') | Some n \<Rightarrow> Inr (name, nd_regular n)) paths) (\<lambda>entries.
          Inr (map fst (filter snd entries)))))"

definition readJson :: "disk \<Rightarrow> string \<Rightarrow> jsv option" where
  "readJson D path = (case dk_node D path of None \<Rightarrow> None | Some n \<Rightarrow> dk_parse D (nd_text n))"

definition fileSha256 :: "runtime \<Rightarrow> disk \<Rightarrow> string \<Rightarrow> string option" where
  "fileSha256 R D path = (case dk_node D path of None \<Rightarrow> None | Some n \<Rightarrow> Some (rt_sha256 R (nd_text n)))"

definition date_parse :: "runtime \<Rightarrow> jsv \<Rightarrow> int option" where
  "date_parse R v = rt_date R (JStr (js_String (js_or v (JStr []))))"

definition freshTimestamp :: "runtime \<Rightarrow> jsv \<Rightarrow> int \<Rightarrow> int \<Rightarrow> int \<Rightarrow> bool" where
  "freshTimestamp R v nowMs maxAgeMs notBeforeMs = (case date_parse R v of None \<Rightarrow> False
     | Some t \<Rightarrow> notBeforeMs \<le> t \<and> t \<le> nowMs \<and> nowMs - t \<le> maxAgeMs)"

section \<open>The database\<close>

record exact_database =
  xd_id :: string
  xd_engine :: string
  xd_name :: string
  xd_projectId :: string
  xd_resourceId :: string

definition db_name_pattern :: "string \<Rightarrow> bool" where
  "db_name_pattern s \<longleftrightarrow> s \<noteq> [] \<and> is_lower (hd s) \<and> length s \<le> 63 \<and> list_all (\<lambda>c. is_lower_alnum c \<or> c = CHR ''_'') s"

definition db_project_pattern :: "string \<Rightarrow> bool" where
  "db_project_pattern s \<longleftrightarrow> s \<noteq> [] \<and> is_lower_alnum (hd s) \<and> length s \<le> 63 \<and> list_all slug_char s"

definition exactDatabase :: "jsv \<Rightarrow> exact_database res" where
  "exactDatabase d =
     bindR (identifier_text (getp d ''id'') ''database id'') (\<lambda>ident.
     bindR (requiredText (getp d ''engine'') ''database engine'' (\<lambda>s. s \<in> {''mariadb'', ''postgres''}) 16) (\<lambda>engine.
     bindR (requiredText (getp d ''name'') ''database name'' db_name_pattern 63) (\<lambda>name.
     bindR (requiredText (getp d ''projectId'') ''project id'' db_project_pattern 63) (\<lambda>projectId.
     bindR (backupResourceId (JStr ''database'') (JStr ident)) (\<lambda>resourceId.
     Inr \<lparr>xd_id = ident, xd_engine = engine, xd_name = name, xd_projectId = projectId, xd_resourceId = resourceId\<rparr>)))))"

section \<open>Evidence\<close>

definition first_word :: "string \<Rightarrow> string" where
  "first_word s = takeWhile (\<lambda>c. \<not> is_js_space c) (js_trim s)"

text \<open>Reading a file as \<open>ascii\<close> drops the high bit of every byte.\<close>

fun ascii_char :: "char \<Rightarrow> char" where
  "ascii_char (Char b0 b1 b2 b3 b4 b5 b6 b7) = Char b0 b1 b2 b3 b4 b5 b6 False"

definition ascii :: "string \<Rightarrow> string" where
  "ascii s = map ascii_char s"

definition is_regular :: "disk \<Rightarrow> string \<Rightarrow> bool" where
  "is_regular D path = (case dk_node D path of None \<Rightarrow> False | Some n \<Rightarrow> nd_regular n)"

definition validateArtifactSidecars :: "runtime \<Rightarrow> disk \<Rightarrow> string \<Rightarrow> artifact \<Rightarrow> bool" where
  "validateArtifactSidecars R D root a =
     (let artifactPath = path_resolve root (a_path a);
          checksumPath = artifactPath @ ''.sha256''; signaturePath = artifactPath @ ''.sig.json'' in
      starts_with (root @ ''/'') artifactPath
    \<and> (case dk_node D artifactPath of None \<Rightarrow> False | Some n \<Rightarrow> nd_regular n \<and> nd_size n = a_sizeBytes a)
    \<and> is_regular D checksumPath \<and> is_regular D signaturePath
    \<and> (case (dk_node D checksumPath, readJson D signaturePath) of
         (Some n, Some sig) \<Rightarrow> first_word (ascii (nd_text n)) = a_sha256 a
           \<and> fileSha256 R D artifactPath = Some (a_sha256 a)
           \<and> getp sig ''algorithm'' = JStr ''HMAC-SHA256'' \<and> getp sig ''hash'' = JStr (a_sha256 a)
           \<and> getp sig ''keyId'' = JStr (a_signatureKeyId a)
           \<and> js_String (js_or (getp sig ''signature'') (JStr [])) \<noteq> []
       | _ \<Rightarrow> False))"

definition artifact_js :: "artifact \<Rightarrow> jsv" where
  "artifact_js a = JObj [(''id'', JStr (a_id a)), (''resourceId'', JStr (a_resourceId a)), (''path'', JStr (a_path a)),
     (''sha256'', JStr (a_sha256 a)), (''sizeBytes'', JInt (a_sizeBytes a)), (''signatureKeyId'', JStr (a_signatureKeyId a))]"

definition manifest_js :: "manifest \<Rightarrow> jsv" where
  "manifest_js m = JObj [(''schema'', JStr BACKUP_MANIFEST_SCHEMA), (''id'', JStr (m_id m)), (''jobId'', JStr (m_jobId m)),
     (''operation'', JStr ''backup''), (''scope'', scope_js (m_scope m)),
     (''resources'', JArr (map resource_js (m_resources m))), (''artifacts'', JArr (map artifact_js (m_artifacts m))),
     (''coverage'', JObj [(''requiredResourceIds'', JArr (map JStr (m_requiredResourceIds m))),
        (''artifactResourceIds'', JArr (map JStr (m_artifactResourceIds m))),
        (''missingResourceIds'', JArr (map JStr (m_missingResourceIds m))), (''complete'', JBool (m_complete m))]),
     (''createdAt'', JStr (m_createdAt m)),
     (''signature'', case m_signature m of None \<Rightarrow> JNull
        | Some s \<Rightarrow> JObj [(''algorithm'', JStr (s_algorithm s)), (''keyId'', JStr (s_keyId s)), (''digest'', JStr (s_digest s)),
            (''value'', JStr (s_value s))])]"

record candidate =
  cd_manifest :: manifest
  cd_signature :: signature
  cd_manifestPath :: string
  cd_artifact :: artifact

definition slashes :: "string \<Rightarrow> string" where
  "slashes s = map (\<lambda>c. if c = CHR 0x5C then CHR ''/'' else c) s"

text \<open>One manifest file: a candidate, or skipped, also when reading it throws.\<close>

definition manifest_candidate :: "runtime \<Rightarrow> disk \<Rightarrow> string \<Rightarrow> exact_database \<Rightarrow> int \<Rightarrow> int \<Rightarrow> string \<Rightarrow> candidate option" where
  "manifest_candidate R D root db nowMs maxAgeMs name =
     (case readJson D (path_join (path_join root ''manifests'') name) of None \<Rightarrow> None | Some doc \<Rightarrow>
     (case parseBackupManifestDocument R nowMs True doc of Inl e \<Rightarrow> None | Inr m \<Rightarrow>
     (case m_signature m of None \<Rightarrow> None | Some sig \<Rightarrow>
      if s_digest sig \<noteq> backupDocumentDigest R (manifest_js m) then None
      else if \<not> freshTimestamp R (JStr (m_createdAt m)) nowMs maxAgeMs 0 then None
      else (case (find (\<lambda>a. a_resourceId a = xd_resourceId db) (m_artifacts m),
                  find (\<lambda>r. r_id r = xd_resourceId db) (m_resources m)) of
          (Some a, Some r) \<Rightarrow>
            if r_engine r \<noteq> Some (xd_engine db) \<or> r_name r \<noteq> xd_name db then None
            else if \<not> validateArtifactSidecars R D root a then None
            else Some \<lparr>cd_manifest = m, cd_signature = sig, cd_manifestPath = slashes (path_join ''manifests'' name), cd_artifact = a\<rparr>
        | _ \<Rightarrow> None))))"

definition newest_first :: "runtime \<Rightarrow> candidate \<Rightarrow> candidate \<Rightarrow> int" where
  "newest_first R a b =
     (let c = rt_localeCompare R (m_createdAt (cd_manifest b)) (m_createdAt (cd_manifest a))
      in if c \<noteq> 0 then c else rt_localeCompare R (m_id (cd_manifest b)) (m_id (cd_manifest a)))"

definition verifiedManifestCandidates :: "runtime \<Rightarrow> disk \<Rightarrow> string \<Rightarrow> exact_database \<Rightarrow> int \<Rightarrow> int \<Rightarrow> candidate list res" where
  "verifiedManifestCandidates R D root db nowMs maxAgeMs =
     bindR (regularFiles D (path_join root ''manifests'')) (\<lambda>names.
     Inr (js_sort_by (newest_first R) (List.map_filter (manifest_candidate R D root db nowMs maxAgeMs) names)))"

definition mtime_desc :: "disk \<Rightarrow> string \<Rightarrow> string \<Rightarrow> string \<Rightarrow> int" where
  "mtime_desc D directory a b = (case (dk_node D (path_join directory b), dk_node D (path_join directory a)) of
     (Some y, Some x) \<Rightarrow> nd_mtime y - nd_mtime x | _ \<Rightarrow> 0)"

fun js_includes :: "jsv \<Rightarrow> jsv \<Rightarrow> bool" where
  "js_includes (JArr xs) v = (v \<in> set xs)"
| "js_includes _ v = False"

text \<open>\<open>results.some(...)\<close>; a \<open>null\<close> among the results before the match throws, which skips the report.\<close>

fun some_passed :: "string \<Rightarrow> jsv list \<Rightarrow> bool" where
  "some_passed resourceId [] = False"
| "some_passed resourceId (r # rs) =
     (\<not> nullish r \<and> (getp r ''resourceId'' = JStr resourceId \<and> getp r ''status'' = JStr ''passed'' \<or> some_passed resourceId rs))"

definition drill_passed :: "jsv \<Rightarrow> string \<Rightarrow> bool" where
  "drill_passed results resourceId = (case results of JArr xs \<Rightarrow> some_passed resourceId xs | _ \<Rightarrow> False)"

definition manifest_time :: "runtime \<Rightarrow> candidate \<Rightarrow> int option" where
  "manifest_time R c = date_parse R (JStr (m_createdAt (cd_manifest c)))"

text \<open>One receipt file: the entry for the evidence, or skipped, also when reading it throws.\<close>

definition restore_report :: "runtime \<Rightarrow> disk \<Rightarrow> string \<Rightarrow> exact_database \<Rightarrow> candidate \<Rightarrow> int \<Rightarrow> int \<Rightarrow> string \<Rightarrow> jsv option" where
  "restore_report R D reportsRoot db c nowMs maxAgeMs name =
     (let path = path_join (path_join reportsRoot ''backup-jobs'') name in
      case (readJson D path, manifest_time R c) of
        (Some report, Some t0) \<Rightarrow>
          if getp report ''status'' = JStr ''passed'' \<and> getp report ''operation'' = JStr ''restore-drill''
             \<and> getp report ''liveDataChanged'' = JBool False
             \<and> getp report ''manifestPath'' = JStr (cd_manifestPath c)
             \<and> js_includes (getp report ''resourceIds'') (JStr (xd_resourceId db))
             \<and> drill_passed (getp report ''results'') (xd_resourceId db)
             \<and> freshTimestamp R (getp report ''finishedAt'') nowMs maxAgeMs t0
          then (case (fileSha256 R D path, date_iso R (getp report ''finishedAt''), identifier_text (getp report ''jobId'') ''restore job id'') of
              (Some sha, Inr finished, Inr jobId) \<Rightarrow>
                Some (JObj [(''path'', JStr (slashes (path_join ''backup-jobs'' name))), (''sha256'', JStr sha),
                  (''finishedAt'', JStr finished), (''jobId'', JStr jobId)])
            | _ \<Rightarrow> None)
          else None
      | _ \<Rightarrow> None)"

definition snapshot_pattern :: "string \<Rightarrow> bool" where
  "snapshot_pattern s \<longleftrightarrow> s \<noteq> [] \<and> list_all (\<lambda>c. is_alnum c \<or> c \<in> {CHR ''.'', CHR ''_'', CHR '':'', CHR ''-''}) s"

definition hostname_pattern :: "string \<Rightarrow> bool" where
  "hostname_pattern = enclosed is_lower_alnum (\<lambda>c. is_lower_alnum c \<or> c = CHR ''.'' \<or> c = CHR ''-'') 62"

definition offsite_receipt :: "runtime \<Rightarrow> disk \<Rightarrow> string \<Rightarrow> exact_database \<Rightarrow> candidate \<Rightarrow> int \<Rightarrow> int \<Rightarrow> string \<Rightarrow> jsv option" where
  "offsite_receipt R D reportsRoot db c nowMs maxAgeMs name =
     (let path = path_join (path_join reportsRoot ''offsite-backups'') name in
      case (readJson D path, manifest_time R c) of
        (Some receipt, Some t0) \<Rightarrow>
          if getp receipt ''schema'' = JStr ''platform.offsite-backup-receipt/v1'' \<and> getp receipt ''status'' = JStr ''passed''
             \<and> getp receipt ''repositoryOffsite'' = JBool True
             \<and> getp receipt ''manifestId'' = JStr (m_id (cd_manifest c))
             \<and> getp receipt ''manifestPath'' = JStr (cd_manifestPath c)
             \<and> getp receipt ''manifestDigest'' = JStr (s_digest (cd_signature c))
             \<and> js_includes (getp receipt ''resourceIds'') (JStr (xd_resourceId db))
             \<and> js_String (js_or (getp receipt ''snapshotId'') (JStr [])) \<noteq> []
             \<and> freshTimestamp R (getp receipt ''finishedAt'') nowMs maxAgeMs t0
          then (case (fileSha256 R D path, date_iso R (getp receipt ''finishedAt''),
                      requiredText (getp receipt ''snapshotId'') ''snapshot id'' snapshot_pattern 160,
                      requiredText (getp receipt ''hostname'') ''Restic hostname'' hostname_pattern 64) of
              (Some sha, Inr finished, Inr snapshotId, Inr hostname) \<Rightarrow>
                Some (JObj [(''path'', JStr (slashes (path_join ''offsite-backups'' name))), (''sha256'', JStr sha),
                  (''finishedAt'', JStr finished), (''snapshotId'', JStr snapshotId), (''hostname'', JStr hostname)])
            | _ \<Rightarrow> None)
          else None
      | _ \<Rightarrow> None)"

fun first_some :: "('a \<Rightarrow> 'b option) \<Rightarrow> 'a list \<Rightarrow> 'b option" where
  "first_some f [] = None"
| "first_some f (x # xs) = (case f x of Some y \<Rightarrow> Some y | None \<Rightarrow> first_some f xs)"

definition matchingRestoreReport :: "runtime \<Rightarrow> disk \<Rightarrow> string \<Rightarrow> exact_database \<Rightarrow> candidate \<Rightarrow> int \<Rightarrow> int \<Rightarrow> jsv option res" where
  "matchingRestoreReport R D reportsRoot db c nowMs maxAgeMs =
     (let directory = path_join reportsRoot ''backup-jobs'' in
      bindR (regularFiles D directory) (\<lambda>names.
      Inr (first_some (restore_report R D reportsRoot db c nowMs maxAgeMs) (js_sort_by (mtime_desc D directory) names))))"

definition matchingOffsiteReceipt :: "runtime \<Rightarrow> disk \<Rightarrow> string \<Rightarrow> exact_database \<Rightarrow> candidate \<Rightarrow> int \<Rightarrow> int \<Rightarrow> jsv option res" where
  "matchingOffsiteReceipt R D reportsRoot db c nowMs maxAgeMs =
     (let directory = path_join reportsRoot ''offsite-backups'' in
      bindR (regularFiles D directory) (\<lambda>names.
      Inr (first_some (offsite_receipt R D reportsRoot db c nowMs maxAgeMs) (js_sort_by (mtime_desc D directory) names))))"

definition databaseDeleteEvidenceFingerprint :: "runtime \<Rightarrow> jsv \<Rightarrow> string" where
  "databaseDeleteEvidenceFingerprint R evidence =
     rt_sha256 R (json_stringify (JObj [(''resourceId'', getp evidence ''resourceId''), (''manifest'', getp evidence ''manifest''),
       (''restoreReport'', getp evidence ''restoreReport''), (''offsiteReceipt'', getp evidence ''offsiteReceipt''),
       (''maxAgeMs'', getp evidence ''maxAgeMs'')]))"

datatype restore_point = Ready jsv | Blocked "string list"

definition evidence_of :: "runtime \<Rightarrow> exact_database \<Rightarrow> candidate \<Rightarrow> jsv \<Rightarrow> jsv \<Rightarrow> int \<Rightarrow> int \<Rightarrow> jsv res" where
  "evidence_of R db c report receipt nowMs maxAgeMs =
     bindR (date_iso R (JStr (m_createdAt (cd_manifest c)))) (\<lambda>created.
     bindR (ms_iso nowMs) (\<lambda>verified.
     (let evidence = [(''resourceId'', JStr (xd_resourceId db)),
            (''manifest'', JObj [(''id'', JStr (m_id (cd_manifest c))), (''path'', JStr (cd_manifestPath c)),
               (''digest'', JStr (s_digest (cd_signature c))), (''createdAt'', JStr created),
               (''artifactSha256'', JStr (a_sha256 (cd_artifact c))), (''artifactSizeBytes'', JInt (a_sizeBytes (cd_artifact c)))]),
            (''restoreReport'', report), (''offsiteReceipt'', receipt), (''verifiedAt'', JStr verified), (''maxAgeMs'', JInt maxAgeMs)]
      in Inr (JObj (evidence @ [(''fingerprint'', JStr (databaseDeleteEvidenceFingerprint R (JObj evidence)))])))))"

fun search_candidates ::
  "runtime \<Rightarrow> disk \<Rightarrow> string \<Rightarrow> exact_database \<Rightarrow> int \<Rightarrow> int \<Rightarrow> string list \<Rightarrow> candidate list \<Rightarrow> restore_point res" where
  "search_candidates R D reportsRoot db nowMs maxAgeMs blockers [] = Inr (Blocked blockers)"
| "search_candidates R D reportsRoot db nowMs maxAgeMs blockers (c # cs) =
     bindR (matchingRestoreReport R D reportsRoot db c nowMs maxAgeMs) (\<lambda>report.
     bindR (matchingOffsiteReceipt R D reportsRoot db c nowMs maxAgeMs) (\<lambda>receipt.
     case (report, receipt) of
       (Some rp, Some rc) \<Rightarrow> bindR (evidence_of R db c rp rc nowMs maxAgeMs) (\<lambda>e. Inr (Ready e))
     | _ \<Rightarrow> (let b1 = (if report = None then List.insert ''fresh-exact-restore-drill-missing'' (rev blockers) else rev blockers);
                  b2 = (if receipt = None then List.insert ''fresh-exact-offsite-receipt-missing'' b1 else b1)
              in search_candidates R D reportsRoot db nowMs maxAgeMs (rev b2) cs)))"

definition findDatabaseDeleteRestorePoint :: "runtime \<Rightarrow> disk \<Rightarrow> jsv \<Rightarrow> string \<Rightarrow> string \<Rightarrow> jsv \<Rightarrow> jsv \<Rightarrow> restore_point res" where
  "findDatabaseDeleteRestorePoint R D input backupRoot reportsRoot now maxAge =
     bindR (exactDatabase input) (\<lambda>db.
     case (rt_date R now, safe_int (case js_default maxAge (JInt 86400000) of JNum n \<Rightarrow> n | _ \<Rightarrow> NaN)) of
       (Some nowMs, Some maxAgeMs) \<Rightarrow>
         if maxAgeMs < 60000 then Inl (PlainError ''Invalid database delete evidence window.'')
         else bindR (verifiedManifestCandidates R D (path_resolve backupRoot []) db nowMs maxAgeMs) (\<lambda>manifests.
              search_candidates R D (path_resolve reportsRoot []) db nowMs maxAgeMs
                (if manifests = [] then [''fresh-exact-backup-manifest-missing''] else []) manifests)
     | _ \<Rightarrow> Inl (PlainError ''Invalid database delete evidence window.''))"

section \<open>The delete operation\<close>

definition DATABASE_DELETE_OPERATION_SCHEMA :: string where
  "DATABASE_DELETE_OPERATION_SCHEMA = ''platform.database-delete-operation/v1''"

datatype stage = EvidenceVerified | Approved | Executing | DatabaseDropped | Completed | Failed | RollbackRequired

fun stage_text :: "stage \<Rightarrow> string" where
  "stage_text EvidenceVerified = ''evidence-verified''"
| "stage_text Approved = ''approved''"
| "stage_text Executing = ''executing''"
| "stage_text DatabaseDropped = ''database-dropped''"
| "stage_text Completed = ''completed''"
| "stage_text Failed = ''failed''"
| "stage_text RollbackRequired = ''rollback-required''"

definition statuses :: "stage list" where
  "statuses = [EvidenceVerified, Approved, Executing, DatabaseDropped, Completed, Failed, RollbackRequired]"

fun transitions :: "stage \<Rightarrow> stage set" where
  "transitions EvidenceVerified = {Approved}"
| "transitions Approved = {Executing}"
| "transitions Executing = {DatabaseDropped, Failed}"
| "transitions DatabaseDropped = {Completed, RollbackRequired}"
| "transitions Failed = {Approved}"
| "transitions _ = {}"

definition stage_of :: "string \<Rightarrow> stage option" where
  "stage_of s = find (\<lambda>x. stage_text x = s) statuses"

lemma stage_of_text [simp]: "stage_of (stage_text x) = Some x"
  by (cases x) (simp_all add: stage_of_def statuses_def)

record delete_target =
  dt_id :: string
  dt_projectId :: string
  dt_engine :: string
  dt_name :: string
  dt_ownerRole :: string
  dt_principalBindingId :: string
  dt_credentialFile :: string

record delete_execution =
  ex_attempts :: int
  ex_startedAt :: "string option"
  ex_databaseDroppedAt :: "string option"
  ex_completedAt :: "string option"
  ex_failure :: string

record delete_operation =
  do_id :: string
  do_database :: delete_target
  do_resourceId :: string
  do_status :: stage
  do_idempotencyKey :: string
  do_requestedBy :: string
  do_requestedAt :: string
  do_evidence :: jsv
  do_approval :: "(string \<times> string) option"
  do_execution :: delete_execution
  do_updatedAt :: string

definition key_pattern :: "string \<Rightarrow> bool" where
  "key_pattern s \<longleftrightarrow> s \<noteq> [] \<and> list_all (\<lambda>c. is_alnum c \<or> c \<in> {CHR ''.'', CHR ''_'', CHR '':'', CHR ''-''}) s"

definition credential_pattern :: "string \<Rightarrow> bool" where
  "credential_pattern s \<longleftrightarrow> length s \<ge> 2 \<and> hd s = CHR ''/''
     \<and> list_all (\<lambda>c. is_alnum c \<or> c \<in> {CHR ''.'', CHR ''_'', CHR ''/'', CHR ''-''}) (tl s)"

definition person_text :: "jsv \<Rightarrow> string \<Rightarrow> string res" where
  "person_text v label = requiredText v label principal_pattern 256"

definition credential_part :: "jsv \<Rightarrow> string res" where
  "credential_part v = (if js_truthy v then requiredText v ''credential file'' credential_pattern 512 else Inr [])"

definition createDatabaseDeleteOperation ::
  "runtime \<Rightarrow> int \<Rightarrow> jsv \<Rightarrow> jsv \<Rightarrow> jsv \<Rightarrow> jsv \<Rightarrow> jsv \<Rightarrow> jsv \<Rightarrow> delete_operation res" where
  "createDatabaseDeleteOperation R clock ident input evidence idempotencyKey requestedBy now =
     bindR (exactDatabase input) (\<lambda>db.
     bindR (requireR (js_truthy evidence \<and> getp evidence ''resourceId'' = JStr (xd_resourceId db)
              \<and> getp evidence ''fingerprint'' = JStr (databaseDeleteEvidenceFingerprint R evidence))
              (PlainError ''Database delete evidence does not match the exact resource.'')) (\<lambda>_.
     bindR (date_iso R (js_default now (JInt clock))) (\<lambda>timestamp.
     bindR (identifier_text ident ''operation id'') (\<lambda>i.
     bindR (requiredText (getp input ''ownerRole'') ''database owner'' db_name_pattern 63) (\<lambda>owner.
     bindR (identifier_text (js_or (getp input ''principalBindingId'') (getp input ''id'')) ''principal binding id'') (\<lambda>binding.
     bindR (credential_part (getp input ''credentialFile'')) (\<lambda>credential.
     bindR (requiredText idempotencyKey ''idempotency key'' key_pattern 160) (\<lambda>key.
     bindR (person_text requestedBy ''requester'') (\<lambda>requester.
     Inr \<lparr>do_id = i,
           do_database = \<lparr>dt_id = xd_id db, dt_projectId = xd_projectId db, dt_engine = xd_engine db, dt_name = xd_name db,
             dt_ownerRole = owner, dt_principalBindingId = binding, dt_credentialFile = credential\<rparr>,
           do_resourceId = xd_resourceId db, do_status = EvidenceVerified, do_idempotencyKey = key,
           do_requestedBy = requester, do_requestedAt = timestamp, do_evidence = evidence, do_approval = None,
           do_execution = \<lparr>ex_attempts = 0, ex_startedAt = None, ex_databaseDroppedAt = None, ex_completedAt = None, ex_failure = []\<rparr>,
           do_updatedAt = timestamp\<rparr>)))))))))"

text \<open>The operation as the JSON object that is stored; \<open>evidenceFingerprint\<close> repeats the one in the evidence.\<close>

definition target_json :: "delete_target \<Rightarrow> jsv" where
  "target_json d = JObj [(''id'', JStr (dt_id d)), (''projectId'', JStr (dt_projectId d)), (''engine'', JStr (dt_engine d)),
     (''name'', JStr (dt_name d)), (''ownerRole'', JStr (dt_ownerRole d)),
     (''principalBindingId'', JStr (dt_principalBindingId d)), (''credentialFile'', JStr (dt_credentialFile d))]"

definition execution_json :: "delete_execution \<Rightarrow> jsv" where
  "execution_json e = JObj [(''attempts'', JInt (ex_attempts e)), (''startedAt'', null_or_str (ex_startedAt e)),
     (''databaseDroppedAt'', null_or_str (ex_databaseDroppedAt e)), (''completedAt'', null_or_str (ex_completedAt e)),
     (''failure'', JStr (ex_failure e))]"

definition approval_json :: "(string \<times> string) option \<Rightarrow> jsv" where
  "approval_json a = (case a of None \<Rightarrow> JNull
     | Some (who, at) \<Rightarrow> JObj [(''approvedBy'', JStr who), (''approvedAt'', JStr at)])"

definition operation_json :: "delete_operation \<Rightarrow> jsv" where
  "operation_json d = JObj [(''schema'', JStr DATABASE_DELETE_OPERATION_SCHEMA), (''id'', JStr (do_id d)),
     (''database'', target_json (do_database d)), (''resourceId'', JStr (do_resourceId d)), (''status'', JStr (stage_text (do_status d))),
     (''idempotencyKey'', JStr (do_idempotencyKey d)), (''requestedBy'', JStr (do_requestedBy d)),
     (''requestedAt'', JStr (do_requestedAt d)), (''evidence'', do_evidence d),
     (''evidenceFingerprint'', getp (do_evidence d) ''fingerprint''), (''approval'', approval_json (do_approval d)),
     (''execution'', execution_json (do_execution d)), (''updatedAt'', JStr (do_updatedAt d))]"

definition isoDate :: "runtime \<Rightarrow> jsv \<Rightarrow> string \<Rightarrow> string res" where
  "isoDate R v label = (if js_truthy v then (case rt_date R v of None \<Rightarrow> Inl (invalid label) | Some t \<Rightarrow> Inr (to_iso t))
     else Inl (invalid label))"

definition optional_iso :: "runtime \<Rightarrow> jsv \<Rightarrow> string \<Rightarrow> string option res" where
  "optional_iso R v label = (if js_truthy v then bindR (isoDate R v label) (\<lambda>s. Inr (Some s)) else Inr None)"

definition parse_approval :: "runtime \<Rightarrow> jsv \<Rightarrow> (string \<times> string) option res" where
  "parse_approval R v = (if js_truthy v
     then bindR (person_text (getp v ''approvedBy'') ''approver'') (\<lambda>who.
          bindR (isoDate R (getp v ''approvedAt'') ''approval timestamp'') (\<lambda>at. Inr (Some (who, at))))
     else Inr None)"

definition parse_attempts :: "jsv \<Rightarrow> int" where
  "parse_attempts v = (case v of JNum n \<Rightarrow> (case safe_int n of Some i \<Rightarrow> if 0 \<le> i then i else 0 | None \<Rightarrow> 0) | _ \<Rightarrow> 0)"

definition parse_execution :: "runtime \<Rightarrow> jsv \<Rightarrow> delete_execution res" where
  "parse_execution R v =
     bindR (optional_iso R (getp v ''startedAt'') ''execution timestamp'') (\<lambda>started.
     bindR (optional_iso R (getp v ''databaseDroppedAt'') ''database drop timestamp'') (\<lambda>dropped.
     bindR (optional_iso R (getp v ''completedAt'') ''completion timestamp'') (\<lambda>completed.
     Inr \<lparr>ex_attempts = parse_attempts (getp v ''attempts''), ex_startedAt = started, ex_databaseDroppedAt = dropped,
           ex_completedAt = completed, ex_failure = take 500 (js_String (js_or (getp v ''failure'') (JStr [])))\<rparr>)))"

definition delete_status :: "jsv \<Rightarrow> stage option" where
  "delete_status v = (case v of JStr s \<Rightarrow> stage_of s | _ \<Rightarrow> None)"

definition parseDatabaseDeleteOperation :: "runtime \<Rightarrow> int \<Rightarrow> jsv \<Rightarrow> delete_operation res" where
  "parseDatabaseDeleteOperation R clock input =
     (if \<not> js_truthy input \<or> getp input ''schema'' \<noteq> JStr DATABASE_DELETE_OPERATION_SCHEMA
      then Inl (PlainError ''Invalid database delete operation.'')
      else case delete_status (getp input ''status'') of None \<Rightarrow> Inl (PlainError ''Invalid database delete operation.'')
      | Some status \<Rightarrow>
          bindR (createDatabaseDeleteOperation R clock (getp input ''id'') (getp input ''database'') (getp input ''evidence'')
                   (getp input ''idempotencyKey'') (getp input ''requestedBy'') (getp input ''requestedAt'')) (\<lambda>operation.
          bindR (parse_approval R (getp input ''approval'')) (\<lambda>approval.
          bindR (parse_execution R (getp input ''execution'')) (\<lambda>execution.
          bindR (isoDate R (js_or (getp input ''updatedAt'') (getp input ''requestedAt'')) ''operation update timestamp'') (\<lambda>updated.
          Inr (operation\<lparr>do_status := status, do_approval := approval, do_execution := execution, do_updatedAt := updated\<rparr>))))))"

text \<open>\<open>details.k\<close>, which throws on a \<open>null\<close> \<open>details\<close>.\<close>

definition detail :: "jsv \<Rightarrow> string \<Rightarrow> jsv res" where
  "detail details k = (if nullish details then Inl (PlainError ''TypeError'') else Inr (getp details k))"

fun enter_status :: "jsv \<Rightarrow> stage \<Rightarrow> string \<Rightarrow> delete_operation \<Rightarrow> delete_operation res" where
  "enter_status details Approved timestamp updated =
     bindR (detail details ''approvedBy'') (\<lambda>v. bindR (person_text v ''approver'') (\<lambda>who.
     Inr (updated\<lparr>do_approval := Some (who, timestamp)\<rparr>)))"
| "enter_status details Executing timestamp updated = (let execution = do_execution updated in
     Inr (updated\<lparr>do_execution := execution\<lparr>ex_attempts := ex_attempts execution + 1, ex_startedAt := Some timestamp, ex_failure := []\<rparr>\<rparr>))"
| "enter_status details DatabaseDropped timestamp updated =
     Inr (updated\<lparr>do_execution := (do_execution updated)\<lparr>ex_databaseDroppedAt := Some timestamp\<rparr>\<rparr>)"
| "enter_status details Completed timestamp updated =
     Inr (updated\<lparr>do_execution := (do_execution updated)\<lparr>ex_completedAt := Some timestamp, ex_failure := []\<rparr>\<rparr>)"
| "enter_status details EvidenceVerified timestamp updated = Inr updated"
| "enter_status details _ timestamp updated =
     bindR (detail details ''failure'') (\<lambda>v.
     Inr (updated\<lparr>do_execution := (do_execution updated)\<lparr>ex_failure := take 500 (js_String (js_or v (JStr ''operation failed'')))\<rparr>\<rparr>))"

definition transitionDatabaseDeleteOperation :: "runtime \<Rightarrow> int \<Rightarrow> jsv \<Rightarrow> jsv \<Rightarrow> jsv \<Rightarrow> jsv \<Rightarrow> delete_operation res" where
  "transitionDatabaseDeleteOperation R clock input nextStatus details now =
     bindR (parseDatabaseDeleteOperation R clock input) (\<lambda>operation.
     bindR (requiredText nextStatus ''database delete status'' dashed_word 32) (\<lambda>text.
     let refused = Inl (PlainError (''Invalid database delete transition: '' @ stage_text (do_status operation) @ '' -> '' @ text)) in
     case stage_of text of None \<Rightarrow> refused
     | Some next \<Rightarrow>
         if do_status operation = next \<and> next \<in> {Approved, Completed} then Inr operation
         else if next \<notin> transitions (do_status operation) then refused
         else bindR (date_iso R (js_default now (JInt clock))) (\<lambda>timestamp.
              enter_status (js_default details (JObj [])) next timestamp (operation\<lparr>do_status := next, do_updatedAt := timestamp\<rparr>))))"

definition databaseDeleteConfirmation :: "jsv \<Rightarrow> jsv \<Rightarrow> jsv \<Rightarrow> string res" where
  "databaseDeleteConfirmation database phase operationId =
     bindR (exactDatabase database) (\<lambda>exact.
     bindR (requiredText phase ''delete phase'' (\<lambda>s. s \<in> {''REQUEST'', ''APPROVE'', ''EXECUTE''}) 16) (\<lambda>action.
     bindR (if action = ''REQUEST'' then Inr (xd_id exact)
            else identifier_text (js_default operationId (JStr [])) ''operation id'') (\<lambda>suffix.
     Inr (action @ ''-DATABASE-DELETE:'' @ suffix))))"

section \<open>The stored operation through its life\<close>

lemma getp_operation_json [simp]:
  "getp (operation_json d) ''schema'' = JStr DATABASE_DELETE_OPERATION_SCHEMA"
  "getp (operation_json d) ''id'' = JStr (do_id d)"
  "getp (operation_json d) ''database'' = target_json (do_database d)"
  "getp (operation_json d) ''status'' = JStr (stage_text (do_status d))"
  "getp (operation_json d) ''idempotencyKey'' = JStr (do_idempotencyKey d)"
  "getp (operation_json d) ''requestedBy'' = JStr (do_requestedBy d)"
  "getp (operation_json d) ''requestedAt'' = JStr (do_requestedAt d)"
  "getp (operation_json d) ''evidence'' = do_evidence d"
  "getp (operation_json d) ''approval'' = approval_json (do_approval d)"
  "getp (operation_json d) ''execution'' = execution_json (do_execution d)"
  "getp (operation_json d) ''updatedAt'' = JStr (do_updatedAt d)"
  "js_truthy (operation_json d)"
  by (simp_all add: operation_json_def)

lemma getp_execution_json [simp]:
  "getp (execution_json e) ''attempts'' = JInt (ex_attempts e)"
  "getp (execution_json e) ''startedAt'' = null_or_str (ex_startedAt e)"
  "getp (execution_json e) ''databaseDroppedAt'' = null_or_str (ex_databaseDroppedAt e)"
  "getp (execution_json e) ''completedAt'' = null_or_str (ex_completedAt e)"
  "getp (execution_json e) ''failure'' = JStr (ex_failure e)"
  by (simp_all add: execution_json_def)

lemma getp_target_json [simp]:
  "getp (target_json d) ''id'' = JStr (dt_id d)" "getp (target_json d) ''projectId'' = JStr (dt_projectId d)"
  "getp (target_json d) ''engine'' = JStr (dt_engine d)" "getp (target_json d) ''name'' = JStr (dt_name d)"
  "getp (target_json d) ''ownerRole'' = JStr (dt_ownerRole d)"
  "getp (target_json d) ''principalBindingId'' = JStr (dt_principalBindingId d)"
  "getp (target_json d) ''credentialFile'' = JStr (dt_credentialFile d)"
  by (simp_all add: target_json_def)

text \<open>What never changes once the operation is created.\<close>

type_synonym operation_core = "string \<times> delete_target \<times> string \<times> string \<times> string \<times> jsv"

definition operation_core :: "delete_operation \<Rightarrow> operation_core" where
  "operation_core d = (do_id d, do_database d, do_resourceId d, do_idempotencyKey d, do_requestedBy d, do_evidence d)"

definition core_settled :: "runtime \<Rightarrow> delete_operation \<Rightarrow> bool" where
  "core_settled R d \<longleftrightarrow>
     exactDatabase (target_json (do_database d)) = Inr \<lparr>xd_id = dt_id (do_database d), xd_engine = dt_engine (do_database d),
       xd_name = dt_name (do_database d), xd_projectId = dt_projectId (do_database d), xd_resourceId = do_resourceId d\<rparr>
   \<and> js_truthy (do_evidence d) \<and> getp (do_evidence d) ''resourceId'' = JStr (do_resourceId d)
   \<and> getp (do_evidence d) ''fingerprint'' = JStr (databaseDeleteEvidenceFingerprint R (do_evidence d))
   \<and> identifier_text (JStr (do_id d)) ''operation id'' = Inr (do_id d)
   \<and> requiredText (JStr (dt_ownerRole (do_database d))) ''database owner'' db_name_pattern 63 = Inr (dt_ownerRole (do_database d))
   \<and> identifier_text (JStr (dt_principalBindingId (do_database d))) ''principal binding id'' = Inr (dt_principalBindingId (do_database d))
   \<and> credential_part (JStr (dt_credentialFile (do_database d))) = Inr (dt_credentialFile (do_database d))
   \<and> requiredText (JStr (do_idempotencyKey d)) ''idempotency key'' key_pattern 160 = Inr (do_idempotencyKey d)
   \<and> person_text (JStr (do_requestedBy d)) ''requester'' = Inr (do_requestedBy d)"

lemma exactDatabase_Inr:
  assumes "exactDatabase v = Inr db"
  shows "identifier_text (JStr (xd_id db)) ''database id'' = Inr (xd_id db)"
    "requiredText (JStr (xd_engine db)) ''database engine'' (\<lambda>s. s \<in> {''mariadb'', ''postgres''}) 16 = Inr (xd_engine db)"
    "requiredText (JStr (xd_name db)) ''database name'' db_name_pattern 63 = Inr (xd_name db)"
    "requiredText (JStr (xd_projectId db)) ''project id'' db_project_pattern 63 = Inr (xd_projectId db)"
    "backupResourceId (JStr ''database'') (JStr (xd_id db)) = Inr (xd_resourceId db)"
  using assms by (auto simp: exactDatabase_def bindR_eq_Inr intro: text_again requiredText_again)

lemma exactDatabase_again:
  assumes "exactDatabase v = Inr db"
    and "dt_id d = xd_id db" "dt_engine d = xd_engine db" "dt_name d = xd_name db" "dt_projectId d = xd_projectId db"
  shows "exactDatabase (target_json d) = Inr db"
  using exactDatabase_Inr [OF assms(1)] assms(2-) by (simp add: exactDatabase_def)

lemma credential_part_again: "credential_part v = Inr s \<Longrightarrow> credential_part (JStr s) = Inr s"
  by (auto simp: credential_part_def intro: requiredText_again split: if_splits)

lemma created_core_settled:
  assumes "createDatabaseDeleteOperation R clock i input ev key who now = Inr d"
  shows "core_settled R d"
proof -
  from assms obtain db where db: "exactDatabase input = Inr db" and
    d: "dt_id (do_database d) = xd_id db" "dt_engine (do_database d) = xd_engine db" "dt_name (do_database d) = xd_name db"
      "dt_projectId (do_database d) = xd_projectId db" "do_resourceId d = xd_resourceId db" "do_evidence d = ev" and
    rest: "js_truthy ev \<and> getp ev ''resourceId'' = JStr (xd_resourceId db)
              \<and> getp ev ''fingerprint'' = JStr (databaseDeleteEvidenceFingerprint R ev)"
      "identifier_text i ''operation id'' = Inr (do_id d)"
      "requiredText (getp input ''ownerRole'') ''database owner'' db_name_pattern 63 = Inr (dt_ownerRole (do_database d))"
      "identifier_text (js_or (getp input ''principalBindingId'') (getp input ''id'')) ''principal binding id''
         = Inr (dt_principalBindingId (do_database d))"
      "credential_part (getp input ''credentialFile'') = Inr (dt_credentialFile (do_database d))"
      "requiredText key ''idempotency key'' key_pattern 160 = Inr (do_idempotencyKey d)"
      "person_text who ''requester'' = Inr (do_requestedBy d)"
    by (auto simp: createDatabaseDeleteOperation_def bindR_eq_Inr requireR_eq)
  show ?thesis
    unfolding core_settled_def exactDatabase_again [OF db d(1-4)] person_text_def
    using rest d text_again(1) [OF rest(2)] requiredText_again [OF rest(3)] text_again(1) [OF rest(4)]
      credential_part_again [OF rest(5)] requiredText_again [OF rest(6)] requiredText_again [OF rest(7) [unfolded person_text_def]]
    by simp
qed

lemma identifier_text_ne: "identifier_text v l = Inr s \<Longrightarrow> s \<noteq> []"
  unfolding text_defs by (drule requiredText_Inr) blast

lemma create_stored_again:
  assumes "core_settled R d"
    and "createDatabaseDeleteOperation R clock (JStr (do_id d)) (target_json (do_database d)) (do_evidence d)
           (JStr (do_idempotencyKey d)) (JStr (do_requestedBy d)) at = Inr d'"
  shows "operation_core d' = operation_core d"
  using assms identifier_text_ne
  by (auto simp: createDatabaseDeleteOperation_def core_settled_def operation_core_def bindR_eq_Inr requireR_eq js_or_def)

lemma core_settled_core: "operation_core d' = operation_core d \<Longrightarrow> core_settled R d \<Longrightarrow> core_settled R d'"
  by (simp add: core_settled_def operation_core_def)

text \<open>Where an operation of each status stands: who approved it, and what has been done.\<close>

definition present :: "string option \<Rightarrow> bool" where
  "present v \<longleftrightarrow> (\<exists>s. v = Some s \<and> s \<noteq> [])"

fun status_ok :: "stage \<Rightarrow> (string \<times> string) option \<Rightarrow> string option \<Rightarrow> string option \<Rightarrow> string option \<Rightarrow> bool" where
  "status_ok EvidenceVerified approval started dropped completed \<longleftrightarrow> approval = None \<and> dropped = None \<and> completed = None"
| "status_ok Approved approval started dropped completed \<longleftrightarrow> approval \<noteq> None \<and> dropped = None \<and> completed = None"
| "status_ok Executing approval started dropped completed \<longleftrightarrow> approval \<noteq> None \<and> present started \<and> dropped = None \<and> completed = None"
| "status_ok Failed approval started dropped completed \<longleftrightarrow> approval \<noteq> None \<and> present started \<and> dropped = None \<and> completed = None"
| "status_ok Completed approval started dropped completed \<longleftrightarrow> approval \<noteq> None \<and> present started \<and> present dropped \<and> present completed"
| "status_ok _ approval started dropped completed \<longleftrightarrow> approval \<noteq> None \<and> present started \<and> present dropped \<and> completed = None"

definition operation_ok :: "delete_operation \<Rightarrow> bool" where
  "operation_ok d = status_ok (do_status d) (do_approval d) (ex_startedAt (do_execution d))
     (ex_databaseDroppedAt (do_execution d)) (ex_completedAt (do_execution d))"

lemma to_iso_ne [simp]: "to_iso t \<noteq> []"
  by (simp add: to_iso_def Let_def split: prod.splits)

lemma optional_iso_stored:
  assumes "optional_iso R (null_or_str v) l = Inr w"
  shows "present v \<Longrightarrow> present w" "v = None \<Longrightarrow> w = None"
  using assms by (auto simp: optional_iso_def null_or_str_def present_def isoDate_def bindR_eq_Inr split: option.splits if_splits)

lemma parse_approval_stored:
  "parse_approval R (approval_json a) = Inr b \<Longrightarrow> (b = None) = (a = None)"
  by (auto simp: parse_approval_def approval_json_def bindR_eq_Inr split: option.splits)

lemma parse_execution_Inr:
  assumes "parse_execution R v = Inr e"
  shows "optional_iso R (getp v ''startedAt'') ''execution timestamp'' = Inr (ex_startedAt e)"
    "optional_iso R (getp v ''databaseDroppedAt'') ''database drop timestamp'' = Inr (ex_databaseDroppedAt e)"
    "optional_iso R (getp v ''completedAt'') ''completion timestamp'' = Inr (ex_completedAt e)"
  using assms by (auto simp: parse_execution_def bindR_eq_Inr)

lemma parse_stored:
  assumes "parseDatabaseDeleteOperation R clock (operation_json d) = Inr e"
  obtains d0 where "createDatabaseDeleteOperation R clock (JStr (do_id d)) (target_json (do_database d)) (do_evidence d)
       (JStr (do_idempotencyKey d)) (JStr (do_requestedBy d)) (JStr (do_requestedAt d)) = Inr d0"
    "operation_core e = operation_core d0" "do_status e = do_status d"
    "parse_approval R (approval_json (do_approval d)) = Inr (do_approval e)"
    "parse_execution R (execution_json (do_execution d)) = Inr (do_execution e)"
  using assms by (auto simp: parseDatabaseDeleteOperation_def delete_status_def bindR_eq_Inr operation_core_def
      split: option.splits if_splits)

lemma parse_keeps_operation:
  assumes "parseDatabaseDeleteOperation R clock (operation_json d) = Inr e" and "core_settled R d" and "operation_ok d"
  shows "operation_core e = operation_core d" and "operation_ok e" and "do_status e = do_status d"
proof -
  obtain d0 where d0: "createDatabaseDeleteOperation R clock (JStr (do_id d)) (target_json (do_database d)) (do_evidence d)
       (JStr (do_idempotencyKey d)) (JStr (do_requestedBy d)) (JStr (do_requestedAt d)) = Inr d0"
      and e: "operation_core e = operation_core d0" "do_status e = do_status d"
        "parse_approval R (approval_json (do_approval d)) = Inr (do_approval e)"
        "parse_execution R (execution_json (do_execution d)) = Inr (do_execution e)"
    using parse_stored [OF assms(1)] by metis
  show "operation_core e = operation_core d" using create_stored_again [OF assms(2) d0] e(1) by simp
  show "do_status e = do_status d" by (rule e(2))
  note ex = parse_execution_Inr [OF e(4), simplified]
  show "operation_ok e"
    using assms(3) parse_approval_stored [OF e(3)] optional_iso_stored [OF ex(1)] optional_iso_stored [OF ex(2)] optional_iso_stored [OF ex(3)]
    unfolding operation_ok_def e(2) by (cases "do_status d") simp_all
qed

lemma enter_status_Inr:
  assumes "enter_status details n t e = Inr e'"
  shows "operation_core e' = operation_core e \<and> do_status e' = do_status e"
  using assms by (cases n) (auto simp: operation_core_def Let_def bindR_eq_Inr)

lemma enter_operation_ok:
  assumes "enter_status details n t (e\<lparr>do_status := n, do_updatedAt := t\<rparr>) = Inr e'"
    and "operation_ok e" "n \<in> transitions (do_status e)" "t \<noteq> []"
  shows "operation_ok e'"
  using assms by (cases "do_status e"; cases n) (auto simp: operation_ok_def present_def Let_def bindR_eq_Inr)

lemma transition_Inr:
  assumes "transitionDatabaseDeleteOperation R clock j nextStatus details now = Inr e'"
  obtains e where "parseDatabaseDeleteOperation R clock j = Inr e" "e' = e" "do_status e \<in> {Approved, Completed}"
  | e n t dt where "parseDatabaseDeleteOperation R clock j = Inr e" "n \<in> transitions (do_status e)" "t \<noteq> []"
      "enter_status dt n t (e\<lparr>do_status := n, do_updatedAt := t\<rparr>) = Inr e'"
proof -
  from assms obtain e s where e: "parseDatabaseDeleteOperation R clock j = Inr e"
      and s: "requiredText nextStatus ''database delete status'' dashed_word 32 = Inr s"
    by (auto simp: transitionDatabaseDeleteOperation_def bindR_eq_Inr)
  from assms obtain n where n: "stage_of s = Some n"
    by (cases "stage_of s") (simp_all add: transitionDatabaseDeleteOperation_def e s)
  show ?thesis
  proof (cases "do_status e = n \<and> n \<in> {Approved, Completed}")
    case True
    with assms have "e' = e" by (simp add: transitionDatabaseDeleteOperation_def e s n)
    with True show ?thesis using that(1) [OF e] by simp
  next
    case False
    with assms have "n \<in> transitions (do_status e)"
      by (simp add: transitionDatabaseDeleteOperation_def e s n split: if_splits)
    with False assms obtain t where "enter_status (js_default details (JObj [])) n (to_iso t) (e\<lparr>do_status := n, do_updatedAt := to_iso t\<rparr>) = Inr e'"
      by (auto simp: transitionDatabaseDeleteOperation_def e s n bindR_eq_Inr date_iso_Inr)
    with \<open>n \<in> transitions (do_status e)\<close> show ?thesis using that(2) [OF e] to_iso_ne by blast
  qed
qed

lemma transition_keeps:
  assumes "transitionDatabaseDeleteOperation R clock (operation_json d) nextStatus details now = Inr e'"
    and "core_settled R d" "operation_ok d"
  shows "operation_core e' = operation_core d \<and> operation_ok e'
    \<and> (do_status e' = do_status d \<and> do_status d \<in> {Approved, Completed} \<or> do_status e' \<in> transitions (do_status d))"
  using assms(1)
proof (cases rule: transition_Inr)
  case (1 e)
  then show ?thesis using parse_keeps_operation [OF 1(1) assms(2,3)] by simp
next
  case (2 e n t dt)
  note keep = parse_keeps_operation [OF 2(1) assms(2,3)]
  have "operation_core e' = operation_core e" "do_status e' = n"
    using enter_status_Inr [OF 2(4)] by (simp_all add: operation_core_def)
  then show ?thesis using keep 2(2) enter_operation_ok [OF 2(4) keep(2) 2(2,3)] by simp
qed

lemmas transition_keeps_operation =
  transition_keeps [THEN conjunct1] transition_keeps [THEN conjunct2, THEN conjunct1] transition_keeps [THEN conjunct2, THEN conjunct2]

inductive deletion_step :: "runtime \<Rightarrow> jsv \<Rightarrow> jsv \<Rightarrow> bool" for R where
  "transitionDatabaseDeleteOperation R clock j nextStatus details now = Inr d \<Longrightarrow> deletion_step R j (operation_json d)"

definition deletion_init :: "runtime \<Rightarrow> delete_operation \<Rightarrow> jsv \<Rightarrow> bool" where
  "deletion_init R d0 j \<longleftrightarrow> j = operation_json d0
     \<and> (\<exists>clock i input ev key who now. createDatabaseDeleteOperation R clock i input ev key who now = Inr d0)"

definition deletion_inv :: "runtime \<Rightarrow> delete_operation \<Rightarrow> jsv \<Rightarrow> bool" where
  "deletion_inv R d0 j \<longleftrightarrow> (\<exists>d. j = operation_json d \<and> operation_core d = operation_core d0 \<and> core_settled R d \<and> operation_ok d)"

lemma created_operation_ok: "createDatabaseDeleteOperation R clock i input ev key who now = Inr d \<Longrightarrow> operation_ok d"
  by (auto simp: createDatabaseDeleteOperation_def bindR_eq_Inr operation_ok_def)

interpretation deletion: step_system "deletion_init R d0" "deletion_step R" "deletion_inv R d0" for R d0
proof
  show "deletion_inv R d0 j" if "deletion_init R d0 j" for j
    using that created_core_settled created_operation_ok by (auto simp: deletion_init_def deletion_inv_def)
  show "deletion_inv R d0 k" if "deletion_inv R d0 j" "deletion_step R j k" for j k
    using that(2,1)
  proof cases
    case (1 clock nextStatus details now d')
    from that(1) obtain d where d: "j = operation_json d" "operation_core d = operation_core d0" "core_settled R d" "operation_ok d"
      by (auto simp: deletion_inv_def)
    note keep = transition_keeps_operation [OF 1(2) [unfolded d(1)] d(3,4)]
    show ?thesis unfolding deletion_inv_def 1(1)
      using keep(1,2) d(2) core_settled_core [OF keep(1) d(3)] by auto
  qed
qed

lemma reachable_deletion:
  assumes "reachable (deletion_init R d0) (deletion_step R) j"
  obtains d where "j = operation_json d" "operation_core d = operation_core d0" "core_settled R d" "operation_ok d"
  using deletion.reachable_inv [OF assms] by (auto simp: deletion_inv_def)

text \<open>
  C9. Whatever transitions a delete operation goes through, the stored operation keeps its target,
  requester and evidence, with the fingerprint that evidence has; it carries an approval exactly
  from its first approval on, a database drop time exactly in the states after the drop, and a
  completion time exactly when completed.
\<close>

theorem delete_operation_invariant:
  assumes "reachable (deletion_init R d0) (deletion_step R) j"
  shows "\<exists>d. j = operation_json d \<and> do_id d = do_id d0 \<and> do_database d = do_database d0 \<and> do_evidence d = do_evidence d0
     \<and> do_requestedBy d = do_requestedBy d0
     \<and> getp j ''evidenceFingerprint'' = JStr (databaseDeleteEvidenceFingerprint R (do_evidence d0))
     \<and> (do_approval d = None \<longleftrightarrow> do_status d = EvidenceVerified)
     \<and> (ex_databaseDroppedAt (do_execution d) = None \<longleftrightarrow> do_status d \<in> {EvidenceVerified, Approved, Executing, Failed})
     \<and> (ex_completedAt (do_execution d) = None \<longleftrightarrow> do_status d \<noteq> Completed)"
proof -
  obtain d where d: "j = operation_json d" "operation_core d = operation_core d0" "core_settled R d" "operation_ok d"
    using reachable_deletion [OF assms] .
  have "getp j ''evidenceFingerprint'' = getp (do_evidence d) ''fingerprint''" by (simp add: d(1) operation_json_def)
  moreover have "(do_approval d = None \<longleftrightarrow> do_status d = EvidenceVerified)
     \<and> (ex_databaseDroppedAt (do_execution d) = None \<longleftrightarrow> do_status d \<in> {EvidenceVerified, Approved, Executing, Failed})
     \<and> (ex_completedAt (do_execution d) = None \<longleftrightarrow> do_status d \<noteq> Completed)"
    using d(4) by (cases "do_status d") (auto simp: operation_ok_def present_def)
  ultimately show ?thesis using d by (intro exI [of _ d]) (auto simp: operation_core_def core_settled_def)
qed

definition zero_runtime :: runtime where
  "zero_runtime = sample_runtime\<lparr>rt_sha256 := (\<lambda>s. replicate 64 CHR ''0'')\<rparr>"

definition sample_target :: jsv where
  "sample_target = JObj [(''id'', JStr ''db1''), (''projectId'', JStr ''shop''), (''engine'', JStr ''postgres''), (''name'', JStr ''orders''),
     (''ownerRole'', JStr ''pi_p_shop'')]"

definition sample_waiver :: jsv where
  "sample_waiver = JObj [(''resourceId'', JStr ''database:db1''), (''waived'', JBool True), (''fingerprint'', JStr (replicate 64 CHR ''0''))]"

definition sample_request :: "delete_operation res" where
  "sample_request = createDatabaseDeleteOperation zero_runtime 0 (JStr ''op1'') sample_target sample_waiver (JStr ''k1'') (JStr ''owner'') JUndef"

theorem delete_operation_invariant_witness:
  "\<exists>d0 d. sample_request = Inr d0
     \<and> transitionDatabaseDeleteOperation zero_runtime 5 (operation_json d0) (JStr ''approved'') (JObj [(''approvedBy'', JStr ''owner'')]) JUndef = Inr d
     \<and> do_status d = Approved \<and> do_evidence d = do_evidence d0 \<and> do_approval d \<noteq> None"
proof -
  have "case sample_request of Inl _ \<Rightarrow> False | Inr d0 \<Rightarrow>
      (case transitionDatabaseDeleteOperation zero_runtime 5 (operation_json d0) (JStr ''approved'') (JObj [(''approvedBy'', JStr ''owner'')]) JUndef of
         Inl _ \<Rightarrow> False | Inr d \<Rightarrow> do_status d = Approved)" by code_simp
  then obtain d0 d where d: "sample_request = Inr d0"
      "transitionDatabaseDeleteOperation zero_runtime 5 (operation_json d0) (JStr ''approved'') (JObj [(''approvedBy'', JStr ''owner'')]) JUndef = Inr d"
      "do_status d = Approved"
    by (auto split: sum.splits)
  have "reachable (deletion_init zero_runtime d0) (deletion_step zero_runtime) (operation_json d)"
  proof (rule reachable.more [OF reachable.start])
    show "deletion_init zero_runtime d0 (operation_json d0)"
      using d(1) unfolding sample_request_def deletion_init_def by blast
    show "deletion_step zero_runtime (operation_json d0) (operation_json d)" using d(2) by (rule deletion_step.intros)
  qed
  from delete_operation_invariant [OF this] obtain e where e: "operation_json d = operation_json e" "do_evidence e = do_evidence d0"
      "(do_approval e = None) = (do_status e = EvidenceVerified)" by (elim exE conjE) (erule (2) that)
  have "do_evidence d = do_evidence e" "approval_json (do_approval d) = approval_json (do_approval e)"
      "stage_text (do_status d) = stage_text (do_status e)"
    using arg_cong [OF e(1), of "\<lambda>j. getp j ''evidence''"] arg_cong [OF e(1), of "\<lambda>j. getp j ''approval''"]
      arg_cong [OF e(1), of "\<lambda>j. getp j ''status''"]
    by simp_all
  moreover from this(2) have "do_approval d = None \<longleftrightarrow> do_approval e = None"
    by (cases "do_approval d"; cases "do_approval e") (auto simp: approval_json_def)
  ultimately have "do_evidence d = do_evidence d0" "do_approval d \<noteq> None"
    using e(2,3) d(3) by (metis stage_of_text option.inject stage.distinct(1))+
  with d show ?thesis by blast
qed

end
