(* ===== verification/DatabaseDeleteEvidence.thy ===== *)
theory DatabaseDeleteEvidence
  imports DatabaseDelete
begin

text \<open>
  What it means that a restore point is ready for the deletion of a database
  (\<open>findDatabaseDeleteRestorePoint\<close>), and that the evidence found binds a delete operation to
  that database.
\<close>

section \<open>What is checked\<close>

lemma freshTimestamp_iff:
  "freshTimestamp R v now age from \<longleftrightarrow> (\<exists>t. date_parse R v = Some t \<and> from \<le> t \<and> t \<le> now \<and> now - t \<le> age)"
  by (auto simp: freshTimestamp_def split: option.splits)

lemma first_some_Some: "first_some f xs = Some y \<Longrightarrow> \<exists>x \<in> set xs. f x = Some y"
  by (induction xs) (auto split: option.splits)

text \<open>A manifest with an intact artifact of the database: read from the backup root, its digest that of its content, not too old.\<close>

definition backed_up :: "runtime \<Rightarrow> disk \<Rightarrow> string \<Rightarrow> exact_database \<Rightarrow> int \<Rightarrow> int \<Rightarrow> candidate \<Rightarrow> int \<Rightarrow> bool" where
  "backed_up R D root db nowMs maxAgeMs c t0 \<longleftrightarrow>
     (\<exists>file doc. readJson D (path_join (path_join root ''manifests'') file) = Some doc
        \<and> parseBackupManifestDocument R nowMs True doc = Inr (cd_manifest c) \<and> cd_manifestPath c = slashes (path_join ''manifests'' file))
   \<and> m_signature (cd_manifest c) = Some (cd_signature c)
   \<and> s_digest (cd_signature c) = backupDocumentDigest R (manifest_js (cd_manifest c))
   \<and> date_parse R (JStr (m_createdAt (cd_manifest c))) = Some t0 \<and> t0 \<le> nowMs \<and> nowMs - t0 \<le> maxAgeMs
   \<and> cd_artifact c \<in> set (m_artifacts (cd_manifest c)) \<and> a_resourceId (cd_artifact c) = xd_resourceId db
   \<and> (\<exists>r \<in> set (m_resources (cd_manifest c)). r_id r = xd_resourceId db \<and> r_engine r = Some (xd_engine db) \<and> r_name r = xd_name db)
   \<and> starts_with (root @ ''/'') (path_resolve root (a_path (cd_artifact c)))
   \<and> fileSha256 R D (path_resolve root (a_path (cd_artifact c))) = Some (a_sha256 (cd_artifact c))"

text \<open>A restore drill of that manifest that passed for the database, after the manifest and not too old.\<close>

definition restore_drilled :: "runtime \<Rightarrow> disk \<Rightarrow> string \<Rightarrow> exact_database \<Rightarrow> int \<Rightarrow> int \<Rightarrow> candidate \<Rightarrow> int \<Rightarrow> jsv \<Rightarrow> bool" where
  "restore_drilled R D reports db nowMs maxAgeMs c t0 entry \<longleftrightarrow>
     (\<exists>file report t. readJson D (path_join (path_join reports ''backup-jobs'') file) = Some report
        \<and> getp report ''status'' = JStr ''passed'' \<and> getp report ''operation'' = JStr ''restore-drill''
        \<and> getp report ''liveDataChanged'' = JBool False \<and> getp report ''manifestPath'' = JStr (cd_manifestPath c)
        \<and> drill_passed (getp report ''results'') (xd_resourceId db)
        \<and> date_parse R (getp report ''finishedAt'') = Some t \<and> t0 \<le> t \<and> t \<le> nowMs \<and> nowMs - t \<le> maxAgeMs
        \<and> (\<exists>sha. fileSha256 R D (path_join (path_join reports ''backup-jobs'') file) = Some sha \<and> getp entry ''sha256'' = JStr sha))"

definition copied_offsite :: "runtime \<Rightarrow> disk \<Rightarrow> string \<Rightarrow> exact_database \<Rightarrow> int \<Rightarrow> int \<Rightarrow> candidate \<Rightarrow> int \<Rightarrow> jsv \<Rightarrow> bool" where
  "copied_offsite R D reports db nowMs maxAgeMs c t0 entry \<longleftrightarrow>
     (\<exists>file receipt t. readJson D (path_join (path_join reports ''offsite-backups'') file) = Some receipt
        \<and> getp receipt ''status'' = JStr ''passed'' \<and> getp receipt ''repositoryOffsite'' = JBool True
        \<and> getp receipt ''manifestId'' = JStr (m_id (cd_manifest c)) \<and> getp receipt ''manifestDigest'' = JStr (s_digest (cd_signature c))
        \<and> js_includes (getp receipt ''resourceIds'') (JStr (xd_resourceId db))
        \<and> date_parse R (getp receipt ''finishedAt'') = Some t \<and> t0 \<le> t \<and> t \<le> nowMs \<and> nowMs - t \<le> maxAgeMs
        \<and> (\<exists>sha. fileSha256 R D (path_join (path_join reports ''offsite-backups'') file) = Some sha \<and> getp entry ''sha256'' = JStr sha))"

lemma manifest_candidate_backed_up:
  assumes "manifest_candidate R D root db nowMs maxAgeMs file = Some c"
  shows "\<exists>t0. backed_up R D root db nowMs maxAgeMs c t0"
proof -
  from assms obtain doc where doc: "readJson D (path_join (path_join root ''manifests'') file) = Some doc"
    by (cases "readJson D (path_join (path_join root ''manifests'') file)") (simp_all add: manifest_candidate_def)
  from assms obtain m where m: "parseBackupManifestDocument R nowMs True doc = Inr m"
    by (cases "parseBackupManifestDocument R nowMs True doc") (simp_all add: manifest_candidate_def doc)
  from assms obtain sig where sig: "m_signature m = Some sig"
    by (cases "m_signature m") (simp_all add: manifest_candidate_def doc m)
  from assms obtain a where a: "find (\<lambda>a. a_resourceId a = xd_resourceId db) (m_artifacts m) = Some a"
    by (cases "find (\<lambda>a. a_resourceId a = xd_resourceId db) (m_artifacts m)")
      (simp_all add: manifest_candidate_def doc m sig split: if_splits)
  from assms obtain r where r: "find (\<lambda>r. r_id r = xd_resourceId db) (m_resources m) = Some r"
    by (cases "find (\<lambda>r. r_id r = xd_resourceId db) (m_resources m)")
      (simp_all add: manifest_candidate_def doc m sig a split: if_splits)
  from assms have c: "c = \<lparr>cd_manifest = m, cd_signature = sig, cd_manifestPath = slashes (path_join ''manifests'' file), cd_artifact = a\<rparr>"
      and ok: "s_digest sig = backupDocumentDigest R (manifest_js m)" "freshTimestamp R (JStr (m_createdAt m)) nowMs maxAgeMs 0"
        "r_engine r = Some (xd_engine db)" "r_name r = xd_name db" "validateArtifactSidecars R D root a"
    by (simp_all add: manifest_candidate_def doc m sig a r split: if_splits)
  have side: "starts_with (root @ ''/'') (path_resolve root (a_path a))" "fileSha256 R D (path_resolve root (a_path a)) = Some (a_sha256 a)"
    using ok(5) by (auto simp: validateArtifactSidecars_def Let_def split: option.splits)
  have "a \<in> set (m_artifacts m)" "a_resourceId a = xd_resourceId db" "r \<in> set (m_resources m)" "r_id r = xd_resourceId db"
    using a r by (auto simp: find_Some_iff)
  then show ?thesis
    using doc m sig ok(1,3,4) side freshTimestamp_iff [THEN iffD1, OF ok(2)] by (auto simp: backed_up_def c)
qed

lemma restore_report_drilled:
  assumes "restore_report R D reports db c nowMs maxAgeMs file = Some entry" and "manifest_time R c = Some t0"
  shows "restore_drilled R D reports db nowMs maxAgeMs c t0 entry"
proof -
  from assms obtain report where report: "readJson D (path_join (path_join reports ''backup-jobs'') file) = Some report"
    by (cases "readJson D (path_join (path_join reports ''backup-jobs'') file)") (simp_all add: restore_report_def)
  from assms have "freshTimestamp R (getp report ''finishedAt'') nowMs maxAgeMs t0"
      "getp report ''status'' = JStr ''passed''" "getp report ''operation'' = JStr ''restore-drill''"
      "getp report ''liveDataChanged'' = JBool False" "getp report ''manifestPath'' = JStr (cd_manifestPath c)"
      "drill_passed (getp report ''results'') (xd_resourceId db)"
      "\<exists>sha. fileSha256 R D (path_join (path_join reports ''backup-jobs'') file) = Some sha \<and> getp entry ''sha256'' = JStr sha"
    by (auto simp: restore_report_def Let_def report split: if_splits option.splits sum.splits)
  then show ?thesis unfolding restore_drilled_def freshTimestamp_iff using report by blast
qed

lemma offsite_receipt_copied:
  assumes "offsite_receipt R D reports db c nowMs maxAgeMs file = Some entry" and "manifest_time R c = Some t0"
  shows "copied_offsite R D reports db nowMs maxAgeMs c t0 entry"
proof -
  from assms obtain receipt where receipt: "readJson D (path_join (path_join reports ''offsite-backups'') file) = Some receipt"
    by (cases "readJson D (path_join (path_join reports ''offsite-backups'') file)") (simp_all add: offsite_receipt_def)
  from assms have "freshTimestamp R (getp receipt ''finishedAt'') nowMs maxAgeMs t0"
      "getp receipt ''status'' = JStr ''passed''" "getp receipt ''repositoryOffsite'' = JBool True"
      "getp receipt ''manifestId'' = JStr (m_id (cd_manifest c))" "getp receipt ''manifestDigest'' = JStr (s_digest (cd_signature c))"
      "js_includes (getp receipt ''resourceIds'') (JStr (xd_resourceId db))"
      "\<exists>sha. fileSha256 R D (path_join (path_join reports ''offsite-backups'') file) = Some sha \<and> getp entry ''sha256'' = JStr sha"
    by (auto simp: offsite_receipt_def Let_def receipt split: if_splits option.splits sum.splits)
  then show ?thesis unfolding copied_offsite_def freshTimestamp_iff using receipt by blast
qed

lemma evidence_of_Inr:
  assumes "evidence_of R db c rp rc nowMs maxAgeMs = Inr e"
  shows "getp e ''resourceId'' = JStr (xd_resourceId db) \<and> getp e ''restoreReport'' = rp \<and> getp e ''offsiteReceipt'' = rc
    \<and> getp e ''fingerprint'' = JStr (databaseDeleteEvidenceFingerprint R e)"
proof -
  from assms obtain m v where "e = JObj [(''resourceId'', JStr (xd_resourceId db)), (''manifest'', m), (''restoreReport'', rp),
      (''offsiteReceipt'', rc), (''verifiedAt'', JStr v), (''maxAgeMs'', JInt maxAgeMs), (''fingerprint'', JStr (databaseDeleteEvidenceFingerprint R
        (JObj [(''resourceId'', JStr (xd_resourceId db)), (''manifest'', m), (''restoreReport'', rp),
          (''offsiteReceipt'', rc), (''verifiedAt'', JStr v), (''maxAgeMs'', JInt maxAgeMs)])))]"
    by (auto simp: evidence_of_def bindR_eq_Inr Let_def)
  then show ?thesis by (simp add: databaseDeleteEvidenceFingerprint_def del: json_stringify.simps)
qed

lemma search_candidates_Ready:
  assumes "search_candidates R D reports db nowMs maxAgeMs blockers cs = Inr (Ready e)"
  shows "\<exists>c \<in> set cs. \<exists>rp rc. matchingRestoreReport R D reports db c nowMs maxAgeMs = Inr (Some rp)
    \<and> matchingOffsiteReceipt R D reports db c nowMs maxAgeMs = Inr (Some rc) \<and> evidence_of R db c rp rc nowMs maxAgeMs = Inr e"
  using assms
proof (induction cs arbitrary: blockers)
  case (Cons c cs)
  from Cons.prems obtain rp rc where m: "matchingRestoreReport R D reports db c nowMs maxAgeMs = Inr rp"
      "matchingOffsiteReceipt R D reports db c nowMs maxAgeMs = Inr rc"
    by (auto simp: bindR_eq_Inr)
  show ?case
  proof (cases "rp = None \<or> rc = None")
    case True
    then obtain bs where "search_candidates R D reports db nowMs maxAgeMs bs cs = Inr (Ready e)"
      using Cons.prems m by (auto simp: Let_def split: option.splits)
    then show ?thesis using Cons.IH by auto
  next
    case False
    then show ?thesis using Cons.prems m by (auto simp: bindR_eq_Inr)
  qed
qed simp

lemma ready_restore_point_verified:
  assumes "findDatabaseDeleteRestorePoint R D input backupRoot reportsRoot now maxAge = Inr (Ready e)"
  shows "\<exists>db nowMs maxAgeMs c t0 rp rc. exactDatabase input = Inr db \<and> rt_date R now = Some nowMs \<and> 60000 \<le> maxAgeMs
    \<and> backed_up R D (path_resolve backupRoot []) db nowMs maxAgeMs c t0
    \<and> restore_drilled R D (path_resolve reportsRoot []) db nowMs maxAgeMs c t0 rp
    \<and> copied_offsite R D (path_resolve reportsRoot []) db nowMs maxAgeMs c t0 rc
    \<and> getp e ''resourceId'' = JStr (xd_resourceId db) \<and> getp e ''restoreReport'' = rp \<and> getp e ''offsiteReceipt'' = rc
    \<and> getp e ''fingerprint'' = JStr (databaseDeleteEvidenceFingerprint R e)"
proof -
  let ?root = "path_resolve backupRoot []" and ?reports = "path_resolve reportsRoot []"
  from assms obtain db nowMs where db: "exactDatabase input = Inr db" and nowMs: "rt_date R now = Some nowMs"
    by (auto simp: findDatabaseDeleteRestorePoint_def bindR_eq_Inr split: option.splits)
  from assms obtain maxAgeMs where age: "safe_int (case js_default maxAge (JInt 86400000) of JNum n \<Rightarrow> n | _ \<Rightarrow> NaN) = Some maxAgeMs"
    by (auto simp: findDatabaseDeleteRestorePoint_def db nowMs split: option.splits)
  from assms have min: "60000 \<le> maxAgeMs"
    by (simp add: findDatabaseDeleteRestorePoint_def db nowMs age split: if_splits)
  from assms min obtain cs bs where cs: "verifiedManifestCandidates R D ?root db nowMs maxAgeMs = Inr cs"
      and search: "search_candidates R D ?reports db nowMs maxAgeMs bs cs = Inr (Ready e)"
    by (auto simp: findDatabaseDeleteRestorePoint_def db nowMs age bindR_eq_Inr)
  from search_candidates_Ready [OF search] obtain c rp rc where c: "c \<in> set cs"
      "matchingRestoreReport R D ?reports db c nowMs maxAgeMs = Inr (Some rp)"
      "matchingOffsiteReceipt R D ?reports db c nowMs maxAgeMs = Inr (Some rc)" "evidence_of R db c rp rc nowMs maxAgeMs = Inr e" by blast
  from c(1) cs obtain f0 where "manifest_candidate R D ?root db nowMs maxAgeMs f0 = Some c"
    by (auto simp: verifiedManifestCandidates_def bindR_eq_Inr List.map_filter_def)
  then obtain t0 where b: "backed_up R D ?root db nowMs maxAgeMs c t0" using manifest_candidate_backed_up by blast
  then have t0: "manifest_time R c = Some t0" by (simp add: backed_up_def manifest_time_def)
  from c(2) obtain f1 where "restore_report R D ?reports db c nowMs maxAgeMs f1 = Some rp"
    by (auto simp: matchingRestoreReport_def Let_def bindR_eq_Inr dest: first_some_Some)
  then have drilled: "restore_drilled R D ?reports db nowMs maxAgeMs c t0 rp" using t0 by (rule restore_report_drilled)
  from c(3) obtain f2 where "offsite_receipt R D ?reports db c nowMs maxAgeMs f2 = Some rc"
    by (auto simp: matchingOffsiteReceipt_def Let_def bindR_eq_Inr dest: first_some_Some)
  then have copied: "copied_offsite R D ?reports db nowMs maxAgeMs c t0 rc" using t0 by (rule offsite_receipt_copied)
  from c(4) have "getp e ''resourceId'' = JStr (xd_resourceId db) \<and> getp e ''restoreReport'' = rp \<and> getp e ''offsiteReceipt'' = rc
    \<and> getp e ''fingerprint'' = JStr (databaseDeleteEvidenceFingerprint R e)"
    by (rule evidence_of_Inr)
  with db nowMs min b drilled copied show ?thesis by blast
qed

text \<open>
  C15. If a restore point is ready, then an intact, digest-verified backup of exactly this database,
  taken within the window, is on disk, a restore drill of that very manifest passed for the
  database after the backup, and the manifest with that digest was copied off site after it; the
  evidence names the database's resource and carries the fingerprint of its own content.
\<close>

theorem ready_restore_point_is_verified:
  assumes "findDatabaseDeleteRestorePoint R D input backupRoot reportsRoot now maxAge = Inr (Ready e)"
  shows "\<exists>db nowMs maxAgeMs c t0 rp rc. exactDatabase input = Inr db \<and> rt_date R now = Some nowMs \<and> 60000 \<le> maxAgeMs
    \<and> backed_up R D (path_resolve backupRoot []) db nowMs maxAgeMs c t0
    \<and> restore_drilled R D (path_resolve reportsRoot []) db nowMs maxAgeMs c t0 rp
    \<and> copied_offsite R D (path_resolve reportsRoot []) db nowMs maxAgeMs c t0 rc
    \<and> getp e ''resourceId'' = JStr (xd_resourceId db) \<and> getp e ''restoreReport'' = rp \<and> getp e ''offsiteReceipt'' = rc
    \<and> getp e ''fingerprint'' = JStr (databaseDeleteEvidenceFingerprint R e)"
  using assms by (rule ready_restore_point_verified)

definition zeros :: string where
  "zeros = replicate 64 CHR ''0''"

definition sample_documents :: "(string \<times> jsv) list" where
  "sample_documents =
    [(''M'', JObj [(''schema'', JStr BACKUP_MANIFEST_SCHEMA), (''id'', JStr ''m-1''), (''jobId'', JStr ''job-1''),
        (''scope'', JObj [(''kind'', JStr ''platform'')]), (''createdAt'', JStr ''2026-01-02T03:04:05.006Z''),
        (''resources'', JArr [JObj [(''kind'', JStr ''database''), (''externalId'', JStr ''db1''), (''projectId'', JStr ''shop''),
           (''name'', JStr ''orders''), (''engine'', JStr ''postgres'')]]),
        (''artifacts'', JArr [JObj [(''id'', JStr ''a-1''), (''resourceId'', JStr ''database:db1''), (''path'', JStr ''a''),
           (''sha256'', JStr zeros), (''sizeBytes'', JInt 7), (''signatureKeyId'', JStr ''k'')]]),
        (''signature'', JObj [(''algorithm'', JStr ''HMAC-SHA256''), (''keyId'', JStr ''k''), (''digest'', JStr zeros), (''value'', JStr ''v'')])]),
     (''S'', JObj [(''algorithm'', JStr ''HMAC-SHA256''), (''hash'', JStr zeros), (''keyId'', JStr ''k''), (''signature'', JStr ''x'')]),
     (''R'', JObj [(''status'', JStr ''passed''), (''operation'', JStr ''restore-drill''), (''liveDataChanged'', JBool False),
        (''manifestPath'', JStr ''manifests/m.json''), (''resourceIds'', JArr [JStr ''database:db1'']), (''jobId'', JStr ''job-2''),
        (''results'', JArr [JObj [(''resourceId'', JStr ''database:db1''), (''status'', JStr ''passed'')]]),
        (''finishedAt'', JStr ''2026-01-02T04:00:00.000Z'')]),
     (''O'', JObj [(''schema'', JStr ''platform.offsite-backup-receipt/v1''), (''status'', JStr ''passed''), (''repositoryOffsite'', JBool True),
        (''manifestId'', JStr ''m-1''), (''manifestPath'', JStr ''manifests/m.json''), (''manifestDigest'', JStr zeros),
        (''resourceIds'', JArr [JStr ''database:db1'']), (''snapshotId'', JStr ''snap''), (''hostname'', JStr ''h''),
        (''finishedAt'', JStr ''2026-01-02T05:00:00.000Z'')])]"

definition sample_files :: "(string \<times> string) list" where
  "sample_files = [(''/b/manifests/m.json'', ''M''), (''/b/a'', ''PAYLOAD''), (''/b/a.sha256'', zeros), (''/b/a.sig.json'', ''S''),
     (''/r/backup-jobs/j.json'', ''R''), (''/r/offsite-backups/o.json'', ''O'')]"

definition sample_disk :: disk where
  "sample_disk = \<lparr>dk_names = map_of [(''/b/manifests'', [''m.json'']), (''/r/backup-jobs'', [''j.json'']), (''/r/offsite-backups'', [''o.json''])],
     dk_node = (\<lambda>p. map_option (\<lambda>t. \<lparr>nd_regular = True, nd_text = t, nd_size = int (length t), nd_mtime = 0\<rparr>) (map_of sample_files p)),
     dk_parse = map_of sample_documents\<rparr>"

definition sample_restore_point :: "restore_point res" where
  "sample_restore_point = findDatabaseDeleteRestorePoint zero_runtime sample_disk sample_target ''/b'' ''/r'' (JStr ''2026-01-02T06:00:00.000Z'') JUndef"

definition sample_evidence :: jsv where
  "sample_evidence = JObj [(''resourceId'', JStr ''database:db1''),
     (''manifest'', JObj [(''id'', JStr ''m-1''), (''path'', JStr ''manifests/m.json''), (''digest'', JStr zeros),
        (''createdAt'', JStr ''2026-01-02T03:04:05.006Z''), (''artifactSha256'', JStr zeros), (''artifactSizeBytes'', JInt 7)]),
     (''restoreReport'', JObj [(''path'', JStr ''backup-jobs/j.json''), (''sha256'', JStr zeros),
        (''finishedAt'', JStr ''2026-01-02T04:00:00.000Z''), (''jobId'', JStr ''job-2'')]),
     (''offsiteReceipt'', JObj [(''path'', JStr ''offsite-backups/o.json''), (''sha256'', JStr zeros),
        (''finishedAt'', JStr ''2026-01-02T05:00:00.000Z''), (''snapshotId'', JStr ''snap''), (''hostname'', JStr ''h'')]),
     (''verifiedAt'', JStr ''2026-01-02T06:00:00.000Z''), (''maxAgeMs'', JInt 86400000), (''fingerprint'', JStr zeros)]"

lemma sample_restore_point_ready: "sample_restore_point = Inr (Ready sample_evidence)"
  by code_simp

theorem ready_restore_point_is_verified_witness:
  "\<exists>db nowMs maxAgeMs c t0. sample_restore_point = Inr (Ready sample_evidence)
     \<and> getp sample_evidence ''resourceId'' = JStr (xd_resourceId db)
     \<and> backed_up zero_runtime sample_disk (path_resolve ''/b'' []) db nowMs maxAgeMs c t0"
  using ready_restore_point_is_verified [OF sample_restore_point_ready [unfolded sample_restore_point_def]]
  by (elim exE conjE) (intro exI conjI, rule sample_restore_point_ready)

section \<open>Evidence and operation\<close>

lemma resource_of_database: "exactDatabase v = Inr db \<Longrightarrow> xd_resourceId db = ''database:'' @ xd_id db"
proof -
  assume db: "exactDatabase v = Inr db"
  have "js_trim ''database'' = ''database''" by code_simp
  with exactDatabase_Inr(1,5) [OF db] show ?thesis
    by (auto simp: backupResourceId_def bindR_eq_Inr requireKind_def requiredText_def text_defs js_coalesce_def Let_def requireR_eq split: if_splits)
qed

text \<open>
  Evidence found for one database can only open a delete operation of that database, whatever
  the request says the target is, and every later stored state of the operation still names that
  database and carries that evidence.
\<close>

theorem evidence_binds_operation_to_database:
  assumes "findDatabaseDeleteRestorePoint R D input backupRoot reportsRoot now maxAge = Inr (Ready e)"
    and "exactDatabase input = Inr db"
    and "createDatabaseDeleteOperation R clock i other e key who at = Inr d0"
    and "reachable (deletion_init R d0) (deletion_step R) j"
  shows "getp (getp j ''database'') ''id'' = JStr (xd_id db) \<and> getp j ''evidence'' = e
    \<and> getp j ''evidenceFingerprint'' = getp e ''fingerprint''"
proof -
  from ready_restore_point_verified [OF assms(1)] assms(2) have e: "getp e ''resourceId'' = JStr (xd_resourceId db)" by auto
  from assms(3) have d0: "core_settled R d0" "do_evidence d0 = e"
    using created_core_settled [OF assms(3)] by (auto simp: createDatabaseDeleteOperation_def bindR_eq_Inr)
  from d0 e have "do_resourceId d0 = xd_resourceId db" by (simp add: core_settled_def)
  moreover have "do_resourceId d0 = ''database:'' @ dt_id (do_database d0)"
    using d0(1) resource_of_database by (fastforce simp: core_settled_def)
  ultimately have same: "dt_id (do_database d0) = xd_id db" using resource_of_database [OF assms(2)] by simp
  obtain d where d: "j = operation_json d" "operation_core d = operation_core d0" "core_settled R d" "operation_ok d"
    using reachable_deletion [OF assms(4)] .
  then show ?thesis using same d0(2) by (auto simp: operation_core_def) (simp add: operation_json_def)
qed

lemma evidence_binds_operation_to_database_example:
  "\<exists>d0. sample_restore_point = Inr (Ready sample_evidence)
     \<and> createDatabaseDeleteOperation zero_runtime 0 (JStr ''op1'') sample_target sample_evidence (JStr ''k1'') (JStr ''owner'') JUndef = Inr d0
     \<and> getp (getp (operation_json d0) ''database'') ''id'' = JStr ''db1''"
proof -
  note e = sample_restore_point_ready
  have "case createDatabaseDeleteOperation zero_runtime 0 (JStr ''op1'') sample_target sample_evidence (JStr ''k1'') (JStr ''owner'') JUndef of
      Inr _ \<Rightarrow> True | Inl _ \<Rightarrow> False" by code_simp
  then obtain d0 where d0: "createDatabaseDeleteOperation zero_runtime 0 (JStr ''op1'') sample_target sample_evidence (JStr ''k1'') (JStr ''owner'') JUndef = Inr d0"
    by (cases "createDatabaseDeleteOperation zero_runtime 0 (JStr ''op1'') sample_target sample_evidence (JStr ''k1'') (JStr ''owner'') JUndef") auto
  have "case exactDatabase sample_target of Inr db \<Rightarrow> xd_id db = ''db1'' | Inl _ \<Rightarrow> False" by code_simp
  then obtain db where db: "exactDatabase sample_target = Inr db" "xd_id db = ''db1''"
    by (cases "exactDatabase sample_target") auto
  have "reachable (deletion_init zero_runtime d0) (deletion_step zero_runtime) (operation_json d0)"
    using d0 unfolding deletion_init_def by (intro reachable.start) blast
  from evidence_binds_operation_to_database [OF e [unfolded sample_restore_point_def] db(1) d0 this] db(2) e d0
  show ?thesis by auto
qed

end
