(* ===== verification/Redaction.thy ===== *)
theory Redaction
  imports BackupContracts
begin

text \<open>
  How the server keeps secrets out of what it stores and logs: \<open>sanitizeMessage\<close>,
  \<open>sanitizeValue\<close>, \<open>sanitizeEvent\<close> of \<open>src/control-center/server.mjs\<close>, and the names it makes of
  untrusted text (\<open>slugify\<close>, \<open>sanitizeIdentifier\<close>). The replacement of
  \<open>/\b(token|...)=([^\s]+)/gi\<close> scans from the left; \<open>redact\<close> takes whether the character before is a
  word character.
\<close>

section \<open>Messages\<close>

definition secret_words :: "string list" where
  "secret_words = [''token'', ''secret'', ''password'', ''authorization'', ''cookie'']"

definition is_word_char :: "char \<Rightarrow> bool" where
  "is_word_char c \<longleftrightarrow> is_alnum c \<or> c = CHR ''_''"

definition matches_secret :: "string \<Rightarrow> string \<Rightarrow> bool" where
  "matches_secret s w \<longleftrightarrow> to_lower (take (length w) s) = w
     \<and> (case drop (length w) s of c # d # _ \<Rightarrow> c = CHR ''='' \<and> \<not> is_js_space d | _ \<Rightarrow> False)"

definition secret_at :: "string \<Rightarrow> string option" where
  "secret_at s = find (matches_secret s) secret_words"

definition after_secret :: "string \<Rightarrow> string \<Rightarrow> string" where
  "after_secret s w = dropWhile (\<lambda>c. \<not> is_js_space c) (drop (Suc (length w)) s)"

lemma after_secret_shorter: "length (after_secret (c # cs) w) < Suc (length cs)"
  unfolding after_secret_def by (rule le_less_trans [OF length_dropWhile_le]) simp

function redact :: "bool \<Rightarrow> string \<Rightarrow> string" where
  "redact prev [] = []"
| "redact prev (c # cs) =
     (case (if prev then None else secret_at (c # cs)) of
        Some w \<Rightarrow> take (length w) (c # cs) @ ''=[redacted]'' @ redact False (after_secret (c # cs) w)
      | None \<Rightarrow> c # redact (is_word_char c) cs)"
  by pat_completeness auto
termination
  by (relation "measure (\<lambda>(p, s). length s)") (auto simp: after_secret_shorter)

definition sanitizeMessage :: "jsv \<Rightarrow> string" where
  "sanitizeMessage v = redact False (js_String (js_or v (JStr [])))"

section \<open>Values\<close>

definition contains_text :: "string \<Rightarrow> string \<Rightarrow> bool" where
  "contains_text w s \<longleftrightarrow> list_ex (starts_with w) (suffixes s)"

definition plain_keys :: "string list" where
  "plain_keys = [''cookieflags'', ''secretvalueexposed'', ''secretvaluesexposed'', ''sessionsecretconfigured'', ''secrettouched'']"

definition secret_key :: "string \<Rightarrow> bool" where
  "secret_key k \<longleftrightarrow> to_lower k \<notin> set plain_keys \<and> list_ex (\<lambda>w. contains_text w (to_lower k)) secret_words"

fun sanitizeValue :: "string \<Rightarrow> jsv \<Rightarrow> jsv" where
  "sanitizeValue k (JStr s) = (if secret_key k then JStr ''[redacted]'' else JStr (sanitizeMessage (JStr s)))"
| "sanitizeValue k (JArr xs) = (if secret_key k then JStr ''[redacted]'' else JArr (map (sanitizeValue []) xs))"
| "sanitizeValue k (JObj ps) = (if secret_key k then JStr ''[redacted]''
     else JObj (own_order (map (\<lambda>(k', v). (k', sanitizeValue k' v)) ps)))"
| "sanitizeValue k v = (if secret_key k then JStr ''[redacted]'' else v)"

definition sanitizeEvent :: "jsv \<Rightarrow> jsv" where
  "sanitizeEvent v = sanitizeValue [] v"

section \<open>Names\<close>

fun runs_to_dash :: "bool \<Rightarrow> string \<Rightarrow> string" where
  "runs_to_dash inrun [] = []"
| "runs_to_dash inrun (c # cs) = (if is_lower_alnum c \<or> c = CHR ''-'' then c # runs_to_dash False cs
     else if inrun then runs_to_dash True cs else CHR ''-'' # runs_to_dash True cs)"

definition strip_dashes :: "string \<Rightarrow> string" where
  "strip_dashes s = rev (dropWhile (\<lambda>c. c = CHR ''-'') (rev (dropWhile (\<lambda>c. c = CHR ''-'') s)))"

definition slugify :: "jsv \<Rightarrow> string" where
  "slugify v = strip_dashes (runs_to_dash False (to_lower (js_trim (js_String (js_or v (JStr []))))))"

definition sanitizeIdentifier :: "jsv \<Rightarrow> string" where
  "sanitizeIdentifier v = take 80 (slugify v)"

section \<open>Nothing after a secret's name survives\<close>

lemma redact_True_copies:
  assumes "redact True cs = w @ CHR ''='' # rest" and "list_all is_word_char w"
  shows "\<exists>cs'. cs = w @ CHR ''='' # cs' \<and> rest = redact False cs'"
  using assms
proof (induction w arbitrary: cs)
  case Nil
  then show ?case by (cases cs) (auto simp: is_word_char_def is_alnum_def is_lower_def is_upper_def is_digit_def code_def)
next
  case (Cons d w)
  then obtain ds where "cs = d # ds" "redact (is_word_char d) ds = w @ CHR ''='' # rest" by (cases cs) auto
  then show ?case using Cons by auto
qed

lemma secret_words_plain: "w \<in> set secret_words \<Longrightarrow> w \<noteq> [] \<and> list_all is_lower w"
proof -
  have "list_all (\<lambda>w. w \<noteq> [] \<and> list_all is_lower w) secret_words" by code_simp
  then show "w \<in> set secret_words \<Longrightarrow> w \<noteq> [] \<and> list_all is_lower w" by (simp add: list_all_iff)
qed

lemma secret_at_Some: "secret_at s = Some w \<Longrightarrow> w \<in> set secret_words \<and> matches_secret s w"
  by (auto simp: secret_at_def find_Some_iff)

lemma secret_at_None: "secret_at s = None \<Longrightarrow> w \<in> set secret_words \<Longrightarrow> \<not> matches_secret s w"
  by (simp add: secret_at_def find_None_iff)

lemma redact_hd:
  assumes "redact p s = c # t"
  shows "\<exists>t'. s = c # t'"
proof (cases s)
  case (Cons d ds)
  show ?thesis
  proof (cases "if p then None else secret_at (d # ds)")
    case (Some w)
    then have "w \<noteq> []" using secret_at_Some secret_words_plain by (metis option.distinct(1))
    then obtain n where "length w = Suc n" by (cases w) auto
    then show ?thesis using assms Some Cons by simp
  next
    case None
    then show ?thesis using assms Cons by simp
  qed
qed (use assms in simp)

lemma letters_are_words: "is_lower (lower_char c) \<Longrightarrow> is_word_char c"
proof -
  have "\<forall>c. is_lower (lower_char c) \<longrightarrow> is_word_char c"
  proof
    fix c
    show "is_lower (lower_char c) \<longrightarrow> is_word_char c"
    proof (cases "has_lower c")
      case True
      then have "is_upper c \<or> 192 \<le> code c" by (auto simp: has_lower_def)
      moreover have "code (char_of (code c + 32)) = code c + 32" if "code c \<le> 222"
        using that by (simp add: code_def)
      ultimately show ?thesis using True
        by (auto simp: lower_char_def has_lower_def is_lower_def is_word_char_def is_alnum_def)
    next
      case False
      then show ?thesis by (simp add: lower_char_def is_word_char_def is_alnum_def)
    qed
  qed
  then show "is_lower (lower_char c) \<Longrightarrow> is_word_char c" by blast
qed

text \<open>An occurrence of a secret's name, in any case, that is not the tail of a longer word.\<close>

definition secret_named :: "bool \<Rightarrow> string \<Rightarrow> string \<Rightarrow> string \<Rightarrow> string \<Rightarrow> bool" where
  "secret_named prev out pre w rest \<longleftrightarrow> out = pre @ w @ CHR ''='' # rest \<and> to_lower w \<in> set secret_words
     \<and> (if pre = [] then \<not> prev else \<not> is_word_char (last pre)) \<and> rest \<noteq> [] \<and> \<not> is_js_space (hd rest)"

definition masked :: "string \<Rightarrow> bool" where
  "masked rest \<longleftrightarrow> (\<exists>t. rest = ''[redacted]'' @ t \<and> (t = [] \<or> is_js_space (hd t)))"

lemma secret_name_words:
  assumes "to_lower w \<in> set secret_words"
  shows "w \<noteq> []" and "list_all is_word_char w"
  using secret_words_plain [OF assms] by (auto simp: to_lower_def list_all_iff letters_are_words)

lemma equals_not_word: "\<not> is_word_char (CHR ''='')"
  by code_simp

lemma word_prefix_unique:
  assumes "w @ CHR ''='' # a = x @ CHR ''='' # b" and "list_all is_word_char w" "list_all is_word_char x"
  shows "w = x \<and> a = b"
  using assms equals_not_word
proof (induction w arbitrary: x)
  case Nil
  then show ?case by (cases x) auto
next
  case (Cons c w)
  then show ?case by (cases x) auto
qed

lemma no_name_in_mask:
  assumes "drop i ''[redacted]'' @ r = w @ CHR ''='' # rest" and "i < 10" and "list_all is_word_char w"
  shows False
proof -
  have "list_all (\<lambda>i. dropWhile is_word_char (drop i ''[redacted]'') \<noteq> [] \<and> hd (dropWhile is_word_char (drop i ''[redacted]'')) \<noteq> CHR ''='') [0..<10]"
    by code_simp
  with \<open>i < 10\<close> have u: "dropWhile is_word_char (drop i ''[redacted]'') \<noteq> []"
      "hd (dropWhile is_word_char (drop i ''[redacted]'')) \<noteq> CHR ''=''"
    by (simp_all add: list_all_iff)
  then obtain y ys where y: "dropWhile is_word_char (drop i ''[redacted]'') = y # ys" "y \<noteq> CHR ''=''"
    by (cases "dropWhile is_word_char (drop i ''[redacted]'')") auto
  have "dropWhile is_word_char (drop i ''[redacted]'' @ r) = (y # ys) @ r"
  proof -
    have "\<not> (\<forall>x \<in> set (drop i ''[redacted]''). is_word_char x)"
      using y(1) dropWhile_eq_Nil_conv [of is_word_char "drop i ''[redacted]''"] by simp
    then show ?thesis unfolding dropWhile_append y(1) by auto
  qed
  moreover have "dropWhile is_word_char (w @ CHR ''='' # rest) = CHR ''='' # rest"
    using assms(3) equals_not_word by (simp add: dropWhile_append list_all_iff)
  ultimately show False using assms(1) y(2) by simp
qed

lemma after_secret_space: "after_secret s w = [] \<or> is_js_space (hd (after_secret s w))"
  unfolding after_secret_def using hd_dropWhile [of "\<lambda>c. \<not> is_js_space c"] by blast

lemma redact_space: "s = [] \<or> is_js_space (hd s) \<Longrightarrow> redact False s = [] \<or> is_js_space (hd (redact False s))"
  using redact_hd by (cases "redact False s") fastforce+

lemma name_after_replacement:
  assumes eq: "x @ ''=[redacted]'' @ r = pre @ w @ CHR ''='' # rest" and x: "list_all is_word_char x"
    and w: "list_all is_word_char w" and b: "pre = [] \<or> \<not> is_word_char (last pre)"
  shows "pre = [] \<and> rest = ''[redacted]'' @ r \<or> (\<exists>pre'. pre = x @ ''=[redacted]'' @ pre' \<and> r = pre' @ w @ CHR ''='' # rest)"
proof -
  consider "pre = []" | "pre \<noteq> []" "length pre \<le> length x" | "length x < length pre" "length pre < length x + 11"
    | "length x + 11 \<le> length pre" by linarith
  then show ?thesis
  proof cases
    case 1
    then show ?thesis using eq word_prefix_unique [OF _ w x, of rest "''[redacted]'' @ r"] by simp
  next
    case 2
    then have "pre = take (length pre) x" using arg_cong [OF eq, of "take (length pre)"] by simp
    then have "last pre \<in> set x" using 2(1) by (metis in_set_takeD last_in_set)
    then show ?thesis using x b 2(1) by (auto simp: list_all_iff)
  next
    case 3
    define i where "i = length pre - Suc (length x)"
    have "drop (length pre) (x @ ''=[redacted]'' @ r) = drop i ''[redacted]'' @ r"
      using 3 by (simp add: i_def drop_Cons' drop_append)
    then have "drop i ''[redacted]'' @ r = w @ CHR ''='' # rest" using arg_cong [OF eq, of "drop (length pre)"] by simp
    moreover have "i < 10" using 3 by (simp add: i_def)
    ultimately show ?thesis using no_name_in_mask w by blast
  next
    case 4
    then have "take (length x + 11) pre = x @ ''=[redacted]''"
      using arg_cong [OF eq, of "take (length x + 11)"] by simp
    then obtain pre' where "pre = x @ ''=[redacted]'' @ pre'" by (metis append.assoc append_take_drop_id)
    then show ?thesis using eq by simp
  qed
qed

lemma redacted_names_masked: "secret_named prev (redact prev s) pre w rest \<Longrightarrow> masked rest"
proof (induction prev s arbitrary: pre rule: redact.induct)
  case (1 prev)
  then show ?case by (simp add: secret_named_def)
next
  case (2 prev c cs)
  have w: "w \<noteq> []" "list_all is_word_char w" using 2(3) secret_name_words by (auto simp: secret_named_def)
  show ?case
  proof (cases "if prev then None else secret_at (c # cs)")
    case (Some w0)
    define r where "r = redact False (after_secret (c # cs) w0)"
    define x where "x = take (length w0) (c # cs)"
    from Some have "w0 \<in> set secret_words" "matches_secret (c # cs) w0" using secret_at_Some by (auto split: if_splits)
    then have x: "list_all is_word_char x" using secret_name_words by (simp add: matches_secret_def x_def)
    have eq: "x @ ''=[redacted]'' @ r = pre @ w @ CHR ''='' # rest"
      using 2(3) Some by (simp add: secret_named_def x_def r_def)
    have r: "r = [] \<or> is_js_space (hd r)" unfolding r_def by (rule redact_space [OF after_secret_space])
    have b: "pre = [] \<or> \<not> is_word_char (last pre)" using 2(3) by (auto simp: secret_named_def split: if_splits)
    from name_after_replacement [OF eq x w(2) b] show ?thesis
    proof (elim disjE exE conjE)
      assume "rest = ''[redacted]'' @ r"
      then show ?thesis using r by (auto simp: masked_def)
    next
      fix pre' assume p: "pre = x @ ''=[redacted]'' @ pre'" "r = pre' @ w @ CHR ''='' # rest"
      then have "secret_named False (redact False (after_secret (c # cs) w0)) pre' w rest"
        using 2(3) by (auto simp: secret_named_def r_def)
      then show ?thesis by (rule 2(2) [OF Some])
    qed
  next
    case None
    then have out: "redact prev (c # cs) = c # redact (is_word_char c) cs" by simp
    show ?thesis
    proof (cases pre)
      case (Cons d pre')
      then have "secret_named (is_word_char c) (redact (is_word_char c) cs) pre' w rest"
        using 2(3) unfolding out by (auto simp: secret_named_def)
      then show ?thesis by (rule 2(1) [OF None])
    next
      case Nil
      with 2(3) have np: "\<not> prev" and eq: "c # redact (is_word_char c) cs = w @ CHR ''='' # rest"
          and rest: "rest \<noteq> []" "\<not> is_js_space (hd rest)" and lw: "to_lower w \<in> set secret_words"
        unfolding out by (auto simp: secret_named_def)
      from w(1) obtain w1 where w1: "w = c # w1" using eq by (cases w) auto
      then have word: "is_word_char c" "list_all is_word_char w1" using w(2) by auto
      then have "redact True cs = w1 @ CHR ''='' # rest" using eq w1 by simp
      from redact_True_copies [OF this word(2)] obtain cs' where cs': "cs = w1 @ CHR ''='' # cs'" "rest = redact False cs'" by blast
      from rest obtain d t where d: "rest = d # t" "\<not> is_js_space d" by (cases rest) auto
      then obtain ds where "cs' = d # ds" using redact_hd [of False cs' d t] cs'(2) by auto
      then have "matches_secret (c # cs) (to_lower w)" using cs'(1) w1 d(2) by (simp add: matches_secret_def to_lower_def)
      then show ?thesis using None np lw secret_at_None by auto
    qed
  qed
qed

text \<open>
  C32. In a sanitized message every occurrence of \<open>token=\<close>, \<open>secret=\<close>, \<open>password=\<close>,
  \<open>authorization=\<close> or \<open>cookie=\<close>, in any case, that starts a word and is followed by a value is
  followed by the mask alone, up to the next white space.
\<close>

theorem sanitized_message_masks_secrets:
  assumes "sanitizeMessage v = pre @ w @ CHR ''='' # rest" and "to_lower w \<in> set secret_words"
    and "pre = [] \<or> \<not> is_word_char (last pre)" and "rest \<noteq> []" "\<not> is_js_space (hd rest)"
  shows "\<exists>t. rest = ''[redacted]'' @ t \<and> (t = [] \<or> is_js_space (hd t))"
  using redacted_names_masked [of False "js_String (js_or v (JStr []))" pre w rest] assms
  by (auto simp: secret_named_def sanitizeMessage_def masked_def)

theorem sanitized_message_masks_secrets_witness:
  "sanitizeMessage (JStr ''login Password=hunter2 failed'') = ''login '' @ ''Password'' @ CHR ''='' # ''[redacted] failed''
     \<and> (\<exists>t. ''[redacted] failed'' = ''[redacted]'' @ t \<and> (t = [] \<or> is_js_space (hd t)))"
proof -
  have eq: "sanitizeMessage (JStr ''login Password=hunter2 failed'') = ''login '' @ ''Password'' @ CHR ''='' # ''[redacted] failed''"
    by code_simp
  have "to_lower ''Password'' \<in> set secret_words" "\<not> is_word_char (last ''login '')" "\<not> is_js_space (hd ''[redacted] failed'')"
    by code_simp+
  with sanitized_message_masks_secrets [OF eq] eq show ?thesis by simp
qed

end
