(* ===== verification/DeleteHandlers.thy ===== *)
theory DeleteHandlers
  imports DatabaseOwnership DatabaseDeleteEvidence Redaction
begin

text \<open>
  The handlers of \<open>src/control-center/server.mjs\<close> that request, approve and execute the deletion
  of a database, with the state files they keep.

  \<open>world\<close> is what the handlers change: the three state files (\<open>None\<close>: absent; content that is not
  what the reader expects stands for an unreadable file), the credential files present, the
  statements the database client ran, and the log of audit and operation records. Each call that
  changes something takes its outcome from \<open>wd_outcomes\<close>, so any of them may fail; a client call
  may also fail after its statement took effect. A state file is replaced by a rename, so a failed
  write leaves it as it was.

  \<open>settings\<close> has what does not change within a handler: configuration, clock, request identity,
  the files searched for evidence, the decision of the host extension about external databases,
  and \<open>st_inspect\<close>, the catalogue the database client reads (or the error of its secret file or
  client). The error values keep the class of an error and the message of a plain one.
\<close>

section \<open>State\<close>

datatype outcome = Succeeds | Fails | FailsAfterEffect

datatype statement = DropDatabase string string | DropPrincipal string string

record world =
  wd_operations :: "jsv option"
  wd_databases :: "jsv option"
  wd_principals :: "jsv option"
  wd_credentials :: "string list"
  wd_statements :: "statement list"
  wd_log :: "(string \<times> string) list"
  wd_outcomes :: "outcome list"

record settings =
  st_runtime :: runtime
  st_clock :: int
  st_disk :: disk
  st_backupRoot :: string
  st_reportsRoot :: string
  st_maxAgeMs :: int
  st_liveApply :: bool
  st_external :: "string \<Rightarrow> string \<Rightarrow> bool option"
  st_externalIds :: "string list"
  st_databases :: "jsv list"
  st_subject :: string
  st_rid :: string
  st_inspect :: "statement list \<Rightarrow> jsv \<Rightarrow> jsv res"
  st_cwd :: string
  st_stateDir :: string
  st_credentialDir :: string

definition validation_error :: js_error where
  "validation_error = CodedError ''ValidationError'' 422"

definition rejected :: js_error where
  "rejected = CodedError ''RejectedOperationError'' 409"

definition next_outcome :: "world \<Rightarrow> outcome" where
  "next_outcome w = (case wd_outcomes w of [] \<Rightarrow> Succeeds | x # _ \<Rightarrow> x)"

definition attempt :: "(world \<Rightarrow> world) \<Rightarrow> (world, unit) sx" where
  "attempt f = (\<lambda>w. let w' = w\<lparr>wd_outcomes := tl (wd_outcomes w)\<rparr> in
     if next_outcome w = Succeeds then (Inr (), f w') else (Inl (PlainError ''EIO''), w'))"

definition record_event :: "string \<Rightarrow> string \<Rightarrow> (world, unit) sx" where
  "record_event action result = attempt (\<lambda>w. w\<lparr>wd_log := wd_log w @ [(action, result)]\<rparr>)"

section \<open>State files\<close>

definition readDatabaseDeleteOperationsState :: "settings \<Rightarrow> (world, (string \<times> jsv) list) sx" where
  "readDatabaseDeleteOperationsState S = (\<lambda>w. case wd_operations w of None \<Rightarrow> (Inr [], w)
     | Some doc \<Rightarrow> (case getp doc ''operations'' of
           JObj ps \<Rightarrow> if getp doc ''version'' = JInt 1
                        \<and> list_all (\<lambda>p. case parseDatabaseDeleteOperation (st_runtime S) (st_clock S) (snd p) of Inr _ \<Rightarrow> True | Inl _ \<Rightarrow> False) ps
                      then (Inr ps, w) else (Inl validation_error, w)
         | _ \<Rightarrow> (Inl validation_error, w)))"

definition stored_entry :: "settings \<Rightarrow> string \<times> jsv \<Rightarrow> (string \<times> jsv) res" where
  "stored_entry S p = bindR (parseDatabaseDeleteOperation (st_runtime S) (st_clock S) (snd p)) (\<lambda>d.
     Inr (sanitizeIdentifier (JStr (fst p)), operation_json d))"

definition from_entries :: "(string \<times> jsv) list \<Rightarrow> (string \<times> jsv) list" where
  "from_entries es = foldl (\<lambda>ps e. put_prop (fst e) (snd e) ps) [] es"

definition writeDatabaseDeleteOperationsState :: "settings \<Rightarrow> (string \<times> jsv) list \<Rightarrow> (world, unit) sx" where
  "writeDatabaseDeleteOperationsState S ps =
     bindS (liftS (mapR (stored_entry S) (own_order ps))) (\<lambda>es.
     attempt (\<lambda>w. w\<lparr>wd_operations := Some (JObj [(''version'', JInt 1), (''operations'', JObj (from_entries es)),
       (''updatedAt'', JStr (to_iso (st_clock S)))])\<rparr>))"

definition readDatabasesState :: "(world, (string \<times> jsv) list) sx" where
  "readDatabasesState = (\<lambda>w. case wd_databases w of None \<Rightarrow> (Inr [], w)
     | Some (JObj ps) \<Rightarrow> (Inr ps, w) | Some _ \<Rightarrow> (Inl validation_error, w))"

definition writeDatabasesState :: "(string \<times> jsv) list \<Rightarrow> (world, unit) sx" where
  "writeDatabasesState ps = attempt (\<lambda>w. w\<lparr>wd_databases := Some (sanitizeEvent (JObj ps))\<rparr>)"

definition readDatabasePrincipalsState :: "(world, (string \<times> jsv) list) sx" where
  "readDatabasePrincipalsState = (\<lambda>w. case wd_principals w of None \<Rightarrow> (Inr [], w)
     | Some doc \<Rightarrow> (case getp doc ''bindings'' of
           JObj ps \<Rightarrow> if getp doc ''version'' = JInt 1 then (Inr ps, w) else (Inl validation_error, w)
         | _ \<Rightarrow> (Inl validation_error, w)))"

definition writeDatabasePrincipalsState :: "settings \<Rightarrow> (string \<times> jsv) list \<Rightarrow> (world, unit) sx" where
  "writeDatabasePrincipalsState S bindings = attempt (\<lambda>w. w\<lparr>wd_principals := Some (JObj [(''version'', JInt 1),
     (''updatedAt'', JStr (to_iso (st_clock S))), (''bindings'', sanitizeEvent (JObj bindings))])\<rparr>)"

section \<open>Checks\<close>

definition findById :: "jsv list \<Rightarrow> jsv \<Rightarrow> jsv res" where
  "findById items ident = (let slug = slugify ident in
     case find (\<lambda>item. getp item ''id'' = ident \<or> getp item ''id'' = JStr slug \<or> getp item ''slug'' = JStr slug
                    \<or> slugify (js_or (getp item ''hostname'') (JStr [])) = slug) items of
       None \<Rightarrow> Inl validation_error | Some item \<Rightarrow> Inr item)"

definition assertExternalDatabaseOperation :: "settings \<Rightarrow> jsv \<Rightarrow> string \<Rightarrow> unit res" where
  "assertExternalDatabaseOperation S ident action = (let databaseId = slugify (js_or ident (JStr [])) in
     case st_external S databaseId action of
       Some allowed \<Rightarrow> requireR allowed rejected
     | None \<Rightarrow> requireR (databaseId \<notin> set (st_externalIds S)) rejected)"

definition findDatabaseDeleteOperation :: "settings \<Rightarrow> (string \<times> jsv) list \<Rightarrow> jsv \<Rightarrow> delete_operation res" where
  "findDatabaseDeleteOperation S ps operationId = (let cleanId = sanitizeIdentifier operationId in
     if cleanId = [] \<or> \<not> js_truthy (own_or_proto ps cleanId) then Inl validation_error
     else parseDatabaseDeleteOperation (st_runtime S) (st_clock S) (own_or_proto ps cleanId))"

definition validateDatabaseName :: "jsv \<Rightarrow> string res" where
  "validateDatabaseName v = (let name = lower_text v in if db_name_pattern name then Inr name else Inl validation_error)"

definition sanitizeDatabasePrincipal :: "jsv \<Rightarrow> string" where
  "sanitizeDatabasePrincipal v = (let user = js_trim (js_String (js_or v (JStr []))) in
     if all_in (\<lambda>c. is_alnum c \<or> c \<in> {CHR ''_'', CHR ''.'', CHR ''$'', CHR ''-''}) 1 80 user \<and> to_lower user \<noteq> ''root''
     then user else [])"

definition now_text :: "settings \<Rightarrow> jsv" where
  "now_text S = JStr (to_iso (st_clock S))"

definition databaseOwnerRoleIsExclusive :: "settings \<Rightarrow> jsv \<Rightarrow> (string \<times> jsv) list \<Rightarrow> jsv \<Rightarrow> bool" where
  "databaseOwnerRoleIsExclusive S database state registry =
     (let owner = sanitizeDatabasePrincipal (js_or (getp database ''ownerRole'') (JStr [])) in
      owner \<noteq> []
    \<and> (case principalBindingFor (st_runtime S) registry database (now_text S) of None \<Rightarrow> False
       | Some b \<Rightarrow> getp b ''status'' = JStr ''active'' \<and> getp b ''principalName'' = JStr owner)
    \<and> \<not> list_ex (\<lambda>(k, c). js_truthy c \<and> getp c ''id'' \<noteq> getp database ''id'' \<and> \<not> js_truthy (getp c ''deletedAt'')
          \<and> getp c ''status'' \<noteq> JStr ''deleted'' \<and> getp c ''engine'' = getp database ''engine''
          \<and> sanitizeDatabasePrincipal (js_or (getp c ''ownerRole'') (JStr [])) = owner) state)"

definition ownershipPolicy :: "'a res \<Rightarrow> 'a res" where
  "ownershipPolicy r = (case r of Inl e \<Rightarrow> Inl rejected | Inr x \<Rightarrow> Inr x)"

section \<open>The database client\<close>

definition run_statement :: "statement \<Rightarrow> (world, unit) sx" where
  "run_statement st = (\<lambda>w. let w' = w\<lparr>wd_outcomes := tl (wd_outcomes w)\<rparr>; done = w'\<lparr>wd_statements := wd_statements w @ [st]\<rparr> in
     case next_outcome w of Succeeds \<Rightarrow> (Inr (), done) | Fails \<Rightarrow> (Inl rejected, w') | FailsAfterEffect \<Rightarrow> (Inl rejected, done))"

definition inspect :: "settings \<Rightarrow> jsv \<Rightarrow> (world, jsv) sx" where
  "inspect S database = (\<lambda>w. (st_inspect S (wd_statements w) database, w))"

definition applyLiveDatabaseDelete :: "settings \<Rightarrow> jsv \<Rightarrow> jsv \<Rightarrow> (world, bool) sx" where
  "applyLiveDatabaseDelete S database registry =
     bindS (liftS (assertExternalDatabaseOperation S (getp database ''id'') ''delete'')) (\<lambda>_.
     if \<not> st_liveApply S then returnS False
     else bindS (inspect S database) (\<lambda>catalog.
          bindS (liftS (ownershipPolicy (assertPrincipalDeletionAllowed (st_runtime S) database registry catalog (now_text S)))) (\<lambda>_.
          bindS (liftS (validateDatabaseName (getp database ''name''))) (\<lambda>name.
          bindS (run_statement (DropDatabase (if getp database ''engine'' = JStr ''postgres'' then ''postgres'' else ''mariadb'') name)) (\<lambda>_.
          returnS True)))))"

definition applyLiveDatabasePrincipalCleanup :: "settings \<Rightarrow> jsv \<Rightarrow> (string \<times> jsv) list \<Rightarrow> jsv \<Rightarrow> (world, bool) sx" where
  "applyLiveDatabasePrincipalCleanup S database state registry =
     bindS (liftS (assertExternalDatabaseOperation S (getp database ''id'') ''cleanup-principal'')) (\<lambda>_.
     if \<not> st_liveApply S \<or> \<not> databaseOwnerRoleIsExclusive S database state registry then returnS False
     else bindS (inspect S database) (\<lambda>catalog.
          bindS (liftS (ownershipPolicy (assertPrincipalCleanupAllowed (st_runtime S) database registry catalog (now_text S)))) (\<lambda>_.
          bindS (liftS (validateDatabaseName (getp database ''ownerRole''))) (\<lambda>role.
          bindS (run_statement (DropPrincipal (if getp database ''engine'' = JStr ''postgres'' then ''postgres'' else ''mariadb'') role)) (\<lambda>_.
          returnS True)))))"

section \<open>Credential files\<close>

definition resolve_from :: "string \<Rightarrow> string \<Rightarrow> string" where
  "resolve_from cwd p = (if starts_with ''/'' p then path_resolve p [] else path_resolve cwd p)"

definition sanitizeCredentialFilePath :: "settings \<Rightarrow> jsv \<Rightarrow> string" where
  "sanitizeCredentialFilePath S v = (let raw = js_trim (js_String (js_or v (JStr []))); resolved = resolve_from (st_cwd S) raw in
     if raw \<noteq> [] \<and> list_ex (\<lambda>root. resolved = root \<or> starts_with (root @ ''/'') resolved)
          [''/run/secrets'', ''/var/www/project-state'', st_stateDir S]
     then resolved else [])"

definition credential_candidates :: "settings \<Rightarrow> jsv \<Rightarrow> jsv list" where
  "credential_candidates S database =
     (let cleanId = sanitizeIdentifier (getp database ''id'') in
      remdups ((if js_truthy (getp database ''credentialFile'') then [getp database ''credentialFile''] else [])
        @ (if cleanId = [] then [] else [JStr (path_join (st_credentialDir S) (cleanId @ ''.txt''))])))"

fun remove_files :: "settings \<Rightarrow> jsv list \<Rightarrow> (world, unit) sx" where
  "remove_files S [] = returnS ()"
| "remove_files S (c # cs) = bindS getS (\<lambda>w. let p = sanitizeCredentialFilePath S c in
     bindS (if p \<noteq> [] \<and> p \<in> set (wd_credentials w)
            then attempt (\<lambda>w. w\<lparr>wd_credentials := filter (\<lambda>q. q \<noteq> p) (wd_credentials w)\<rparr>) else returnS ()) (\<lambda>_.
     remove_files S cs))"

definition removeDatabaseCredentialFile :: "settings \<Rightarrow> jsv \<Rightarrow> (world, unit) sx" where
  "removeDatabaseCredentialFile S database =
     bindS (liftS (assertExternalDatabaseOperation S (getp database ''id'') ''credential'')) (\<lambda>_.
     remove_files S (credential_candidates S database))"

section \<open>Request\<close>

datatype response =
    PlanOnly string
  | Operation string delete_operation bool

definition public_operation :: "delete_operation \<Rightarrow> delete_operation" where
  "public_operation d = d\<lparr>do_database := (do_database d)\<lparr>dt_credentialFile := []\<rparr>\<rparr>"

definition databaseDeleteOperationResponse :: "string \<Rightarrow> delete_operation \<Rightarrow> bool \<Rightarrow> (world, response) sx" where
  "databaseDeleteOperationResponse kind d idempotent =
     bindS (record_event kind ''accepted'') (\<lambda>_. returnS (Operation kind (public_operation d) idempotent))"

definition databaseDeleteWaiverEvidence :: "settings \<Rightarrow> jsv \<Rightarrow> jsv res" where
  "databaseDeleteWaiverEvidence S database =
     bindR (backupResourceId (JStr ''database'') (getp database ''id'')) (\<lambda>resourceId.
     (let evidence = [(''resourceId'', JStr resourceId),
            (''manifest'', JObj [(''status'', JStr ''waived''), (''databaseId'', getp database ''id'')]),
            (''restoreReport'', JObj [(''status'', JStr ''waived'')]), (''offsiteReceipt'', JObj [(''status'', JStr ''waived'')]),
            (''maxAgeMs'', JInt 0), (''waived'', JBool True)]
      in Inr (JObj (evidence @ [(''fingerprint'', JStr (databaseDeleteEvidenceFingerprint (st_runtime S) (JObj evidence)))]))))"

definition request_new :: "settings \<Rightarrow> jsv \<Rightarrow> string \<Rightarrow> (string \<times> jsv) list \<Rightarrow> (world, response) sx" where
  "request_new S database key ps =
     bindS (liftS (databaseDeleteWaiverEvidence S database)) (\<lambda>waiver.
     bindS (liftS (createDatabaseDeleteOperation (st_runtime S) (st_clock S) (JStr (st_rid S)) database waiver (JStr key)
              (JStr (st_subject S)) JUndef)) (\<lambda>d.
     bindS (writeDatabaseDeleteOperationsState S (put_prop (do_id d) (operation_json d) ps)) (\<lambda>_.
     bindS (record_event ''database.delete.request'' ''accepted'') (\<lambda>_.
     databaseDeleteOperationResponse ''database.delete.requested'' d False))))"

definition planDatabaseDelete :: "settings \<Rightarrow> jsv \<Rightarrow> jsv \<Rightarrow> (world, response) sx" where
  "planDatabaseDelete S ident payload =
     bindS (liftS (findById (st_databases S) ident)) (\<lambda>database.
     bindS (liftS (assertExternalDatabaseOperation S (getp database ''id'') ''delete'')) (\<lambda>_.
     bindS (liftS (databaseDeleteConfirmation database (JStr ''REQUEST'') JUndef)) (\<lambda>confirmation.
     if getp payload ''confirm'' \<noteq> JStr confirmation then
       bindS (record_event ''database.delete.plan'' ''planned'') (\<lambda>_.
       bindS (record_event ''database.delete'' ''planned'') (\<lambda>_. returnS (PlanOnly confirmation)))
     else (let key = js_trim (js_String (js_or (getp payload ''idempotencyKey'') (JStr []))) in
       if key = [] then throwS rejected
       else bindS (readDatabaseDeleteOperationsState S) (\<lambda>ps.
            case find (\<lambda>p. getp (snd p) ''idempotencyKey'' = JStr key) (own_order ps) of
              Some p \<Rightarrow> bindS (liftS (parseDatabaseDeleteOperation (st_runtime S) (st_clock S) (snd p))) (\<lambda>d.
                 if JStr (dt_id (do_database d)) \<noteq> getp database ''id'' then throwS rejected
                 else databaseDeleteOperationResponse ''database.delete.requested'' d True)
            | None \<Rightarrow> request_new S database key ps)))))"

section \<open>Approval\<close>

definition evidence_still_ready :: "settings \<Rightarrow> jsv \<Rightarrow> delete_operation \<Rightarrow> unit res" where
  "evidence_still_ready S database d =
     (if js_truthy (getp (do_evidence d) ''waived'') then Inr ()
      else bindR (findDatabaseDeleteRestorePoint (st_runtime S) (st_disk S) database (st_backupRoot S) (st_reportsRoot S)
               (JInt (st_clock S)) (JInt (st_maxAgeMs S))) (\<lambda>point.
           case point of Blocked _ \<Rightarrow> Inl rejected
           | Ready e \<Rightarrow> requireR (getp e ''fingerprint'' = getp (do_evidence d) ''fingerprint'') rejected))"

definition approveDatabaseDelete :: "settings \<Rightarrow> jsv \<Rightarrow> jsv \<Rightarrow> (world, response) sx" where
  "approveDatabaseDelete S operationId payload =
     bindS (readDatabaseDeleteOperationsState S) (\<lambda>ps.
     bindS (liftS (findDatabaseDeleteOperation S ps operationId)) (\<lambda>d.
     bindS (liftS (assertExternalDatabaseOperation S (JStr (dt_id (do_database d))) ''delete-approve'')) (\<lambda>_.
     bindS (liftS (findById (st_databases S) (JStr (dt_id (do_database d))))) (\<lambda>database.
     bindS (liftS (databaseDeleteConfirmation database (JStr ''APPROVE'') (JStr (do_id d)))) (\<lambda>confirmation.
     if getp payload ''confirm'' \<noteq> JStr confirmation then throwS rejected
     else if do_status d = Approved then databaseDeleteOperationResponse ''database.delete.approved'' d True
     else if do_status d \<notin> {EvidenceVerified, Failed} then throwS rejected
     else bindS (liftS (evidence_still_ready S database d)) (\<lambda>_.
          bindS (liftS (transitionDatabaseDeleteOperation (st_runtime S) (st_clock S) (operation_json d) (JStr ''approved'')
                   (JObj [(''approvedBy'', JStr (st_subject S))]) JUndef)) (\<lambda>a.
          bindS (writeDatabaseDeleteOperationsState S (put_prop (do_id a) (operation_json a) ps)) (\<lambda>_.
          bindS (record_event ''database.delete.approve'' ''approved'') (\<lambda>_.
          databaseDeleteOperationResponse ''database.delete.approved'' a False)))))))))"

section \<open>Execution\<close>

text \<open>The local variables of the handler: \<open>operationState.operations\<close>, \<open>current\<close> and \<open>databaseDropped\<close>.\<close>

record run =
  rn_world :: world
  rn_operations :: "(string \<times> jsv) list"
  rn_current :: delete_operation
  rn_dropped :: bool

definition on_world :: "(world, 'a) sx \<Rightarrow> (run, 'a) sx" where
  "on_world m = (\<lambda>r. case m (rn_world r) of (x, w) \<Rightarrow> (x, r\<lparr>rn_world := w\<rparr>))"

definition advance :: "settings \<Rightarrow> stage \<Rightarrow> jsv \<Rightarrow> (run, unit) sx" where
  "advance S next details = bindS getS (\<lambda>r.
     bindS (liftS (transitionDatabaseDeleteOperation (st_runtime S) (st_clock S) (operation_json (rn_current r))
              (JStr (stage_text next)) details JUndef)) (\<lambda>d.
     modifyS (\<lambda>r. r\<lparr>rn_current := d\<rparr>)))"

definition checkpoint :: "settings \<Rightarrow> (run, unit) sx" where
  "checkpoint S = bindS (modifyS (\<lambda>r. r\<lparr>rn_operations := put_prop (do_id (rn_current r)) (operation_json (rn_current r)) (rn_operations r)\<rparr>)) (\<lambda>_.
     bindS getS (\<lambda>r. on_world (writeDatabaseDeleteOperationsState S (rn_operations r))))"

definition remove_metadata :: "settings \<Rightarrow> jsv \<Rightarrow> (string \<times> jsv) list \<Rightarrow> (string \<times> jsv) list \<Rightarrow> (world, unit) sx" where
  "remove_metadata S database databases bindings =
     (let key = js_String (getp database ''id''); without = (\<lambda>ps. filter (\<lambda>p. fst p \<noteq> key) ps) in
      bindS (writeDatabasesState (without databases)) (\<lambda>_.
      if principalBindingFor (st_runtime S) (JObj bindings) database (now_text S) = None then returnS ()
      else writeDatabasePrincipalsState S (without bindings)))"

definition execute_steps :: "settings \<Rightarrow> jsv \<Rightarrow> (string \<times> jsv) list \<Rightarrow> (string \<times> jsv) list \<Rightarrow> (run, response) sx" where
  "execute_steps S database databases bindings =
     bindS (on_world (applyLiveDatabaseDelete S database (JObj bindings))) (\<lambda>applied.
     bindS (requireS applied rejected) (\<lambda>_.
     bindS (modifyS (\<lambda>r. r\<lparr>rn_dropped := True\<rparr>)) (\<lambda>_.
     bindS (advance S DatabaseDropped (JObj [])) (\<lambda>_.
     bindS (checkpoint S) (\<lambda>_.
     bindS (on_world (applyLiveDatabasePrincipalCleanup S database databases (JObj bindings))) (\<lambda>_.
     bindS (on_world (removeDatabaseCredentialFile S database)) (\<lambda>_.
     bindS (on_world (remove_metadata S database databases bindings)) (\<lambda>_.
     bindS (advance S Completed (JObj [])) (\<lambda>_.
     bindS (checkpoint S) (\<lambda>_.
     bindS (on_world (record_event ''database.delete.complete'' ''success'')) (\<lambda>_.
     bindS getS (\<lambda>r. on_world (databaseDeleteOperationResponse ''database.delete.completed'' (rn_current r) False)))))))))))))"

definition error_message :: "js_error \<Rightarrow> string" where
  "error_message e = (case e of PlainError m \<Rightarrow> m | CodedError c _ \<Rightarrow> c)"

fun collapse_spaces :: "bool \<Rightarrow> string \<Rightarrow> string" where
  "collapse_spaces inrun [] = []"
| "collapse_spaces inrun (c # cs) = (if is_js_space c then (if inrun then collapse_spaces True cs else CHR '' '' # collapse_spaces True cs)
     else c # collapse_spaces False cs)"

definition sanitizeDatabaseClientError :: "string \<Rightarrow> string" where
  "sanitizeDatabaseClientError m = (let t = take 240 (sanitizeMessage (JStr (js_trim (collapse_spaces False m)))) in
     if t = [] then ''comando database fallito'' else t)"

definition record_failure :: "settings \<Rightarrow> js_error \<Rightarrow> (run, unit) sx" where
  "record_failure S e = bindS getS (\<lambda>r.
     bindS (if rn_dropped r \<and> do_status (rn_current r) = Executing then advance S DatabaseDropped (JObj []) else returnS ()) (\<lambda>_.
     bindS (advance S (if rn_dropped r then RollbackRequired else Failed)
              (JObj [(''failure'', JStr (sanitizeDatabaseClientError (error_message e)))])) (\<lambda>_.
     checkpoint S)))"

definition execution_failed :: "settings \<Rightarrow> js_error \<Rightarrow> (run, response) sx" where
  "execution_failed S e =
     bindS (catchS (record_failure S e) (\<lambda>_. returnS ())) (\<lambda>_.
     bindS getS (\<lambda>r.
     bindS (on_world (record_event ''database.delete.failed'' (if rn_dropped r then ''rollback-required'' else ''failed''))) (\<lambda>_.
     throwS rejected)))"

definition executeDatabaseDelete :: "settings \<Rightarrow> jsv \<Rightarrow> jsv \<Rightarrow> (world, response) sx" where
  "executeDatabaseDelete S operationId payload =
     bindS (readDatabaseDeleteOperationsState S) (\<lambda>ps.
     bindS (liftS (findDatabaseDeleteOperation S ps operationId)) (\<lambda>d.
     bindS (liftS (assertExternalDatabaseOperation S (JStr (dt_id (do_database d))) ''delete-execute'')) (\<lambda>_.
     if do_status d = Completed then databaseDeleteOperationResponse ''database.delete.completed'' d True
     else if do_status d \<noteq> Approved then throwS rejected
     else
     bindS (liftS (databaseDeleteConfirmation (target_json (do_database d)) (JStr ''EXECUTE'') (JStr (do_id d)))) (\<lambda>confirmation.
     bindS (requireS (getp payload ''confirm'' = JStr confirmation) rejected) (\<lambda>_.
     bindS (requireS (st_liveApply S) rejected) (\<lambda>_.
     bindS readDatabasesState (\<lambda>databases.
     (let database = own_or_proto databases (dt_id (do_database d)) in
      bindS (requireS (js_truthy database \<and> getp database ''engine'' = JStr (dt_engine (do_database d))
               \<and> getp database ''name'' = JStr (dt_name (do_database d))
               \<and> getp database ''projectId'' = JStr (dt_projectId (do_database d))) rejected) (\<lambda>_.
      bindS (liftS (evidence_still_ready S database d)) (\<lambda>_.
      bindS readDatabasePrincipalsState (\<lambda>bindings.
      bindS (liftS (transitionDatabaseDeleteOperation (st_runtime S) (st_clock S) (operation_json d) (JStr ''executing'') JUndef JUndef)) (\<lambda>e.
      bindS (writeDatabaseDeleteOperationsState S (put_prop (do_id e) (operation_json e) ps)) (\<lambda>_.
      (\<lambda>w. case catchS (execute_steps S database databases bindings) (execution_failed S)
              \<lparr>rn_world = w, rn_operations = put_prop (do_id e) (operation_json e) ps, rn_current = e, rn_dropped = False\<rparr>
            of (x, r) \<Rightarrow> (x, rn_world r)))))))))))))))"

definition deleteDatabaseNow :: "settings \<Rightarrow> jsv \<Rightarrow> jsv \<Rightarrow> (world, response) sx" where
  "deleteDatabaseNow S ident payload =
     bindS (liftS (findById (st_databases S) ident)) (\<lambda>database.
     bindS (liftS (assertExternalDatabaseOperation S (getp database ''id'') ''delete-now'')) (\<lambda>_.
     bindS (requireS (getp payload ''confirm'' = JStr (''DELETE-DATABASE-NOW:'' @ js_String (getp database ''id''))) rejected) (\<lambda>_.
     bindS (liftS (databaseDeleteConfirmation database (JStr ''REQUEST'') JUndef)) (\<lambda>request.
     bindS (planDatabaseDelete S (getp database ''id'') (set_prop ''confirm'' (JStr request) (as_object payload))) (\<lambda>requested.
     case requested of PlanOnly _ \<Rightarrow> throwS (PlainError ''TypeError'')
     | Operation _ d _ \<Rightarrow>
         bindS (liftS (databaseDeleteConfirmation database (JStr ''APPROVE'') (JStr (do_id d)))) (\<lambda>approve.
         bindS (approveDatabaseDelete S (JStr (do_id d)) (JObj [(''confirm'', JStr approve)])) (\<lambda>approved.
         case approved of PlanOnly _ \<Rightarrow> throwS (PlainError ''TypeError'')
         | Operation _ a _ \<Rightarrow>
             bindS (liftS (databaseDeleteConfirmation database (JStr ''EXECUTE'') (JStr (do_id a)))) (\<lambda>execute.
             executeDatabaseDelete S (JStr (do_id d)) (JObj [(''confirm'', JStr execute)])))))))))"

section \<open>A concrete server\<close>

definition managed_database :: jsv where
  "managed_database = JObj [(''id'', JStr ''db1''), (''projectId'', JStr ''shop''), (''engine'', JStr ''postgres''), (''name'', JStr ''orders''),
     (''ownerRole'', JStr ''pi_p_shop_000000000000'')]"

definition managed_binding :: jsv where
  "managed_binding = JObj [(''databaseId'', JStr ''db1''), (''projectId'', JStr ''shop''), (''engine'', JStr ''postgres''),
     (''databaseName'', JStr ''orders''), (''principalName'', JStr ''pi_p_shop_000000000000''), (''status'', JStr ''active'')]"

definition live_catalog :: "statement list \<Rightarrow> jsv" where
  "live_catalog sts = JObj [(''principal'', JObj [(''exists'', JBool True)]),
     (''database'', JObj [(''exists'', JBool (sts = [])), (''owner'', JStr ''pi_p_shop_000000000000'')])]"

definition sample_settings :: settings where
  "sample_settings = \<lparr>st_runtime = zero_runtime, st_clock = 0, st_disk = sample_disk, st_backupRoot = ''/b'', st_reportsRoot = ''/r'',
     st_maxAgeMs = 86400000, st_liveApply = True, st_external = (\<lambda>_ _. None), st_externalIds = [], st_databases = [managed_database],
     st_subject = ''owner'', st_rid = ''op1'', st_inspect = (\<lambda>sts _. Inr (live_catalog sts)),
     st_cwd = ''/app'', st_stateDir = ''/state'', st_credentialDir = ''/state/c''\<rparr>"

definition sample_world :: world where
  "sample_world = \<lparr>wd_operations = None, wd_databases = Some (JObj [(''db1'', managed_database)]),
     wd_principals = Some (JObj [(''version'', JInt 1), (''bindings'', JObj [(''db1'', managed_binding)])]),
     wd_credentials = [''/state/c/db1.txt''], wd_statements = [], wd_log = [], wd_outcomes = []\<rparr>"

definition request_payload :: jsv where
  "request_payload = JObj [(''confirm'', JStr ''REQUEST-DATABASE-DELETE:db1''), (''idempotencyKey'', JStr ''k1'')]"

definition approve_payload :: jsv where
  "approve_payload = JObj [(''confirm'', JStr ''APPROVE-DATABASE-DELETE:op1'')]"

definition execute_payload :: jsv where
  "execute_payload = JObj [(''confirm'', JStr ''EXECUTE-DATABASE-DELETE:op1'')]"

definition sample_stored :: "string \<Rightarrow> jsv \<Rightarrow> jsv" where
  "sample_stored status approval = JObj [(''version'', JInt 1), (''operations'', JObj [(''op1'', JObj [
     (''schema'', JStr DATABASE_DELETE_OPERATION_SCHEMA), (''id'', JStr ''op1''),
     (''database'', JObj [(''id'', JStr ''db1''), (''projectId'', JStr ''shop''), (''engine'', JStr ''postgres''), (''name'', JStr ''orders''),
        (''ownerRole'', JStr ''pi_p_shop_000000000000''), (''principalBindingId'', JStr ''db1''), (''credentialFile'', JStr [])]),
     (''resourceId'', JStr ''database:db1''), (''status'', JStr status), (''idempotencyKey'', JStr ''k1''),
     (''requestedBy'', JStr ''owner''), (''requestedAt'', JStr ''1970-01-01T00:00:00.000Z''),
     (''evidence'', JObj [(''resourceId'', JStr ''database:db1''), (''manifest'', JObj [(''status'', JStr ''waived''), (''databaseId'', JStr ''db1'')]),
        (''restoreReport'', JObj [(''status'', JStr ''waived'')]), (''offsiteReceipt'', JObj [(''status'', JStr ''waived'')]),
        (''maxAgeMs'', JInt 0), (''waived'', JBool True), (''fingerprint'', JStr zeros)]),
     (''evidenceFingerprint'', JStr zeros), (''approval'', approval),
     (''execution'', JObj [(''attempts'', JInt 0), (''startedAt'', JNull), (''databaseDroppedAt'', JNull), (''completedAt'', JNull), (''failure'', JStr [])]),
     (''updatedAt'', JStr ''1970-01-01T00:00:00.000Z'')])]), (''updatedAt'', JStr ''1970-01-01T00:00:00.000Z'')]"

definition requested_world :: world where
  "requested_world = sample_world\<lparr>wd_operations := Some (sample_stored ''evidence-verified'' JNull)\<rparr>"

definition approved_world :: world where
  "approved_world = sample_world\<lparr>wd_operations := Some (sample_stored ''approved''
     (JObj [(''approvedBy'', JStr ''owner''), (''approvedAt'', JStr ''1970-01-01T00:00:00.000Z'')]))\<rparr>"

end
