(* ===== verification/DeleteOnce.thy ===== *)
theory DeleteOnce
  imports DeleteSafety
begin

text \<open>
  The file of delete operations stays filed by operation id whatever handlers run and whatever
  fails, and a database whose drop the client acknowledged is never dropped again under the same
  operation: the checkpoint written before the drop outlives every later failure.
\<close>

section \<open>Filed operations\<close>

definition filed :: "(string \<times> jsv) list \<Rightarrow> bool" where
  "filed ps \<longleftrightarrow> distinct (map fst ps) \<and> (\<forall>(k, v) \<in> set ps. sanitizeIdentifier (JStr k) = k \<and> getp v ''id'' = JStr k)"

lemma runs_to_dash_chars: "c \<in> set (runs_to_dash p s) \<Longrightarrow> slug_char c"
  by (induction p s rule: runs_to_dash.induct) (auto simp: slug_char_def split: if_splits)

lemma strip_dashes_set: "c \<in> set (strip_dashes s) \<Longrightarrow> c \<in> set s"
  unfolding strip_dashes_def by (metis set_dropWhileD set_rev)

lemma slugify_chars: "c \<in> set (slugify v) \<Longrightarrow> slug_char c"
  unfolding slugify_def by (blast dest: strip_dashes_set runs_to_dash_chars)

lemma sanitized_trim:
  assumes "sanitizeIdentifier v = k"
  shows "js_trim k = k"
proof (rule js_trim_no_space)
  have "\<not> is_js_space c" if "slug_char c" for c
    using that by (auto simp: slug_char_def is_lower_alnum_def is_lower_def is_digit_def is_js_space_def code_def)
  then show "list_all (\<lambda>c. \<not> is_js_space c) k"
    using assms slugify_chars in_set_takeD unfolding sanitizeIdentifier_def list_all_iff by metis
qed

lemma parsed_id:
  assumes "parseDatabaseDeleteOperation R clock v = Inr d" and "getp v ''id'' = JStr k" and "js_trim k = k"
  shows "do_id d = k"
proof -
  from assms(1) have "identifier_text (getp v ''id'') ''operation id'' = Inr (do_id d)"
    by (auto simp: parseDatabaseDeleteOperation_def createDatabaseDeleteOperation_def bindR_eq_Inr split: if_splits option.splits)
  then show ?thesis using assms(2,3) by (auto simp: identifier_text_def requiredText_def js_coalesce_def Let_def split: if_splits)
qed

lemma put_fresh: "k \<notin> fst ` set ps \<Longrightarrow> put_prop k v ps = ps @ [(k, v)]"
  by (induction ps) auto

lemma from_entries_distinct: "distinct (map fst es) \<Longrightarrow> from_entries es = es"
proof -
  have "distinct (map fst (ps @ es)) \<Longrightarrow> foldl (\<lambda>ps e. put_prop (fst e) (snd e) ps) ps es = ps @ es" for ps
  proof (induction es arbitrary: ps)
    case (Cons e es)
    then have "put_prop (fst e) (snd e) ps = ps @ [e]" by (intro trans [OF put_fresh]) auto
    then show ?case using Cons.IH [of "ps @ [e]"] Cons.prems by simp
  qed simp
  from this [of "[]"] show "distinct (map fst es) \<Longrightarrow> from_entries es = es" by (simp add: from_entries_def)
qed

lemma list_all2_same_fst: "list_all2 (\<lambda>p e. fst e = fst p) ps es \<Longrightarrow> map fst es = map fst ps"
  by (induction rule: list_all2_induct) auto

lemma list_all2_mem: "list_all2 P xs ys \<Longrightarrow> x \<in> set xs \<Longrightarrow> \<exists>y \<in> set ys. P x y"
  by (induction rule: list_all2_induct) auto

lemma stored_entries:
  assumes "filed ps" and "mapR (stored_entry S) (own_order ps) = Inr es"
  shows "filed (from_entries es)"
    and "map_of ps k = Some v \<Longrightarrow> \<exists>d. parseDatabaseDeleteOperation (st_runtime S) (st_clock S) v = Inr d
       \<and> map_of (from_entries es) k = Some (operation_json d)"
proof -
  from assms(1) have dist: "distinct (map fst ps)" and ids: "\<And>k v. (k, v) \<in> set ps \<Longrightarrow> sanitizeIdentifier (JStr k) = k \<and> getp v ''id'' = JStr k"
    by (auto simp: filed_def)
  have all2: "list_all2 (\<lambda>p e. stored_entry S p = Inr e) (own_order ps) es" using assms(2) by (simp add: mapR_Inr_iff)
  have entry: "fst e = fst p \<and> (\<exists>d. parseDatabaseDeleteOperation (st_runtime S) (st_clock S) (snd p) = Inr d
      \<and> snd e = operation_json d \<and> do_id d = fst p)" if "p \<in> set ps" "stored_entry S p = Inr e" for p e
  proof -
    obtain k' v' where p: "p = (k', v')" by (cases p)
    have s: "sanitizeIdentifier (JStr k') = k'" and i: "getp v' ''id'' = JStr k'" using ids that(1) p by auto
    from that(2) obtain d where "parseDatabaseDeleteOperation (st_runtime S) (st_clock S) v' = Inr d" "e = (k', operation_json d)"
      by (auto simp: stored_entry_def bindR_eq_Inr p s)
    with parsed_id [OF _ i sanitized_trim [OF s]] show ?thesis by (auto simp: p)
  qed
  have mem: "p \<in> set (own_order ps) \<Longrightarrow> p \<in> set ps" for p using own_order_same(1) [OF dist] by simp
  have "map fst es = map fst (own_order ps)"
    using all2 entry mem by (intro list_all2_same_fst list.rel_mono_strong [OF all2]) blast
  then have d_es: "distinct (map fst es)" using own_order_same(2) [OF dist] by simp
  then have fe: "from_entries es = es" by (rule from_entries_distinct)
  have origin: "\<exists>p \<in> set ps. stored_entry S p = Inr e" if "e \<in> set es" for e
    using mapR_Inr_mem [OF assms(2) that] own_order_same(1) [OF dist] by simp
  show "filed (from_entries es)"
    unfolding fe filed_def
  proof (intro conjI ballI)
    fix e assume "e \<in> set es"
    then obtain p where "p \<in> set ps" "stored_entry S p = Inr e" using origin by blast
    then show "case e of (k, v) \<Rightarrow> sanitizeIdentifier (JStr k) = k \<and> getp v ''id'' = JStr k"
      using entry [of p e] ids [of "fst p" "snd p"] by (cases e; cases p) auto
  qed (rule d_es)
  assume "map_of ps k = Some v"
  then have "(k, v) \<in> set (own_order ps)" using own_order_same(1) [OF dist] by (simp add: map_of_SomeD)
  then obtain e where e: "e \<in> set es" "stored_entry S (k, v) = Inr e"
    using list_all2_mem [OF all2] by blast
  then obtain d where "parseDatabaseDeleteOperation (st_runtime S) (st_clock S) v = Inr d" "e = (k, operation_json d)"
    using entry [of "(k, v)" e] mem [OF \<open>(k, v) \<in> set (own_order ps)\<close>] by (metis fst_conv snd_conv prod.collapse)
  with e(1) show "\<exists>d. parseDatabaseDeleteOperation (st_runtime S) (st_clock S) v = Inr d \<and> map_of (from_entries es) k = Some (operation_json d)"
    using d_es fe by (auto intro: map_of_is_SomeI)
qed

lemma filed_put:
  assumes "filed ps" and "sanitizeIdentifier (JStr k) = k" "getp v ''id'' = JStr k"
  shows "filed (put_prop k v ps)"
proof -
  have keys: "distinct (map fst (put_prop k v ps)) \<and> fst ` set (put_prop k v ps) = insert k (fst ` set ps)"
    if "distinct (map fst ps)" for ps :: "(string \<times> jsv) list"
    using that
  proof (induction ps)
    case (Cons p ps)
    then show ?case by (cases p) (auto simp: image_iff)
  qed simp
  have mem: "p \<in> set (put_prop k v ps) \<Longrightarrow> p \<in> set ps \<or> p = (k, v)" for p
    by (induction ps) (auto split: if_splits)
  show ?thesis unfolding filed_def
  proof (intro conjI ballI)
    show "distinct (map fst (put_prop k v ps))" using assms(1) keys by (simp add: filed_def)
    fix p assume "p \<in> set (put_prop k v ps)"
    then show "case p of (k, v) \<Rightarrow> sanitizeIdentifier (JStr k) = k \<and> getp v ''id'' = JStr k"
      using mem [of p] assms by (auto simp: filed_def)
  qed
qed

section \<open>The stored stage of an operation\<close>

definition stored_stage :: "world \<Rightarrow> string \<Rightarrow> stage option" where
  "stored_stage w k = (case wd_operations w of None \<Rightarrow> None
     | Some doc \<Rightarrow> delete_status (getp (getp (getp doc ''operations'') k) ''status''))"

definition filed_world :: "world \<Rightarrow> bool" where
  "filed_world w \<longleftrightarrow> (case wd_operations w of None \<Rightarrow> True
     | Some doc \<Rightarrow> (case getp doc ''operations'' of JObj ps \<Rightarrow> filed ps | _ \<Rightarrow> True))"

lemma read_filed: "filed_world w \<Longrightarrow> readDatabaseDeleteOperationsState S w = (Inr ps, w') \<Longrightarrow> filed ps"
  by (auto simp: filed_world_def readDatabaseDeleteOperationsState_def filed_def split: option.splits jsv.splits if_splits)

lemma parse_status:
  assumes "parseDatabaseDeleteOperation R clock v = Inr d"
  shows "delete_status (getp v ''status'') = Some (do_status d)"
  using assms by (auto simp: parseDatabaseDeleteOperation_def bindR_eq_Inr split: if_splits option.splits)

lemma in_tl: "x \<in> set (tl xs) \<Longrightarrow> x \<in> set xs"
  by (cases xs) auto

lemma write_stores:
  assumes "filed ps" and "writeDatabaseDeleteOperationsState S ps w = (x, w')"
  shows "filed_world w \<Longrightarrow> filed_world w'"
    and "x = Inr () \<Longrightarrow> map_of ps k = Some v \<Longrightarrow> stored_stage w' k = delete_status (getp v ''status'')"
    and "x \<noteq> Inr () \<Longrightarrow> wd_operations w' = wd_operations w"
    and "set (wd_outcomes w') \<subseteq> set (wd_outcomes w)"
proof -
  show "x \<noteq> Inr () \<Longrightarrow> wd_operations w' = wd_operations w"
    using write_error_keeps [of S ps w] assms(2) by (cases x) auto
  show "set (wd_outcomes w') \<subseteq> set (wd_outcomes w)"
    using assms(2) by (auto simp: writeDatabaseDeleteOperationsState_def attempt_def bindS_def liftS_def Let_def
        split: sum.splits if_splits dest: in_tl)
  show "filed_world w \<Longrightarrow> filed_world w'"
    using assms stored_entries(1) [OF assms(1)]
    by (auto simp: writeDatabaseDeleteOperationsState_def attempt_def bindS_def liftS_def Let_def filed_world_def split: sum.splits if_splits)
  assume x: "x = Inr ()" and v: "map_of ps k = Some v"
  from x assms(2) obtain es where es: "mapR (stored_entry S) (own_order ps) = Inr es"
      and w': "wd_operations w' = Some (JObj [(''version'', JInt 1), (''operations'', JObj (from_entries es)), (''updatedAt'', JStr (to_iso (st_clock S)))])"
    by (auto simp: writeDatabaseDeleteOperationsState_def attempt_def bindS_def liftS_def Let_def split: sum.splits if_splits)
  obtain d where d: "parseDatabaseDeleteOperation (st_runtime S) (st_clock S) v = Inr d" "map_of (from_entries es) k = Some (operation_json d)"
    using stored_entries(2) [OF assms(1) es v] by blast
  show "stored_stage w' k = delete_status (getp v ''status'')"
    using parse_status [OF d(1)] d(2) by (simp add: stored_stage_def w' delete_status_def)
qed

lemma found_stage:
  assumes "readDatabaseDeleteOperationsState S w = (Inr ps, w)" and "findDatabaseDeleteOperation S ps i = Inr d" and "filed ps"
  shows "map_of ps (sanitizeIdentifier i) \<noteq> None" and "do_id d = sanitizeIdentifier i"
    and "stored_stage w (sanitizeIdentifier i) = Some (do_status d)" and "sanitizeIdentifier (JStr (do_id d)) = do_id d"
proof -
  let ?k = "sanitizeIdentifier i"
  note p = found_operation_parsed [OF assms(2)]
  show own: "map_of ps ?k \<noteq> None"
    using p by (auto simp: own_or_proto_def parseDatabaseDeleteOperation_def split: option.splits if_splits)
  then obtain v where v: "map_of ps ?k = Some v" "own_or_proto ps ?k = v" by (auto simp: own_or_proto_def)
  have k: "sanitizeIdentifier (JStr ?k) = ?k" "getp v ''id'' = JStr ?k"
    using assms(3) map_of_SomeD [OF v(1)] by (auto simp: filed_def)
  show id: "do_id d = ?k" using parsed_id [OF p [unfolded v(2)] k(2)] sanitized_trim [of i ?k] by simp
  show "sanitizeIdentifier (JStr (do_id d)) = do_id d" using k(1) id by simp
  from assms(1) v(1) obtain doc where "wd_operations w = Some doc" "getp doc ''operations'' = JObj ps"
    by (auto simp: readDatabaseDeleteOperationsState_def split: option.splits jsv.splits if_splits)
  then show "stored_stage w ?k = Some (do_status d)" using parse_status [OF p [unfolded v(2)]] v(1) by (simp add: stored_stage_def)
qed

lemma stage_text_required: "requiredText (JStr (stage_text n)) ''database delete status'' dashed_word 32 = Inr (stage_text n)"
proof -
  have "list_all (\<lambda>n. requiredText (JStr (stage_text n)) ''database delete status'' dashed_word 32 = Inr (stage_text n)) statuses" by code_simp
  then show ?thesis by (cases n) (simp_all add: statuses_def)
qed

lemma transition_to:
  assumes t: "transitionDatabaseDeleteOperation R clock (operation_json d) (JStr (stage_text n)) details now = Inr e" and core: "core_settled R d"
  shows "operation_core e = operation_core d" and "core_settled R e" and "do_status e = n"
proof -
  have parsed: "operation_core p = operation_core d \<and> do_status p = do_status d" if p: "parseDatabaseDeleteOperation R clock (operation_json d) = Inr p" for p
    using parse_stored [OF p] create_stored_again [OF core] by metis
  have e: "operation_core e = operation_core d \<and> do_status e = n"
  proof -
    from t obtain p where p: "parseDatabaseDeleteOperation R clock (operation_json d) = Inr p"
      by (auto simp: transitionDatabaseDeleteOperation_def bindR_eq_Inr)
    show ?thesis
    proof (cases "do_status p = n \<and> n \<in> {Approved, Completed}")
      case True
      with t have "e = p" by (simp add: transitionDatabaseDeleteOperation_def p stage_text_required)
      then show ?thesis using True parsed [OF p] by simp
    next
      case False
      with t obtain ts where "enter_status (js_default details (JObj [])) n ts (p\<lparr>do_status := n, do_updatedAt := ts\<rparr>) = Inr e"
        by (auto simp: transitionDatabaseDeleteOperation_def p stage_text_required bindR_eq_Inr split: if_splits)
      from enter_status_Inr [OF this] show ?thesis using parsed [OF p] by (simp add: operation_core_def)
    qed
  qed
  then show "operation_core e = operation_core d" "do_status e = n" by simp_all
  then show "core_settled R e" using core_settled_core core by blast
qed

section \<open>The stages of a running execution\<close>

abbreviation after_start :: "stage set" where
  "after_start \<equiv> {Executing, DatabaseDropped, Completed, RollbackRequired, Failed}"

text \<open>
  What holds throughout an execution of the operation \<open>k\<close>: the operations stay filed, the current
  and the stored stage are those of a started execution, and neither is \<open>Failed\<close> once the drop
  was acknowledged.
\<close>

definition executing :: "settings \<Rightarrow> string \<Rightarrow> run \<Rightarrow> bool" where
  "executing S k r \<longleftrightarrow> filed (rn_operations r) \<and> filed_world (rn_world r) \<and> sanitizeIdentifier (JStr k) = k
     \<and> do_id (rn_current r) = k \<and> core_settled (st_runtime S) (rn_current r)
     \<and> (\<exists>s \<in> after_start. stored_stage (rn_world r) k = Some s \<and> (rn_dropped r \<longrightarrow> s \<noteq> Failed))
     \<and> do_status (rn_current r) \<in> after_start \<and> (rn_dropped r \<longrightarrow> do_status (rn_current r) \<noteq> Failed)"

lemma executing_on_world:
  assumes "keepsS wd_operations m"
  shows "invS (\<lambda>r. executing S k r \<and> rn_dropped r = b) (on_world m)"
  unfolding invS_def
proof (intro allI impI)
  fix r assume r: "executing S k r \<and> rn_dropped r = b"
  obtain x w where m: "m (rn_world r) = (x, w)" by fastforce
  then have same: "wd_operations w = wd_operations (rn_world r)" using keepsS_D [OF assms] by blast
  then have "stored_stage w k = stored_stage (rn_world r) k" "filed_world w = filed_world (rn_world r)"
    by (simp_all add: stored_stage_def filed_world_def)
  then show "executing S k (snd (on_world m r)) \<and> rn_dropped (snd (on_world m r)) = b"
    using r m by (auto simp: executing_def on_world_def)
qed

lemma executing_advance:
  assumes "n \<in> after_start" and "b \<Longrightarrow> n \<noteq> Failed"
  shows "invS (\<lambda>r. executing S k r \<and> rn_dropped r = b) (advance S n details)"
  unfolding invS_def
proof (intro allI impI)
  fix r assume r: "executing S k r \<and> rn_dropped r = b"
  show "executing S k (snd (advance S n details r)) \<and> rn_dropped (snd (advance S n details r)) = b"
  proof (cases "transitionDatabaseDeleteOperation (st_runtime S) (st_clock S) (operation_json (rn_current r)) (JStr (stage_text n)) details JUndef")
    case (Inl e)
    then show ?thesis using r by (simp add: advance_def sx_defs)
  next
    case (Inr d)
    have "core_settled (st_runtime S) (rn_current r)" using r by (simp add: executing_def)
    note t = transition_to [OF Inr this]
    have "do_id d = do_id (rn_current r)" using t(1) by (simp add: operation_core_def)
    then show ?thesis using Inr r t(2,3) assms by (auto simp: advance_def sx_defs executing_def)
  qed
qed

lemma executing_checkpoint: "invS (\<lambda>r. executing S k r \<and> rn_dropped r = b) (checkpoint S)"
  unfolding invS_def
proof (intro allI impI)
  fix r assume r: "executing S k r \<and> rn_dropped r = b"
  define ps where "ps = put_prop (do_id (rn_current r)) (operation_json (rn_current r)) (rn_operations r)"
  have f: "filed ps" unfolding ps_def using r by (intro filed_put) (auto simp: executing_def)
  obtain x w where wr: "writeDatabaseDeleteOperationsState S ps (rn_world r) = (x, w)" by fastforce
  note st = write_stores [OF f wr]
  have run: "snd (checkpoint S r) = r\<lparr>rn_operations := ps, rn_world := w\<rparr>"
    using wr by (simp add: checkpoint_def sx_defs on_world_def ps_def)
  have stage: "\<exists>s \<in> after_start. stored_stage w k = Some s \<and> (rn_dropped r \<longrightarrow> s \<noteq> Failed)"
  proof (cases "x = Inr ()")
    case True
    then have "stored_stage w k = Some (do_status (rn_current r))"
      using st(2) [OF True, of k "operation_json (rn_current r)"] r by (simp add: ps_def executing_def delete_status_def)
    then show ?thesis using r by (auto simp: executing_def)
  next
    case False
    then have "stored_stage w k = stored_stage (rn_world r) k" using st(3) by (simp add: stored_stage_def)
    then show ?thesis using r by (auto simp: executing_def)
  qed
  show "executing S k (snd (checkpoint S r)) \<and> rn_dropped (snd (checkpoint S r)) = b"
    unfolding run using r f st(1) stage by (simp add: executing_def)
qed

lemma operations_kept:
  "keepsS wd_operations (record_event a b)"
  "keepsS wd_operations (databaseDeleteOperationResponse kind d i)"
  "keepsS wd_operations (remove_files S cs)"
  "keepsS wd_operations (removeDatabaseCredentialFile S database)"
  "keepsS wd_operations (remove_metadata S database databases bindings)"
  "keepsS wd_operations (applyLiveDatabasePrincipalCleanup S database databases registry)"
proof -
  show rec: "keepsS wd_operations (record_event a b)" for a b
    unfolding record_event_def by (rule keepsS_attempt) simp_all
  show "keepsS wd_operations (databaseDeleteOperationResponse kind d i)"
    unfolding databaseDeleteOperationResponse_def by (intro keepsS_bind rec keepsS_basic)
  show files: "keepsS wd_operations (remove_files S cs)" for cs
  proof (induction cs)
    case (Cons c cs)
    show ?case unfolding remove_files.simps Let_def
      by (intro keepsS_bind keepsS_if keepsS_basic keepsS_attempt Cons.IH) simp_all
  qed (simp add: keepsS_basic)
  show "keepsS wd_operations (removeDatabaseCredentialFile S database)"
    unfolding removeDatabaseCredentialFile_def by (intro keepsS_bind keepsS_basic files)
  show "keepsS wd_operations (remove_metadata S database databases bindings)"
    unfolding remove_metadata_def Let_def writeDatabasesState_def writeDatabasePrincipalsState_def
    by (intro keepsS_bind keepsS_if keepsS_basic keepsS_attempt) simp_all
  have "keepsS wd_operations (inspect S database)" by (simp add: keepsS_def inspect_def)
  moreover have "keepsS wd_operations (run_statement q)" for q
    by (simp add: keepsS_def run_statement_def Let_def split: outcome.splits)
  ultimately show "keepsS wd_operations (applyLiveDatabasePrincipalCleanup S database databases registry)"
    unfolding applyLiveDatabasePrincipalCleanup_def by (intro keepsS_bind keepsS_if keepsS_basic)
qed

lemma executing_failed: "invS (\<lambda>r. executing S k r \<and> rn_dropped r = b) (execution_failed S e)"
proof -
  have "invS (\<lambda>r. executing S k r \<and> rn_dropped r = b) (record_failure S e)"
    unfolding record_failure_def
  proof (rule invS_get, intro invS_bind executing_checkpoint)
    fix r assume r: "executing S k r \<and> rn_dropped r = b"
    show "invS (\<lambda>r. executing S k r \<and> rn_dropped r = b)
        (if rn_dropped r \<and> do_status (rn_current r) = Executing then advance S DatabaseDropped (JObj []) else returnS ())"
      by (cases "rn_dropped r \<and> do_status (rn_current r) = Executing") (auto intro: executing_advance invS_basic)
    show "invS (\<lambda>r. executing S k r \<and> rn_dropped r = b) (advance S (if rn_dropped r then RollbackRequired else Failed) details)" for details
      using r by (intro executing_advance) auto
  qed
  then show ?thesis unfolding execution_failed_def
    by (intro invS_bind invS_catch invS_basic executing_on_world operations_kept)
qed

lemma executing_after_drop: "invS (\<lambda>r. executing S k r \<and> rn_dropped r = True) (after_drop S database databases bindings)"
  unfolding after_drop_def
  by (intro invS_bind executing_advance executing_checkpoint executing_on_world operations_kept invS_basic) auto

lemma execution_outcome:
  assumes run: "catchS (execute_steps S database databases bindings) (execution_failed S) r0 = (x, r')"
    and start: "executing S k r0" "\<not> rn_dropped r0" "do_status (rn_current r0) = Executing" "stored_stage (rn_world r0) k = Some Executing"
  shows "executing S k r' \<and> (rn_dropped r' \<or> drops (rn_world r') = drops (rn_world r0) \<or> FailsAfterEffect \<in> set (wd_outcomes (rn_world r0)))"
proof -
  obtain y w1 where live: "applyLiveDatabaseDelete S database (JObj bindings) (rn_world r0) = (y, w1)" by fastforce
  define r1 where "r1 = r0\<lparr>rn_world := w1\<rparr>"
  have same: "wd_operations w1 = wd_operations (rn_world r0)" using live_delete [OF live] by blast
  then have "stored_stage w1 k = Some Executing" "filed_world w1 = filed_world (rn_world r0)"
    using start(4) by (simp_all add: stored_stage_def filed_world_def)
  then have r1: "executing S k r1 \<and> rn_dropped r1 = False" "executing S k (r1\<lparr>rn_dropped := True\<rparr>) \<and> rn_dropped (r1\<lparr>rn_dropped := True\<rparr>) = True"
    using start by (auto simp: executing_def r1_def)
  show ?thesis
  proof (cases "y = Inr True")
    case False
    then obtain e where steps: "execute_steps S database databases bindings r0 = (Inl e, r1)"
      using live by (cases y) (auto simp: execute_steps_def bindS_def on_world_def requireS_def throwS_def r1_def)
    then have h: "execution_failed S e r1 = (x, r')" using run by (simp add: catchS_def)
    have "drops (rn_world r') = drops w1" using keepsS_D [OF run_drops_keep [OF statements_failed] h] by (simp add: r1_def)
    then show ?thesis using invS_D [OF executing_failed r1(1) h] live_delete [OF live] False by auto
  next
    case True
    obtain z r2 where z: "after_drop S database databases bindings (r1\<lparr>rn_dropped := True\<rparr>) = (z, r2)" by fastforce
    then have steps: "execute_steps S database databases bindings r0 = (z, r2)"
      using live True by (simp add: execute_steps_def after_drop_def bindS_def on_world_def requireS_def returnS_def modifyS_def r1_def)
    have r2: "executing S k r2 \<and> rn_dropped r2 = True" using invS_D [OF executing_after_drop r1(2) z] .
    show ?thesis
    proof (cases z)
      case (Inl e)
      then have "execution_failed S e r2 = (x, r')" using run steps by (simp add: catchS_def)
      then show ?thesis using invS_D [OF executing_failed r2] by blast
    next
      case (Inr v)
      then show ?thesis using run steps r2 by (simp add: catchS_def)
    qed
  qed
qed

section \<open>Every handler keeps the operations filed\<close>

lemma filed_read:
  assumes "\<And>ps. filed ps \<Longrightarrow> invS filed_world (f ps)"
  shows "invS filed_world (bindS (readDatabaseDeleteOperationsState S) f)"
  unfolding invS_def
proof (intro allI impI)
  fix w assume w: "filed_world w"
  obtain x w1 where x: "readDatabaseDeleteOperationsState S w = (x, w1)" by fastforce
  then have "w1 = w" by (rule read_operations_keeps)
  then show "filed_world (snd (bindS (readDatabaseDeleteOperationsState S) f w))"
    using w x assms read_filed [OF w] by (cases x) (auto simp: bindS_def invS_def)
qed

lemma filed_lift:
  assumes "\<And>x. r = Inr x \<Longrightarrow> invS I (f x)"
  shows "invS I (bindS (liftS r) f)"
  using assms by (cases r) (simp_all add: invS_def bindS_def liftS_def)

lemma filed_keep: "keepsS wd_operations m \<Longrightarrow> invS filed_world m"
  by (rule keepsS_inv [of wd_operations]) (simp_all add: filed_world_def)

lemma filed_write: "filed ps \<Longrightarrow> invS filed_world (writeDatabaseDeleteOperationsState S ps)"
  using write_stores(1) by (auto simp: invS_def) (metis prod.collapse)

lemma filed_if: "(b \<Longrightarrow> invS I m) \<Longrightarrow> (\<not> b \<Longrightarrow> invS I n) \<Longrightarrow> invS I (if b then m else n)"
  by simp

definition rid_ok :: "settings \<Rightarrow> bool" where
  "rid_ok S \<longleftrightarrow> sanitizeIdentifier (JStr (st_rid S)) = st_rid S"

lemma plan_filed:
  assumes "rid_ok S"
  shows "invS filed_world (planDatabaseDelete S ident payload)"
proof -
  have new: "invS filed_world (request_new S database key ps)" if ps: "filed ps" for database key ps
    unfolding request_new_def
  proof (rule filed_lift, rule filed_lift)
    fix waiver d
    assume d: "createDatabaseDeleteOperation (st_runtime S) (st_clock S) (JStr (st_rid S)) database waiver (JStr key) (JStr (st_subject S)) JUndef = Inr d"
    have "do_id d = st_rid S"
      using d sanitized_trim [OF assms [unfolded rid_ok_def]]
      by (auto simp: createDatabaseDeleteOperation_def bindR_eq_Inr identifier_text_def requiredText_def js_coalesce_def Let_def split: if_splits)
    then have "filed (put_prop (do_id d) (operation_json d) ps)" using assms by (intro filed_put [OF ps]) (simp_all add: rid_ok_def)
    then show "invS filed_world (bindS (writeDatabaseDeleteOperationsState S (put_prop (do_id d) (operation_json d) ps)) (\<lambda>_.
        bindS (record_event ''database.delete.request'' ''accepted'') (\<lambda>_. databaseDeleteOperationResponse ''database.delete.requested'' d False)))"
      by (intro invS_bind filed_write filed_keep operations_kept)
  qed
  show ?thesis unfolding planDatabaseDelete_def Let_def
    by (intro filed_lift filed_if filed_read)
      (auto split: option.split intro!: new invS_bind invS_basic filed_if filed_keep [OF operations_kept(1)] filed_keep [OF operations_kept(2)])
qed

lemma approve_filed: "invS filed_world (approveDatabaseDelete S operationId payload)"
  unfolding approveDatabaseDelete_def
proof (rule filed_read, rule filed_lift)
  fix ps d
  assume ps: "filed ps" and d: "findDatabaseDeleteOperation S ps operationId = Inr d"
  let ?k = "sanitizeIdentifier operationId"
  note p = found_operation_parsed [OF d]
  have own: "map_of ps ?k \<noteq> None"
    using p by (auto simp: own_or_proto_def parseDatabaseDeleteOperation_def split: option.splits if_splits)
  then obtain v where v: "map_of ps ?k = Some v" "own_or_proto ps ?k = v" by (auto simp: own_or_proto_def)
  have k: "sanitizeIdentifier (JStr ?k) = ?k" "getp v ''id'' = JStr ?k"
    using ps map_of_SomeD [OF v(1)] by (auto simp: filed_def)
  have id: "do_id d = ?k" using parsed_id [OF p [unfolded v(2)] k(2)] sanitized_trim [of operationId ?k] by simp
  have put: "filed (put_prop (do_id a) (operation_json a) ps)"
    if "transitionDatabaseDeleteOperation (st_runtime S) (st_clock S) (operation_json d) (JStr ''approved'') x JUndef = Inr a" for a x
  proof -
    have "transitionDatabaseDeleteOperation (st_runtime S) (st_clock S) (operation_json d) (JStr (stage_text Approved)) x JUndef = Inr a"
      using that by simp
    from transition_to(1) [OF this parsed_target(3) [OF p]] have "do_id a = ?k" by (simp add: operation_core_def id)
    then show ?thesis using k(1) by (intro filed_put [OF ps]) simp_all
  qed
  show "invS filed_world (bindS (liftS (assertExternalDatabaseOperation S (JStr (dt_id (do_database d))) ''delete-approve'')) (\<lambda>_.
     bindS (liftS (findById (st_databases S) (JStr (dt_id (do_database d))))) (\<lambda>database.
     bindS (liftS (databaseDeleteConfirmation database (JStr ''APPROVE'') (JStr (do_id d)))) (\<lambda>confirmation.
     if getp payload ''confirm'' \<noteq> JStr confirmation then throwS rejected
     else if do_status d = Approved then databaseDeleteOperationResponse ''database.delete.approved'' d True
     else if do_status d \<notin> {EvidenceVerified, Failed} then throwS rejected
     else bindS (liftS (evidence_still_ready S database d)) (\<lambda>_.
          bindS (liftS (transitionDatabaseDeleteOperation (st_runtime S) (st_clock S) (operation_json d) (JStr ''approved'')
                   (JObj [(''approvedBy'', JStr (st_subject S))]) JUndef)) (\<lambda>a.
          bindS (writeDatabaseDeleteOperationsState S (put_prop (do_id a) (operation_json a) ps)) (\<lambda>_.
          bindS (record_event ''database.delete.approve'' ''approved'') (\<lambda>_.
          databaseDeleteOperationResponse ''database.delete.approved'' a False))))))))"
    by (intro filed_lift filed_if invS_basic filed_keep operations_kept invS_bind filed_write put)
qed

lemma execution_begins:
  assumes "execution_starts S operationId payload w ps d database databases bindings e w1" and "filed_world w"
  shows "executing S (sanitizeIdentifier operationId) (start_run w1 ps e)" and "do_status e = Executing"
    and "stored_stage w1 (sanitizeIdentifier operationId) = Some Executing" and "set (wd_outcomes w1) \<subseteq> set (wd_outcomes w)"
    and "drops w1 = drops w"
proof -
  let ?k = "sanitizeIdentifier operationId"
  note st = assms(1) [unfolded execution_starts_def]
  have rd: "readDatabaseDeleteOperationsState S w = (Inr ps, w)" and d: "findDatabaseDeleteOperation S ps operationId = Inr d"
    and t: "transitionDatabaseDeleteOperation (st_runtime S) (st_clock S) (operation_json d) (JStr (stage_text Executing)) JUndef JUndef = Inr e"
    and wr: "writeDatabaseDeleteOperationsState S (put_prop (do_id e) (operation_json e) ps) w = (Inr (), w1)"
    using st by simp_all
  have ps: "filed ps" using read_filed [OF assms(2) rd] .
  note f = found_stage [OF rd d ps]
  note tr = transition_to [OF t parsed_target(3) [OF found_operation_parsed [OF d]]]
  have id: "do_id e = ?k" "sanitizeIdentifier (JStr ?k) = ?k" using tr(1) f(2,4) by (simp_all add: operation_core_def)
  have put: "filed (put_prop (do_id e) (operation_json e) ps)" using id by (intro filed_put [OF ps]) simp_all
  note ws = write_stores [OF put wr]
  show ex: "do_status e = Executing" by (rule tr(3))
  show stage: "stored_stage w1 ?k = Some Executing"
    using ws(2) [OF refl, of ?k "operation_json e"] id(1) ex stage_of_text [of Executing] by (simp add: delete_status_def)
  show "set (wd_outcomes w1) \<subseteq> set (wd_outcomes w)" by (rule ws(4))
  show "drops w1 = drops w" using keepsS_D [OF drops_keep [OF statements_write] wr] .
  show "executing S ?k (start_run w1 ps e)"
    using id put ws(1) [OF assms(2)] tr(2,3) stage by (simp add: executing_def start_run_def)
qed

lemma execute_filed: "invS filed_world (executeDatabaseDelete S operationId payload)"
  unfolding invS_def
proof (intro allI impI)
  fix w assume w: "filed_world w"
  obtain x w' where run: "executeDatabaseDelete S operationId payload w = (x, w')" by fastforce
  then have "filed_world w'"
  proof (cases rule: execute_cases)
    case 1
    then show ?thesis using w by (simp add: filed_world_def)
  next
    case (2 ps d database databases bindings e w1 r)
    note b = execution_begins [OF 2(1) w]
    have "executing S (sanitizeIdentifier operationId) r"
      using execution_outcome [OF 2(2) b(1)] b(2,3) by (simp add: start_run_def)
    then show ?thesis using 2(3) by (simp add: executing_def)
  qed
  then show "filed_world (snd (executeDatabaseDelete S operationId payload w))" by (simp add: run)
qed

lemma delete_now_filed: "rid_ok S \<Longrightarrow> invS filed_world (deleteDatabaseNow S ident payload)"
  unfolding deleteDatabaseNow_def
  by (intro invS_bind invS_basic plan_filed)
    (auto split: response.split intro!: invS_bind invS_basic approve_filed execute_filed)

text \<open>The steps of the server on its delete operations; the rest of the state may change in between.\<close>

inductive handler_step :: "world \<Rightarrow> world \<Rightarrow> bool" where
  request: "rid_ok S \<Longrightarrow> planDatabaseDelete S ident payload w = (x, w') \<Longrightarrow> handler_step w w'"
| approve: "approveDatabaseDelete S operationId payload w = (x, w') \<Longrightarrow> handler_step w w'"
| execute: "executeDatabaseDelete S operationId payload w = (x, w') \<Longrightarrow> handler_step w w'"
| delete_now: "rid_ok S \<Longrightarrow> deleteDatabaseNow S ident payload w = (x, w') \<Longrightarrow> handler_step w w'"
| other: "wd_operations w' = wd_operations w \<Longrightarrow> handler_step w w'"

abbreviation no_operations :: "world \<Rightarrow> bool" where
  "no_operations w \<equiv> wd_operations w = None"

interpretation handlers: step_system no_operations handler_step filed_world
proof
  fix w w'
  assume "filed_world w" and "handler_step w w'"
  from this(2,1) show "filed_world w'"
  proof cases
    case other
    then show "filed_world w \<Longrightarrow> filed_world w'" by (simp add: filed_world_def)
  qed (blast intro: invS_D plan_filed approve_filed execute_filed delete_now_filed)+
qed (simp add: filed_world_def)

section \<open>No second drop\<close>

lemma approve_refused:
  assumes "approveDatabaseDelete S operationId payload v = (y, v')" and "filed_world v"
    and "stored_stage v (sanitizeIdentifier operationId) = Some s" "s \<notin> {EvidenceVerified, Failed}"
  shows "wd_operations v' = wd_operations v"
proof -
  obtain a v1 where rd: "readDatabaseDeleteOperationsState S v = (a, v1)" by fastforce
  then have v1: "v1 = v" by (rule read_operations_keeps)
  show ?thesis
  proof (cases a)
    case (Inl e)
    then show ?thesis using assms(1) rd v1 by (simp add: approveDatabaseDelete_def bindS_def)
  next
    case (Inr ps)
    note rd = rd [unfolded Inr v1]
    show ?thesis
    proof (cases "findDatabaseDeleteOperation S ps operationId")
      case (Inl e)
      then show ?thesis using assms(1) rd by (simp add: approveDatabaseDelete_def bindS_def liftS_def)
    next
      case (Inr d)
      have "do_status d = s" using found_stage(3) [OF rd Inr read_filed [OF assms(2) rd]] assms(3) by simp
      then show ?thesis using assms(1,4) rd Inr keepsS_D [OF operations_kept(2)]
        by (auto simp: approveDatabaseDelete_def bindS_def liftS_def throwS_def split: prod.splits sum.splits if_splits)
    qed
  qed
qed

lemma execute_refused:
  assumes "executeDatabaseDelete S operationId payload v = (y, v')" and "filed_world v"
    and "stored_stage v (sanitizeIdentifier operationId) = Some s" "s \<noteq> Approved"
  shows "drops v' = drops v"
  using assms(1)
proof (cases rule: execute_cases)
  case (2 ps d database databases bindings e w1 r)
  from 2(1) have rd: "readDatabaseDeleteOperationsState S v = (Inr ps, v)" "findDatabaseDeleteOperation S ps operationId = Inr d" "do_status d = Approved"
    unfolding execution_starts_def by blast+
  then show ?thesis using found_stage(3) [OF rd(1,2) read_filed [OF assms(2) rd(1)]] assms(3,4) by simp
qed simp


lemma approved_world_reachable: "reachable no_operations handler_step approved_world"
proof -
  have 1: "wd_operations (snd (planDatabaseDelete sample_settings (JStr ''db1'') request_payload sample_world)) = wd_operations requested_world"
    by code_simp
  have 2: "wd_operations (snd (approveDatabaseDelete sample_settings (JStr ''op1'') approve_payload requested_world)) = wd_operations approved_world"
    by code_simp
  have rid: "rid_ok sample_settings" by code_simp
  have "reachable no_operations handler_step (snd (planDatabaseDelete sample_settings (JStr ''db1'') request_payload sample_world))"
  proof (rule reachable.more [OF reachable.start])
    show "no_operations sample_world" by (simp add: sample_world_def)
    show "handler_step sample_world (snd (planDatabaseDelete sample_settings (JStr ''db1'') request_payload sample_world))"
      by (rule handler_step.request [OF rid prod.collapse [symmetric]])
  qed
  then have "reachable no_operations handler_step requested_world"
    by (rule reachable.more) (rule handler_step.other, rule 1 [symmetric])
  then have "reachable no_operations handler_step (snd (approveDatabaseDelete sample_settings (JStr ''op1'') approve_payload requested_world))"
    by (rule reachable.more) (rule handler_step.approve, rule prod.collapse [symmetric])
  then show ?thesis by (rule reachable.more) (rule handler_step.other, rule 2 [symmetric])
qed


section \<open>Requested deletions carry no evidence\<close>

lemma waiver_waived: "databaseDeleteWaiverEvidence S database = Inr e \<Longrightarrow> getp e ''waived'' = JBool True"
  by (auto simp: databaseDeleteWaiverEvidence_def bindR_eq_Inr Let_def)

lemma request_new_created:
  assumes "request_new S database key ps w = (Inr res, w')"
  obtains d where "res = Operation ''database.delete.requested'' (public_operation d) False" "getp (do_evidence d) ''waived'' = JBool True"
    "\<exists>clock i input ev k who now. createDatabaseDeleteOperation (st_runtime S) clock i input ev k who now = Inr d"
proof -
  from assms obtain e d where e: "databaseDeleteWaiverEvidence S database = Inr e"
      and d: "createDatabaseDeleteOperation (st_runtime S) (st_clock S) (JStr (st_rid S)) database e (JStr key) (JStr (st_subject S)) JUndef = Inr d"
      and r: "res = Operation ''database.delete.requested'' (public_operation d) False"
    by (auto simp: request_new_def databaseDeleteOperationResponse_def bindS_def liftS_def returnS_def split: prod.splits sum.splits)
  from d have "do_evidence d = e" by (auto simp: createDatabaseDeleteOperation_def bindR_eq_Inr)
  with waiver_waived [OF e] r d show ?thesis using that by blast
qed

text \<open>
  C31. A deletion the portal newly accepts is created with a waiver in place of evidence, and in every
  state its stored operation can reach, the evidence check of approval and execution passes
  whatever the backup files are: no manifest, restore drill or off-site receipt is ever looked at.
\<close>

theorem requested_deletion_waives_evidence:
  assumes "planDatabaseDelete S ident payload w = (Inr (Operation kind shown False), w')"
  shows "\<exists>d0. shown = public_operation d0 \<and> getp (do_evidence d0) ''waived'' = JBool True
    \<and> deletion_init (st_runtime S) d0 (operation_json d0)
    \<and> (\<forall>j. reachable (deletion_init (st_runtime S) d0) (deletion_step (st_runtime S)) j \<longrightarrow>
          (\<exists>d. j = operation_json d \<and> (\<forall>S' database. evidence_still_ready S' database d = Inr ())))"
proof -
  from assms obtain database key ps w1 where "request_new S database key ps w1 = (Inr (Operation kind shown False), w')"
    by (auto simp: planDatabaseDelete_def databaseDeleteOperationResponse_def bindS_def liftS_def returnS_def throwS_def Let_def
        split: prod.splits sum.splits if_splits option.splits)
  then obtain d0 where d0: "shown = public_operation d0" "getp (do_evidence d0) ''waived'' = JBool True"
      "\<exists>clock i input ev k who now. createDatabaseDeleteOperation (st_runtime S) clock i input ev k who now = Inr d0"
    by (rule request_new_created) auto
  have later: "\<exists>d. j = operation_json d \<and> (\<forall>S' database. evidence_still_ready S' database d = Inr ())"
    if j: "reachable (deletion_init (st_runtime S) d0) (deletion_step (st_runtime S)) j" for j
  proof -
    obtain d where d: "j = operation_json d" "operation_core d = operation_core d0"
      using reachable_deletion [OF j] by metis
    then have "do_evidence d = do_evidence d0" by (simp add: operation_core_def)
    then show ?thesis using d(1) d0(2) by (auto simp: evidence_still_ready_def)
  qed
  from d0(3) have "deletion_init (st_runtime S) d0 (operation_json d0)" unfolding deletion_init_def by blast
  with d0 later show ?thesis by blast
qed

theorem requested_deletion_waives_evidence_witness:
  "\<exists>kind shown w' d0. planDatabaseDelete sample_settings (JStr ''db1'') request_payload sample_world = (Inr (Operation kind shown False), w')
     \<and> shown = public_operation d0 \<and> getp (do_evidence d0) ''waived'' = JBool True"
proof -
  have "case fst (planDatabaseDelete sample_settings (JStr ''db1'') request_payload sample_world) of
      Inr (Operation _ _ b) \<Rightarrow> \<not> b | _ \<Rightarrow> False" by code_simp
  then obtain kind shown w' where run: "planDatabaseDelete sample_settings (JStr ''db1'') request_payload sample_world = (Inr (Operation kind shown False), w')"
    by (cases "planDatabaseDelete sample_settings (JStr ''db1'') request_payload sample_world") (auto split: sum.splits response.splits)
  from requested_deletion_waives_evidence [OF run] run show ?thesis by blast
qed

end
