(* ===== verification/RedisDocuments.thy ===== *)
theory RedisDocuments
  imports JsValue
begin

text \<open>
  The backup documents of \<open>src/control-center/redis/operations.mjs\<close>: the Base64 text that carries
  keys and dumps, and the validator every document passes when it is captured and before it is
  restored. A buffer is a \<open>string\<close> of bytes; a \<open>RedisOperationsError\<close> is a \<open>CodedError\<close> with its
  code (it has no HTTP status: 0).
\<close>

section \<open>Base64\<close>

text \<open>\<open>buffer.toString("base64")\<close>.\<close>

definition b64_alphabet :: string where
  "b64_alphabet = ''ABCDEFGHIJKLMNOPQRSTUVWXYZabcdefghijklmnopqrstuvwxyz0123456789+/''"

definition b64_digit :: "nat \<Rightarrow> char" where
  "b64_digit n = b64_alphabet ! n"

fun b64_encode :: "string \<Rightarrow> string" where
  "b64_encode [] = []"
| "b64_encode [a] = [b64_digit (code a div 4), b64_digit (code a mod 4 * 16), CHR ''='', CHR ''='']"
| "b64_encode [a, b] = [b64_digit (code a div 4), b64_digit (code a mod 4 * 16 + code b div 16),
     b64_digit (code b mod 16 * 4), CHR ''='']"
| "b64_encode (a # b # c # rest) = b64_digit (code a div 4) # b64_digit (code a mod 4 * 16 + code b div 16)
     # b64_digit (code b mod 16 * 4 + code c div 64) # b64_digit (code c mod 64) # b64_encode rest"

text \<open>
  \<open>Buffer.from(text, "base64")\<close>: both alphabets are read, any other character is passed over, and
  the bits of an incomplete last byte are dropped.
\<close>

definition b64_value :: "char \<Rightarrow> nat option" where
  "b64_value c = (if is_upper c then Some (code c - 65) else if is_lower c then Some (code c - 71)
     else if is_digit c then Some (code c + 4) else if c \<in> {CHR ''+'', CHR ''-''} then Some 62
     else if c \<in> {CHR ''/'', CHR ''_''} then Some 63 else None)"

fun b64_bytes :: "nat list \<Rightarrow> string" where
  "b64_bytes (w # x # y # z # rest) = char_of (w * 4 + x div 16) # char_of (x mod 16 * 16 + y div 4)
     # char_of (y mod 4 * 64 + z) # b64_bytes rest"
| "b64_bytes [w, x, y] = [char_of (w * 4 + x div 16), char_of (x mod 16 * 16 + y div 4)]"
| "b64_bytes [w, x] = [char_of (w * 4 + x div 16)]"
| "b64_bytes _ = []"

definition b64_decode :: "string \<Rightarrow> string" where
  "b64_decode text = b64_bytes (List.map_filter b64_value text)"

lemma b64_value_digit: "n < 64 \<Longrightarrow> b64_value (b64_digit n) = Some n"
proof -
  assume "n < 64"
  moreover have "list_all (\<lambda>n. b64_value (b64_digit n) = Some n) [0..<64]" by code_simp
  ultimately show ?thesis by (auto simp: list_all_iff)
qed

lemma code_less: "code c < 256"
  by (simp add: code_def)

lemma code_div_less [simp]: "code c div 4 < 64" "code c div 16 < 16" "code c div 64 < 4"
  using code_less [of c] by (simp_all add: less_mult_imp_div_less)

lemma code_parts [simp]:
  "code c mod 4 * 16 < 64" "code c mod 4 * 16 + code d div 16 < 64" "code c mod 16 * 4 < 64"
  "code c mod 16 * 4 + code d div 64 < 64" "code c mod 64 < 64"
  using code_div_less [of d] mod_less_divisor [of 4 "code c"] mod_less_divisor [of 16 "code c"] by linarith+

lemma char_of_code [simp]: "char_of (code c) = c"
  by (simp add: code_def)

lemma join_bits: "h < n \<Longrightarrow> (q * n + h) div n = q" "h < n \<Longrightarrow> (q * n + h) mod n = h" for h n q :: nat
  by simp_all

lemma six_bits_join:
  "code a div 4 * 4 + (code a mod 4 * 16 + code b div 16) div 16 = code a"
  "code a div 4 * 4 + code a mod 4 * 16 div 16 = code a"
  "(code a mod 4 * 16 + code b div 16) mod 16 * 16 + (code b mod 16 * 4 + code c div 64) div 4 = code b"
  "(code a mod 4 * 16 + code b div 16) mod 16 * 16 + code b mod 16 * 4 div 4 = code b"
  "(code b mod 16 * 4 + code c div 64) mod 4 * 64 + code c mod 64 = code c"
  by (simp_all only: join_bits code_div_less div_mult_mod_eq) simp_all

lemma b64_value_parts:
  "b64_value (b64_digit (code a div 4)) = Some (code a div 4)"
  "b64_value (b64_digit (code a mod 4 * 16)) = Some (code a mod 4 * 16)"
  "b64_value (b64_digit (code a mod 4 * 16 + code b div 16)) = Some (code a mod 4 * 16 + code b div 16)"
  "b64_value (b64_digit (code a mod 16 * 4)) = Some (code a mod 16 * 4)"
  "b64_value (b64_digit (code a mod 16 * 4 + code b div 64)) = Some (code a mod 16 * 4 + code b div 64)"
  "b64_value (b64_digit (code a mod 64)) = Some (code a mod 64)"
  "b64_value CHR ''='' = None"
  by (rule b64_value_digit, simp)+ code_simp

theorem b64_round_trip: "b64_decode (b64_encode bytes) = bytes"
  by (induction bytes rule: b64_encode.induct) (simp_all add: b64_decode_def b64_value_parts six_bits_join)

lemma length_b64_encode: "length (b64_encode bytes) = 4 * ((length bytes + 2) div 3)"
proof (induction bytes rule: b64_encode.induct)
  case (4 a b c rest)
  have "(length rest + 3 + 2) div 3 = (length rest + 2) div 3 + 1" by presburger
  with 4 show ?case by (simp add: algebra_simps)
qed simp_all

lemma length_b64_bytes: "length (b64_bytes vs) = 3 * length vs div 4"
  by (induction vs rule: b64_bytes.induct) auto

lemma bytes_of_quads: "n \<le> 4 * q \<Longrightarrow> 4 * ((3 * n div 4 + 2) div 3) \<le> 4 * q" for n q :: nat
proof -
  assume "n \<le> 4 * q"
  then have "3 * n div 4 \<le> 3 * q * 4 div 4" by (intro div_le_mono) simp
  then have "(3 * n div 4 + 2) div 3 \<le> (q * 3 + 2) div 3" by (intro div_le_mono) simp
  then show ?thesis by simp
qed

lemma b64_decode_size: "4 dvd length text \<Longrightarrow> length (b64_encode (b64_decode text)) \<le> length text"
proof -
  assume "4 dvd length text"
  then obtain q where q: "length text = 4 * q" ..
  have "length (List.map_filter b64_value text) \<le> 4 * q"
    unfolding List.map_filter_def using q by (metis length_filter_le length_map)
  then show ?thesis unfolding length_b64_encode b64_decode_def length_b64_bytes q by (rule bytes_of_quads)
qed

section \<open>Documents\<close>

definition REDIS_BACKUP_SCHEMA :: string where
  "REDIS_BACKUP_SCHEMA = ''platform.redis-backup/v1''"

definition DEFAULT_MAX_KEYS :: int where
  "DEFAULT_MAX_KEYS = 10000"

definition DEFAULT_MAX_BYTES :: int where
  "DEFAULT_MAX_BYTES = 64 * 1024 * 1024"

record redis_entry =
  re_key :: string
  re_dump :: string
  re_expiresAt :: "string option"

record redis_backup =
  rb_id :: string
  rb_createdAt :: string
  rb_database :: int
  rb_keyCount :: int
  rb_payloadBytes :: int
  rb_entries :: "redis_entry list"

definition redis_error :: "string \<Rightarrow> js_error" where
  "redis_error c = CodedError c 0"

abbreviation backup_invalid :: js_error where
  "backup_invalid \<equiv> redis_error ''redis_backup_invalid''"

definition boundedInteger_redis :: "jsv \<Rightarrow> int \<Rightarrow> int \<Rightarrow> int \<Rightarrow> int" where
  "boundedInteger_redis v minimum maximum fallback = (case safe_int (js_Number v) of None \<Rightarrow> fallback
     | Some n \<Rightarrow> if minimum \<le> n \<and> n \<le> maximum then n else fallback)"

definition b64_char :: "char \<Rightarrow> bool" where
  "b64_char c \<longleftrightarrow> is_alnum c \<or> c = CHR ''+'' \<or> c = CHR ''/''"

definition validBase64 :: "jsv \<Rightarrow> bool" where
  "validBase64 v = (let text = js_String (js_or v (JStr [])) in
     0 < length text \<and> int (length text) \<le> 128 * 1024 * 1024 \<and> length text mod 4 = 0
     \<and> takeWhile b64_char text \<noteq> [] \<and> dropWhile b64_char text \<in> {[], ''='', ''==''})"

text \<open>
  \<open>Buffer.from(v, "base64")\<close> of a value that is not a text: an array gives its elements as bytes, a
  number or a boolean is a \<open>TypeError\<close>. An object never gets here, its text is not Base64.
\<close>

fun to_uint8 :: "jnum \<Rightarrow> char" where
  "to_uint8 (Dec m k) = char_of (nat ((sgn m * (\<bar>m\<bar> div 10 ^ k)) mod 256))"
| "to_uint8 _ = char_of (0 :: nat)"

fun buffer_from :: "jsv \<Rightarrow> string res" where
  "buffer_from (JStr s) = Inr (b64_decode s)"
| "buffer_from (JArr xs) = Inr (map (\<lambda>x. to_uint8 (js_Number x)) xs)"
| "buffer_from _ = Inl (PlainError ''ERR_INVALID_ARG_TYPE'')"

fun typeof_object :: "jsv \<Rightarrow> bool" where
  "typeof_object (JObj ps) = True"
| "typeof_object (JArr xs) = True"
| "typeof_object JNull = True"
| "typeof_object _ = False"

definition entry_expiry :: "runtime \<Rightarrow> jsv \<Rightarrow> string option res" where
  "entry_expiry R v = (if nullish v then Inr None
     else (case rt_date R v of None \<Rightarrow> Inl backup_invalid | Some t \<Rightarrow> Inr (Some (to_iso t))))"

fun redis_entries :: "runtime \<Rightarrow> int \<Rightarrow> string list \<Rightarrow> int \<Rightarrow> jsv list \<Rightarrow> (redis_entry list \<times> int) res" where
  "redis_entries R maxBytes keys payloadBytes [] = Inr ([], payloadBytes)"
| "redis_entries R maxBytes keys payloadBytes (entry # rest) =
     bindR (requireR (js_truthy entry \<and> typeof_object entry \<and> validBase64 (getp entry ''key'') \<and> validBase64 (getp entry ''dump''))
              backup_invalid) (\<lambda>_.
     bindR (buffer_from (getp entry ''key'')) (\<lambda>key.
     bindR (buffer_from (getp entry ''dump'')) (\<lambda>dump.
     bindR (requireR (key \<noteq> [] \<and> int (length key) \<le> 1024 * 1024 \<and> dump \<noteq> []) backup_invalid) (\<lambda>_.
     (let identity = b64_encode key in
     bindR (requireR (identity \<notin> set keys) backup_invalid) (\<lambda>_.
     bindR (entry_expiry R (getp entry ''expiresAt'')) (\<lambda>expiresAt.
     (let payloadBytes' = payloadBytes + int (length key) + int (length dump) in
     bindR (requireR (payloadBytes' \<le> maxBytes) (redis_error ''redis_backup_too_large'')) (\<lambda>_.
     bindR (redis_entries R maxBytes (identity # keys) payloadBytes' rest) (\<lambda>(es, total).
     Inr (\<lparr>re_key = identity, re_dump = b64_encode dump, re_expiresAt = expiresAt\<rparr> # es, total)))))))))))"

definition redis_id_pattern :: "string \<Rightarrow> bool" where
  "redis_id_pattern s \<longleftrightarrow> length s = 29 \<and> take 6 s = ''redis-'' \<and> list_all is_digit (take 14 (drop 6 s))
     \<and> s ! 20 = CHR ''-'' \<and> list_all is_hex_lower (drop 21 s)"

definition validateRedisBackupDocument :: "runtime \<Rightarrow> jsv \<Rightarrow> jsv \<Rightarrow> jsv \<Rightarrow> redis_backup res" where
  "validateRedisBackupDocument R maxBackupKeys maxBackupBytes input =
     (let source = as_object input;
          maxKeys = boundedInteger_redis maxBackupKeys 1 100000 DEFAULT_MAX_KEYS;
          maxBytes = boundedInteger_redis maxBackupBytes 1024 (512 * 1024 * 1024) DEFAULT_MAX_BYTES;
          ident = js_String (js_or (getp source ''id'') (JStr []));
          database = boundedInteger_redis (getp source ''database'') 0 63 (-1) in
     bindR (requireR (getp source ''schema'' = JStr REDIS_BACKUP_SCHEMA) backup_invalid) (\<lambda>_.
     bindR (requireR (redis_id_pattern ident) backup_invalid) (\<lambda>_.
     (case rt_date R (getp source ''createdAt'') of None \<Rightarrow> Inl backup_invalid | Some createdAt \<Rightarrow>
     bindR (requireR (0 \<le> database) backup_invalid) (\<lambda>_.
     (case getp source ''entries'' of JArr items \<Rightarrow>
        bindR (requireR (int (length items) \<le> maxKeys) backup_invalid) (\<lambda>_.
        bindR (redis_entries R maxBytes [] 0 items) (\<lambda>(entries, payloadBytes).
        bindR (requireR (num_int (js_Number (getp source ''keyCount'')) = Some (int (length entries))
                         \<and> num_int (js_Number (getp source ''payloadBytes'')) = Some payloadBytes) backup_invalid) (\<lambda>_.
        Inr \<lparr>rb_id = js_String (getp source ''id''), rb_createdAt = to_iso createdAt, rb_database = database,
             rb_keyCount = int (length entries), rb_payloadBytes = payloadBytes, rb_entries = entries\<rparr>)))
      | _ \<Rightarrow> Inl backup_invalid))))))"

text \<open>The document as the JSON value that is stored.\<close>

definition entry_json :: "redis_entry \<Rightarrow> jsv" where
  "entry_json e = JObj [(''key'', JStr (re_key e)), (''dump'', JStr (re_dump e)),
     (''expiresAt'', case re_expiresAt e of None \<Rightarrow> JNull | Some t \<Rightarrow> JStr t)]"

definition redis_document :: "redis_backup \<Rightarrow> jsv" where
  "redis_document b = JObj [(''schema'', JStr REDIS_BACKUP_SCHEMA), (''id'', JStr (rb_id b)), (''createdAt'', JStr (rb_createdAt b)),
     (''database'', JInt (rb_database b)), (''keyCount'', JInt (rb_keyCount b)), (''payloadBytes'', JInt (rb_payloadBytes b)),
     (''entries'', JArr (map entry_json (rb_entries b)))]"

section \<open>Accepted documents\<close>

lemma b64_char_digit: "n < 64 \<Longrightarrow> b64_char (b64_digit n)"
proof -
  assume "n < 64"
  moreover have "list_all (\<lambda>n. b64_char (b64_digit n)) [0..<64]" by code_simp
  ultimately show ?thesis by (auto simp: list_all_iff)
qed

lemma b64_char_pad: "\<not> b64_char CHR ''=''"
  by code_simp

lemma b64_encode_pattern: "dropWhile b64_char (b64_encode bytes) \<in> {[], ''='', ''==''}"
  by (induction bytes rule: b64_encode.induct) (simp_all add: b64_char_digit b64_char_pad del: insert_iff, auto)

lemma b64_encode_starts: "bytes \<noteq> [] \<Longrightarrow> takeWhile b64_char (b64_encode bytes) \<noteq> []"
  by (cases bytes rule: b64_encode.cases) (simp_all add: b64_char_digit)

lemma b64_encode_Nil_iff [simp]: "b64_encode bytes = [] \<longleftrightarrow> bytes = []"
  by (cases bytes rule: b64_encode.cases) simp_all

lemma validBase64_encode:
  assumes "bytes \<noteq> []" and "int (length (b64_encode bytes)) \<le> 128 * 1024 * 1024"
  shows "validBase64 (JStr (b64_encode bytes))"
  using assms b64_encode_pattern [of bytes] b64_encode_starts [of bytes]
  by (simp add: validBase64_def js_or_def length_b64_encode)

lemma join_comma: "2 \<le> length ps \<Longrightarrow> CHR '','' \<in> set (join '','' ps)"
  by (induction "'',''" ps rule: join.induct) auto

lemma valid_text_chars: "validBase64 v \<Longrightarrow> c \<in> set (js_String (js_or v (JStr []))) \<Longrightarrow> b64_char c \<or> c = CHR ''=''"
proof -
  assume v: "validBase64 v" and c: "c \<in> set (js_String (js_or v (JStr [])))"
  let ?t = "js_String (js_or v (JStr []))"
  have "set ?t = set (takeWhile b64_char ?t) \<union> set (dropWhile b64_char ?t)"
    by (metis set_append takeWhile_dropWhile_id)
  with c v show ?thesis by (auto simp: validBase64_def Let_def dest: set_takeWhileD)
qed

text \<open>What an accepted text decodes to is not longer than the text: its own encoding is accepted again.\<close>

lemma buffer_from_size:
  assumes "validBase64 v" and "buffer_from v = Inr bytes"
  shows "int (length (b64_encode bytes)) \<le> 128 * 1024 * 1024"
proof (cases v)
  case (JStr s)
  with assms have "4 dvd length s" "int (length s) \<le> 128 * 1024 * 1024" "bytes = b64_decode s"
    by (auto simp: validBase64_def js_or_def Let_def split: if_splits)
  then show ?thesis using b64_decode_size by fastforce
next
  case (JArr xs)
  have "length xs \<le> 1"
  proof (rule ccontr)
    assume "\<not> length xs \<le> 1"
    then have "CHR '','' \<in> set (js_String (js_or v (JStr [])))" using JArr join_comma by (simp add: js_or_def)
    moreover have "\<not> b64_char CHR '',''" by code_simp
    ultimately show False using valid_text_chars [OF assms(1), of "CHR '',''"] by simp
  qed
  with JArr assms(2) have "length bytes \<le> 1" by auto
  then have "(length bytes + 2) div 3 \<le> 1" by simp
  then show ?thesis by (simp add: length_b64_encode)
qed (use assms in auto)

definition entry_settled :: "runtime \<Rightarrow> redis_entry \<Rightarrow> bool" where
  "entry_settled R e \<longleftrightarrow> (\<exists>key dump. re_key e = b64_encode key \<and> re_dump e = b64_encode dump
     \<and> key \<noteq> [] \<and> int (length key) \<le> 1024 * 1024 \<and> dump \<noteq> [] \<and> int (length (re_key e)) \<le> 128 * 1024 * 1024
     \<and> int (length (re_dump e)) \<le> 128 * 1024 * 1024)
     \<and> (re_expiresAt e = None \<or> (\<exists>v t. rt_date R v = Some t \<and> re_expiresAt e = Some (to_iso t)))"

definition entry_size :: "redis_entry \<Rightarrow> int" where
  "entry_size e = int (length (b64_decode (re_key e))) + int (length (b64_decode (re_dump e)))"

lemma entry_expiry_Inr: "entry_expiry R v = Inr x \<Longrightarrow> x = None \<or> (\<exists>v t. rt_date R v = Some t \<and> x = Some (to_iso t))"
  by (auto simp: entry_expiry_def split: if_splits option.splits)

lemma redis_entries_Inr:
  assumes "redis_entries R maxBytes keys n items = Inr (es, m)"
  shows "list_all (entry_settled R) es \<and> length es = length items \<and> distinct (map re_key es)
    \<and> set (map re_key es) \<inter> set keys = {} \<and> m = n + sum_list (map entry_size es) \<and> (n \<le> maxBytes \<longrightarrow> m \<le> maxBytes)"
  using assms
proof (induction items arbitrary: keys n es)
  case Nil
  then show ?case by simp
next
  case (Cons entry items)
  from Cons.prems obtain key dump x es' where e: "es = \<lparr>re_key = b64_encode key, re_dump = b64_encode dump, re_expiresAt = x\<rparr> # es'"
      and v: "validBase64 (getp entry ''key'')" "validBase64 (getp entry ''dump'')"
      and b: "buffer_from (getp entry ''key'') = Inr key" "buffer_from (getp entry ''dump'') = Inr dump"
      and k: "key \<noteq> []" "int (length key) \<le> 1024 * 1024" "dump \<noteq> []" "b64_encode key \<notin> set keys"
      and x: "entry_expiry R (getp entry ''expiresAt'') = Inr x"
      and n: "n + int (length key) + int (length dump) \<le> maxBytes"
      and rest: "redis_entries R maxBytes (b64_encode key # keys) (n + int (length key) + int (length dump)) items = Inr (es', m)"
    by (auto simp: bindR_eq_Inr requireR_eq Let_def)
  note IH = Cons.IH [OF rest]
  have "entry_settled R (hd es)"
    unfolding entry_settled_def e using k buffer_from_size [OF v(1) b(1)] buffer_from_size [OF v(2) b(2)] entry_expiry_Inr [OF x] by auto
  with IH k(4) n show ?case unfolding e by (auto simp: entry_size_def b64_round_trip)
qed

lemma redis_entries_again:
  assumes "list_all (entry_settled R) es" and "distinct (map re_key es)" and "set (map re_key es) \<inter> set keys = {}"
    and "n + sum_list (map entry_size es) \<le> maxBytes" and dates: "\<And>v t. rt_date R v = Some t \<Longrightarrow> iso_reads R t"
  shows "redis_entries R maxBytes keys n (map entry_json es) = Inr (es, n + sum_list (map entry_size es))"
  using assms(1-4)
proof (induction es arbitrary: keys n)
  case Nil
  then show ?case by simp
next
  case (Cons e es)
  from Cons.prems(1) obtain key dump where e: "re_key e = b64_encode key" "re_dump e = b64_encode dump"
      and k: "key \<noteq> []" "int (length key) \<le> 1024 * 1024" "dump \<noteq> []" "int (length (b64_encode key)) \<le> 128 * 1024 * 1024"
        "int (length (b64_encode dump)) \<le> 128 * 1024 * 1024"
    by (auto simp: entry_settled_def)
  have fields: "getp (entry_json e) ''key'' = JStr (b64_encode key)" "getp (entry_json e) ''dump'' = JStr (b64_encode dump)"
      "js_truthy (entry_json e)" "typeof_object (entry_json e)"
    by (simp_all add: entry_json_def e)
  have x: "entry_expiry R (getp (entry_json e) ''expiresAt'') = Inr (re_expiresAt e)"
    using Cons.prems(1) dates by (auto simp: entry_settled_def entry_json_def entry_expiry_def iso_reads_def split: option.split)
  have size: "entry_size e = int (length key) + int (length dump)" by (simp add: entry_size_def b64_round_trip e)
  have nonneg: "0 \<le> sum_list (map entry_size es)" by (rule sum_list_nonneg) (auto simp: entry_size_def)
  have fresh: "b64_encode key \<notin> set keys" "b64_encode key \<notin> re_key ` set es" using Cons.prems(2,3) by (auto simp: e)
  have "redis_entries R maxBytes (b64_encode key # keys) (n + int (length key) + int (length dump)) (map entry_json es)
      = Inr (es, n + int (length key) + int (length dump) + sum_list (map entry_size es))"
    by (rule Cons.IH) (use Cons.prems size fresh in auto)
  moreover have "\<lparr>re_key = b64_encode key, re_dump = b64_encode dump, re_expiresAt = re_expiresAt e\<rparr> = e" using e by (cases e) simp
  ultimately show ?case
    using Cons.prems(4) fields x k size nonneg fresh validBase64_encode [OF k(1,4)] validBase64_encode [OF k(3,5)]
    by (simp add: Let_def b64_round_trip)
qed

lemma settled_key: "entry_settled R e \<Longrightarrow> b64_encode (b64_decode (re_key e)) = re_key e"
  by (auto simp: entry_settled_def b64_round_trip)

lemma decoded_keys_distinct:
  assumes "list_all (entry_settled R) es" and "distinct (map re_key es)"
  shows "distinct (map (b64_decode \<circ> re_key) es)"
proof -
  have "map re_key es = map b64_encode (map (b64_decode \<circ> re_key) es)" using assms(1) by (auto simp: list_all_iff) (metis settled_key)
  with assms(2) show ?thesis by (metis distinct_map)
qed

text \<open>Validation changes no key and no dump, and keeps an entry without expiry one without expiry.\<close>

definition same_entry :: "redis_entry \<Rightarrow> redis_entry \<Rightarrow> bool" where
  "same_entry e e' \<longleftrightarrow> re_key e' = re_key e \<and> re_dump e' = re_dump e \<and> (re_expiresAt e' = None \<longleftrightarrow> re_expiresAt e = None)"

definition encoded_entry :: "redis_entry \<Rightarrow> bool" where
  "encoded_entry e \<longleftrightarrow> (\<exists>key dump. re_key e = b64_encode key \<and> re_dump e = b64_encode dump)"

lemma redis_entries_same:
  assumes "redis_entries R maxBytes keys n (map entry_json es) = Inr (es', m)" and "list_all encoded_entry es"
  shows "list_all2 same_entry es es'"
  using assms
proof (induction es arbitrary: keys n es')
  case Nil
  then show ?case by simp
next
  case (Cons e es)
  from Cons.prems(2) obtain key dump where e: "re_key e = b64_encode key" "re_dump e = b64_encode dump" by (auto simp: encoded_entry_def)
  have fields: "getp (entry_json e) ''key'' = JStr (b64_encode key)" "getp (entry_json e) ''dump'' = JStr (b64_encode dump)"
      "getp (entry_json e) ''expiresAt'' = (case re_expiresAt e of None \<Rightarrow> JNull | Some t \<Rightarrow> JStr t)"
    by (simp_all add: entry_json_def e)
  from Cons.prems(1) obtain x k es1 n' where es': "es' = \<lparr>re_key = b64_encode key, re_dump = b64_encode dump, re_expiresAt = x\<rparr> # es1"
      and x: "entry_expiry R (getp (entry_json e) ''expiresAt'') = Inr x" and rest: "redis_entries R maxBytes k n' (map entry_json es) = Inr (es1, m)"
    by (auto simp: fields b64_round_trip bindR_eq_Inr requireR_eq Let_def)
  from x have "x = None \<longleftrightarrow> re_expiresAt e = None"
    by (auto simp: fields entry_expiry_def split: option.splits if_splits)
  with Cons.IH [OF rest] Cons.prems(2) e es' show ?case by (simp add: same_entry_def)
qed

lemma validate_entries:
  assumes "validateRedisBackupDocument R mk mb input = Inr b"
  shows "list_all (entry_settled R) (rb_entries b) \<and> (\<forall>d. input = redis_document d \<longrightarrow> list_all encoded_entry (rb_entries d)
    \<longrightarrow> list_all2 same_entry (rb_entries d) (rb_entries b))"
proof -
  from assms obtain items es n where b: "rb_entries b = es" and items: "getp (as_object input) ''entries'' = JArr items"
      and es: "redis_entries R (boundedInteger_redis mb 1024 (512 * 1024 * 1024) DEFAULT_MAX_BYTES) [] 0 items = Inr (es, n)"
    by (auto simp: validateRedisBackupDocument_def Let_def bindR_eq_Inr requireR_eq split: option.splits jsv.splits)
  have "items = map entry_json (rb_entries d)" if "input = redis_document d" for d
    using items that by (simp add: redis_document_def)
  then show ?thesis using redis_entries_Inr [OF es] redis_entries_same es b by metis
qed

lemma settled_encoded: "entry_settled R e \<Longrightarrow> encoded_entry e"
  by (auto simp: entry_settled_def encoded_entry_def)

text \<open>
  C33. An accepted Redis backup holds every key once, none of them empty, within the limits on keys
  and bytes and with true counts; stored and read back it is accepted as it is.
\<close>

theorem accepted_redis_backup_round_trip:
  assumes ok: "validateRedisBackupDocument R maxKeys maxBytes input = Inr b"
    and dates: "\<And>v t. rt_date R v = Some t \<Longrightarrow> iso_reads R t"
  shows "distinct (map (b64_decode \<circ> re_key) (rb_entries b)) \<and> (\<forall>e \<in> set (rb_entries b). b64_decode (re_key e) \<noteq> [])
    \<and> rb_keyCount b = int (length (rb_entries b)) \<and> rb_keyCount b \<le> boundedInteger_redis maxKeys 1 100000 DEFAULT_MAX_KEYS
    \<and> rb_payloadBytes b = sum_list (map entry_size (rb_entries b))
    \<and> rb_payloadBytes b \<le> boundedInteger_redis maxBytes 1024 (512 * 1024 * 1024) DEFAULT_MAX_BYTES
    \<and> validateRedisBackupDocument R maxKeys maxBytes (redis_document b) = Inr b"
proof -
  let ?k = "boundedInteger_redis maxKeys 1 100000 DEFAULT_MAX_KEYS"
  let ?m = "boundedInteger_redis maxBytes 1024 (512 * 1024 * 1024) DEFAULT_MAX_BYTES"
  let ?db = "boundedInteger_redis (getp (as_object input) ''database'') 0 63 (-1)"
  let ?id = "js_String (getp (as_object input) ''id'')"
  from ok obtain t items es n where b: "b = \<lparr>rb_id = ?id, rb_createdAt = to_iso t, rb_database = ?db,
        rb_keyCount = int (length es), rb_payloadBytes = n, rb_entries = es\<rparr>"
      and t: "rt_date R (getp (as_object input) ''createdAt'') = Some t" and db: "0 \<le> ?db"
      and i: "redis_id_pattern (js_String (js_or (getp (as_object input) ''id'') (JStr [])))"
      and items: "int (length items) \<le> ?k" "redis_entries R ?m [] 0 items = Inr (es, n)"
    by (auto simp: validateRedisBackupDocument_def Let_def bindR_eq_Inr requireR_eq split: option.splits jsv.splits)
  have m: "0 \<le> ?m" by (simp add: boundedInteger_redis_def DEFAULT_MAX_BYTES_def split: option.split)
  note es = redis_entries_Inr [OF items(2)]
  have decoded: "b64_decode (re_key e) \<noteq> []" if "e \<in> set es" for e
    using es that by (auto simp: list_all_iff entry_settled_def b64_round_trip)
  have "distinct (map (b64_decode \<circ> re_key) es)" using es by (blast intro: decoded_keys_distinct)
  moreover have "js_or (getp (as_object input) ''id'') (JStr []) = getp (as_object input) ''id''"
    using i by (auto simp: js_or_def redis_id_pattern_def)
  then have pat: "redis_id_pattern ?id" using i by simp
  then have "?id \<noteq> []" by (auto simp: redis_id_pattern_def)
  have same: "redis_entries R ?m [] 0 (map entry_json es) = Inr (es, n)"
    using redis_entries_again [of R es "[]" 0 ?m] es dates m by simp
  have "?db \<le> 63" by (simp add: boundedInteger_redis_def split: option.split)
  then have "boundedInteger_redis (JInt ?db) 0 63 (-1) = ?db" using db by (simp add: boundedInteger_redis_def js_Number_def)
  moreover have "validateRedisBackupDocument R maxKeys maxBytes (redis_document b) = Inr b"
    unfolding b using pat \<open>?id \<noteq> []\<close> dates [OF t] db items(1) es same calculation(2)
    by (simp add: validateRedisBackupDocument_def redis_document_def Let_def js_or_def iso_reads_def js_Number_def)
  ultimately show ?thesis using b decoded es items(1) m by simp
qed

definition still_runtime :: runtime where
  "still_runtime = \<lparr>rt_sha256 = sample_sha256, rt_localeCompare = code_unit_compare, rt_date = (\<lambda>v. if v = JStr (to_iso 0) then Some 0 else None)\<rparr>"

definition sample_backup :: jsv where
  "sample_backup = JObj [(''schema'', JStr REDIS_BACKUP_SCHEMA), (''id'', JStr ''redis-19700101000000-0000abcd''),
     (''createdAt'', JStr ''1970-01-01T00:00:00.000Z''), (''database'', JInt 0), (''keyCount'', JStr ''1''), (''payloadBytes'', JInt 5),
     (''entries'', JArr [JObj [(''key'', JStr ''dXNlcg==''), (''dump'', JArr [JStr ''abcd'']), (''expiresAt'', JStr ''1970-01-01T00:00:00.000Z'')]])]"

lemma still_runtime_dates: "rt_date still_runtime v = Some t \<Longrightarrow> iso_reads still_runtime t"
  by (simp add: still_runtime_def iso_reads_def split: if_splits)

theorem accepted_redis_backup_round_trip_witness:
  "\<exists>b. validateRedisBackupDocument still_runtime JUndef JUndef sample_backup = Inr b \<and> rb_payloadBytes b = 5
     \<and> validateRedisBackupDocument still_runtime JUndef JUndef (redis_document b) = Inr b"
proof -
  have "case validateRedisBackupDocument still_runtime JUndef JUndef sample_backup of Inr b \<Rightarrow> rb_payloadBytes b = 5 | Inl _ \<Rightarrow> False"
    by code_simp
  then obtain b where b: "validateRedisBackupDocument still_runtime JUndef JUndef sample_backup = Inr b" "rb_payloadBytes b = 5"
    by (auto split: sum.splits)
  from accepted_redis_backup_round_trip [OF b(1)] still_runtime_dates b show ?thesis by blast
qed

end
