(* ===== verification/RedisOperations.thy ===== *)
theory RedisOperations
  imports RedisDocuments
begin

text \<open>
  The operations of \<open>src/control-center/redis/operations.mjs\<close> that change something: the cache, the
  capture of a backup and its restore, with the shared connection they run on.

  The \<open>redis\<close> package and the server behind it are the parameter \<open>rc_call\<close>: a command on a server
  state gives a reply or an error. \<open>rw_trace\<close> records every command with its reply. The clock, the
  random bytes, the secret and certificate files, the outcome of a connection and whether the timer
  of \<open>deadline\<close> fires first are parameters too. A timer that fires gives the caller the timeout
  error while the operation runs on; \<open>rc_rounds\<close> is the number of SCAN calls the server answers
  before the client is closed. Two operations that wait for one pending connection are not
  modelled. \<open>snapshot\<close> and \<open>cacheGetJson\<close>, which only read, are left out.
\<close>

section \<open>Commands and state\<close>

datatype command = Pause int | Unpause | Scan string | Dump string | PTtl string | Restore string int string
  | Del "string list" | FlushDb | Transaction "command list" | Get string | SetPx string string int | Incr string | PExpire string int

datatype reply = Done | ScanReply string "string list" | Bytes "string option" | Number int | Results "bool list"

record 's redis_client =
  rc_call :: "command \<Rightarrow> 's \<Rightarrow> reply res \<times> 's"
  rc_connect :: "'s \<Rightarrow> unit res \<times> 's"
  rc_clock :: "nat \<Rightarrow> int"
  rc_hex :: "nat \<Rightarrow> nat \<Rightarrow> string"
  rc_secret :: "string option"
  rc_certificate :: bool
  rc_late :: "nat \<Rightarrow> bool"
  rc_rounds :: nat

record 's redis_world =
  rw_server :: 's
  rw_shared :: bool
  rw_trace :: "(command \<times> reply res) list"
  rw_reads :: nat
  rw_draws :: nat

record redis_config =
  cf_enabled :: bool
  cf_host :: string
  cf_port :: int
  cf_username :: string
  cf_passwordFile :: string
  cf_tlsCaFile :: string
  cf_database :: int
  cf_workloadLockFile :: string
  cf_connectTimeoutMs :: int
  cf_operationTimeoutMs :: int
  cf_backupPauseMs :: int
  cf_maxBackupKeys :: int
  cf_maxBackupBytes :: int
  cf_cachePrefix :: string
  cf_cacheMaxBytes :: int

definition prefix_char :: "char \<Rightarrow> bool" where
  "prefix_char c \<longleftrightarrow> is_lower_alnum c \<or> c \<in> {CHR '':'', CHR ''_'', CHR ''-''}"

definition validCachePrefix :: "jsv \<Rightarrow> string" where
  "validCachePrefix v = (let prefix = js_trim (js_String (js_or v (JStr []))) in
     if prefix \<noteq> [] \<and> is_lower (hd prefix) \<and> all_in prefix_char 2 95 (tl prefix) then prefix else ''control-center:cache:v1'')"

definition text_option :: "jsv \<Rightarrow> string \<Rightarrow> string" where
  "text_option opts k = js_trim (js_String (js_or (getp opts k) (JStr [])))"

definition named_option :: "jsv \<Rightarrow> string \<Rightarrow> string \<Rightarrow> string" where
  "named_option opts k d = (let t = js_trim (js_String (js_or (getp opts k) (JStr d))) in if t = [] then d else t)"

definition int_option :: "jsv \<Rightarrow> string \<Rightarrow> int \<Rightarrow> int \<Rightarrow> int \<Rightarrow> int" where
  "int_option opts k lo hi d = boundedInteger_redis (js_default (getp opts k) (JInt d)) lo hi d"

definition redis_configuration :: "jsv \<Rightarrow> redis_config" where
  "redis_configuration opts =
     \<lparr>cf_enabled = (getp opts ''enabled'' = JBool True), cf_host = named_option opts ''host'' ''redis'',
      cf_port = int_option opts ''port'' 1 65535 6379, cf_username = named_option opts ''username'' ''platform'',
      cf_passwordFile = text_option opts ''passwordFile'', cf_tlsCaFile = text_option opts ''tlsCaFile'',
      cf_database = int_option opts ''database'' 0 63 0, cf_workloadLockFile = text_option opts ''workloadLockFile'',
      cf_connectTimeoutMs = int_option opts ''connectTimeoutMs'' 250 10000 1200,
      cf_operationTimeoutMs = int_option opts ''operationTimeoutMs'' 1000 120000 15000,
      cf_backupPauseMs = int_option opts ''backupPauseMs'' 1000 30000 10000,
      cf_maxBackupKeys = int_option opts ''maxBackupKeys'' 1 100000 DEFAULT_MAX_KEYS,
      cf_maxBackupBytes = int_option opts ''maxBackupBytes'' 1024 (512 * 1024 * 1024) DEFAULT_MAX_BYTES,
      cf_cachePrefix = validCachePrefix (js_default (getp opts ''cachePrefix'') (JStr ''control-center:cache:v1'')),
      cf_cacheMaxBytes = int_option opts ''cacheMaxBytes'' 1024 (32 * 1024 * 1024) (4 * 1024 * 1024)\<rparr>"

definition issue :: "'s redis_client \<Rightarrow> command \<Rightarrow> ('s redis_world, reply) sx" where
  "issue C c = (\<lambda>w. case rc_call C c (rw_server w) of (r, s) \<Rightarrow>
     (r, w\<lparr>rw_server := s, rw_trace := rw_trace w @ [(c, r)]\<rparr>))"

definition date_now :: "'s redis_client \<Rightarrow> ('s redis_world, int) sx" where
  "date_now C = (\<lambda>w. (Inr (rc_clock C (rw_reads w)), w\<lparr>rw_reads := Suc (rw_reads w)\<rparr>))"

definition random_hex :: "'s redis_client \<Rightarrow> nat \<Rightarrow> ('s redis_world, string) sx" where
  "random_hex C n = (\<lambda>w. (Inr (rc_hex C n (rw_draws w)), w\<lparr>rw_draws := Suc (rw_draws w)\<rparr>))"

section \<open>The connection\<close>

definition strip_newline :: "string \<Rightarrow> string" where
  "strip_newline s = (let cr = CHR 0x0D; nl = CHR 0x0A in
     if ends_with [cr, nl] s then take (length s - 2) s else if ends_with [nl] s then take (length s - 1) s else s)"

definition readRedisPassword :: "'s redis_client \<Rightarrow> redis_config \<Rightarrow> string res" where
  "readRedisPassword C cfg = (case rc_secret C of None \<Rightarrow> Inl (redis_error ''redis_secret_unavailable'')
     | Some content \<Rightarrow> (let password = strip_newline content in
         if cf_passwordFile cfg = [] \<or> password = [] \<or> int (length password) > 4096
            \<or> list_ex (\<lambda>c. c \<in> {CHR 0x00, CHR 0x0D, CHR 0x0A}) password
         then Inl (redis_error ''redis_secret_unavailable'') else Inr password))"

definition connectedClient :: "'s redis_client \<Rightarrow> redis_config \<Rightarrow> ('s redis_world, unit) sx" where
  "connectedClient C cfg = bindS getS (\<lambda>w. if rw_shared w then returnS ()
     else bindS (liftS (readRedisPassword C cfg)) (\<lambda>_.
          bindS (requireS (cf_tlsCaFile cfg = [] \<or> rc_certificate C) (PlainError ''ENOENT'')) (\<lambda>_.
          (\<lambda>w. case rc_connect C (rw_server w) of (r, s) \<Rightarrow>
             (r, w\<lparr>rw_server := s, rw_shared := (case r of Inr _ \<Rightarrow> True | Inl _ \<Rightarrow> False)\<rparr>)))))"

definition raced :: "'s redis_client \<Rightarrow> ('s redis_world, 'a) sx \<Rightarrow> ('s redis_world, 'a) sx" where
  "raced C m = (\<lambda>w. case m w of (r, w') \<Rightarrow>
     (if rc_late C (length (rw_trace w)) then Inl (redis_error ''redis_timeout'') else r, w'))"

fun is_redis_error :: "js_error \<Rightarrow> bool" where
  "is_redis_error (CodedError c n) = True"
| "is_redis_error (PlainError m) = False"

text \<open>\<open>close\<close>, and what a failed operation does with the shared client.\<close>

definition close_shared :: "('s redis_world, unit) sx" where
  "close_shared = modifyS (\<lambda>w. w\<lparr>rw_shared := False\<rparr>)"

definition withClient :: "'s redis_client \<Rightarrow> redis_config \<Rightarrow> ('s redis_world, 'a) sx \<Rightarrow> ('s redis_world, 'a) sx" where
  "withClient C cfg oper =
     (if \<not> cf_enabled cfg then throwS (redis_error ''redis_live_disabled'')
      else catchS (bindS (connectedClient C cfg) (\<lambda>_. raced C oper)) (\<lambda>e.
        bindS (if \<not> is_redis_error e \<or> e \<in> {redis_error ''redis_timeout'', redis_error ''redis_connection_failed''}
               then close_shared else returnS ()) (\<lambda>_.
        throwS (if is_redis_error e then e else redis_error ''redis_connection_failed''))))"

section \<open>The cache\<close>

definition cacheAvailable :: "'s redis_client \<Rightarrow> redis_config \<Rightarrow> bool" where
  "cacheAvailable C cfg \<longleftrightarrow> cf_enabled cfg \<and> cf_passwordFile cfg \<noteq> [] \<and> rc_secret C \<noteq> None"

definition cacheKey :: "redis_config \<Rightarrow> jsv \<Rightarrow> string res" where
  "cacheKey cfg name = (let suffix = js_trim (js_String (js_or name (JStr []))) in
     if suffix \<noteq> [] \<and> is_lower_alnum (hd suffix) \<and> all_in prefix_char 0 190 (tl suffix)
     then Inr (cf_cachePrefix cfg @ '':'' @ suffix) else Inl (redis_error ''redis_cache_key_invalid''))"

definition isCacheKey :: "redis_config \<Rightarrow> string \<Rightarrow> bool" where
  "isCacheKey cfg key \<longleftrightarrow> starts_with (cf_cachePrefix cfg @ '':'') key"

definition cacheSetJson :: "'s redis_client \<Rightarrow> redis_config \<Rightarrow> jsv \<Rightarrow> jsv \<Rightarrow> jsv \<Rightarrow> ('s redis_world, bool) sx" where
  "cacheSetJson C cfg name v ttlMs = (if \<not> cacheAvailable C cfg then returnS False
     else catchS (let payload = json_stringify (JObj [(''schema'', JStr ''platform.control-center-cache/v1''), (''value'', v)]) in
            if byte_length payload > cf_cacheMaxBytes cfg then returnS False
            else (let ttl = boundedInteger_redis ttlMs 250 (24 * 60 * 60 * 1000) 15000 in
              bindS (withClient C cfg (bindS (liftS (cacheKey cfg name)) (\<lambda>key. issue C (SetPx key payload ttl)))) (\<lambda>_. returnS True)))
          (\<lambda>_. returnS False))"

definition cacheDelete :: "'s redis_client \<Rightarrow> redis_config \<Rightarrow> jsv \<Rightarrow> ('s redis_world, bool) sx" where
  "cacheDelete C cfg name = (if \<not> cacheAvailable C cfg then returnS False
     else catchS (bindS (withClient C cfg (bindS (liftS (cacheKey cfg name)) (\<lambda>key. issue C (Del [key])))) (\<lambda>_. returnS True))
          (\<lambda>_. returnS False))"

definition counter_value :: "int \<Rightarrow> int option" where
  "counter_value n = (if \<bar>n\<bar> \<le> 2 ^ 53 - 1 \<and> 0 \<le> n then Some n else None)"

fun reply_number :: "reply \<Rightarrow> int" where
  "reply_number (Number n) = n"
| "reply_number _ = 0"

definition cacheCounter :: "'s redis_client \<Rightarrow> redis_config \<Rightarrow> jsv \<Rightarrow> ('s redis_world, int option) sx" where
  "cacheCounter C cfg name = (if \<not> cacheAvailable C cfg then returnS None
     else catchS (bindS (withClient C cfg (bindS (liftS (cacheKey cfg name)) (\<lambda>key. issue C (Get key)))) (\<lambda>reply.
            returnS (case reply of Bytes (Some text) \<Rightarrow> Option.bind (safe_int (string_to_number text)) counter_value | _ \<Rightarrow> Some 0)))
          (\<lambda>_. returnS None))"

definition cacheIncrement :: "'s redis_client \<Rightarrow> redis_config \<Rightarrow> jsv \<Rightarrow> jsv \<Rightarrow> ('s redis_world, int option) sx" where
  "cacheIncrement C cfg name ttlMs = (if \<not> cacheAvailable C cfg then returnS None
     else catchS (bindS (liftS (cacheKey cfg name)) (\<lambda>key.
            bindS (withClient C cfg (bindS (issue C (Incr key)) (\<lambda>next.
              bindS (issue C (PExpire key (boundedInteger_redis (js_default ttlMs (JInt (30 * 24 * 60 * 60 * 1000)))
                       60000 (90 * 24 * 60 * 60 * 1000) (30 * 24 * 60 * 60 * 1000)))) (\<lambda>_. returnS (reply_number next))))) (\<lambda>n.
            returnS (counter_value n))))
          (\<lambda>_. returnS None))"

section \<open>Capture\<close>

text \<open>The local variables of the loop: \<open>entries\<close>, \<open>seen\<close> and \<open>totalBytes\<close>.\<close>

record capture =
  cs_entries :: "redis_entry list"
  cs_seen :: "string list"
  cs_bytes :: int

fun scan_parts :: "reply \<Rightarrow> string \<times> string list" where
  "scan_parts (ScanReply c ks) = (c, ks)"
| "scan_parts _ = (''0'', [])"

fun dump_bytes :: "reply \<Rightarrow> string option" where
  "dump_bytes (Bytes b) = b"
| "dump_bytes _ = None"

text \<open>\<open>Promise.all\<close>: both commands are sent, an error of either is the error of the pair.\<close>

definition bothS :: "('s, 'a) sx \<Rightarrow> ('s, 'b) sx \<Rightarrow> ('s, 'a \<times> 'b) sx" where
  "bothS m n = (\<lambda>s. case m s of (r, s') \<Rightarrow> (case n s' of (q, s'') \<Rightarrow> (bindR r (\<lambda>x. bindR q (\<lambda>y. Inr (x, y))), s'')))"

definition capture_expiry :: "'s redis_client \<Rightarrow> int \<Rightarrow> ('s redis_world, string option) sx" where
  "capture_expiry C ttlMs = (if ttlMs < 0 then returnS None
     else bindS (date_now C) (\<lambda>now. bindS (liftS (ms_iso (now + ttlMs))) (\<lambda>t. returnS (Some t))))"

definition add_dump :: "'s redis_client \<Rightarrow> redis_config \<Rightarrow> string \<Rightarrow> capture \<Rightarrow> reply \<times> reply \<Rightarrow> ('s redis_world, capture) sx" where
  "add_dump C cfg key s replies = (case dump_bytes (fst replies) of None \<Rightarrow> returnS s
     | Some dump \<Rightarrow> (let totalBytes = cs_bytes s + int (length key) + int (length dump) in
         if totalBytes > cf_maxBackupBytes cfg then throwS (redis_error ''redis_backup_too_large'')
         else bindS (capture_expiry C (reply_number (snd replies))) (\<lambda>expiresAt.
           returnS (s\<lparr>cs_bytes := totalBytes, cs_entries := cs_entries s
             @ [\<lparr>re_key = b64_encode key, re_dump = b64_encode dump, re_expiresAt = expiresAt\<rparr>]\<rparr>))))"

definition capture_key :: "'s redis_client \<Rightarrow> redis_config \<Rightarrow> string \<Rightarrow> capture \<Rightarrow> ('s redis_world, capture) sx" where
  "capture_key C cfg key s = (let identity = b64_encode key; s' = s\<lparr>cs_seen := identity # cs_seen s\<rparr> in
     if isCacheKey cfg key \<or> identity \<in> set (cs_seen s) then returnS s
     else if int (length (cs_seen s')) > cf_maxBackupKeys cfg then throwS (redis_error ''redis_backup_too_large'')
     else bindS (bothS (issue C (Dump key)) (issue C (PTtl key))) (add_dump C cfg key s'))"

fun capture_keys :: "'s redis_client \<Rightarrow> redis_config \<Rightarrow> string list \<Rightarrow> capture \<Rightarrow> ('s redis_world, capture) sx" where
  "capture_keys C cfg [] s = returnS s"
| "capture_keys C cfg (key # keys) s = bindS (capture_key C cfg key s) (capture_keys C cfg keys)"

fun scan_loop :: "'s redis_client \<Rightarrow> redis_config \<Rightarrow> nat \<Rightarrow> string \<Rightarrow> capture \<Rightarrow> ('s redis_world, capture) sx" where
  "scan_loop C cfg 0 cursor s = throwS (redis_error ''redis_timeout'')"
| "scan_loop C cfg (Suc n) cursor s = bindS (issue C (Scan cursor)) (\<lambda>reply.
     bindS (capture_keys C cfg (snd (scan_parts reply)) s) (\<lambda>s'.
     if fst (scan_parts reply) = ''0'' then returnS s' else scan_loop C cfg n (fst (scan_parts reply)) s'))"

definition capture_paused :: "'s redis_client \<Rightarrow> redis_config \<Rightarrow> ('s redis_world, capture) sx" where
  "capture_paused C cfg = bindS (issue C (Pause (cf_backupPauseMs cfg))) (\<lambda>_.
     finallyS (scan_loop C cfg (rc_rounds C) ''0'' \<lparr>cs_entries = [], cs_seen = [], cs_bytes = 0\<rparr>)
       (catchS (bindS (issue C Unpause) (\<lambda>_. returnS ())) (\<lambda>_. returnS ())))"

definition captured_document :: "redis_config \<Rightarrow> int \<Rightarrow> string \<Rightarrow> capture \<Rightarrow> redis_backup" where
  "captured_document cfg createdAt hex s =
     \<lparr>rb_id = ''redis-'' @ take 14 (filter is_digit (to_iso createdAt)) @ ''-'' @ hex, rb_createdAt = to_iso createdAt,
      rb_database = cf_database cfg, rb_keyCount = int (length (cs_entries s)), rb_payloadBytes = cs_bytes s,
      rb_entries = cs_entries s\<rparr>"

definition capture_operation :: "runtime \<Rightarrow> 's redis_client \<Rightarrow> redis_config \<Rightarrow> ('s redis_world, redis_backup) sx" where
  "capture_operation R C cfg = bindS (date_now C) (\<lambda>createdAt.
     bindS (capture_paused C cfg) (\<lambda>s.
     bindS (random_hex C 4) (\<lambda>hex.
     liftS (validateRedisBackupDocument R (JInt (cf_maxBackupKeys cfg)) (JInt (cf_maxBackupBytes cfg))
       (redis_document (captured_document cfg createdAt hex s))))))"

definition captureBackup :: "runtime \<Rightarrow> 's redis_client \<Rightarrow> redis_config \<Rightarrow> ('s redis_world, redis_backup) sx" where
  "captureBackup R C cfg = withClient C cfg (capture_operation R C cfg)"

section \<open>Restore\<close>

type_synonym planned = "string \<times> int \<times> string"

definition remaining_ttl :: "runtime \<Rightarrow> 's redis_client \<Rightarrow> redis_entry \<Rightarrow> ('s redis_world, int option) sx" where
  "remaining_ttl R C e = (case re_expiresAt e of None \<Rightarrow> returnS (Some 0)
     | Some text \<Rightarrow> bindS (date_now C) (\<lambda>now. returnS (map_option (\<lambda>t. t - now) (rt_date R (JStr text)))))"

fun restored_entries :: "runtime \<Rightarrow> 's redis_client \<Rightarrow> redis_entry list \<Rightarrow> ('s redis_world, planned list) sx" where
  "restored_entries R C [] = returnS []"
| "restored_entries R C (e # es) = bindS (remaining_ttl R C e) (\<lambda>ttlMs. bindS (restored_entries R C es) (\<lambda>rest.
     returnS (case ttlMs of None \<Rightarrow> rest
       | Some t \<Rightarrow> if t = 0 \<or> t > 0 then (b64_decode (re_key e), t, b64_decode (re_dump e)) # rest else rest)))"

definition validation_prefix :: string where
  "validation_prefix = ''__control_center_restore_check:''"

text \<open>The loop over the validation keys gives the keys it has used also when it fails.\<close>

fun check_dumps :: "'s redis_client \<Rightarrow> nat \<Rightarrow> planned list \<Rightarrow> 's redis_world \<Rightarrow> (unit res \<times> string list) \<times> 's redis_world" where
  "check_dumps C i [] w = ((Inr (), []), w)"
| "check_dumps C i ((k, t, dump) # rest) w = (case random_hex C 16 w of (hex, w1) \<Rightarrow>
     (let key = validation_prefix @ (case hex of Inr h \<Rightarrow> h | Inl _ \<Rightarrow> []) @ '':'' @ show_int (int i) in
      case issue C (Restore key 60000 dump) w1 of
        (Inl e, w2) \<Rightarrow> ((Inl e, [key]), w2)
      | (Inr _, w2) \<Rightarrow> (case check_dumps C (Suc i) rest w2 of ((r, keys), w3) \<Rightarrow> ((r, key # keys), w3))))"

definition checked_dumps :: "'s redis_client \<Rightarrow> planned list \<Rightarrow> ('s redis_world, unit) sx" where
  "checked_dumps C plan = (\<lambda>w. case check_dumps C 0 plan w of ((r, keys), w') \<Rightarrow>
     (r, if keys = [] then w' else snd (issue C (Del keys) w')))"

fun results_ok :: "reply \<Rightarrow> bool" where
  "results_ok (Results errors) = (\<not> list_ex id errors)"
| "results_ok _ = True"

definition restore_command :: "planned \<Rightarrow> command" where
  "restore_command p = (case p of (k, t, d) \<Rightarrow> Restore k t d)"

definition restore_operation :: "runtime \<Rightarrow> 's redis_client \<Rightarrow> redis_backup \<Rightarrow> ('s redis_world, int \<times> int) sx" where
  "restore_operation R C backup = bindS (restored_entries R C (rb_entries backup)) (\<lambda>plan.
     bindS (checked_dumps C plan) (\<lambda>_.
     bindS (issue C (Transaction (FlushDb # map restore_command plan))) (\<lambda>results.
     bindS (requireS (results_ok results) (redis_error ''redis_restore_failed'')) (\<lambda>_.
     returnS (int (length plan), int (length (rb_entries backup)) - int (length plan))))))"

definition restoreBackup :: "runtime \<Rightarrow> 's redis_client \<Rightarrow> redis_config \<Rightarrow> jsv \<Rightarrow> ('s redis_world, int \<times> int) sx" where
  "restoreBackup R C cfg input =
     bindS (liftS (validateRedisBackupDocument R (JInt (cf_maxBackupKeys cfg)) (JInt (cf_maxBackupBytes cfg)) input))
       (\<lambda>backup. withClient C cfg (restore_operation R C backup))"

section \<open>What the operations send\<close>

definition sendsS :: "(command \<Rightarrow> bool) \<Rightarrow> ('s redis_world, 'a) sx \<Rightarrow> bool" where
  "sendsS P m \<longleftrightarrow> (\<forall>w. \<exists>cs. rw_trace (snd (m w)) = rw_trace w @ cs \<and> list_all (\<lambda>c. P (fst c)) cs)"

lemma sendsS_quiet: "keepsS rw_trace m \<Longrightarrow> sendsS P m"
  by (simp add: sendsS_def keepsS_def)

lemma sendsS_basic [intro]:
  "sendsS P (returnS x)" "sendsS P (throwS e)" "sendsS P getS" "sendsS P (liftS r)" "sendsS P (requireS ok e)"
  "sendsS P (date_now C)" "sendsS P (random_hex C n)"
  by (simp_all add: sendsS_def sx_defs date_now_def random_hex_def)

lemma sendsS_issue [intro]: "P c \<Longrightarrow> sendsS P (issue C c)"
  by (simp add: sendsS_def issue_def split: prod.split)

lemma sendsS_then:
  assumes "sendsS P m" and "m w = (r, w')" and "\<exists>cs. rw_trace v = rw_trace w' @ cs \<and> list_all (\<lambda>c. P (fst c)) cs"
  shows "\<exists>cs. rw_trace v = rw_trace w @ cs \<and> list_all (\<lambda>c. P (fst c)) cs"
proof -
  from assms(1,2) obtain as where "rw_trace w' = rw_trace w @ as" "list_all (\<lambda>c. P (fst c)) as"
    unfolding sendsS_def by (metis snd_conv)
  with assms(3) show ?thesis by auto
qed

lemma sendsS_bind [intro]:
  assumes "sendsS P m" and "\<And>x. sendsS P (f x)"
  shows "sendsS P (bindS m f)"
  unfolding sendsS_def
proof
  fix w obtain r w' where m: "m w = (r, w')" by (cases "m w")
  have "\<exists>cs. rw_trace (snd (bindS m f w)) = rw_trace w' @ cs \<and> list_all (\<lambda>c. P (fst c)) cs"
    using m assms(2) by (cases r) (auto simp: bindS_def sendsS_def)
  with sendsS_then [OF assms(1) m] show "\<exists>cs. rw_trace (snd (bindS m f w)) = rw_trace w @ cs \<and> list_all (\<lambda>c. P (fst c)) cs" .
qed

lemma sendsS_catch [intro]:
  assumes "sendsS P m" and "\<And>e. sendsS P (h e)"
  shows "sendsS P (catchS m h)"
  unfolding sendsS_def
proof
  fix w obtain r w' where m: "m w = (r, w')" by (cases "m w")
  have "\<exists>cs. rw_trace (snd (catchS m h w)) = rw_trace w' @ cs \<and> list_all (\<lambda>c. P (fst c)) cs"
    using m assms(2) by (cases r) (auto simp: catchS_def sendsS_def)
  with sendsS_then [OF assms(1) m] show "\<exists>cs. rw_trace (snd (catchS m h w)) = rw_trace w @ cs \<and> list_all (\<lambda>c. P (fst c)) cs" .
qed

lemma sendsS_both [intro]:
  assumes "sendsS P m" and "sendsS P n"
  shows "sendsS P (bothS m n)"
  unfolding sendsS_def
proof
  fix w obtain r w' where m: "m w = (r, w')" by (cases "m w")
  have "rw_trace (snd (bothS m n w)) = rw_trace (snd (n w'))" using m by (simp add: bothS_def split: prod.split)
  then have "\<exists>cs. rw_trace (snd (bothS m n w)) = rw_trace w' @ cs \<and> list_all (\<lambda>c. P (fst c)) cs"
    using assms(2) by (simp add: sendsS_def)
  with sendsS_then [OF assms(1) m] show "\<exists>cs. rw_trace (snd (bothS m n w)) = rw_trace w @ cs \<and> list_all (\<lambda>c. P (fst c)) cs" .
qed

lemma sendsS_if [intro]: "sendsS P m \<Longrightarrow> sendsS P n \<Longrightarrow> sendsS P (if b then m else n)"
  by simp

lemma sendsS_connected [intro]: "sendsS P (connectedClient C cfg)"
  unfolding connectedClient_def by (intro sendsS_bind sendsS_if sendsS_basic) (simp add: sendsS_def split: prod.split)

lemma sendsS_raced [intro]: "sendsS P m \<Longrightarrow> sendsS P (raced C m)"
  unfolding sendsS_def raced_def by (auto split: prod.split) (metis snd_conv)+

lemma sendsS_shared [intro]: "sendsS P close_shared"
  by (simp add: sendsS_def close_shared_def modifyS_def)

lemma sendsS_withClient [intro]: "sendsS P m \<Longrightarrow> sendsS P (withClient C cfg m)"
  unfolding withClient_def
  by (intro sendsS_if sendsS_catch sendsS_bind sendsS_connected sendsS_raced sendsS_shared sendsS_basic)

end
