(* ===== verification/RedisSafety.thy ===== *)
theory RedisSafety
  imports RedisOperations
begin

text \<open>
  What the Redis operations guarantee over the commands they send: a capture changes nothing on the
  server, releases the pause and holds exactly what the server dumped; a restore replaces the
  database only after every dump was accepted; the two compose to a round trip; the cache stays
  out of backups.
\<close>

section \<open>Capture\<close>

fun reads_only :: "command \<Rightarrow> bool" where
  "reads_only (Pause ms) = True"
| "reads_only Unpause = True"
| "reads_only (Scan c) = True"
| "reads_only (Dump k) = True"
| "reads_only (PTtl k) = True"
| "reads_only _ = False"

abbreviation (input) sent :: "'s redis_world \<Rightarrow> 's redis_world \<Rightarrow> (command \<times> reply res) list \<Rightarrow> bool" where
  "sent w w' cs \<equiv> rw_trace w' = rw_trace w @ cs"

lemma withClient_cases:
  assumes "withClient C cfg m w = (r, w')"
  obtains (idle) e where "r = Inl e" and "rw_trace w' = rw_trace w"
  | (ran) w1 q w2 where "rw_trace w1 = rw_trace w" and "m w1 = (q, w2)" and "rw_trace w' = rw_trace w2" and "\<And>x. r = Inr x \<Longrightarrow> q = Inr x"
proof (cases "cf_enabled cfg")
  case False
  then show ?thesis using assms idle by (auto simp: withClient_def throwS_def)
next
  case True
  obtain c w1 where c: "connectedClient C cfg w = (c, w1)" by (cases "connectedClient C cfg w")
  have t: "rw_trace w1 = rw_trace w"
    using c by (auto simp: connectedClient_def sx_defs split: prod.splits sum.splits if_splits)
  show ?thesis
  proof (cases c)
    case (Inl e)
    then show ?thesis using assms True c t idle
      by (auto simp: withClient_def catchS_def bindS_def throwS_def close_shared_def modifyS_def returnS_def split: if_splits)
  next
    case (Inr u)
    obtain q w2 where q: "m w1 = (q, w2)" by (cases "m w1")
    have "rw_trace w' = rw_trace w2" and "\<And>x. r = Inr x \<Longrightarrow> q = Inr x"
      using assms True c Inr q
      by (auto simp: withClient_def catchS_def bindS_def raced_def throwS_def close_shared_def modifyS_def returnS_def split: if_splits sum.splits)
    then show ?thesis using ran t q by blast
  qed
qed

lemma issue_sent: "issue C c w = (r, w') \<Longrightarrow> sent w w' [(c, r)]"
  by (auto simp: issue_def split: prod.splits)

lemma capture_expiry_quiet: "keepsS rw_trace (capture_expiry C t)"
  unfolding capture_expiry_def by (intro keepsS_if keepsS_bind keepsS_basic) (simp add: keepsS_def date_now_def)

lemma bothS_Inr: "bothS m n w = (Inr (x, y), w') \<longleftrightarrow> (\<exists>w1. m w = (Inr x, w1) \<and> n w1 = (Inr y, w'))"
  by (auto simp: bothS_def bindR_def split: prod.splits sum.splits)

lemma capture_key_Inr:
  assumes run: "capture_key C cfg key s w = (Inr s', w')"
  obtains (skipped) "isCacheKey cfg key \<or> b64_encode key \<in> set (cs_seen s)" and "s' = s" and "w' = w"
  | (dumped) dv tv x where "\<not> isCacheKey cfg key" and "sent w w' [(Dump key, Inr dv), (PTtl key, Inr tv)]"
      and "cs_seen s' = b64_encode key # cs_seen s"
      and "cs_entries s' = cs_entries s @ (case dump_bytes dv of None \<Rightarrow> []
             | Some d \<Rightarrow> [\<lparr>re_key = b64_encode key, re_dump = b64_encode d, re_expiresAt = x\<rparr>])"
proof (cases "isCacheKey cfg key \<or> b64_encode key \<in> set (cs_seen s)")
  case True
  with run have "s' = s \<and> w' = w" by (auto simp: capture_key_def Let_def returnS_def)
  with True show ?thesis using skipped by blast
next
  case False
  let ?s = "s\<lparr>cs_seen := b64_encode key # cs_seen s\<rparr>"
  have "bindS (bothS (issue C (Dump key)) (issue C (PTtl key))) (add_dump C cfg key ?s) w = (Inr s', w')"
  proof (cases "int (length (cs_seen ?s)) > cf_maxBackupKeys cfg")
    case True
    with run False show ?thesis by (simp add: capture_key_def Let_def throwS_def)
  next
    case small: False
    show ?thesis using run False small unfolding capture_key_def Let_def by (simp only: if_False)
  qed
  then obtain rs w2 where "bothS (issue C (Dump key)) (issue C (PTtl key)) w = (Inr rs, w2)"
      and "add_dump C cfg key ?s rs w2 = (Inr s', w')"
    unfolding bindS_Inr by (elim exE conjE)
  then obtain dv tv where both: "bothS (issue C (Dump key)) (issue C (PTtl key)) w = (Inr (dv, tv), w2)"
      and tail: "add_dump C cfg key ?s (dv, tv) w2 = (Inr s', w')"
    by (cases rs) auto
  from both have t: "sent w w2 [(Dump key, Inr dv), (PTtl key, Inr tv)]" by (auto simp: bothS_Inr dest!: issue_sent)
  show ?thesis
  proof (cases "dump_bytes dv")
    case None
    with tail have "w' = w2" "s' = ?s" by (auto simp: add_dump_def returnS_def)
    then show ?thesis using dumped False t None by simp
  next
    case (Some d)
    with tail obtain x where y: "capture_expiry C (reply_number tv) w2 = (Inr x, w')"
        and s': "cs_seen s' = b64_encode key # cs_seen s" "cs_entries s' = cs_entries s @ [\<lparr>re_key = b64_encode key, re_dump = b64_encode d, re_expiresAt = x\<rparr>]"
      by (auto simp: add_dump_def Let_def bindS_Inr throwS_def returnS_def split: if_splits)
    have "rw_trace w' = rw_trace w2" using keepsS_D [OF capture_expiry_quiet y] .
    then show ?thesis using dumped False t s' Some by simp
  qed
qed

definition dumped_with :: "(command \<times> reply res) list \<Rightarrow> string \<Rightarrow> string \<Rightarrow> bool" where
  "dumped_with cs key dump \<longleftrightarrow> (Dump key, Inr (Bytes (Some dump))) \<in> set cs"

definition entry_for :: "string \<Rightarrow> string \<Rightarrow> redis_entry \<Rightarrow> bool" where
  "entry_for key dump e \<longleftrightarrow> re_key e = b64_encode key \<and> re_dump e = b64_encode dump"

definition captured_by :: "redis_config \<Rightarrow> (command \<times> reply res) list \<Rightarrow> capture \<Rightarrow> bool" where
  "captured_by cfg cs s \<longleftrightarrow>
     (\<forall>e \<in> set (cs_entries s). \<exists>key dump. entry_for key dump e \<and> \<not> isCacheKey cfg key \<and> dumped_with cs key dump)
   \<and> (\<forall>key dump. dumped_with cs key dump \<longrightarrow> (\<exists>e \<in> set (cs_entries s). entry_for key dump e))
   \<and> (\<forall>key. b64_encode key \<in> set (cs_seen s) \<longrightarrow> (\<exists>r. (Dump key, r) \<in> set cs))"

lemma b64_encode_inj: "b64_encode a = b64_encode b \<longleftrightarrow> a = b"
  by (metis b64_round_trip)

lemma dump_bytes_Some: "dump_bytes dv = Some d \<longleftrightarrow> dv = Bytes (Some d)"
  by (cases dv) auto

lemma dumped_with_append: "dumped_with (cs @ ds) key dump \<longleftrightarrow> dumped_with cs key dump \<or> dumped_with ds key dump"
  by (auto simp: dumped_with_def)

lemma captured_step:
  assumes inv: "captured_by cfg cs s" and key: "\<not> isCacheKey cfg key" and seen: "cs_seen s' = b64_encode key # cs_seen s"
    and entries: "cs_entries s' = cs_entries s @ (case dump_bytes dv of None \<Rightarrow> []
             | Some d \<Rightarrow> [\<lparr>re_key = b64_encode key, re_dump = b64_encode d, re_expiresAt = x\<rparr>])"
  shows "captured_by cfg (cs @ [(Dump key, Inr dv), (PTtl key, tv)]) s'"
proof (cases "dump_bytes dv")
  case None
  then have "dumped_with (cs @ [(Dump key, Inr dv), (PTtl key, tv)]) k d \<longleftrightarrow> dumped_with cs k d" for k d
    by (auto simp: dumped_with_def)
  with inv seen entries None show ?thesis unfolding captured_by_def by (auto simp: b64_encode_inj)
next
  case (Some d)
  then have dv: "dv = Bytes (Some d)" by (simp add: dump_bytes_Some)
  have dumps: "dumped_with (cs @ [(Dump key, Inr dv), (PTtl key, tv)]) k d' \<longleftrightarrow> dumped_with cs k d' \<or> (k = key \<and> d' = d)" for k d'
    by (auto simp: dumped_with_def dv)
  have new: "entry_for key d \<lparr>re_key = b64_encode key, re_dump = b64_encode d, re_expiresAt = x\<rparr>" by (simp add: entry_for_def)
  have es: "set (cs_entries s') = insert \<lparr>re_key = b64_encode key, re_dump = b64_encode d, re_expiresAt = x\<rparr> (set (cs_entries s))"
    using entries Some by simp
  let ?cs = "cs @ [(Dump key, Inr dv), (PTtl key, tv)]"
  have "\<forall>e \<in> set (cs_entries s'). \<exists>k d. entry_for k d e \<and> \<not> isCacheKey cfg k \<and> dumped_with ?cs k d"
    using inv key new unfolding es dumps captured_by_def by blast
  moreover have "\<forall>k d. dumped_with ?cs k d \<longrightarrow> (\<exists>e \<in> set (cs_entries s'). entry_for k d e)"
    using inv new unfolding es dumps captured_by_def by blast
  moreover have "\<forall>k. b64_encode k \<in> set (cs_seen s') \<longrightarrow> (\<exists>r. (Dump k, r) \<in> set ?cs)"
    using inv unfolding seen captured_by_def by (auto simp: b64_encode_inj)
  ultimately show ?thesis unfolding captured_by_def by blast
qed

lemma capture_keys_Inr:
  assumes "capture_keys C cfg keys s w = (Inr s', w')" and "captured_by cfg cs s"
  shows "\<exists>ds. sent w w' ds \<and> captured_by cfg (cs @ ds) s' \<and> set (cs_seen s) \<subseteq> set (cs_seen s')
    \<and> (\<forall>key \<in> set keys. isCacheKey cfg key \<or> b64_encode key \<in> set (cs_seen s')) \<and> (\<forall>c r. (Scan c, r) \<notin> set ds)"
  using assms
proof (induction keys arbitrary: s w cs)
  case Nil
  then show ?case by (auto simp: returnS_def)
next
  case (Cons key keys)
  from Cons.prems(1) obtain s1 w1 where one: "capture_key C cfg key s w = (Inr s1, w1)" and rest: "capture_keys C cfg keys s1 w1 = (Inr s', w')"
    by (auto simp: bindS_Inr)
  from one show ?case
  proof (cases rule: capture_key_Inr)
    case skipped
    from Cons.IH [OF rest [unfolded skipped] Cons.prems(2)] obtain ds where "sent w w' ds" "captured_by cfg (cs @ ds) s'"
        "set (cs_seen s) \<subseteq> set (cs_seen s')" "\<forall>key \<in> set keys. isCacheKey cfg key \<or> b64_encode key \<in> set (cs_seen s')"
        "\<forall>c r. (Scan c, r) \<notin> set ds"
      by blast
    then show ?thesis using skipped(1) by (intro exI [of _ ds]) auto
  next
    case (dumped dv tv x)
    have "captured_by cfg (cs @ [(Dump key, Inr dv), (PTtl key, Inr tv)]) s1"
      by (rule captured_step [OF Cons.prems(2) dumped(1,3,4)])
    from Cons.IH [OF rest this] obtain ds where ds: "sent w1 w' ds" "captured_by cfg ((cs @ [(Dump key, Inr dv), (PTtl key, Inr tv)]) @ ds) s'"
        "set (cs_seen s1) \<subseteq> set (cs_seen s')" "\<forall>key \<in> set keys. isCacheKey cfg key \<or> b64_encode key \<in> set (cs_seen s')"
        "\<forall>c r. (Scan c, r) \<notin> set ds"
      by blast
    then have "sent w w' ([(Dump key, Inr dv), (PTtl key, Inr tv)] @ ds)" using dumped(2) by simp
    then show ?thesis using ds dumped(3) by (intro exI [of _ "[(Dump key, Inr dv), (PTtl key, Inr tv)] @ ds"]) auto
  qed
qed

definition scans_seen :: "redis_config \<Rightarrow> (command \<times> reply res) list \<Rightarrow> capture \<Rightarrow> bool" where
  "scans_seen cfg cs s \<longleftrightarrow> (\<forall>c reply key. (Scan c, Inr reply) \<in> set cs \<longrightarrow> key \<in> set (snd (scan_parts reply))
     \<longrightarrow> isCacheKey cfg key \<or> b64_encode key \<in> set (cs_seen s))"

lemma captured_scan: "captured_by cfg cs s \<Longrightarrow> captured_by cfg (cs @ [(Scan c, r)]) s"
  by (auto simp: captured_by_def dumped_with_def)

lemma scan_loop_Inr:
  assumes "scan_loop C cfg n cursor s w = (Inr s', w')" and "captured_by cfg cs s" and "scans_seen cfg cs s"
  shows "\<exists>ds. sent w w' ds \<and> captured_by cfg (cs @ ds) s' \<and> scans_seen cfg (cs @ ds) s'"
  using assms
proof (induction n arbitrary: cursor s w cs)
  case 0
  then show ?case by (simp add: throwS_def)
next
  case (Suc n)
  from Suc.prems(1) obtain reply w1 s2 w2 where scan: "issue C (Scan cursor) w = (Inr reply, w1)"
      and keys: "capture_keys C cfg (snd (scan_parts reply)) s w1 = (Inr s2, w2)"
      and rest: "(if fst (scan_parts reply) = ''0'' then returnS s2 else scan_loop C cfg n (fst (scan_parts reply)) s2) w2 = (Inr s', w')"
    by (auto simp: bindS_Inr)
  let ?a = "[(Scan cursor, Inr reply)]"
  from capture_keys_Inr [OF keys captured_scan [OF Suc.prems(2)]] obtain ds where ds: "sent w1 w2 ds" "captured_by cfg ((cs @ ?a) @ ds) s2"
      "set (cs_seen s) \<subseteq> set (cs_seen s2)" "\<forall>key \<in> set (snd (scan_parts reply)). isCacheKey cfg key \<or> b64_encode key \<in> set (cs_seen s2)"
      "\<forall>c r. (Scan c, r) \<notin> set ds"
    by blast
  have scanned: "scans_seen cfg (cs @ ?a @ ds) s2"
    using Suc.prems(3) ds(3-5) unfolding scans_seen_def by auto
  have sent: "sent w w2 (?a @ ds)" using issue_sent [OF scan] ds(1) by simp
  show ?case
  proof (cases "fst (scan_parts reply) = ''0''")
    case True
    then have "s' = s2" "w' = w2" using rest by (simp_all add: returnS_def)
    then show ?thesis using sent scanned ds(2) by (intro exI [of _ "?a @ ds"]) simp
  next
    case False
    then have "scan_loop C cfg n (fst (scan_parts reply)) s2 w2 = (Inr s', w')" using rest by simp
    from Suc.IH [OF this, of "cs @ ?a @ ds"] ds(2) scanned obtain es where
      "sent w2 w' es" "captured_by cfg ((cs @ ?a @ ds) @ es) s'" "scans_seen cfg ((cs @ ?a @ ds) @ es) s'" by auto
    then show ?thesis using sent by (intro exI [of _ "?a @ ds @ es"]) simp
  qed
qed

lemma sendsS_expiry [intro]: "sendsS P (capture_expiry C t)"
  by (rule sendsS_quiet [OF capture_expiry_quiet])

lemma sendsS_add_dump [intro]: "sendsS P (add_dump C cfg key s rs)"
  unfolding add_dump_def Let_def by (auto split: option.split intro!: sendsS_bind)

lemma sendsS_capture_key [intro]: "sendsS reads_only (capture_key C cfg key s)"
  unfolding capture_key_def Let_def by (intro sendsS_if sendsS_bind sendsS_both sendsS_issue sendsS_add_dump sendsS_basic) simp_all

lemma sendsS_capture_keys [intro]: "sendsS reads_only (capture_keys C cfg keys s)"
  by (induction keys arbitrary: s) (auto intro!: sendsS_bind)

lemma sendsS_scan_loop [intro]: "sendsS reads_only (scan_loop C cfg n cursor s)"
  by (induction n arbitrary: cursor s) (auto intro!: sendsS_bind)

lemma sendsS_D: "sendsS P m \<Longrightarrow> m w = (r, w') \<Longrightarrow> \<exists>cs. sent w w' cs \<and> list_all (\<lambda>c. P (fst c)) cs"
  by (metis sendsS_def snd_conv)

definition released :: "(command \<times> reply res) list \<Rightarrow> bool" where
  "released cs \<longleftrightarrow> (\<forall>ms x. (Pause ms, Inr x) \<in> set cs \<longrightarrow> fst (last cs) = Unpause)"

definition exact_capture :: "redis_config \<Rightarrow> (command \<times> reply res) list \<Rightarrow> redis_entry list \<Rightarrow> bool" where
  "exact_capture cfg cs es \<longleftrightarrow>
     (\<forall>e \<in> set es. \<exists>key dump. entry_for key dump e \<and> \<not> isCacheKey cfg key \<and> dumped_with cs key dump)
   \<and> (\<forall>key dump. dumped_with cs key dump \<longrightarrow> (\<exists>e \<in> set es. entry_for key dump e))
   \<and> (\<forall>c reply key. (Scan c, Inr reply) \<in> set cs \<longrightarrow> key \<in> set (snd (scan_parts reply)) \<longrightarrow> \<not> isCacheKey cfg key
        \<longrightarrow> (\<exists>r. (Dump key, r) \<in> set cs))"

lemma exact_captureI: "captured_by cfg cs s \<Longrightarrow> scans_seen cfg cs s \<Longrightarrow> exact_capture cfg cs (cs_entries s)"
  unfolding captured_by_def scans_seen_def exact_capture_def by blast

lemma exact_capture_frame:
  "exact_capture cfg cs es \<Longrightarrow> exact_capture cfg ((Pause ms, a) # cs @ [(Unpause, b)]) es"
  by (auto simp: exact_capture_def dumped_with_def)

lemma capture_paused_sent:
  assumes "capture_paused C cfg w = (r, w')"
  shows "\<exists>cs. sent w w' cs \<and> list_all (\<lambda>c. reads_only (fst c)) cs \<and> released cs
    \<and> (\<forall>s. r = Inr s \<longrightarrow> exact_capture cfg cs (cs_entries s))"
proof -
  obtain p w1 where p: "issue C (Pause (cf_backupPauseMs cfg)) w = (p, w1)" by (cases "issue C (Pause (cf_backupPauseMs cfg)) w")
  note p' = issue_sent [OF p]
  show ?thesis
  proof (cases p)
    case (Inl e)
    with assms p have "r = Inl e" "w' = w1" by (auto simp: capture_paused_def bindS_def)
    then show ?thesis using p' Inl by (auto simp: released_def)
  next
    case (Inr x)
    let ?s0 = "\<lparr>cs_entries = [], cs_seen = [], cs_bytes = 0\<rparr>"
    obtain q w2 where q: "scan_loop C cfg (rc_rounds C) ''0'' ?s0 w1 = (q, w2)" by (cases "scan_loop C cfg (rc_rounds C) ''0'' ?s0 w1")
    obtain u w3 where u: "issue C Unpause w2 = (u, w3)" by (cases "issue C Unpause w2")
    have r: "r = q" "w' = w3"
      using assms p Inr q u by (cases u; auto simp: capture_paused_def bindS_def finallyS_def catchS_def returnS_def)+
    from sendsS_D [OF sendsS_scan_loop q] obtain cs where cs: "sent w1 w2 cs" "list_all (\<lambda>c. reads_only (fst c)) cs" by blast
    have "exact_capture cfg cs (cs_entries s)" if "q = Inr s" for s
    proof -
      have "captured_by cfg [] ?s0" "scans_seen cfg [] ?s0" by (simp_all add: captured_by_def scans_seen_def dumped_with_def)
      from scan_loop_Inr [OF q [unfolded that] this] obtain ds where "sent w1 w2 ds" "captured_by cfg ds s" "scans_seen cfg ds s" by auto
      then show ?thesis using cs(1) exact_captureI by simp
    qed
    moreover have "sent w w' ((Pause (cf_backupPauseMs cfg), p) # cs @ [(Unpause, u)])"
      using p' cs(1) issue_sent [OF u] r by simp
    ultimately show ?thesis
      using cs(2) r exact_capture_frame by (intro exI [of _ "(Pause (cf_backupPauseMs cfg), p) # cs @ [(Unpause, u)]"]) (auto simp: released_def)
  qed
qed

lemma exact_capture_same:
  assumes "exact_capture cfg cs es" and "list_all2 same_entry es es'"
  shows "exact_capture cfg cs es'"
proof -
  have fw: "\<exists>e' \<in> set es'. same_entry e e'" if "e \<in> set es" for e
    using assms(2) that by (auto simp: list_all2_conv_all_nth in_set_conv_nth) (metis nth_mem)
  have bw: "\<exists>e \<in> set es. same_entry e e'" if "e' \<in> set es'" for e'
    using assms(2) that by (auto simp: list_all2_conv_all_nth in_set_conv_nth) (metis nth_mem)
  have same: "entry_for k d e' \<longleftrightarrow> entry_for k d e" if "same_entry e e'" for e e' k d
    using that by (auto simp: same_entry_def entry_for_def)
  from assms(1) have "\<exists>key dump. entry_for key dump e' \<and> \<not> isCacheKey cfg key \<and> dumped_with cs key dump" if "e' \<in> set es'" for e'
    using bw [OF that] same unfolding exact_capture_def by meson
  moreover from assms(1) have "\<exists>e' \<in> set es'. entry_for k d e'" if "dumped_with cs k d" for k d
    using that fw same unfolding exact_capture_def by meson
  ultimately show ?thesis using assms(1) unfolding exact_capture_def by blast
qed

lemma capture_sent:
  assumes "captureBackup R C cfg w = (r, w')"
  shows "\<exists>cs. sent w w' cs \<and> list_all (\<lambda>c. reads_only (fst c)) cs \<and> released cs \<and> (\<forall>b. r = Inr b \<longrightarrow>
    exact_capture cfg cs (rb_entries b) \<and> list_all (entry_settled R) (rb_entries b))"
  using assms unfolding captureBackup_def
proof (cases rule: withClient_cases)
  case (idle e)
  then show ?thesis by (auto simp: released_def)
next
  case (ran w1 q w2)
  obtain t w3 where t: "date_now C w1 = (Inr t, w3)" "rw_trace w3 = rw_trace w1" by (simp add: date_now_def)
  obtain p w4 where p: "capture_paused C cfg w3 = (p, w4)" by (cases "capture_paused C cfg w3")
  from capture_paused_sent [OF p] obtain cs where cs: "sent w3 w4 cs" "list_all (\<lambda>c. reads_only (fst c)) cs" "released cs"
    "\<forall>s. p = Inr s \<longrightarrow> exact_capture cfg cs (cs_entries s)" by blast
  have "rw_trace w2 = rw_trace w4" using ran(2) t p by (cases p) (auto simp: capture_operation_def bindS_def random_hex_def liftS_def)
  then have sent: "sent w w' cs" using ran(1,3) t(2) cs(1) by simp
  have "exact_capture cfg cs (rb_entries b) \<and> list_all (entry_settled R) (rb_entries b)" if "r = Inr b" for b
  proof -
    from ran(2) [unfolded ran(4) [OF that]] t(1) p obtain s hex where s: "p = Inr s"
        and v: "validateRedisBackupDocument R (JInt (cf_maxBackupKeys cfg)) (JInt (cf_maxBackupBytes cfg)) (redis_document (captured_document cfg t hex s)) = Inr b"
      by (auto simp: capture_operation_def bindS_Inr basicS_iff)
    let ?d = "captured_document cfg t hex s"
    have d: "rb_entries ?d = cs_entries s" by (simp add: captured_document_def)
    from cs(4) s have ex: "exact_capture cfg cs (cs_entries s)" by blast
    then have "list_all encoded_entry (rb_entries ?d)"
      unfolding d exact_capture_def entry_for_def encoded_entry_def list_all_iff by blast
    from validate_entries [OF v, THEN conjunct2, rule_format, OF refl this, unfolded d]
    have "exact_capture cfg cs (rb_entries b)" by (rule exact_capture_same [OF ex])
    with validate_entries [OF v, THEN conjunct1] show ?thesis by simp
  qed
  with sent cs show ?thesis by blast
qed

section \<open>Restore\<close>

fun validation_command :: "command \<Rightarrow> bool" where
  "validation_command (Restore k t d) = starts_with validation_prefix k"
| "validation_command (Del ks) = list_all (starts_with validation_prefix) ks"
| "validation_command _ = False"

definition dump_accepted :: "(command \<times> reply res) list \<Rightarrow> planned \<Rightarrow> bool" where
  "dump_accepted cs p \<longleftrightarrow> (\<exists>vk y. (Restore vk 60000 (snd (snd p)), Inr y) \<in> set cs)"

lemma dump_accepted_more: "list_all (dump_accepted cs) plan \<Longrightarrow> set cs \<subseteq> set ds \<Longrightarrow> list_all (dump_accepted ds) plan"
  unfolding list_all_iff dump_accepted_def by blast

definition restores_from :: "redis_entry list \<Rightarrow> planned list \<Rightarrow> bool" where
  "restores_from es plan \<longleftrightarrow>
     (\<forall>(k, t, d) \<in> set plan. 0 \<le> t \<and> (\<exists>e \<in> set es. k = b64_decode (re_key e) \<and> d = b64_decode (re_dump e)))
   \<and> (\<forall>e \<in> set es. re_expiresAt e = None \<longrightarrow> (b64_decode (re_key e), 0, b64_decode (re_dump e)) \<in> set plan)"

lemma remaining_ttl_run:
  "\<exists>x w'. remaining_ttl R C e w = (Inr x, w') \<and> rw_trace w' = rw_trace w \<and> (re_expiresAt e = None \<longrightarrow> x = Some 0)"
  by (cases "re_expiresAt e") (auto simp: remaining_ttl_def returnS_def bindS_def date_now_def)

lemma restored_entries_run:
  "\<exists>plan w'. restored_entries R C es w = (Inr plan, w') \<and> rw_trace w' = rw_trace w \<and> restores_from es plan"
proof (induction es arbitrary: w)
  case Nil
  then show ?case by (simp add: returnS_def restores_from_def)
next
  case (Cons e es)
  obtain x w1 where x: "remaining_ttl R C e w = (Inr x, w1)" "rw_trace w1 = rw_trace w" "re_expiresAt e = None \<longrightarrow> x = Some 0"
    using remaining_ttl_run by metis
  obtain plan w2 where p: "restored_entries R C es w1 = (Inr plan, w2)" "rw_trace w2 = rw_trace w1" "restores_from es plan"
    using Cons.IH by metis
  let ?plan = "case x of None \<Rightarrow> plan | Some t \<Rightarrow> if t = 0 \<or> t > 0 then (b64_decode (re_key e), t, b64_decode (re_dump e)) # plan else plan"
  have "restored_entries R C (e # es) w = (Inr ?plan, w2)" using x(1) p(1) by (simp add: bindS_def returnS_def)
  moreover have "restores_from (e # es) ?plan"
    using p(3) x(3) unfolding restores_from_def by (auto split: option.split)
  ultimately show ?case using x(2) p(2) by auto
qed

lemma check_dumps_sent:
  assumes "check_dumps C i plan w = ((r, keys), w')"
  shows "\<exists>cs. sent w w' cs \<and> list_all (\<lambda>c. validation_command (fst c)) cs \<and> list_all (starts_with validation_prefix) keys
    \<and> (r = Inr () \<longrightarrow> list_all (dump_accepted cs) plan)"
  using assms
proof (induction plan arbitrary: i w keys)
  case Nil
  then show ?case by simp
next
  case (Cons p plan)
  obtain k t d where p: "p = (k, t, d)" by (cases p)
  obtain h w1 where h: "random_hex C 16 w = (Inr h, w1)" "rw_trace w1 = rw_trace w" by (simp add: random_hex_def)
  let ?vk = "validation_prefix @ h @ '':'' @ show_int (int i)"
  obtain q w2 where q: "issue C (Restore ?vk 60000 d) w1 = (q, w2)" by (cases "issue C (Restore ?vk 60000 d) w1")
  note t = issue_sent [OF q]
  show ?case
  proof (cases q)
    case (Inl e)
    then show ?thesis using Cons.prems p h q t by (auto simp: Let_def)
  next
    case (Inr y)
    obtain r1 ks w3 where c: "check_dumps C (Suc i) plan w2 = ((r1, ks), w3)" by (metis prod.exhaust)
    with Cons.prems p h(1) q Inr have r: "r1 = r" "keys = ?vk # ks" "w3 = w'" by (auto simp: Let_def)
    from Cons.IH [OF c [unfolded r]] obtain cs where cs: "sent w2 w' cs" "list_all (\<lambda>c. validation_command (fst c)) cs"
      "list_all (starts_with validation_prefix) ks" "r = Inr () \<longrightarrow> list_all (dump_accepted cs) plan" by auto
    have "list_all (dump_accepted ((Restore ?vk 60000 d, q) # cs)) (p # plan)" if "r = Inr ()"
    proof -
      have "list_all (dump_accepted ((Restore ?vk 60000 d, q) # cs)) plan" using cs(4) that by (auto intro: dump_accepted_more)
      then show ?thesis using Inr p by (auto simp: dump_accepted_def)
    qed
    then show ?thesis
      using cs(1-3) t h(2) r(2) by (intro exI [of _ "(Restore ?vk 60000 d, q) # cs"]) auto
  qed
qed

lemma checked_dumps_sent:
  assumes "checked_dumps C plan w = (r, w')"
  shows "\<exists>cs. sent w w' cs \<and> list_all (\<lambda>c. validation_command (fst c)) cs \<and> (r = Inr () \<longrightarrow> list_all (dump_accepted cs) plan)"
proof -
  obtain q ks w1 where c: "check_dumps C 0 plan w = ((q, ks), w1)" by (metis prod.exhaust)
  obtain u w2 where u: "issue C (Del ks) w1 = (u, w2)" by (cases "issue C (Del ks) w1")
  from check_dumps_sent [OF c] obtain cs where cs: "sent w w1 cs" "list_all (\<lambda>c. validation_command (fst c)) cs"
    "list_all (starts_with validation_prefix) ks" "q = Inr () \<longrightarrow> list_all (dump_accepted cs) plan" by blast
  have r: "r = q" "w' = (if ks = [] then w1 else w2)" using assms c u by (auto simp: checked_dumps_def)
  have "list_all (dump_accepted (cs @ [(Del ks, u)])) plan" if "list_all (dump_accepted cs) plan"
    using that by (rule dump_accepted_more) auto
  then show ?thesis
    using cs r issue_sent [OF u] by (cases "ks = []") (auto intro: exI [of _ cs] exI [of _ "cs @ [(Del ks, u)]"])
qed

definition restore_commands :: "runtime \<Rightarrow> redis_config \<Rightarrow> jsv \<Rightarrow> (command \<times> reply res) list \<Rightarrow> bool" where
  "restore_commands R cfg input cs \<longleftrightarrow> (\<forall>c \<in> set cs. validation_command (fst c) \<or> (\<exists>T. fst c = Transaction T))
   \<and> (\<forall>T x. (Transaction T, x) \<in> set cs \<longrightarrow> (\<exists>b plan.
        validateRedisBackupDocument R (JInt (cf_maxBackupKeys cfg)) (JInt (cf_maxBackupBytes cfg)) input = Inr b
      \<and> T = FlushDb # map restore_command plan \<and> restores_from (rb_entries b) plan \<and> list_all (dump_accepted cs) plan))"

lemma restore_operation_sent:
  assumes run: "restore_operation R C b w = (r, w')"
    and ok: "validateRedisBackupDocument R (JInt (cf_maxBackupKeys cfg)) (JInt (cf_maxBackupBytes cfg)) input = Inr b"
  shows "\<exists>cs. sent w w' cs \<and> restore_commands R cfg input cs"
proof -
  obtain plan w1 where plan: "restored_entries R C (rb_entries b) w = (Inr plan, w1)" "rw_trace w1 = rw_trace w" "restores_from (rb_entries b) plan"
    using restored_entries_run by metis
  obtain c w2 where c: "checked_dumps C plan w1 = (c, w2)" by (cases "checked_dumps C plan w1")
  from checked_dumps_sent [OF c] obtain cs where cs: "sent w1 w2 cs" "list_all (\<lambda>c. validation_command (fst c)) cs"
    "c = Inr () \<longrightarrow> list_all (dump_accepted cs) plan" by blast
  let ?T = "FlushDb # map restore_command plan"
  obtain u w3 where u: "issue C (Transaction ?T) w2 = (u, w3)" by (cases "issue C (Transaction ?T) w2")
  show ?thesis
  proof (cases c)
    case (Inl e)
    with run plan(1) c have "w' = w2" by (auto simp: restore_operation_def bindS_def)
    then show ?thesis using cs plan(2) by (intro exI [of _ cs]) (auto simp: restore_commands_def list_all_iff)
  next
    case (Inr v)
    let ?cs = "cs @ [(Transaction ?T, u)]"
    from Inr run plan(1) c u have w': "w' = w3"
      by (cases u) (auto simp: restore_operation_def bindS_def requireS_def returnS_def throwS_def split: if_splits)
    have "list_all (dump_accepted ?cs) plan" using cs(3) Inr by (auto intro: dump_accepted_more)
    moreover have "T = ?T" if "(Transaction T, x) \<in> set ?cs" for T x
      using that cs(2) by (auto simp: list_all_iff)
    ultimately have "restore_commands R cfg input ?cs"
      using cs(2) plan(3) ok unfolding restore_commands_def list_all_iff by auto
    then show ?thesis using w' cs(1) issue_sent [OF u] plan(2) by (intro exI [of _ ?cs]) simp
  qed
qed

lemma restore_sent:
  assumes "restoreBackup R C cfg input w = (r, w')"
  shows "\<exists>cs. sent w w' cs \<and> restore_commands R cfg input cs"
proof (cases "validateRedisBackupDocument R (JInt (cf_maxBackupKeys cfg)) (JInt (cf_maxBackupBytes cfg)) input")
  case (Inl e)
  then show ?thesis using assms by (auto simp: restoreBackup_def bindS_def liftS_def restore_commands_def)
next
  case (Inr b)
  with assms have "withClient C cfg (restore_operation R C b) w = (r, w')" by (simp add: restoreBackup_def bindS_def liftS_def)
  then show ?thesis
  proof (cases rule: withClient_cases)
    case (idle e)
    then show ?thesis by (auto simp: restore_commands_def)
  next
    case (ran w1 q w2)
    from restore_operation_sent [OF ran(2) Inr] ran(1,3) show ?thesis by simp
  qed
qed

section \<open>The cache\<close>

fun cache_command :: "redis_config \<Rightarrow> command \<Rightarrow> bool" where
  "cache_command cfg (SetPx k v t) = (isCacheKey cfg k \<and> 250 \<le> t \<and> t \<le> 86400000)"
| "cache_command cfg (Del ks) = list_all (isCacheKey cfg) ks"
| "cache_command cfg (Get k) = isCacheKey cfg k"
| "cache_command cfg (Incr k) = isCacheKey cfg k"
| "cache_command cfg (PExpire k t) = (isCacheKey cfg k \<and> 60000 \<le> t \<and> t \<le> 7776000000)"
| "cache_command cfg _ = False"

lemma cacheKey_cached: "cacheKey cfg name = Inr key \<Longrightarrow> isCacheKey cfg key"
  by (auto simp: cacheKey_def isCacheKey_def starts_with_def Let_def split: if_splits)

lemma boundedInteger_range: "lo \<le> fb \<Longrightarrow> fb \<le> hi \<Longrightarrow> lo \<le> boundedInteger_redis v lo hi fb \<and> boundedInteger_redis v lo hi fb \<le> hi"
  by (simp add: boundedInteger_redis_def split: option.split)

lemma sendsS_cacheKey:
  assumes "\<And>key. isCacheKey cfg key \<Longrightarrow> sendsS P (f key)"
  shows "sendsS P (bindS (liftS (cacheKey cfg name)) f)"
  using assms [OF cacheKey_cached] by (cases "cacheKey cfg name") (auto simp: bindS_def liftS_def sendsS_def)

lemma default_returns: "\<exists>x w'. (if b then returnS a else catchS m (\<lambda>_. returnS d)) w = (Inr x, w')"
  by (auto simp: catchS_def returnS_def split: prod.splits sum.splits)

section \<open>A concrete server\<close>

text \<open>Keys with their dumps, none of them with an expiry; SCAN answers in one reply.\<close>

type_synonym server = "(string \<times> string) list"

fun apply_command :: "command \<Rightarrow> server \<Rightarrow> server" where
  "apply_command FlushDb db = []"
| "apply_command (Restore k t d) db = (k, d) # filter (\<lambda>p. fst p \<noteq> k) db"
| "apply_command (Del ks) db = filter (\<lambda>p. fst p \<notin> set ks) db"
| "apply_command _ db = db"

fun sample_call :: "command \<Rightarrow> server \<Rightarrow> reply res \<times> server" where
  "sample_call (Scan c) db = (Inr (ScanReply ''0'' (map fst db)), db)"
| "sample_call (Dump k) db = (Inr (Bytes (map_of db k)), db)"
| "sample_call (PTtl k) db = (Inr (Number (-1)), db)"
| "sample_call (Transaction cs) db = (Inr (Results (map (\<lambda>_. False) cs)), fold apply_command cs db)"
| "sample_call c db = (Inr Done, apply_command c db)"

definition sample_redis :: "server redis_client" where
  "sample_redis = \<lparr>rc_call = sample_call, rc_connect = (\<lambda>s. (Inr (), s)), rc_clock = (\<lambda>_. 0), rc_hex = (\<lambda>n _. replicate (2 * n) CHR ''a''),
     rc_secret = Some ''secret'', rc_certificate = True, rc_late = (\<lambda>_. False), rc_rounds = 10\<rparr>"

definition sample_config :: redis_config where
  "sample_config = redis_configuration (JObj [(''enabled'', JBool True), (''passwordFile'', JStr ''/run/secrets/redis'')])"

definition sample_database :: "server \<Rightarrow> server redis_world" where
  "sample_database db = \<lparr>rw_server = db, rw_shared = False, rw_trace = [], rw_reads = 0, rw_draws = 0\<rparr>"

definition stored_keys :: server where
  "stored_keys = [(''user'', ''d1''), (''control-center:cache:v1:overview'', ''d2'')]"

section \<open>Properties\<close>

text \<open>
  C34. A capture sends the server only commands that read, releases a pause it took with its last
  command however it ends, and a document it returns holds exactly the keys the server dumped:
  every entry is a dump of a key outside the cache, every dump is in an entry, and every key a
  SCAN reply named outside the cache was asked for.
\<close>

theorem captured_backup_is_exact:
  assumes "captureBackup R C cfg w = (r, w')"
  shows "\<exists>cs. sent w w' cs \<and> list_all (\<lambda>c. reads_only (fst c)) cs \<and> released cs
    \<and> (\<forall>b. r = Inr b \<longrightarrow> exact_capture cfg cs (rb_entries b))"
  using capture_sent [OF assms] by blast

text \<open>
  A key of length zero, which Redis allows, makes every capture that meets it fail: the document
  is refused by its own validator.
\<close>

theorem empty_key_blocks_backup:
  assumes run: "captureBackup R C cfg w = (r, w')" and "sent w w' cs" and key: "dumped_with cs [] dump"
  shows "\<exists>e. r = Inl e"
proof (cases r)
  case (Inr b)
  from capture_sent [OF run] assms(2) Inr have "exact_capture cfg cs (rb_entries b)" "list_all (entry_settled R) (rb_entries b)" by auto
  with key obtain e where "e \<in> set (rb_entries b)" "entry_for [] dump e" unfolding exact_capture_def by blast
  with \<open>list_all (entry_settled R) (rb_entries b)\<close> show ?thesis
    by (auto simp: list_all_iff entry_settled_def entry_for_def)
qed auto

text \<open>
  C35. A restore sends commands on its own validation keys and at most the transaction that flushes
  the database and restores the planned entries; that transaction is sent only for an accepted
  document and after the server took every planned dump under a validation key. The plan has
  entries of the document only, with no negative time to live, and every entry without expiry.
\<close>

theorem restore_replaces_after_validation:
  assumes "restoreBackup R C cfg input w = (r, w')"
  shows "\<exists>cs. sent w w' cs \<and> restore_commands R cfg input cs"
  by (rule restore_sent [OF assms])

text \<open>
  C36. What a restore of a captured document puts into the database is what the server gave when the
  document was captured: every key of the transaction is one the server dumped, with that dump,
  and every captured entry without expiry is restored without expiry.
\<close>

theorem captured_keys_are_restored:
  assumes capture: "captureBackup R C cfg w = (Inr b, w1)" and cs: "sent w w1 cs"
    and restore: "restoreBackup R' C' cfg' (redis_document b) w2 = (r, w3)" and ds: "sent w2 w3 ds" and T: "(Transaction T, x) \<in> set ds"
  shows "(\<forall>k t d. Restore k t d \<in> set T \<longrightarrow> dumped_with cs k d)
    \<and> (\<forall>e \<in> set (rb_entries b). re_expiresAt e = None \<longrightarrow> Restore (b64_decode (re_key e)) 0 (b64_decode (re_dump e)) \<in> set T)"
proof -
  from capture_sent [OF capture] cs have ex: "exact_capture cfg cs (rb_entries b)" and settled: "list_all (entry_settled R) (rb_entries b)" by auto
  from restore_sent [OF restore] ds T obtain b' plan
    where v: "validateRedisBackupDocument R' (JInt (cf_maxBackupKeys cfg')) (JInt (cf_maxBackupBytes cfg')) (redis_document b) = Inr b'"
      and plan: "T = FlushDb # map restore_command plan" "restores_from (rb_entries b') plan"
    unfolding restore_commands_def by fastforce
  have "list_all encoded_entry (rb_entries b)" using settled settled_encoded by (auto simp: list_all_iff)
  then have same: "list_all2 same_entry (rb_entries b) (rb_entries b')" using validate_entries [OF v] by blast
  have in_plan: "Restore k t d \<in> set T \<longleftrightarrow> (k, t, d) \<in> set plan" for k t d
    unfolding plan(1) by (force simp: restore_command_def image_iff split: prod.splits)
  have "dumped_with cs k d" if "(k, t, d) \<in> set plan" for k t d
  proof -
    from that plan(2) obtain e' where "e' \<in> set (rb_entries b')" "k = b64_decode (re_key e')" "d = b64_decode (re_dump e')"
      unfolding restores_from_def by blast
    moreover have "exact_capture cfg cs (rb_entries b')" by (rule exact_capture_same [OF ex same])
    ultimately show ?thesis unfolding exact_capture_def entry_for_def by (metis b64_round_trip)
  qed
  moreover have "(b64_decode (re_key e), 0, b64_decode (re_dump e)) \<in> set plan" if e: "e \<in> set (rb_entries b)" "re_expiresAt e = None" for e
  proof -
    from same e(1) obtain e' where "e' \<in> set (rb_entries b')" "same_entry e e'"
      by (auto simp: list_all2_conv_all_nth in_set_conv_nth) (metis nth_mem)
    with e(2) plan(2) show ?thesis unfolding restores_from_def same_entry_def by metis
  qed
  ultimately show ?thesis using in_plan by blast
qed

text \<open>
  An entry whose expiry is the very instant of the restore is planned with a time to live of
  zero, as one that never expires: the expired key comes back for good.
\<close>

theorem expiring_entry_becomes_permanent:
  assumes "re_expiresAt e = Some text" and "rt_date R (JStr text) = Some (rc_clock C (rw_reads w))"
  shows "fst (restored_entries R C [e] w) = Inr [(b64_decode (re_key e), 0, b64_decode (re_dump e))]
    \<and> fst (restored_entries R C [e\<lparr>re_expiresAt := None\<rparr>] w) = Inr [(b64_decode (re_key e), 0, b64_decode (re_dump e))]"
  using assms by (simp add: remaining_ttl_def bindS_def returnS_def date_now_def)


section \<open>The properties on the concrete server\<close>

lemma sample_capture:
  "\<exists>b w'. captureBackup still_runtime sample_redis sample_config (sample_database stored_keys) = (Inr b, w')
     \<and> map re_key (rb_entries b) = [''dXNlcg=='']"
proof -
  have "case captureBackup still_runtime sample_redis sample_config (sample_database stored_keys) of
      (Inr b, w') \<Rightarrow> map re_key (rb_entries b) = [''dXNlcg==''] | (Inl e, w') \<Rightarrow> False"
    by code_simp
  then show ?thesis by (auto split: prod.splits sum.splits)
qed

theorem captured_backup_is_exact_witness:
  "\<exists>b w' cs. captureBackup still_runtime sample_redis sample_config (sample_database stored_keys) = (Inr b, w')
     \<and> sent (sample_database stored_keys) w' cs \<and> released cs \<and> exact_capture sample_config cs (rb_entries b) \<and> rb_entries b \<noteq> []"
proof -
  obtain b w' where run: "captureBackup still_runtime sample_redis sample_config (sample_database stored_keys) = (Inr b, w')"
    and "map re_key (rb_entries b) = [''dXNlcg=='']" using sample_capture by (elim exE conjE)
  then have "rb_entries b \<noteq> []" by auto
  with captured_backup_is_exact [OF run] run show ?thesis by blast
qed

lemma empty_key_dumped:
  "dumped_with (rw_trace (snd (captureBackup still_runtime sample_redis sample_config (sample_database [([], ''d'')])))) [] ''d''"
  by code_simp

lemma empty_key_blocks_backup_example:
  "\<exists>e w'. captureBackup still_runtime sample_redis sample_config (sample_database [([], ''d'')]) = (Inl e, w')"
proof -
  obtain r w' where run: "captureBackup still_runtime sample_redis sample_config (sample_database [([], ''d'')]) = (r, w')" by fastforce
  have "sent (sample_database [([], ''d'')]) w' (rw_trace w')" by (simp add: sample_database_def)
  with empty_key_blocks_backup [OF run] empty_key_dumped run show ?thesis by auto
qed

theorem restore_replaces_after_validation_witness:
  "\<exists>r w' cs. restoreBackup still_runtime sample_redis sample_config sample_backup (sample_database stored_keys) = (r, w')
     \<and> rw_trace w' = cs \<and> restore_commands still_runtime sample_config sample_backup cs \<and> map fst (rw_server w') = [''user'']"
proof -
  obtain r w' where run: "restoreBackup still_runtime sample_redis sample_config sample_backup (sample_database stored_keys) = (r, w')" by fastforce
  have "map fst (rw_server (snd (restoreBackup still_runtime sample_redis sample_config sample_backup (sample_database stored_keys)))) = [''user'']"
    by code_simp
  with restore_replaces_after_validation [OF run] run show ?thesis by (auto simp: sample_database_def)
qed

definition capture_then_restore :: "(redis_backup \<times> server redis_world \<times> server redis_world) option" where
  "capture_then_restore = (case captureBackup still_runtime sample_redis sample_config (sample_database stored_keys) of
     (Inr b, w1) \<Rightarrow> Some (b, w1, snd (restoreBackup still_runtime sample_redis sample_config (redis_document b) (sample_database [])))
   | (Inl e, w1) \<Rightarrow> None)"

lemma capture_then_restore_runs:
  "case capture_then_restore of None \<Rightarrow> False
   | Some (b, w1, w3) \<Rightarrow> Transaction [FlushDb, Restore ''user'' 0 ''d1''] \<in> fst ` set (rw_trace w3)"
  by code_simp

theorem captured_keys_are_restored_witness:
  "\<exists>b w1 r w3. captureBackup still_runtime sample_redis sample_config (sample_database stored_keys) = (Inr b, w1)
     \<and> restoreBackup still_runtime sample_redis sample_config (redis_document b) (sample_database []) = (r, w3)
     \<and> Transaction [FlushDb, Restore ''user'' 0 ''d1''] \<in> fst ` set (rw_trace w3) \<and> dumped_with (rw_trace w1) ''user'' ''d1''"
proof -
  obtain b w1 where c: "captureBackup still_runtime sample_redis sample_config (sample_database stored_keys) = (Inr b, w1)"
    using sample_capture by (elim exE conjE)
  obtain r w3 where r: "restoreBackup still_runtime sample_redis sample_config (redis_document b) (sample_database []) = (r, w3)" by fastforce
  have T: "Transaction [FlushDb, Restore ''user'' 0 ''d1''] \<in> fst ` set (rw_trace w3)"
    using capture_then_restore_runs c r by (simp add: capture_then_restore_def)
  then obtain y where y: "(Transaction [FlushDb, Restore ''user'' 0 ''d1''], y) \<in> set (rw_trace w3)" by auto
  have s: "sent (sample_database db) w (rw_trace w)" for db w by (simp add: sample_database_def)
  from captured_keys_are_restored [OF c s r s y] c r T show ?thesis by auto
qed

lemma expiring_entry_becomes_permanent_example:
  "fst (restored_entries still_runtime sample_redis [\<lparr>re_key = ''dXNlcg=='', re_dump = ''dXNlcg=='', re_expiresAt = Some (to_iso 0)\<rparr>]
     (sample_database [])) = Inr [(''user'', 0, ''user'')]"
proof -
  have "b64_decode ''dXNlcg=='' = ''user''" by code_simp
  then show ?thesis
    using expiring_entry_becomes_permanent [of "\<lparr>re_key = ''dXNlcg=='', re_dump = ''dXNlcg=='', re_expiresAt = Some (to_iso 0)\<rparr>"
      "to_iso 0" still_runtime sample_redis "sample_database []"]
    by (simp add: still_runtime_def sample_redis_def)
qed

end
