(* ===== verification/JsonText.thy ===== *)
theory JsonText
  imports BackupContracts
begin

text \<open>
  \<open>JSON.parse\<close> and \<open>JSON.stringify(value, null, 2)\<close>. The parser works with fuel: every level of
  nesting takes at most two units per character, so twice the length of the text is enough. A
  \<open>\u\<close> escape from 256 on has no character of the model and is refused.

  The round trip holds for the values \<open>json_value\<close>: what a JSON text can hold, with distinct keys
  in the order JavaScript keeps them (integer keys first) and integers that are safe.
\<close>

section \<open>Parsing\<close>

definition json_ws :: "char \<Rightarrow> bool" where
  "json_ws c \<longleftrightarrow> c = CHR '' '' \<or> c = CHR 0x09 \<or> c = CHR 0x0A \<or> c = CHR 0x0D"

definition skip_ws :: "string \<Rightarrow> string" where
  "skip_ws s = dropWhile json_ws s"

definition hex_val :: "char \<Rightarrow> nat option" where
  "hex_val c = (if is_digit c then Some (code c - 48) else if 97 \<le> code c \<and> code c \<le> 102 then Some (code c - 87)
     else if 65 \<le> code c \<and> code c \<le> 70 then Some (code c - 55) else None)"

definition simple_escape :: "char \<Rightarrow> char option" where
  "simple_escape c = (if c = CHR 0x22 \<or> c = CHR 0x5C \<or> c = CHR ''/'' then Some c else if c = CHR ''b'' then Some CHR 0x08
     else if c = CHR ''f'' then Some CHR 0x0C else if c = CHR ''n'' then Some CHR 0x0A else if c = CHR ''r'' then Some CHR 0x0D
     else if c = CHR ''t'' then Some CHR 0x09 else None)"

definition unicode_escape :: "char \<Rightarrow> char \<Rightarrow> char \<Rightarrow> char \<Rightarrow> char option" where
  "unicode_escape a b c d = (case (hex_val a, hex_val b, hex_val c, hex_val d) of
     (Some w, Some x, Some y, Some z) \<Rightarrow> (if w = 0 \<and> x = 0 then Some (char_of (y * 16 + z)) else None) | _ \<Rightarrow> None)"

abbreviation prepend :: "'a \<Rightarrow> ('a list \<times> 'b) option \<Rightarrow> ('a list \<times> 'b) option" where
  "prepend x \<equiv> map_option (\<lambda>(xs, r). (x # xs, r))"

fun parse_chars :: "string \<Rightarrow> (string \<times> string) option" where
  "parse_chars [] = None"
| "parse_chars (c # cs) = (if c = CHR 0x22 then Some ([], cs)
     else if c = CHR 0x5C then (case cs of [] \<Rightarrow> None
       | e # r \<Rightarrow> if e = CHR ''u'' then (case r of w # x # y # z # r' \<Rightarrow>
               (case unicode_escape w x y z of None \<Rightarrow> None | Some ch \<Rightarrow> prepend ch (parse_chars r')) | _ \<Rightarrow> None)
           else (case simple_escape e of None \<Rightarrow> None | Some ch \<Rightarrow> prepend ch (parse_chars r)))
     else if code c < 32 then None else prepend c (parse_chars cs))"

definition num_char :: "char \<Rightarrow> bool" where
  "num_char c \<longleftrightarrow> is_digit c \<or> c \<in> {CHR ''-'', CHR ''+'', CHR ''.'', CHR ''e'', CHR ''E''}"

definition json_number :: "string \<Rightarrow> bool" where
  "json_number t = (let t' = (if t \<noteq> [] \<and> hd t = CHR ''-'' then tl t else t);
       ip = takeWhile is_digit t'; r = dropWhile is_digit t';
       dot = (r \<noteq> [] \<and> hd r = CHR ''.''); fp = takeWhile is_digit (tl r); r2 = (if dot then dropWhile is_digit (tl r) else r)
     in ip \<noteq> [] \<and> (hd ip = CHR ''0'' \<longrightarrow> length ip = 1) \<and> (dot \<longrightarrow> fp \<noteq> []) \<and> exponent_val r2 \<noteq> None)"

definition parse_number :: "string \<Rightarrow> (jsv \<times> string) option" where
  "parse_number s = (let t = takeWhile num_char s in
     if json_number t then Some (JNum (string_to_number t), dropWhile num_char s) else None)"

fun parse_value :: "nat \<Rightarrow> string \<Rightarrow> (jsv \<times> string) option"
  and parse_items :: "nat \<Rightarrow> string \<Rightarrow> (jsv list \<times> string) option"
  and parse_members :: "nat \<Rightarrow> string \<Rightarrow> ((string \<times> jsv) list \<times> string) option" where
  "parse_value 0 s = None"
| "parse_value (Suc n) s = (case skip_ws s of [] \<Rightarrow> None
     | c # r \<Rightarrow>
         if c = CHR 0x22 then map_option (\<lambda>(t, r'). (JStr t, r')) (parse_chars r)
         else if c = CHR ''['' then
           (if take 1 (skip_ws r) = '']'' then Some (JArr [], drop 1 (skip_ws r))
            else map_option (\<lambda>(vs, r'). (JArr vs, r')) (parse_items n r))
         else if c = CHR 0x7B then
           (if take 1 (skip_ws r) = [CHR 0x7D] then Some (JObj [], drop 1 (skip_ws r))
            else map_option (\<lambda>(ps, r'). (JObj (own_order (foldl (\<lambda>qs p. put_prop (fst p) (snd p) qs) [] ps)), r')) (parse_members n r))
         else if starts_with ''true'' (c # r) then Some (JBool True, drop 4 (c # r))
         else if starts_with ''false'' (c # r) then Some (JBool False, drop 5 (c # r))
         else if starts_with ''null'' (c # r) then Some (JNull, drop 4 (c # r))
         else parse_number (c # r))"
| "parse_items 0 s = None"
| "parse_items (Suc n) s = (case parse_value n s of None \<Rightarrow> None
     | Some (v, r) \<Rightarrow> (case skip_ws r of [] \<Rightarrow> None
         | c # r' \<Rightarrow> if c = CHR '','' then prepend v (parse_items n r') else if c = CHR '']'' then Some ([v], r') else None))"
| "parse_members 0 s = None"
| "parse_members (Suc n) s = (case skip_ws s of [] \<Rightarrow> None
     | q # r0 \<Rightarrow> if q \<noteq> CHR 0x22 then None
         else (case parse_chars r0 of None \<Rightarrow> None
           | Some (k, r1) \<Rightarrow> (case skip_ws r1 of [] \<Rightarrow> None
               | c # r2 \<Rightarrow> if c \<noteq> CHR '':'' then None
                   else (case parse_value n r2 of None \<Rightarrow> None
                     | Some (v, r3) \<Rightarrow> (case skip_ws r3 of [] \<Rightarrow> None
                         | e # r4 \<Rightarrow> if e = CHR '','' then prepend (k, v) (parse_members n r4)
                             else if e = CHR 0x7D then Some ([(k, v)], r4) else None)))))"

definition JSON_parse :: "string \<Rightarrow> jsv option" where
  "JSON_parse s = (case parse_value (2 * length s + 2) s of None \<Rightarrow> None
     | Some (v, r) \<Rightarrow> if skip_ws r = [] then Some v else None)"

section \<open>Printing\<close>

text \<open>\<open>None\<close> is the compact form, \<open>Some d\<close> the form indented by two spaces at depth \<open>d\<close>.\<close>

definition line_break :: "nat option \<Rightarrow> string" where
  "line_break d = (case d of None \<Rightarrow> [] | Some k \<Rightarrow> CHR 0x0A # replicate (2 * k) CHR '' '')"

definition colon :: "nat option \<Rightarrow> string" where
  "colon d = (case d of None \<Rightarrow> '':'' | Some k \<Rightarrow> '': '')"

fun json_text :: "nat option \<Rightarrow> jsv \<Rightarrow> string" where
  "json_text d (JArr xs) = (if xs = [] then ''[]'' else let d' = map_option Suc d in
     ''['' @ line_break d' @ join ('','' @ line_break d') (map (json_text d') xs) @ line_break d @ '']'')"
| "json_text d (JObj ps) = (let qs = filter (\<lambda>(k, v). v \<noteq> JUndef) ps; d' = map_option Suc d in
     if qs = [] then [CHR 0x7B, CHR 0x7D]
     else CHR 0x7B # line_break d' @ join ('','' @ line_break d') (map (\<lambda>(k, v). json_quote k @ colon d @ json_text d' v) qs)
       @ line_break d @ [CHR 0x7D])"
| "json_text d v = json_stringify v"

abbreviation json_pretty :: "jsv \<Rightarrow> string" where
  "json_pretty \<equiv> json_text (Some 0)"

fun json_value :: "jsv \<Rightarrow> bool" where
  "json_value JUndef = False"
| "json_value JNull = True"
| "json_value (JBool b) = True"
| "json_value (JNum n) = (case n of Dec i k \<Rightarrow> k = 0 \<and> \<bar>i\<bar> \<le> 2 ^ 53 - 1 | _ \<Rightarrow> False)"
| "json_value (JStr s) = True"
| "json_value (JArr xs) = (\<forall>x \<in> set xs. json_value x)"
| "json_value (JObj ps) = (distinct (map fst ps) \<and> own_order ps = ps \<and> (\<forall>p \<in> set ps. json_value (snd p)))"

lemma json_text_compact: "json_text None v = json_stringify v"
proof (induction v rule: json_stringify.induct)
  case (6 xs)
  then have "map (json_text None) xs = map json_stringify xs" by simp
  then show ?case by (simp add: Let_def line_break_def del: map_eq_conv)
next
  case (7 ps)
  then have "map (\<lambda>(k, v). json_quote k @ '':'' @ json_text None v) (filter (\<lambda>(k, v). v \<noteq> JUndef) ps)
      = map (\<lambda>(k, v). json_quote k @ '':'' @ json_stringify v) (filter (\<lambda>(k, v). v \<noteq> JUndef) ps)"
    by fastforce
  then show ?case by (simp add: Let_def line_break_def colon_def del: map_eq_conv)
qed simp_all

section \<open>Round trip\<close>

lemma skip_ws_stop: "\<not> json_ws c \<Longrightarrow> skip_ws (c # s) = c # s"
  by (simp add: skip_ws_def)

lemma skip_ws_break [simp]: "skip_ws (line_break d @ s) = skip_ws s"
proof -
  have "dropWhile json_ws (replicate n CHR '' '' @ s) = dropWhile json_ws s" for n
    by (induction n) (simp_all add: json_ws_def)
  then show ?thesis by (simp add: skip_ws_def line_break_def json_ws_def split: option.split)
qed

lemma parse_after_break [simp]: "parse_value n (line_break d @ s) = parse_value n s" "parse_members n (line_break d @ s) = parse_members n s"
  by (cases n; simp)+

lemma parse_items_break [simp]: "parse_items n (line_break d @ s) = parse_items n s"
  by (cases n) simp_all

lemma parse_value_space: "parse_value n (CHR '' '' # s) = parse_value n s"
  by (cases n) (simp_all add: skip_ws_def json_ws_def)

lemma parse_plain_char: "c \<noteq> CHR 0x22 \<Longrightarrow> c \<noteq> CHR 0x5C \<Longrightarrow> \<not> code c < 32 \<Longrightarrow> parse_chars (c # s) = prepend c (parse_chars s)"
  by simp

lemma hex_val_char: "n < 16 \<Longrightarrow> hex_val (hex_char n) = Some n"
  by (auto simp: hex_val_def hex_char_def is_digit_def code_def)

lemma hex_val_zero: "hex_val CHR ''0'' = Some 0"
  by (simp add: hex_val_def is_digit_def code_def)

lemma code_eq_iff: "code c = code d \<longleftrightarrow> c = d"
  by (simp add: code_def)

lemma control_codes:
  "code c = 8 \<longleftrightarrow> c = CHR 0x08" "code c = 12 \<longleftrightarrow> c = CHR 0x0C" "code c = 10 \<longleftrightarrow> c = CHR 0x0A"
  "code c = 13 \<longleftrightarrow> c = CHR 0x0D" "code c = 9 \<longleftrightarrow> c = CHR 0x09"
  using code_eq_iff [of c "CHR 0x08"] code_eq_iff [of c "CHR 0x0C"] code_eq_iff [of c "CHR 0x0A"] code_eq_iff [of c "CHR 0x0D"]
    code_eq_iff [of c "CHR 0x09"] by (simp_all add: code_def)

lemma unicode_control: "code c < 32 \<Longrightarrow> unicode_escape CHR ''0'' CHR ''0'' (hex_char (code c div 16)) (hex_char (code c mod 16)) = Some c"
  by (simp add: unicode_escape_def hex_val_zero hex_val_char less_mult_imp_div_less code_def)

lemma parse_escaped: "parse_chars (json_escape c @ s) = prepend c (parse_chars s)"
proof -
  consider "code c = 8" | "code c = 12" | "code c = 10" | "code c = 13" | "code c = 9"
    | "c = CHR 0x22" | "c = CHR 0x5C" | "code c < 32" "code c \<notin> {8, 9, 10, 12, 13}" | "\<not> code c < 32" "c \<noteq> CHR 0x22" "c \<noteq> CHR 0x5C"
    by blast
  then show ?thesis
  proof cases
    case 8
    then have "json_escape c = [CHR 0x5C, CHR ''u'', CHR ''0'', CHR ''0'', hex_char (code c div 16), hex_char (code c mod 16)]"
      by (auto simp: json_escape_def code_def)
    then show ?thesis using unicode_control [OF 8(1)] by simp
  next
    case 9
    then have "json_escape c = [c]" by (auto simp: json_escape_def)
    then show ?thesis using 9 by simp
  qed (simp_all add: control_codes json_escape_def simple_escape_def)
qed

lemma parse_quoted: "parse_chars (concat (map json_escape t) @ CHR 0x22 # s) = Some (t, s)"
  by (induction t) (simp_all add: parse_escaped)

lemma digit_char_code: "0 \<le> n \<Longrightarrow> n < 10 \<Longrightarrow> code (digit_char n) = 48 + nat n"
  by (simp add: digit_char_def code_def)

lemma digit_char_digit: "0 \<le> n \<Longrightarrow> n < 10 \<Longrightarrow> is_digit (digit_char n) \<and> digit_val (digit_char n) = n"
  using digit_char_code [of n] by (simp add: is_digit_def digit_val_def)

lemma digits_val_snoc: "digits_val b (ds @ [c]) = digits_val b ds * b + digit_val c"
  by (simp add: digits_val_def)

lemma show_digits_digits: "0 \<le> n \<Longrightarrow> list_all is_digit (show_digits n) \<and> show_digits n \<noteq> [] \<and> digits_val 10 (show_digits n) = n"
proof (induction n rule: show_digits.induct)
  case (1 n)
  show ?case
  proof (cases "n < 10")
    case True
    then show ?thesis using 1 digit_char_digit by (simp add: show_digits.simps [of n] digits_val_def)
  next
    case False
    then have "list_all is_digit (show_digits (n div 10)) \<and> show_digits (n div 10) \<noteq> [] \<and> digits_val 10 (show_digits (n div 10)) = n div 10"
      using 1 by simp
    then show ?thesis using False digit_char_digit [of "n mod 10"] by (simp add: show_digits.simps [of n] digits_val_snoc)
  qed
qed

lemma show_digits_leading: "0 < n \<Longrightarrow> hd (show_digits n) \<noteq> CHR ''0''"
proof (induction n rule: show_digits.induct)
  case (1 n)
  show ?case
  proof (cases "n < 10")
    case True
    have "code (digit_char n) \<noteq> code CHR ''0''" using 1 True digit_char_code [of n] by (simp add: code_def)
    then show ?thesis using True by (auto simp: show_digits.simps [of n])
  next
    case False
    then show ?thesis using 1 show_digits_digits [of "n div 10"] by (simp add: show_digits.simps [of n])
  qed
qed

lemma show_digits_zero: "show_digits 0 = ''0''"
  by code_simp

lemma digits_plain:
  assumes "list_all is_digit ds" and "ds \<noteq> []"
  shows "js_trim ds = ds" and "takeWhile is_digit ds = ds" and "dropWhile is_digit ds = []" and "hd ds \<noteq> CHR ''-''" and "hd ds \<noteq> CHR ''+''"
    and "ds \<noteq> ''Infinity''" and "take 2 ds \<notin> {''0x'', ''0X'', ''0o'', ''0O'', ''0b'', ''0B''}" and "hd ds \<noteq> CHR ''.''"
proof -
  have no: "\<not> is_digit CHR ''-''" "\<not> is_digit CHR ''+''" "\<not> is_digit CHR ''I''" "\<not> is_digit CHR ''x''" "\<not> is_digit CHR ''X''"
    "\<not> is_digit CHR ''o''" "\<not> is_digit CHR ''O''" "\<not> is_digit CHR ''b''" "\<not> is_digit CHR ''B''" "\<not> is_digit CHR ''.''" by code_simp+
  have d: "is_digit c" if "c \<in> set ds" for c using assms(1) that by (simp add: list_all_iff)
  have "is_digit c \<Longrightarrow> \<not> is_js_space c" for c by (auto simp: is_digit_def is_js_space_def)
  then show "js_trim ds = ds" using d assms(2) by (intro js_trim_id) (simp add: hd_in_set last_in_set)
  show "takeWhile is_digit ds = ds" "dropWhile is_digit ds = []" using d by (simp_all add: takeWhile_eq_all_conv)
  show "hd ds \<noteq> CHR ''-''" "hd ds \<noteq> CHR ''+''" "hd ds \<noteq> CHR ''.''" using d [of "hd ds"] assms(2) no by auto
  show "ds \<noteq> ''Infinity''" using d [of "CHR ''I''"] no by auto
  have "set (take 2 ds) \<subseteq> set ds" by (rule set_take_subset)
  then show "take 2 ds \<notin> {''0x'', ''0X'', ''0o'', ''0O'', ''0b'', ''0B''}" using d no by auto
qed

lemma decimal_num_int: "0 \<le> n \<Longrightarrow> n \<le> 2 ^ 53 - 1 \<Longrightarrow> decimal_num neg n 0 0 = Dec (if neg then - n else n) 0"
proof -
  assume n: "0 \<le> n" "n \<le> 2 ^ 53 - 1"
  have "(2 :: int) ^ 53 - 1 < 2 ^ 1024 - 2 ^ 970" by simp
  then have "\<not> 2 ^ 1024 - 2 ^ 970 \<le> n" using n by linarith
  moreover have "n * 2 ^ 1075 \<le> 1 \<longleftrightarrow> n = 0"
  proof (cases "n = 0")
    case False
    then have "1 * (2 :: int) ^ 1075 \<le> n * 2 ^ 1075" using n by (intro mult_right_mono) auto
    moreover have "(1 :: int) < 2 ^ 1075" by simp
    ultimately show ?thesis using False by linarith
  qed simp
  ultimately show ?thesis by (simp add: decimal_num_def)
qed

lemma decimal_literal_digits:
  assumes ds: "list_all is_digit ds" "ds \<noteq> []"
  shows "decimal_literal neg ds = decimal_num neg (digits_val 10 ds) 0 0"
  by (simp add: decimal_literal_def exponent_val_def Let_def digits_plain(2,3,6) [OF ds] ds(2))

lemma string_to_number_int: "\<bar>i\<bar> \<le> 2 ^ 53 - 1 \<Longrightarrow> string_to_number (show_int i) = Dec i 0"
proof (cases "i < 0")
  case True
  assume "\<bar>i\<bar> \<le> 2 ^ 53 - 1"
  let ?ds = "show_digits (- i)"
  have ds: "list_all is_digit ?ds" "?ds \<noteq> []" "digits_val 10 ?ds = - i" using show_digits_digits [of "- i"] True by auto
  have "js_trim (CHR ''-'' # ?ds) = CHR ''-'' # ?ds"
  proof (rule js_trim_id)
    have "\<not> is_js_space CHR ''-''" by code_simp
    moreover have "is_digit (last ?ds)" using ds(1,2) by (simp add: list_all_iff)
    then have "\<not> is_js_space (last ?ds)" by (auto simp: is_digit_def is_js_space_def)
    ultimately show "CHR ''-'' # ?ds = [] \<or> (\<not> is_js_space (hd (CHR ''-'' # ?ds)) \<and> \<not> is_js_space (last (CHR ''-'' # ?ds)))" using ds(2) by simp
  qed
  then show ?thesis
    using True \<open>\<bar>i\<bar> \<le> 2 ^ 53 - 1\<close> ds decimal_num_int [of "- i" True]
    by (simp add: string_to_number_def show_int_def decimal_literal_digits Let_def)
next
  case False
  assume "\<bar>i\<bar> \<le> 2 ^ 53 - 1"
  let ?ds = "show_digits i"
  have ds: "list_all is_digit ?ds" "?ds \<noteq> []" "digits_val 10 ?ds = i" using show_digits_digits [of i] False by auto
  then show ?thesis
    using False \<open>\<bar>i\<bar> \<le> 2 ^ 53 - 1\<close> decimal_num_int [of i False] digits_plain(4,5,7) [OF ds(1,2)]
    by (simp add: string_to_number_def show_int_def decimal_literal_digits digits_plain(1) [OF ds(1,2)] Let_def)
qed

lemma json_number_digits:
  assumes ds: "list_all is_digit ds" "ds \<noteq> []" and "hd ds = CHR ''0'' \<longrightarrow> length ds = 1"
  shows "json_number ds" and "json_number (CHR ''-'' # ds)"
  using assms(3) ds(1) by (simp_all add: json_number_def Let_def exponent_val_def digits_plain(2,3,4) [OF ds] ds(2) list_all_iff)

lemma json_number_int: "json_number (show_int i)"
proof -
  let ?ds = "show_digits \<bar>i\<bar>"
  have ds: "list_all is_digit ?ds" "?ds \<noteq> []" using show_digits_digits [of "\<bar>i\<bar>"] by auto
  have "hd ?ds = CHR ''0'' \<longrightarrow> length ?ds = 1" using show_digits_leading [of "\<bar>i\<bar>"] show_digits_zero by (cases "i = 0") auto
  from json_number_digits [OF ds this] show ?thesis by (cases "i < 0") (simp_all add: show_int_def)
qed

definition stops :: "string \<Rightarrow> bool" where
  "stops s \<longleftrightarrow> s = [] \<or> \<not> num_char (hd s)"

lemma show_int_chars: "list_all num_char (show_int i) \<and> show_int i \<noteq> []"
proof -
  have "list_all is_digit (show_digits \<bar>i\<bar>) \<and> show_digits \<bar>i\<bar> \<noteq> []" using show_digits_digits [of "\<bar>i\<bar>"] by simp
  then show ?thesis by (auto simp: show_int_def num_char_def list_all_iff)
qed

lemma show_int_inj: "show_int i = show_int j \<Longrightarrow> 0 \<le> i \<Longrightarrow> 0 \<le> j \<Longrightarrow> i = j"
  using show_digits_digits [of i] show_digits_digits [of j] unfolding show_int_def by (metis not_less)

lemma parse_number_int:
  assumes "\<bar>i\<bar> \<le> 2 ^ 53 - 1" and "stops rest"
  shows "parse_number (show_int i @ rest) = Some (JInt i, rest)"
proof -
  have "takeWhile num_char (show_int i @ rest) = show_int i" "dropWhile num_char (show_int i @ rest) = rest"
    using show_int_chars [of i] assms(2) by (auto simp: list_all_iff takeWhile_append dropWhile_append stops_def, (cases rest; simp)+)
  then show ?thesis using assms(1) json_number_int string_to_number_int by (simp add: parse_number_def)
qed

lemma parse_value_int:
  assumes "\<bar>i\<bar> \<le> 2 ^ 53 - 1" and "stops rest"
  shows "parse_value (Suc n) (show_int i @ rest) = Some (JInt i, rest)"
proof -
  obtain c cs where s: "show_int i = c # cs" and c: "num_char c" using show_int_chars [of i] by (cases "show_int i") auto
  have "\<not> num_char CHR 0x22" "\<not> num_char CHR ''[''" "\<not> num_char CHR 0x7B" "\<not> num_char CHR ''t''" "\<not> num_char CHR ''f''"
    "\<not> num_char CHR ''n''" "\<not> num_char CHR '' ''" "\<not> num_char CHR 0x09" "\<not> num_char CHR 0x0A" "\<not> num_char CHR 0x0D" by code_simp+
  with c have "\<not> json_ws c" "c \<noteq> CHR 0x22" "c \<noteq> CHR ''[''" "c \<noteq> CHR 0x7B" "c \<noteq> CHR ''t''" "c \<noteq> CHR ''f''" "c \<noteq> CHR ''n''"
    by (auto simp: json_ws_def)
  then show ?thesis using parse_number_int [OF assms] s by (simp add: skip_ws_stop starts_with_def)
qed

lemma json_text_first: "json_value v \<Longrightarrow> json_text d v \<noteq> [] \<and> (let c = hd (json_text d v) in \<not> json_ws c \<and> c \<noteq> CHR '']'' \<and> c \<noteq> CHR 0x7D)"
proof (cases v)
  case (JNum n)
  assume "json_value v"
  with JNum obtain i where n: "n = Dec i 0" by (cases n) auto
  obtain c cs where s: "show_int i = c # cs" and c: "num_char c" using show_int_chars [of i] by (cases "show_int i") auto
  have "\<not> num_char CHR '']''" "\<not> num_char CHR 0x7D" "\<not> num_char CHR '' ''" "\<not> num_char CHR 0x09" "\<not> num_char CHR 0x0A" "\<not> num_char CHR 0x0D"
    by code_simp+
  with c have "\<not> json_ws c" "c \<noteq> CHR '']''" "c \<noteq> CHR 0x7D" by (auto simp: json_ws_def)
  then show ?thesis using s JNum n by simp
qed (simp_all add: json_quote_def json_ws_def Let_def)

lemma json_text_start:
  assumes "json_value v"
  obtains c s where "json_text d v = c # s" and "\<not> json_ws c" and "c \<noteq> CHR '']''" and "c \<noteq> CHR 0x7D"
  using json_text_first [OF assms, of d] that by (cases "json_text d v") (auto simp: Let_def)

definition parses :: "nat option \<Rightarrow> jsv \<Rightarrow> bool" where
  "parses d v \<longleftrightarrow> (\<forall>n rest. stops rest \<longrightarrow> 2 * length (json_text d v) \<le> n \<longrightarrow> parse_value (Suc n) (json_text d v @ rest) = Some (v, rest))"

lemma stops_chars: "stops (CHR '','' # s)" "stops (CHR '']'' # s)" "stops (CHR 0x7D # s)" "stops (line_break d @ CHR '']'' # s)" "stops (line_break d @ CHR 0x7D # s)"
proof -
  have "\<not> num_char CHR '',''" "\<not> num_char CHR '']''" "\<not> num_char CHR 0x7D" "\<not> num_char CHR 0x0A" by code_simp+
  then show "stops (CHR '','' # s)" "stops (CHR '']'' # s)" "stops (CHR 0x7D # s)" "stops (line_break d @ CHR '']'' # s)" "stops (line_break d @ CHR 0x7D # s)"
    by (simp_all add: stops_def line_break_def split: option.split)
qed

lemma closing_skips: "skip_ws (line_break d @ CHR '']'' # s) = CHR '']'' # s" "skip_ws (line_break d @ CHR 0x7D # s) = CHR 0x7D # s"
  "skip_ws (CHR '','' # s) = CHR '','' # s"
  by (simp_all add: skip_ws_stop json_ws_def)

lemma parse_items_step:
  assumes "parse_value n s = Some (v, r)"
  shows "skip_ws r = CHR '']'' # r' \<Longrightarrow> parse_items (Suc n) s = Some ([v], r')"
    and "skip_ws r = CHR '','' # r' \<Longrightarrow> parse_items (Suc n) s = prepend v (parse_items n r')"
  using assms by simp_all

lemma parse_items_text:
  assumes "xs \<noteq> []" and "\<forall>x \<in> set xs. parses e x"
    and "2 * length (join ('','' @ line_break e) (map (json_text e) xs)) + 2 \<le> n"
  shows "parse_items n (join ('','' @ line_break e) (map (json_text e) xs) @ line_break d @ '']'' @ rest) = Some (xs, rest)"
  using assms
proof (induction xs arbitrary: n)
  case Nil
  then show ?case by simp
next
  case (Cons x xs)
  have "2 \<le> n" using Cons.prems(3) by linarith
  then obtain m where n: "n = Suc (Suc m)" by (auto simp: le_iff_add)
  have x: "parse_value (Suc m) (json_text e x @ r) = Some (x, r)" if "stops r" "2 * length (json_text e x) \<le> m" for r
    using Cons.prems(2) that by (simp add: parses_def)
  show ?case
  proof (cases xs)
    case Nil
    have "2 * length (json_text e x) \<le> m" using Cons.prems(3) n Nil by simp
    from parse_items_step(1) [OF x [OF stops_chars(4) this] closing_skips(1)] show ?thesis using n Nil by simp
  next
    case C: (Cons y ys)
    let ?t = "join ('','' @ line_break e) (map (json_text e) xs)"
    have j: "join ('','' @ line_break e) (map (json_text e) (x # xs)) = json_text e x @ CHR '','' # line_break e @ ?t" using C by simp
    have len: "2 * length (json_text e x) \<le> m" "2 * length ?t + 2 \<le> Suc m" using Cons.prems(3) n unfolding j by simp_all
    have "parse_items (Suc m) (?t @ line_break d @ '']'' @ rest) = Some (xs, rest)"
      by (rule Cons.IH) (use C Cons.prems(2) len in auto)
    with parse_items_step(2) [OF x [OF stops_chars(1) len(1)] closing_skips(3)] show ?thesis using n unfolding j by simp
  qed
qed

lemma parse_members_step:
  assumes "parse_value n r2 = Some (v, r)" and "skip_ws r1 = CHR '':'' # r2"
  shows "skip_ws r = CHR 0x7D # r' \<Longrightarrow> parse_chars s = Some (k, r1) \<Longrightarrow> parse_members (Suc n) (CHR 0x22 # s) = Some ([(k, v)], r')"
    and "skip_ws r = CHR '','' # r' \<Longrightarrow> parse_chars s = Some (k, r1) \<Longrightarrow> parse_members (Suc n) (CHR 0x22 # s) = prepend (k, v) (parse_members n r')"
  using assms by (simp_all add: skip_ws_stop json_ws_def)

definition member_text :: "nat option \<Rightarrow> nat option \<Rightarrow> string \<times> jsv \<Rightarrow> string" where
  "member_text d e p = json_quote (fst p) @ colon d @ json_text e (snd p)"

lemma parse_colon: "parse_value n (tl (colon d) @ s) = parse_value n s" "skip_ws (colon d @ s) = CHR '':'' # tl (colon d) @ s"
  by (cases d; simp add: colon_def parse_value_space skip_ws_stop json_ws_def)+

lemma parse_member:
  assumes "parses e v" and "stops r" and "2 * length (member_text d e (k, v)) \<le> n"
  shows "\<exists>s r1 r2. member_text d e (k, v) @ r = CHR 0x22 # s \<and> parse_chars s = Some (k, r1) \<and> skip_ws r1 = CHR '':'' # r2
    \<and> parse_value (Suc n) r2 = Some (v, r)"
proof -
  have "parse_value (Suc n) (json_text e v @ r) = Some (v, r)" using assms unfolding parses_def member_text_def by simp
  then show ?thesis
    by (intro exI [of _ "concat (map json_escape k) @ CHR 0x22 # colon d @ json_text e v @ r"] exI [of _ "colon d @ json_text e v @ r"]
        exI [of _ "tl (colon d) @ json_text e v @ r"]) (simp add: member_text_def json_quote_def parse_quoted parse_colon del: parse_value.simps)
qed

lemma parse_members_text:
  assumes "ps \<noteq> []" and "\<forall>p \<in> set ps. parses e (snd p)"
    and "2 * length (join ('','' @ line_break e) (map (member_text d e) ps)) + 2 \<le> n"
  shows "parse_members n (join ('','' @ line_break e) (map (member_text d e) ps) @ line_break d @ CHR 0x7D # rest) = Some (ps, rest)"
  using assms
proof (induction ps arbitrary: n)
  case Nil
  then show ?case by simp
next
  case (Cons p ps)
  obtain k v where p: "p = (k, v)" by (cases p)
  have "2 \<le> n" using Cons.prems(3) by linarith
  then obtain m where n: "n = Suc (Suc m)" by (auto simp: le_iff_add)
  have v: "parses e v" using Cons.prems(2) p by simp
  show ?case
  proof (cases ps)
    case Nil
    have "2 * length (member_text d e (k, v)) \<le> m" using Cons.prems(3) n p Nil by simp
    from parse_member [OF v stops_chars(5) this, of d rest] obtain s r1 r2
      where s: "member_text d e (k, v) @ line_break d @ CHR 0x7D # rest = CHR 0x22 # s" "parse_chars s = Some (k, r1)" "skip_ws r1 = CHR '':'' # r2"
        "parse_value (Suc m) r2 = Some (v, line_break d @ CHR 0x7D # rest)" by blast
    from parse_members_step(1) [OF s(4,3) closing_skips(2) s(2)] s(1) show ?thesis using n p Nil by simp
  next
    case C: (Cons q qs)
    let ?t = "join ('','' @ line_break e) (map (member_text d e) ps)"
    let ?r = "line_break e @ ?t @ line_break d @ CHR 0x7D # rest"
    have j: "join ('','' @ line_break e) (map (member_text d e) (p # ps)) = member_text d e p @ CHR '','' # line_break e @ ?t" using C by simp
    have len: "2 * length (member_text d e (k, v)) \<le> m" "2 * length ?t + 2 \<le> Suc m" using Cons.prems(3) n p unfolding j by simp_all
    have rest: "parse_members (Suc m) (?t @ line_break d @ CHR 0x7D # rest) = Some (ps, rest)"
      by (rule Cons.IH) (use C Cons.prems(2) len in auto)
    from parse_member [OF v stops_chars(1) len(1), of ?r] obtain s r1 r2
      where s: "member_text d e (k, v) @ CHR '','' # ?r = CHR 0x22 # s" "parse_chars s = Some (k, r1)" "skip_ws r1 = CHR '':'' # r2"
        "parse_value (Suc m) r2 = Some (v, CHR '','' # ?r)" by blast
    from parse_members_step(2) [OF s(4,3) closing_skips(3) s(2)] s(1) rest n p show ?thesis unfolding j by simp
  qed
qed

lemma put_all: "distinct (map fst (qs @ ps)) \<Longrightarrow> foldl (\<lambda>qs p. put_prop (fst p) (snd p) qs) qs ps = qs @ ps"
proof (induction ps arbitrary: qs)
  case (Cons p ps)
  have "put_prop (fst p) (snd p) qs = qs @ [p]" if "fst p \<notin> fst ` set qs" for qs using that by (induction qs) auto
  with Cons.IH [of "qs @ [p]"] Cons.prems show ?case by simp
qed simp

lemma join_start: "xs \<noteq> [] \<Longrightarrow> \<exists>s. join sep xs = hd xs @ s"
  by (cases "(sep, xs)" rule: join.cases) auto

lemma parse_array:
  assumes "xs \<noteq> []" and "\<forall>x \<in> set xs. parses (map_option Suc d) x" and "\<forall>x \<in> set xs. json_value x"
  shows "parses d (JArr xs)"
  unfolding parses_def
proof (intro allI impI)
  fix n rest assume n: "2 * length (json_text d (JArr xs)) \<le> n"
  let ?e = "map_option Suc d"
  let ?j = "join ('','' @ line_break ?e) (map (json_text ?e) xs)"
  have t: "json_text d (JArr xs) = CHR ''['' # line_break ?e @ ?j @ line_break d @ '']''" using assms(1) by (simp add: Let_def)
  obtain s where j: "?j = json_text ?e (hd xs) @ s" using join_start [of "map (json_text ?e) xs"] assms(1) by (auto simp: hd_map)
  have "json_value (hd xs)" using assms by simp
  then obtain c cs where c: "json_text ?e (hd xs) = c # cs" "\<not> json_ws c" "c \<noteq> CHR '']''" by (rule json_text_start)
  have first: "take 1 (skip_ws (line_break ?e @ ?j @ line_break d @ '']'' @ rest)) \<noteq> '']''" using c unfolding j by (simp add: skip_ws_stop)
  have "parse_items n (?j @ line_break d @ '']'' @ rest) = Some (xs, rest)"
    by (rule parse_items_text [OF assms(1,2)]) (use n [unfolded t] in simp)
  then show "parse_value (Suc n) (json_text d (JArr xs) @ rest) = Some (JArr xs, rest)"
    using first unfolding t by (simp add: skip_ws_stop json_ws_def)
qed

lemma parse_object:
  assumes "ps \<noteq> []" and "\<forall>p \<in> set ps. parses (map_option Suc d) (snd p)" and "json_value (JObj ps)"
  shows "parses d (JObj ps)"
  unfolding parses_def
proof (intro allI impI)
  fix n rest assume n: "2 * length (json_text d (JObj ps)) \<le> n"
  let ?e = "map_option Suc d"
  let ?j = "join ('','' @ line_break ?e) (map (member_text d ?e) ps)"
  have "filter (\<lambda>(k, v). v \<noteq> JUndef) ps = ps" using assms(3) by (auto simp: filter_id_conv)
  then have t: "json_text d (JObj ps) = CHR 0x7B # line_break ?e @ ?j @ line_break d @ [CHR 0x7D]"
    using assms(1) by (simp add: Let_def member_text_def [abs_def] split_def)
  obtain s where j: "?j = member_text d ?e (hd ps) @ s" using join_start [of "map (member_text d ?e) ps"] assms(1) by (auto simp: hd_map)
  have first: "take 1 (skip_ws (line_break ?e @ ?j @ line_break d @ CHR 0x7D # rest)) \<noteq> [CHR 0x7D]"
    unfolding j by (simp add: member_text_def json_quote_def skip_ws_stop json_ws_def)
  have "parse_members n (?j @ line_break d @ CHR 0x7D # rest) = Some (ps, rest)"
    by (rule parse_members_text [OF assms(1,2)]) (use n [unfolded t] in simp)
  then show "parse_value (Suc n) (json_text d (JObj ps) @ rest) = Some (JObj ps, rest)"
    using first assms(3) put_all [of "[]" ps] unfolding t by (simp add: skip_ws_stop json_ws_def)
qed

lemma parses_number: "json_value (JNum n) \<Longrightarrow> parses d (JNum n)"
  by (cases n) (auto simp: parses_def parse_value_int simp del: parse_value.simps)

lemma parses_string: "parses d (JStr s)"
  by (simp add: parses_def json_quote_def skip_ws_stop json_ws_def parse_quoted)

lemma parses_constants: "parses d JNull" "parses d (JBool b)"
  by (simp_all add: parses_def skip_ws_stop json_ws_def starts_with_def)

lemma json_text_parses: "json_value v \<Longrightarrow> parses d v"
proof (induction d v rule: json_text.induct)
  case (1 d xs)
  show ?case
  proof (cases "xs = []")
    case True
    then show ?thesis by (simp add: parses_def skip_ws_stop json_ws_def)
  next
    case False
    have "\<forall>x \<in> set xs. json_value x" using 1(2) by simp
    with False 1(1) show ?thesis by (intro parse_array) auto
  qed
next
  case (2 d ps)
  have "v \<noteq> JUndef \<and> json_value v" if "(k, v) \<in> set ps" for k v using 2(2) that by auto
  then have "parses (map_option Suc d) v" if "(k, v) \<in> set ps" for k v
    using 2(1) [OF refl refl, of "(k, v)" k v] that by (fastforce simp: filter_empty_conv)
  then have all: "\<forall>p \<in> set ps. parses (map_option Suc d) (snd p)" by (simp add: split_paired_all)
  show ?case
  proof (cases "ps = []")
    case True
    then show ?thesis by (simp add: parses_def skip_ws_stop json_ws_def)
  next
    case False
    then show ?thesis using parse_object [OF _ all 2(2)] by simp
  qed
qed (use parses_number parses_string parses_constants in auto)

text \<open>A text of a value with more text behind it, white space aside, is no JSON text.\<close>

lemma JSON_parse_text:
  assumes "json_value v" and "stops rest"
  shows "JSON_parse (json_text d v @ rest) = (if skip_ws rest = [] then Some v else None)"
proof -
  have "parse_value (2 * length (json_text d v @ rest) + 2) (json_text d v @ rest) = Some (v, rest)"
    using json_text_parses [OF assms(1), of d] assms(2) unfolding parses_def by simp
  then show ?thesis by (simp add: JSON_parse_def)
qed

theorem json_round_trip: "json_value v \<Longrightarrow> JSON_parse (json_text d v) = Some v"
  using JSON_parse_text [of v "[]" d] by (simp add: stops_def skip_ws_def)

end
