(* ===== verification/StateStore.thy ===== *)
theory StateStore
  imports JsonText StepSystems
begin

text \<open>
  The state store of \<open>src/control-center/state/file-store.mjs\<close> and the datasets of \<open>catalog.mjs\<close>.

  \<open>store_world\<close> is what the store changes: the text of every file (state and metadata) and the
  lock files with the time they were made. Every write takes its outcome from \<open>sw_outcomes\<close>:
  \<open>FailsAfter 0\<close> changes nothing, \<open>FailsAfter k\<close> throws after a replacement or the creation of a lock
  took effect, or after \<open>k\<close> characters of an appended line reached the file. All state files are
  regular; sizes are those of the UTF-8 text. A top-level \<open>undefined\<close> is refused by
  \<open>validateStateRecord\<close>, the validator of every dataset of the catalogue; how it would print is not
  modelled.

  \<open>store_env\<close> has the datasets, the clock of an operation and that of its last attempt on a held
  lock, the age at which a lock is stale, and the runtime. Operations of several processes are
  sequences of operations here: a lock that is held stays held for the whole wait.
\<close>

section \<open>State\<close>

datatype write_outcome = Succeeds | FailsAfter nat

record dataset =
  ds_path :: string
  ds_jsonl :: bool
  ds_default :: jsv
  ds_validate :: "jsv \<Rightarrow> unit res"

record store_env =
  se_runtime :: runtime
  se_datasets :: "(string \<times> dataset) list"
  se_now :: int
  se_waited :: int
  se_staleLockMs :: int

record store_world =
  sw_files :: "string \<Rightarrow> string option"
  sw_locks :: "string \<Rightarrow> int option"
  sw_outcomes :: "write_outcome list"

definition validation_failed :: js_error where
  "validation_failed = CodedError ''StateValidationError'' 0"

definition conflict :: js_error where
  "conflict = CodedError ''StateConflictError'' 0"

definition next_outcome :: "store_world \<Rightarrow> write_outcome" where
  "next_outcome w = (case sw_outcomes w of [] \<Rightarrow> Succeeds | x # _ \<Rightarrow> x)"

definition put_file :: "string \<Rightarrow> string \<Rightarrow> store_world \<Rightarrow> store_world" where
  "put_file p content w = w\<lparr>sw_files := (sw_files w)(p \<mapsto> content)\<rparr>"

definition took :: "store_world \<Rightarrow> store_world" where
  "took w = w\<lparr>sw_outcomes := tl (sw_outcomes w)\<rparr>"

definition io_error :: js_error where
  "io_error = PlainError ''EIO''"

text \<open>A temporary file and a rename; \<open>chmodSync\<close> may still throw after the rename.\<close>

definition atomicWrite :: "string \<Rightarrow> string \<Rightarrow> (store_world, unit) sx" where
  "atomicWrite p content = (\<lambda>w. case next_outcome w of
     Succeeds \<Rightarrow> (Inr (), put_file p content (took w))
   | FailsAfter k \<Rightarrow> (Inl io_error, if k = 0 then took w else put_file p content (took w)))"

definition raw_of :: "store_world \<Rightarrow> string \<Rightarrow> string" where
  "raw_of w p = (case sw_files w p of None \<Rightarrow> [] | Some s \<Rightarrow> s)"

definition append_line :: "string \<Rightarrow> string \<Rightarrow> (store_world, unit) sx" where
  "append_line p line = (\<lambda>w. case next_outcome w of
     Succeeds \<Rightarrow> (Inr (), put_file p (raw_of w p @ line) (took w))
   | FailsAfter k \<Rightarrow> (Inl io_error, put_file p (raw_of w p @ take k line) (took w)))"

section \<open>Datasets\<close>

definition normalizeDefinition :: "jsv \<Rightarrow> (jsv \<Rightarrow> unit res) \<Rightarrow> dataset res" where
  "normalizeDefinition d check = (let kind = js_or (getp d ''kind'') (JStr ''json'') in
     if kind \<notin> {JStr ''json'', JStr ''jsonl''} \<or> \<not> js_truthy (getp d ''path'') then Inl validation_failed
     else Inr \<lparr>ds_path = js_String (getp d ''path''), ds_jsonl = (kind = JStr ''jsonl''),
       ds_default = js_coalesce (getp d ''defaultValue'') (if kind = JStr ''jsonl'' then JArr [] else JObj []), ds_validate = check\<rparr>)"

definition validateStateRecord :: "jsv \<Rightarrow> unit res" where
  "validateStateRecord v = requireR (is_object v) (PlainError ''State record must be an object.'')"

definition stateRoot :: string where
  "stateRoot = ''/var/www/project-state''"

definition json_dataset :: "jsv \<Rightarrow> string \<Rightarrow> jsv \<Rightarrow> dataset" where
  "json_dataset configured name d = \<lparr>ds_path = js_String (js_or configured (JStr (stateRoot @ ''/'' @ name))), ds_jsonl = False,
     ds_default = d, ds_validate = validateStateRecord\<rparr>"

definition jsonl_dataset :: "jsv \<Rightarrow> string \<Rightarrow> dataset" where
  "jsonl_dataset configured name = \<lparr>ds_path = js_String (js_or configured (JStr (stateRoot @ ''/'' @ name))), ds_jsonl = True,
     ds_default = JArr [], ds_validate = validateStateRecord\<rparr>"

definition empty_groups :: "string list \<Rightarrow> jsv" where
  "empty_groups ks = JObj (map (\<lambda>k. (k, JObj [])) ks)"

definition controlStateDatasets :: "jsv \<Rightarrow> (string \<times> dataset) list" where
  "controlStateDatasets env = [
     (''projects'', json_dataset (getp env ''PROJECT_STATE_FILE'') ''projects.json'' (empty_groups [''projects'', ''subdomains''])),
     (''audit'', jsonl_dataset (getp env ''PROJECT_AUDIT_FILE'') ''audit.jsonl''),
     (''operations'', jsonl_dataset (getp env ''PROJECT_OPERATIONS_FILE'') ''operations.jsonl''),
     (''applications'', json_dataset (getp env ''PROJECT_APPLICATIONS_FILE'') ''applications.json'' (JObj [])),
     (''domains'', json_dataset (getp env ''PROJECT_DOMAINS_FILE'') ''domains.json'' (JObj [])),
     (''webspaces'', json_dataset (getp env ''PROJECT_WEBSPACES_FILE'') ''webspaces.json'' (JObj [])),
     (''storageBuckets'', json_dataset (getp env ''PROJECT_STORAGE_BUCKETS_FILE'') ''storage-buckets.json'' (JObj [])),
     (''sensitiveMaterials'', json_dataset (getp env ''PROJECT_SENSITIVE_MATERIALS_FILE'') ''sensitive-materials.json'' (JObj [])),
     (''hostingJobs'', json_dataset (getp env ''PROJECT_HOSTING_JOBS_FILE'') ''hosting-jobs.json'' (empty_groups [''jobs''])),
     (''workerJobs'', json_dataset (getp env ''PROJECT_WORKER_JOBS_FILE'') ''worker-jobs.json'' (empty_groups [''workers'', ''queues'', ''jobs'', ''schedules''])),
     (''identityAccess'', json_dataset (getp env ''PROJECT_IDENTITY_ACCESS_FILE'') ''identity-access.json''
        (empty_groups [''users'', ''teams'', ''roles'', ''sessions'', ''accessReviews''])),
     (''deployments'', jsonl_dataset (getp env ''PROJECT_DEPLOYMENTS_FILE'') ''deployments.jsonl''),
     (''backupRecords'', jsonl_dataset (getp env ''PROJECT_BACKUP_RECORDS_FILE'') ''backups.jsonl''),
     (''resourceLimits'', json_dataset (getp env ''PROJECT_RESOURCE_LIMITS_FILE'') ''resource-limits.json'' (JObj [])),
     (''securityPolicies'', json_dataset (getp env ''PROJECT_SECURITY_POLICIES_FILE'') ''security-policies.json'' (JObj [])),
     (''alerts'', json_dataset (getp env ''PROJECT_ALERTS_FILE'') ''alerts.json'' (JObj [])),
     (''notificationChannels'', json_dataset (getp env ''PROJECT_NOTIFICATION_CHANNELS_FILE'') ''notification-channels.json'' (JObj [])),
     (''providerConnections'', json_dataset (getp env ''PROJECT_PROVIDER_CONNECTIONS_FILE'') ''provider-connections.json'' (JObj [])),
     (''settings'', json_dataset (getp env ''PROJECT_SETTINGS_FILE'') ''settings.json'' (JObj [])),
     (''statusRuns'', jsonl_dataset (getp env ''PROJECT_STATUS_RUNS_FILE'') ''status-runs.jsonl''),
     (''statusRunEvents'', jsonl_dataset (getp env ''PROJECT_STATUS_RUN_EVENTS_FILE'') ''status-run-events.jsonl'')]"

definition definition_of :: "store_env \<Rightarrow> string \<Rightarrow> dataset res" where
  "definition_of E name = (case map_of (se_datasets E) name of None \<Rightarrow> Inl validation_failed | Some d \<Rightarrow> Inr d)"

section \<open>Reading\<close>

definition newline :: char where
  "newline = CHR 0x0A"

definition strip_cr :: "string \<Rightarrow> string" where
  "strip_cr s = (if s \<noteq> [] \<and> last s = CHR 0x0D then butlast s else s)"

text \<open>\<open>raw.split(/\r?\n/).filter(Boolean)\<close>.\<close>

definition split_lines :: "string \<Rightarrow> string list" where
  "split_lines raw = (let ps = split_on newline raw in filter (\<lambda>l. l \<noteq> []) (map strip_cr (butlast ps) @ [last ps]))"

definition parse_error :: js_error where
  "parse_error = PlainError ''SyntaxError''"

definition parse_line :: "string \<Rightarrow> jsv res" where
  "parse_line l = (case JSON_parse l of None \<Rightarrow> Inl parse_error | Some v \<Rightarrow> Inr v)"

definition parseJsonLines :: "string \<Rightarrow> bool \<Rightarrow> jsv list res" where
  "parseJsonLines raw strict = (if strict then mapR parse_line (split_lines raw)
     else Inr (List.map_filter JSON_parse (split_lines raw)))"

definition metadataPath :: "string \<Rightarrow> string" where
  "metadataPath p = p @ ''.state-meta.json''"

definition readMetadata :: "store_world \<Rightarrow> string \<Rightarrow> jsv" where
  "readMetadata w p = (case sw_files w (metadataPath p) of None \<Rightarrow> JNull
     | Some s \<Rightarrow> (case JSON_parse s of None \<Rightarrow> JNull | Some v \<Rightarrow> v))"

definition meta_revision :: "jsv \<Rightarrow> int" where
  "meta_revision m = (case getp m ''revision'' of JNum n \<Rightarrow> (case num_int n of Some r \<Rightarrow> if 0 \<le> r then r else 0 | None \<Rightarrow> 0) | _ \<Rightarrow> 0)"

record snapshot =
  sn_value :: jsv
  sn_revision :: int
  sn_token :: string
  sn_contentSha256 :: string
  sn_exists :: bool
  sn_externalDrift :: bool
  sn_invalid :: bool

definition token_of :: "int \<Rightarrow> string \<Rightarrow> string" where
  "token_of revision hash = show_int revision @ '':'' @ hash"

definition parsed_value :: "dataset \<Rightarrow> string \<Rightarrow> bool \<Rightarrow> jsv res" where
  "parsed_value d raw strict =
     (if ds_jsonl d then bindR (parseJsonLines raw strict) (\<lambda>rs. bindR (mapR (ds_validate d) rs) (\<lambda>_. Inr (JArr rs)))
      else bindR (if raw = [] then Inr (ds_default d) else parse_line raw) (\<lambda>v. bindR (ds_validate d v) (\<lambda>_. Inr v)))"

definition read_dataset :: "store_env \<Rightarrow> dataset \<Rightarrow> bool \<Rightarrow> store_world \<Rightarrow> snapshot res" where
  "read_dataset E d strict w =
     (let raw = raw_of w (ds_path d); hash = rt_sha256 (se_runtime E) raw; metadata = readMetadata w (ds_path d);
          revision = meta_revision metadata;
          shown = (\<lambda>v bad. \<lparr>sn_value = v, sn_revision = revision, sn_token = token_of revision hash, sn_contentSha256 = hash,
            sn_exists = (raw \<noteq> []), sn_externalDrift = (js_truthy metadata \<and> getp metadata ''contentSha256'' \<noteq> JStr hash), sn_invalid = bad\<rparr>)
      in case parsed_value d raw strict of Inr v \<Rightarrow> Inr (shown v False)
         | Inl e \<Rightarrow> if strict then Inl validation_failed else Inr (shown (ds_default d) True))"

definition store_read :: "store_env \<Rightarrow> string \<Rightarrow> bool \<Rightarrow> (store_world, snapshot) sx" where
  "store_read E name strict = (\<lambda>w. (bindR (definition_of E name) (\<lambda>d. read_dataset E d strict w), w))"

section \<open>The lock\<close>

definition lock_path :: "string \<Rightarrow> string" where
  "lock_path p = p @ ''.lock''"

definition take_lock :: "int \<Rightarrow> string \<Rightarrow> (store_world, unit) sx" where
  "take_lock t p = (\<lambda>w. let held = w\<lparr>sw_locks := (sw_locks w)(lock_path p \<mapsto> t)\<rparr> in
     case next_outcome w of Succeeds \<Rightarrow> (Inr (), took held) | FailsAfter k \<Rightarrow> (Inl io_error, took (if k = 0 then w else held)))"

definition drop_lock :: "string \<Rightarrow> store_world \<Rightarrow> store_world" where
  "drop_lock p w = w\<lparr>sw_locks := (sw_locks w)(lock_path p := None)\<rparr>"

definition acquire :: "store_env \<Rightarrow> string \<Rightarrow> (store_world, unit) sx" where
  "acquire E p = (\<lambda>w. case sw_locks w (lock_path p) of None \<Rightarrow> take_lock (se_now E) p w
     | Some mtime \<Rightarrow> if se_waited E - mtime > se_staleLockMs E then take_lock (se_waited E) p (drop_lock p w) else (Inl conflict, w))"

definition withLock :: "store_env \<Rightarrow> string \<Rightarrow> (store_world, 'a) sx \<Rightarrow> (store_world, 'a) sx" where
  "withLock E p callback = bindS (acquire E p) (\<lambda>_. finallyS callback (modifyS (drop_lock p)))"

section \<open>Writing\<close>

definition writeMetadata :: "store_env \<Rightarrow> dataset \<Rightarrow> int \<Rightarrow> (string \<times> jsv) list \<Rightarrow> (store_world, string) sx" where
  "writeMetadata E d revision details = bindS getS (\<lambda>w.
     (let hash = rt_sha256 (se_runtime E) (raw_of w (ds_path d));
          metadata = JObj (foldl (\<lambda>ps p. put_prop (fst p) (snd p) ps) [(''schemaVersion'', JInt 1)]
            (details @ [(''revision'', JInt revision), (''contentSha256'', JStr hash), (''updatedAt'', JStr (to_iso (se_now E)))]))
      in bindS (atomicWrite (metadataPath (ds_path d)) (json_pretty metadata @ [newline])) (\<lambda>_. returnS hash)))"

definition read_back :: "store_env \<Rightarrow> dataset \<Rightarrow> (store_world, snapshot) sx" where
  "read_back E d = bindS getS (\<lambda>w. liftS (read_dataset E d True w))"

definition commit :: "store_env \<Rightarrow> dataset \<Rightarrow> int \<Rightarrow> (store_world, snapshot) sx" where
  "commit E d revision = bindS (writeMetadata E d revision []) (\<lambda>_. read_back E d)"

definition expect :: "string \<Rightarrow> snapshot \<Rightarrow> unit res" where
  "expect expectedToken current = requireR (expectedToken = [] \<or> expectedToken = sn_token current) conflict"

definition writeLocked :: "store_env \<Rightarrow> dataset \<Rightarrow> jsv \<Rightarrow> string \<Rightarrow> (store_world, snapshot) sx" where
  "writeLocked E d v expectedToken =
     bindS (read_back E d) (\<lambda>current.
     bindS (liftS (expect expectedToken current)) (\<lambda>_.
     bindS (liftS (ds_validate d v)) (\<lambda>_.
     bindS (atomicWrite (ds_path d) (json_pretty v @ [newline])) (\<lambda>_.
     commit E d (sn_revision current + 1)))))"

definition store_write :: "store_env \<Rightarrow> string \<Rightarrow> jsv \<Rightarrow> string \<Rightarrow> (store_world, snapshot) sx" where
  "store_write E name v expectedToken =
     bindS (liftS (definition_of E name)) (\<lambda>d.
     bindS (requireS (\<not> ds_jsonl d) validation_failed) (\<lambda>_.
     withLock E (ds_path d) (writeLocked E d v expectedToken)))"

definition store_update :: "store_env \<Rightarrow> string \<Rightarrow> (jsv \<Rightarrow> snapshot \<Rightarrow> jsv res) \<Rightarrow> string \<Rightarrow> (store_world, snapshot) sx" where
  "store_update E name mutate expectedToken =
     bindS (liftS (definition_of E name)) (\<lambda>d.
     bindS (requireS (\<not> ds_jsonl d) validation_failed) (\<lambda>_.
     withLock E (ds_path d) (
       bindS (read_back E d) (\<lambda>current.
       bindS (liftS (expect expectedToken current)) (\<lambda>_.
       bindS (liftS (mutate (sn_value current) current)) (\<lambda>next.
       writeLocked E d next (sn_token current)))))))"

definition append_locked :: "store_env \<Rightarrow> dataset \<Rightarrow> jsv \<Rightarrow> string \<Rightarrow> (store_world, snapshot) sx" where
  "append_locked E d v expectedToken =
     bindS (read_back E d) (\<lambda>current.
     bindS (liftS (expect expectedToken current)) (\<lambda>_.
     bindS (liftS (ds_validate d v)) (\<lambda>_.
     bindS (append_line (ds_path d) (json_stringify v @ [newline])) (\<lambda>_.
     commit E d (sn_revision current + 1)))))"

definition store_append :: "store_env \<Rightarrow> string \<Rightarrow> jsv \<Rightarrow> string \<Rightarrow> (store_world, snapshot) sx" where
  "store_append E name v expectedToken =
     bindS (liftS (definition_of E name)) (\<lambda>d.
     bindS (requireS (ds_jsonl d) validation_failed) (\<lambda>_.
     withLock E (ds_path d) (append_locked E d v expectedToken)))"

definition lines_text :: "jsv list \<Rightarrow> string" where
  "lines_text rs = join [newline] (map json_stringify rs) @ (if rs = [] then [] else [newline])"

definition replaceJsonLines :: "store_env \<Rightarrow> string \<Rightarrow> jsv \<Rightarrow> (store_world, snapshot) sx" where
  "replaceJsonLines E name records =
     bindS (liftS (definition_of E name)) (\<lambda>d.
     (case records of JArr rs \<Rightarrow> if \<not> ds_jsonl d then throwS validation_failed else
        withLock E (ds_path d) (
          bindS (liftS (mapR (ds_validate d) rs)) (\<lambda>_.
          bindS (read_back E d) (\<lambda>current.
          bindS (atomicWrite (ds_path d) (lines_text rs)) (\<lambda>_.
          commit E d (sn_revision current + 1)))))
      | _ \<Rightarrow> throwS validation_failed))"

section \<open>Bounded reading\<close>

record limits =
  rl_records :: int
  rl_bytes :: int
  rl_recordBytes :: int

definition boundedReadLimit :: "jsv \<Rightarrow> int \<Rightarrow> int \<Rightarrow> int res" where
  "boundedReadLimit v minimum maximum = (case safe_int (js_Number v) of None \<Rightarrow> Inl validation_failed
     | Some n \<Rightarrow> if n < minimum \<or> maximum < n then Inl validation_failed else Inr n)"

definition read_limits :: "int \<Rightarrow> int \<Rightarrow> int \<Rightarrow> jsv \<Rightarrow> limits res" where
  "read_limits records bytes fewest options =
     bindR (boundedReadLimit (js_default (getp options ''maxRecords'') (JInt records)) 1 100000) (\<lambda>r.
     bindR (boundedReadLimit (js_default (getp options ''maxBytes'') (JInt bytes)) fewest (64 * 1024 * 1024)) (\<lambda>b.
     bindR (boundedReadLimit (js_coalesce (getp options ''maxRecordBytes'') (JInt (min (256 * 1024) b))) 1 b) (\<lambda>rb.
     Inr \<lparr>rl_records = r, rl_bytes = b, rl_recordBytes = rb\<rparr>)))"

text \<open>
  The last bytes of a file. A buffer that starts inside a character starts inside the fragment
  that is discarded, so the text from the next character on has the same lines.
\<close>

fun tail_text :: "int \<Rightarrow> string \<Rightarrow> string" where
  "tail_text m [] = []"
| "tail_text m (c # s) = (if byte_length (c # s) \<le> m then c # s else tail_text m s)"

definition boundedJsonLineBuffers :: "string \<Rightarrow> bool \<Rightarrow> string list" where
  "boundedJsonLineBuffers buffer discardLeadingFragment =
     (if discardLeadingFragment \<and> newline \<notin> set buffer then []
      else let rest = (if discardLeadingFragment then tl (dropWhile (\<lambda>c. c \<noteq> newline) buffer) else buffer)
        in filter (\<lambda>l. l \<noteq> []) (map strip_cr (split_on newline rest)))"

record tail_view =
  tv_value :: "jsv list"
  tv_revision :: int
  tv_exists :: bool
  tv_totalBytes :: int
  tv_bytesRead :: int
  tv_parsedRecords :: nat
  tv_invalidRecords :: nat
  tv_truncated :: bool

definition tail_record :: "dataset \<Rightarrow> limits \<Rightarrow> string \<Rightarrow> jsv res" where
  "tail_record d l line =
     bindR (requireR (byte_length line \<le> rl_recordBytes l) (PlainError ''record exceeds its bytes'')) (\<lambda>_.
     bindR (parse_line line) (\<lambda>record. bindR (ds_validate d record) (\<lambda>_. Inr record)))"

definition last_lines :: "int \<Rightarrow> string list \<Rightarrow> string list" where
  "last_lines n ls = drop (nat (int (length ls) - n)) ls"

definition read_tail :: "dataset \<Rightarrow> limits \<Rightarrow> bool \<Rightarrow> store_world \<Rightarrow> tail_view res" where
  "read_tail d l strict w =
     (let raw = raw_of w (ds_path d); total = byte_length raw; cut = rl_bytes l < total;
          ls = boundedJsonLineBuffers (tail_text (rl_bytes l) raw) cut; selected = last_lines (rl_records l) ls;
          results = map (tail_record d l) selected
      in if strict \<and> list_ex isl results then Inl validation_failed
         else Inr \<lparr>tv_value = map projr (filter (\<lambda>r. \<not> isl r) results), tv_revision = meta_revision (readMetadata w (ds_path d)),
           tv_exists = (sw_files w (ds_path d) \<noteq> None), tv_totalBytes = total, tv_bytesRead = min total (rl_bytes l),
           tv_parsedRecords = length (filter (\<lambda>line. byte_length line \<le> rl_recordBytes l) selected),
           tv_invalidRecords = length (filter isl results), tv_truncated = (cut \<or> length selected < length ls)\<rparr>)"

definition readTail :: "store_env \<Rightarrow> string \<Rightarrow> bool \<Rightarrow> jsv \<Rightarrow> (store_world, tail_view) sx" where
  "readTail E name strict options = (\<lambda>w. (bindR (definition_of E name) (\<lambda>d.
     bindR (requireR (ds_jsonl d) validation_failed) (\<lambda>_.
     bindR (read_limits 100 (4 * 1024 * 1024) 1 options) (\<lambda>l. read_tail d l strict w))), w))"

section \<open>Retention\<close>

definition lines_bytes :: "string list \<Rightarrow> int" where
  "lines_bytes ls = (\<Sum>l \<leftarrow> ls. byte_length l + 1)"

fun trim_lines :: "int \<Rightarrow> string list \<Rightarrow> string list" where
  "trim_lines m [] = []"
| "trim_lines m (l # ls) = (if ls \<noteq> [] \<and> m < lines_bytes (l # ls) then trim_lines m ls else l # ls)"

definition num_is :: "jsv \<Rightarrow> int \<Rightarrow> bool" where
  "num_is v i = (case v of JNum n \<Rightarrow> num_int n = Some i | _ \<Rightarrow> False)"

definition retentionMatches :: "jsv \<Rightarrow> limits \<Rightarrow> bool" where
  "retentionMatches metadata l = (let r = getp metadata ''retention'' in
     num_is (getp r ''maxRecords'') (rl_records l) \<and> num_is (getp r ''maxBytes'') (rl_bytes l)
     \<and> num_is (getp r ''maxRecordBytes'') (rl_recordBytes l))"

text \<open>The tracked count with which a record may be appended in place.\<close>

definition canAppend :: "store_world \<Rightarrow> string \<Rightarrow> limits \<Rightarrow> int \<Rightarrow> int option" where
  "canAppend w p l encodedBytes =
     (let metadata = readMetadata w p; size = byte_length (raw_of w p) in
      case safe_int (js_Number (getp metadata ''recordCount'')) of None \<Rightarrow> None
      | Some tracked \<Rightarrow> if sw_files w p \<noteq> None \<and> retentionMatches metadata l \<and> 0 \<le> tracked \<and> tracked < rl_records l
            \<and> num_is (getp metadata ''contentBytes'') size \<and> size + encodedBytes + 1 \<le> rl_bytes l
          then Some tracked else None)"

definition append_in_place :: "store_env \<Rightarrow> dataset \<Rightarrow> string \<Rightarrow> int \<Rightarrow> (store_world, int) sx" where
  "append_in_place E d encoded tracked = bindS getS (\<lambda>w.
     bindS (requireS (getp (readMetadata w (ds_path d)) ''contentSha256'' = JStr (rt_sha256 (se_runtime E) (raw_of w (ds_path d)))) validation_failed) (\<lambda>_.
     bindS (append_line (ds_path d) (encoded @ [newline])) (\<lambda>_. returnS (tracked + 1))))"

definition rewrite_retained :: "dataset \<Rightarrow> limits \<Rightarrow> jsv \<Rightarrow> (store_world, int) sx" where
  "rewrite_retained d l v = bindS getS (\<lambda>w.
     bindS (if rl_records l = 1 then returnS []
            else bindS (liftS (read_tail d (l\<lparr>rl_records := rl_records l - 1\<rparr>) True w)) (\<lambda>t. returnS (tv_value t))) (\<lambda>retained.
     (let ls = trim_lines (rl_bytes l) (map json_stringify (retained @ [v]))
      in bindS (atomicWrite (ds_path d) (join [newline] ls @ [newline])) (\<lambda>_. returnS (int (length ls))))))"

record receipt =
  rc_revision :: int
  rc_token :: string
  rc_contentSha256 :: string
  rc_exists :: bool
  rc_recordCount :: int
  rc_contentBytes :: int

definition retention_details :: "limits \<Rightarrow> int \<Rightarrow> int \<Rightarrow> (string \<times> jsv) list" where
  "retention_details l recordCount contentBytes = [(''recordCount'', JInt recordCount), (''contentBytes'', JInt contentBytes),
     (''retention'', JObj [(''maxRecords'', JInt (rl_records l)), (''maxBytes'', JInt (rl_bytes l)), (''maxRecordBytes'', JInt (rl_recordBytes l))])]"

definition retain_locked :: "store_env \<Rightarrow> dataset \<Rightarrow> limits \<Rightarrow> jsv \<Rightarrow> (store_world, receipt) sx" where
  "retain_locked E d l v = bindS getS (\<lambda>w.
     (let revision = meta_revision (readMetadata w (ds_path d)); encoded = json_stringify v in
      bindS (case canAppend w (ds_path d) l (byte_length encoded) of Some tracked \<Rightarrow> append_in_place E d encoded tracked
             | None \<Rightarrow> rewrite_retained d l v) (\<lambda>recordCount.
      bindS getS (\<lambda>w'. (let raw = raw_of w' (ds_path d); bytes = byte_length raw in
      bindS (writeMetadata E d (revision + 1) (retention_details l recordCount bytes)) (\<lambda>hash.
      returnS \<lparr>rc_revision = revision + 1, rc_token = token_of (revision + 1) hash, rc_contentSha256 = hash,
        rc_exists = (raw \<noteq> []), rc_recordCount = recordCount, rc_contentBytes = bytes\<rparr>))))))"

definition appendRetained :: "store_env \<Rightarrow> string \<Rightarrow> jsv \<Rightarrow> jsv \<Rightarrow> (store_world, receipt) sx" where
  "appendRetained E name v options =
     bindS (liftS (definition_of E name)) (\<lambda>d.
     bindS (requireS (ds_jsonl d) validation_failed) (\<lambda>_.
     bindS (liftS (read_limits 5000 (8 * 1024 * 1024) 1024 options)) (\<lambda>l.
     bindS (liftS (ds_validate d v)) (\<lambda>_.
     (let encodedBytes = byte_length (json_stringify v) in
      bindS (requireS (encodedBytes \<le> rl_recordBytes l \<and> encodedBytes + 1 \<le> rl_bytes l) validation_failed) (\<lambda>_.
      withLock E (ds_path d) (retain_locked E d l v)))))))"

section \<open>Snapshots\<close>

definition valueDigest :: "store_env \<Rightarrow> jsv \<Rightarrow> string res" where
  "valueDigest E v = (if v = JUndef then Inl (PlainError ''TypeError'') else Inr (rt_sha256 (se_runtime E) (json_stringify v)))"

definition kind_name :: "dataset \<Rightarrow> string" where
  "kind_name d = (if ds_jsonl d then ''jsonl'' else ''json'')"

definition export_entry :: "store_env \<Rightarrow> store_world \<Rightarrow> string \<Rightarrow> (string \<times> jsv) res" where
  "export_entry E w name =
     bindR (definition_of E name) (\<lambda>d.
     bindR (read_dataset E d True w) (\<lambda>record.
     bindR (valueDigest E (sn_value record)) (\<lambda>hash.
     Inr (name, JObj [(''kind'', JStr (kind_name d)), (''value'', sn_value record), (''valueSha256'', JStr hash), (''sourceToken'', JStr (sn_token record))]))))"

definition exportSnapshot :: "store_env \<Rightarrow> string list \<Rightarrow> store_world \<Rightarrow> jsv res" where
  "exportSnapshot E names w = bindR (mapR (export_entry E w) names) (\<lambda>es.
     Inr (JObj [(''schemaVersion'', JInt 1), (''generatedAt'', JStr (to_iso (se_now E))),
       (''datasets'', JObj (own_order (foldl (\<lambda>ps p. put_prop (fst p) (snd p) ps) [] es)))]))"

definition entries :: "jsv \<Rightarrow> (string \<times> jsv) list" where
  "entries snap = own_order (spread (getp snap ''datasets''))"

record import_change =
  ic_name :: string
  ic_kind :: string
  ic_fromToken :: string
  ic_changed :: bool

definition validate_value :: "dataset \<Rightarrow> jsv \<Rightarrow> unit res" where
  "validate_value d v = (if ds_jsonl d
     then (case v of JArr rs \<Rightarrow> bindR (mapR (ds_validate d) rs) (\<lambda>_. Inr ()) | _ \<Rightarrow> Inl validation_failed)
     else ds_validate d v)"

definition plan_entry :: "store_env \<Rightarrow> store_world \<Rightarrow> string \<times> jsv \<Rightarrow> import_change res" where
  "plan_entry E w p =
     bindR (definition_of E (fst p)) (\<lambda>d.
     bindR (requireR (getp (snd p) ''kind'' = JStr (kind_name d)) validation_failed) (\<lambda>_.
     bindR (valueDigest E (getp (snd p) ''value'')) (\<lambda>hash.
     bindR (requireR (getp (snd p) ''valueSha256'' = JStr hash) validation_failed) (\<lambda>_.
     bindR (validate_value d (getp (snd p) ''value'')) (\<lambda>_.
     bindR (read_dataset E d True w) (\<lambda>current.
     bindR (valueDigest E (sn_value current)) (\<lambda>h.
     Inr \<lparr>ic_name = fst p, ic_kind = kind_name d, ic_fromToken = sn_token current, ic_changed = (h \<noteq> hash)\<rparr>)))))))"

record import_plan =
  ip_applied :: bool
  ip_datasetCount :: nat
  ip_changedCount :: nat
  ip_changes :: "import_change list"
  ip_rollback :: jsv

definition planImport :: "store_env \<Rightarrow> jsv \<Rightarrow> store_world \<Rightarrow> import_plan res" where
  "planImport E snap w =
     bindR (requireR (num_is (getp snap ''schemaVersion'') 1
       \<and> (case getp snap ''datasets'' of JObj ps \<Rightarrow> True | JArr xs \<Rightarrow> True | _ \<Rightarrow> False)) validation_failed) (\<lambda>_.
     bindR (mapR (plan_entry E w) (entries snap)) (\<lambda>changes.
     Inr \<lparr>ip_applied = False, ip_datasetCount = length changes, ip_changedCount = length (filter ic_changed changes),
       ip_changes = changes, ip_rollback = JUndef\<rparr>))"

definition import_entry :: "store_env \<Rightarrow> string \<times> jsv \<Rightarrow> (store_world, snapshot) sx" where
  "import_entry E p = (if getp (snd p) ''kind'' = JStr ''json'' then store_write E (fst p) (getp (snd p) ''value'') []
     else replaceJsonLines E (fst p) (getp (snd p) ''value''))"

fun import_entries :: "store_env \<Rightarrow> (string \<times> jsv) list \<Rightarrow> (store_world, unit) sx" where
  "import_entries E [] = returnS ()"
| "import_entries E (p # ps) = bindS (import_entry E p) (\<lambda>_. import_entries E ps)"

definition importSnapshot :: "store_env \<Rightarrow> jsv \<Rightarrow> bool \<Rightarrow> string \<Rightarrow> (store_world, import_plan) sx" where
  "importSnapshot E snap apply_it confirm = bindS getS (\<lambda>w.
     bindS (liftS (planImport E snap w)) (\<lambda>plan.
     if \<not> apply_it then returnS plan
     else bindS (requireS (confirm = ''IMPORT-CONTROL-CENTER-STATE'') validation_failed) (\<lambda>_.
       bindS (liftS (exportSnapshot E (map fst (entries snap)) w)) (\<lambda>rollback.
       bindS (catchS (import_entries E (entries snap)) (\<lambda>e. bindS (import_entries E (entries rollback)) (\<lambda>_. throwS e))) (\<lambda>_.
       returnS (plan\<lparr>ip_applied := True, ip_rollback := rollback\<rparr>))))))"

end
