(* ===== verification/StateSafety.thy ===== *)
theory StateSafety
  imports StateStore
begin

text \<open>
  What the state store promises for one dataset: a value that was written reads back with the next
  revision, a writer whose token is out of date changes nothing, an appended record follows the
  history that was there. And what it does not: a line break lost in a failing append closes the log
  for good.
\<close>

text \<open>The datasets of the catalogue are what the constructor makes of its definitions.\<close>

lemma catalogue_normalized:
  "\<not> nullish d \<Longrightarrow> normalizeDefinition (JObj [(''path'', js_or configured (JStr (stateRoot @ ''/'' @ name))), (''defaultValue'', d)]) validateStateRecord
     = Inr (json_dataset configured name d)"
  "normalizeDefinition (JObj [(''path'', js_or configured (JStr (stateRoot @ ''/'' @ name))), (''kind'', JStr ''jsonl''), (''defaultValue'', JArr [])]) validateStateRecord
     = Inr (jsonl_dataset configured name)"
  by (auto simp: normalizeDefinition_def json_dataset_def jsonl_dataset_def js_or_def js_coalesce_def Let_def)

section \<open>Reading depends on the files alone\<close>

lemma raw_of_files: "sw_files w' = sw_files w \<Longrightarrow> raw_of w' p = raw_of w p"
  by (simp add: raw_of_def)

lemma read_dataset_files:
  assumes "sw_files w' (ds_path d) = sw_files w (ds_path d)" and "sw_files w' (metadataPath (ds_path d)) = sw_files w (metadataPath (ds_path d))"
  shows "read_dataset E d strict w' = read_dataset E d strict w"
  using assms by (simp add: read_dataset_def raw_of_def readMetadata_def)

lemma world_sel [simp]:
  "sw_files (took w) = sw_files w" "sw_locks (took w) = sw_locks w" "sw_files (drop_lock p w) = sw_files w"
  "sw_files (put_file p c w) = (sw_files w)(p \<mapsto> c)" "sw_locks (put_file p c w) = sw_locks w"
  "sw_locks (drop_lock p w) = (sw_locks w)(lock_path p := None)"
  by (simp_all add: took_def drop_lock_def put_file_def)

lemma acquire_files: "acquire E p w = (r, w') \<Longrightarrow> sw_files w' = sw_files w"
  by (auto simp: acquire_def take_lock_def Let_def split: option.splits write_outcome.splits if_splits)

lemma withLock_Inr:
  "withLock E p m w = (Inr x, w') \<longleftrightarrow> (\<exists>w1 w2. acquire E p w = (Inr (), w1) \<and> m w1 = (Inr x, w2) \<and> w' = drop_lock p w2)"
  by (auto simp: withLock_def finallyS_def sx_defs split: prod.splits sum.splits)

lemma withLock_Inl:
  "withLock E p m w = (Inl e, w') \<longleftrightarrow> acquire E p w = (Inl e, w')
     \<or> (\<exists>w1 w2. acquire E p w = (Inr (), w1) \<and> m w1 = (Inl e, w2) \<and> w' = drop_lock p w2)"
  by (auto simp: withLock_def finallyS_def sx_defs split: prod.splits sum.splits)

lemma paths_differ [simp]: "metadataPath p \<noteq> p" "p \<noteq> metadataPath p"
  by (simp_all add: metadataPath_def)

section \<open>Metadata\<close>

lemma stops_newline: "stops [newline]" "skip_ws [newline] = []"
  by (code_simp, code_simp)

lemma parse_pretty_line: "json_value v \<Longrightarrow> JSON_parse (json_text d v @ [newline]) = Some v"
  using JSON_parse_text [of v "[newline]" d] by (simp add: stops_newline)

lemma own_order_plain: "list_all (\<lambda>p. \<not> is_index_key (fst p)) ps \<Longrightarrow> own_order ps = ps"
proof -
  assume "list_all (\<lambda>p. \<not> is_index_key (fst p)) ps"
  then have "filter (\<lambda>p. is_index_key (fst p)) ps = []" "filter (\<lambda>p. \<not> is_index_key (fst p)) ps = ps"
    by (simp_all add: filter_empty_conv filter_id_conv list_all_iff)
  then show ?thesis by (simp add: own_order_def)
qed

lemma read_back_Inr: "read_back E d w = (Inr s, w') \<longleftrightarrow> read_dataset E d True w = Inr s \<and> w' = w"
  by (auto simp: read_back_def sx_defs)

lemma read_back_Inl: "read_back E d w = (Inl e, w') \<longleftrightarrow> read_dataset E d True w = Inl e \<and> w' = w"
  by (auto simp: read_back_def sx_defs)

lemma atomicWrite_Inr: "atomicWrite p c w = (Inr u, w') \<longleftrightarrow> next_outcome w = Succeeds \<and> w' = put_file p c (took w)"
  by (auto simp: atomicWrite_def split: write_outcome.splits)

definition metadata_of :: "store_env \<Rightarrow> string \<Rightarrow> int \<Rightarrow> (string \<times> jsv) list \<Rightarrow> jsv" where
  "metadata_of E raw revision details = JObj ((''schemaVersion'', JInt 1) # details
     @ [(''revision'', JInt revision), (''contentSha256'', JStr (rt_sha256 (se_runtime E) raw)), (''updatedAt'', JStr (to_iso (se_now E)))])"

lemma metadata_keys: "\<not> is_index_key ''schemaVersion''" "\<not> is_index_key ''revision''" "\<not> is_index_key ''contentSha256''"
  "\<not> is_index_key ''updatedAt''" "\<not> is_index_key ''recordCount''" "\<not> is_index_key ''contentBytes''" "\<not> is_index_key ''retention''"
  "\<not> is_index_key ''maxRecords''" "\<not> is_index_key ''maxBytes''" "\<not> is_index_key ''maxRecordBytes''"
  by code_simp+

lemma metadata_value:
  assumes "0 \<le> revision" and "revision \<le> 2 ^ 53 - 1"
  shows "json_value (metadata_of E raw revision [])"
  using assms by (simp add: metadata_of_def metadata_keys own_order_plain)

lemma writeMetadata_Inr:
  assumes "writeMetadata E d revision details w = (Inr h, w')" and "details = [] \<or> (\<exists>l a b. details = retention_details l a b)"
  shows "h = rt_sha256 (se_runtime E) (raw_of w (ds_path d))"
    and "w' = put_file (metadataPath (ds_path d)) (json_pretty (metadata_of E (raw_of w (ds_path d)) revision details) @ [newline]) (took w)"
    and "next_outcome w = Succeeds"
proof -
  let ?m = "JObj (foldl (\<lambda>ps p. put_prop (fst p) (snd p) ps) [(''schemaVersion'', JInt 1)]
      (details @ [(''revision'', JInt revision), (''contentSha256'', JStr (rt_sha256 (se_runtime E) (raw_of w (ds_path d)))), (''updatedAt'', JStr (to_iso (se_now E)))]))"
  have m: "?m = metadata_of E (raw_of w (ds_path d)) revision details"
    using assms(2) by (auto simp: metadata_of_def retention_details_def)
  show "h = rt_sha256 (se_runtime E) (raw_of w (ds_path d))" "next_outcome w = Succeeds"
    using assms(1) by (auto simp: writeMetadata_def Let_def bindS_Inr atomicWrite_Inr getS_def returnS_def)
  show "w' = put_file (metadataPath (ds_path d)) (json_pretty (metadata_of E (raw_of w (ds_path d)) revision details) @ [newline]) (took w)"
    using assms(1) unfolding m [symmetric] by (auto simp: writeMetadata_def Let_def bindS_Inr atomicWrite_Inr getS_def returnS_def)
qed

lemma raw_put [simp]: "raw_of (put_file p c w) q = (if q = p then c else raw_of w q)" "raw_of (took w) q = raw_of w q" "raw_of (drop_lock p w) q = raw_of w q"
  by (simp_all add: raw_of_def)

lemma readMetadata_put: "json_value m \<Longrightarrow> readMetadata (put_file (metadataPath p) (json_pretty m @ [newline]) w) p = m"
  by (simp add: readMetadata_def parse_pretty_line)

lemma meta_revision_of: "0 \<le> revision \<Longrightarrow> details = [] \<Longrightarrow> meta_revision (metadata_of E raw revision details) = revision"
  by (simp add: metadata_of_def meta_revision_def)

lemma meta_sha: "getp (metadata_of E raw revision []) ''contentSha256'' = JStr (rt_sha256 (se_runtime E) raw)"
  by (simp add: metadata_of_def)

lemma commit_Inr:
  assumes "commit E d revision w = (Inr s, w')" and "0 \<le> revision" and "revision \<le> 2 ^ 53 - 1"
  shows "raw_of w' (ds_path d) = raw_of w (ds_path d)" and "read_dataset E d True w' = Inr s"
    and "parsed_value d (raw_of w (ds_path d)) True = Inr (sn_value s)" and "sn_revision s = revision" and "\<not> sn_externalDrift s"
    and "sn_token s = token_of revision (rt_sha256 (se_runtime E) (raw_of w (ds_path d)))"
    and "p \<noteq> metadataPath (ds_path d) \<Longrightarrow> sw_files w' p = sw_files w p"
    and "sw_locks w' = sw_locks w"
proof -
  from assms(1) obtain h where h: "writeMetadata E d revision [] w = (Inr h, w')" and r: "read_dataset E d True w' = Inr s"
    by (auto simp: commit_def bindS_Inr read_back_Inr)
  note w' = writeMetadata_Inr(2) [OF h disjI1 [OF refl]]
  let ?m = "metadata_of E (raw_of w (ds_path d)) revision []"
  have m: "readMetadata w' (ds_path d) = ?m" unfolding w' by (rule readMetadata_put [OF metadata_value [OF assms(2,3)]])
  show raw: "raw_of w' (ds_path d) = raw_of w (ds_path d)" by (simp add: w')
  show "read_dataset E d True w' = Inr s" by (fact r)
  have "parsed_value d (raw_of w (ds_path d)) True = Inr (sn_value s) \<and> sn_revision s = revision \<and> \<not> sn_externalDrift s
      \<and> sn_token s = token_of revision (rt_sha256 (se_runtime E) (raw_of w (ds_path d)))"
    using r by (auto simp: read_dataset_def Let_def m raw meta_revision_of [OF assms(2)] meta_sha split: sum.splits)
  then show "parsed_value d (raw_of w (ds_path d)) True = Inr (sn_value s)" "sn_revision s = revision" "\<not> sn_externalDrift s"
    "sn_token s = token_of revision (rt_sha256 (se_runtime E) (raw_of w (ds_path d)))" by simp_all
  show "p \<noteq> metadataPath (ds_path d) \<Longrightarrow> sw_files w' p = sw_files w p" by (simp add: w')
  show "sw_locks w' = sw_locks w" by (simp add: w')
qed

lemma read_dataset_revision:
  assumes "read_dataset E d strict w = Inr s"
  shows "sn_revision s = meta_revision (readMetadata w (ds_path d))" and "0 \<le> sn_revision s"
    and "sn_token s = token_of (sn_revision s) (rt_sha256 (se_runtime E) (raw_of w (ds_path d)))"
proof -
  show "sn_revision s = meta_revision (readMetadata w (ds_path d))" "sn_token s = token_of (sn_revision s) (rt_sha256 (se_runtime E) (raw_of w (ds_path d)))"
    using assms by (auto simp: read_dataset_def Let_def split: sum.splits if_splits)
  then show "0 \<le> sn_revision s" by (auto simp: meta_revision_def split: jsv.splits option.splits if_splits)
qed

section \<open>Written values\<close>

lemma commit_succeeds:
  assumes "sw_outcomes w = []" and "parsed_value d (raw_of w (ds_path d)) True = Inr v"
  shows "\<exists>s w'. commit E d revision w = (Inr s, w') \<and> sw_outcomes w' = []"
proof -
  obtain h w' where w': "writeMetadata E d revision [] w = (Inr h, w')" "raw_of w' (ds_path d) = raw_of w (ds_path d)" "sw_outcomes w' = []"
    using assms(1) by (simp add: writeMetadata_def Let_def sx_defs atomicWrite_def next_outcome_def put_file_def took_def raw_of_def)
  then have "\<exists>s. read_dataset E d True w' = Inr s" using assms(2) by (simp add: read_dataset_def Let_def)
  then show ?thesis using w' by (auto simp: commit_def bindS_def read_back_def getS_def liftS_def)
qed

lemma parsed_written:
  assumes "json_value v" and "ds_validate d v = Inr ()" and "\<not> ds_jsonl d"
  shows "parsed_value d (json_pretty v @ [newline]) True = Inr v"
  using assms by (simp add: parsed_value_def parse_line_def parse_pretty_line)

lemma writeLocked_Inr:
  "writeLocked E d v tok w = (Inr s, w') \<longleftrightarrow> (\<exists>cur. read_dataset E d True w = Inr cur \<and> (tok = [] \<or> tok = sn_token cur) \<and> ds_validate d v = Inr ()
     \<and> next_outcome w = Succeeds \<and> commit E d (sn_revision cur + 1) (put_file (ds_path d) (json_pretty v @ [newline]) (took w)) = (Inr s, w'))"
  by (auto simp: writeLocked_def bindS_Inr read_back_Inr basicS_iff expect_def requireR_def atomicWrite_Inr split: if_splits)

lemma writeLocked_value:
  assumes "writeLocked E d v tok w = (Inr s, w')" and "json_value v" and "\<not> ds_jsonl d" and "meta_revision (readMetadata w (ds_path d)) < 2 ^ 53 - 1"
  shows "sn_value s = v" and "read_dataset E d True w' = Inr s" and "sn_revision s = meta_revision (readMetadata w (ds_path d)) + 1" and "\<not> sn_externalDrift s"
    and "p \<noteq> ds_path d \<Longrightarrow> p \<noteq> metadataPath (ds_path d) \<Longrightarrow> sw_files w' p = sw_files w p" and "sw_locks w' = sw_locks w"
proof -
  from assms(1) obtain cur where cur: "read_dataset E d True w = Inr cur" and ok: "ds_validate d v = Inr ()"
    and c: "commit E d (sn_revision cur + 1) (put_file (ds_path d) (json_pretty v @ [newline]) (took w)) = (Inr s, w')"
    by (auto simp: writeLocked_Inr)
  have r: "sn_revision cur = meta_revision (readMetadata w (ds_path d))" "0 \<le> sn_revision cur + 1" "sn_revision cur + 1 \<le> 2 ^ 53 - 1"
    using read_dataset_revision [OF cur] assms(4) by auto
  note c' = commit_Inr [OF c r(2,3)]
  show "sn_value s = v" using c'(3) parsed_written [OF assms(2) ok assms(3)] by simp
  show "read_dataset E d True w' = Inr s" "\<not> sn_externalDrift s" by (fact c')+
  show "sn_revision s = meta_revision (readMetadata w (ds_path d)) + 1" using c'(4) r(1) by simp
  show "p \<noteq> ds_path d \<Longrightarrow> p \<noteq> metadataPath (ds_path d) \<Longrightarrow> sw_files w' p = sw_files w p" using c'(7) by simp
  show "sw_locks w' = sw_locks w" using c'(8) by simp
qed

lemma writeLocked_succeeds:
  assumes "sw_outcomes w = []" and "read_dataset E d True w = Inr cur" and "tok = [] \<or> tok = sn_token cur"
    and "ds_validate d v = Inr ()" and "json_value v" and "\<not> ds_jsonl d"
  shows "\<exists>s w'. writeLocked E d v tok w = (Inr s, w')"
proof -
  let ?w = "put_file (ds_path d) (json_pretty v @ [newline]) (took w)"
  have o: "sw_outcomes ?w = []" "next_outcome w = Succeeds" using assms(1) by (simp_all add: put_file_def took_def next_outcome_def)
  have "parsed_value d (raw_of ?w (ds_path d)) True = Inr v" using parsed_written [OF assms(5,4,6)] by simp
  from commit_succeeds [OF o(1) this, of E "sn_revision cur + 1"] show ?thesis using assms(2,3,4) o(2) by (auto simp: writeLocked_Inr)
qed

lemma acquire_free:
  assumes "sw_outcomes w = []" and "sw_locks w (lock_path p) = None"
  shows "acquire E p w = (Inr (), took (w\<lparr>sw_locks := (sw_locks w)(lock_path p \<mapsto> se_now E)\<rparr>))"
  using assms by (simp add: acquire_def take_lock_def next_outcome_def)

lemma store_write_Inr:
  assumes "definition_of E name = Inr d"
  shows "store_write E name v tok w = (Inr s, w') \<longleftrightarrow> \<not> ds_jsonl d \<and>
    (\<exists>w1 w2. acquire E (ds_path d) w = (Inr (), w1) \<and> writeLocked E d v tok w1 = (Inr s, w2) \<and> w' = drop_lock (ds_path d) w2)"
  using assms by (auto simp: store_write_def bindS_Inr basicS_iff requireS_iff withLock_Inr)

text \<open>
  C38. On a store whose disk works and whose lock is free, writing a valid value with the token of the current
  snapshot, or with none, succeeds; what is read afterwards is that value with the next revision and
  no drift. The lock is released, and no other file is touched.
\<close>

theorem state_write_reads_back:
  assumes "definition_of E name = Inr d" and "\<not> ds_jsonl d" and "sw_outcomes w = []" and "sw_locks w (lock_path (ds_path d)) = None"
    and "store_read E name True w = (Inr s0, w)" and "tok = [] \<or> tok = sn_token s0" and "ds_validate d v = Inr ()" and "json_value v"
    and "sn_revision s0 < 2 ^ 53 - 1"
  shows "\<exists>s w'. store_write E name v tok w = (Inr s, w') \<and> store_read E name True w' = (Inr s, w') \<and> sn_value s = v
    \<and> sn_revision s = sn_revision s0 + 1 \<and> \<not> sn_externalDrift s \<and> sw_locks w' = sw_locks w
    \<and> (\<forall>p. p \<noteq> ds_path d \<and> p \<noteq> metadataPath (ds_path d) \<longrightarrow> sw_files w' p = sw_files w p)"
proof -
  let ?p = "ds_path d"
  let ?w1 = "took (w\<lparr>sw_locks := (sw_locks w)(lock_path ?p \<mapsto> se_now E)\<rparr>)"
  have files: "sw_files ?w1 = sw_files w" and out: "sw_outcomes ?w1 = []" using assms(3) by (simp_all add: took_def)
  have r0: "read_dataset E d True w = Inr s0" using assms(1,5) by (simp add: store_read_def)
  have same: "read_dataset E d True ?w1 = read_dataset E d True w" by (rule read_dataset_files) (simp_all add: files)
  have rev: "meta_revision (readMetadata ?w1 ?p) = sn_revision s0" using read_dataset_revision(1) [OF r0] files by (simp add: readMetadata_def)
  from writeLocked_succeeds [OF out _ assms(6,7,8,2), of E] same r0 obtain s w2 where w2: "writeLocked E d v tok ?w1 = (Inr s, w2)" by auto
  note v = writeLocked_value [OF w2 assms(8,2), unfolded rev, OF assms(9)]
  have "store_write E name v tok w = (Inr s, drop_lock ?p w2)"
    using store_write_Inr [OF assms(1)] assms(2) acquire_free [OF assms(3,4)] w2 by blast
  moreover have "store_read E name True (drop_lock ?p w2) = (Inr s, drop_lock ?p w2)"
    using v(2) assms(1) read_dataset_files [of "drop_lock ?p w2" d w2] by (simp add: store_read_def)
  moreover have "sw_locks (drop_lock ?p w2) = sw_locks w" using v(6) assms(4) by (auto simp: took_def)
  moreover have "\<forall>p. p \<noteq> ?p \<and> p \<noteq> metadataPath ?p \<longrightarrow> sw_files (drop_lock ?p w2) p = sw_files w p" using v(5) files by simp
  ultimately show ?thesis using v(1,3,4) by (intro exI [of _ s] exI [of _ "drop_lock ?p w2"] conjI) assumption+
qed

section \<open>A sample store\<close>

text \<open>The datasets of the catalogue without any environment variable, on an empty disk.\<close>

definition sample_store :: store_env where
  "sample_store = \<lparr>se_runtime = sample_runtime\<lparr>rt_sha256 := (\<lambda>s. s)\<rparr>, se_datasets = controlStateDatasets (JObj []), se_now = 0, se_waited = 0, se_staleLockMs = 30000\<rparr>"

definition sample_disk :: "write_outcome list \<Rightarrow> store_world" where
  "sample_disk outcomes = \<lparr>sw_files = (\<lambda>_. None), sw_locks = (\<lambda>_. None), sw_outcomes = outcomes\<rparr>"

definition sample_settings :: dataset where
  "sample_settings = json_dataset JUndef ''settings.json'' (JObj [])"

definition sample_audit :: dataset where
  "sample_audit = jsonl_dataset JUndef ''audit.jsonl''"

definition sample_event :: "int \<Rightarrow> jsv" where
  "sample_event n = JObj [(''n'', JInt n)]"

lemma sample_definitions: "definition_of sample_store ''settings'' = Inr sample_settings" "definition_of sample_store ''audit'' = Inr sample_audit"
  by (simp_all add: definition_of_def sample_store_def controlStateDatasets_def sample_settings_def sample_audit_def)

lemma sample_disk_sel [simp]: "sw_outcomes (sample_disk os) = os" "sw_locks (sample_disk os) p = None" "sw_files (sample_disk os) p = None"
  by (simp_all add: sample_disk_def)

lemma sample_kinds [simp]: "\<not> ds_jsonl sample_settings" "ds_jsonl sample_audit" "ds_validate sample_settings = validateStateRecord"
  "ds_validate sample_audit = validateStateRecord" "ds_default sample_settings = JObj []"
  by (simp_all add: sample_settings_def sample_audit_def json_dataset_def jsonl_dataset_def)

lemma sample_event_ok: "json_value (sample_event n) = (\<bar>n\<bar> \<le> 2 ^ 53 - 1)" "is_object (sample_event n)" "validateStateRecord (sample_event n) = Inr ()"
proof -
  have "\<not> is_index_key ''n''" by code_simp
  then show "json_value (sample_event n) = (\<bar>n\<bar> \<le> 2 ^ 53 - 1)" "is_object (sample_event n)" "validateStateRecord (sample_event n) = Inr ()"
    by (simp_all add: sample_event_def own_order_plain validateStateRecord_def)
qed

lemma sample_read:
  "\<exists>s. store_read sample_store ''settings'' True (sample_disk os) = (Inr s, sample_disk os) \<and> sn_value s = JObj [] \<and> sn_revision s = 0"
  "\<exists>s. store_read sample_store ''audit'' True (sample_disk os) = (Inr s, sample_disk os) \<and> sn_value s = JArr [] \<and> sn_revision s = 0"
proof -
  have "split_lines [] = []" by code_simp
  then show "\<exists>s. store_read sample_store ''settings'' True (sample_disk os) = (Inr s, sample_disk os) \<and> sn_value s = JObj [] \<and> sn_revision s = 0"
    "\<exists>s. store_read sample_store ''audit'' True (sample_disk os) = (Inr s, sample_disk os) \<and> sn_value s = JArr [] \<and> sn_revision s = 0"
    by (simp_all add: store_read_def sample_definitions read_dataset_def Let_def raw_of_def parsed_value_def parseJsonLines_def
        validateStateRecord_def readMetadata_def meta_revision_def)
qed

theorem state_write_reads_back_witness:
  "\<exists>s w'. store_write sample_store ''settings'' (sample_event 7) [] (sample_disk []) = (Inr s, w')
    \<and> store_read sample_store ''settings'' True w' = (Inr s, w') \<and> sn_value s = sample_event 7 \<and> sn_revision s = 1"
proof -
  obtain s0 where "store_read sample_store ''settings'' True (sample_disk []) = (Inr s0, sample_disk [])" "sn_revision s0 = 0"
    using sample_read(1) by blast
  then show ?thesis
    using state_write_reads_back [of sample_store "''settings''" sample_settings "sample_disk []" s0 "[]" "sample_event 7"]
    by (auto simp: sample_definitions sample_event_ok)
qed

section \<open>Stale tokens\<close>

lemma token_revision:
  assumes "token_of r h = token_of r' h'" and "0 \<le> r" and "0 \<le> r'"
  shows "r = r'"
proof -
  have "\<not> num_char CHR '':''" by code_simp
  then have colon: "\<forall>c \<in> set (show_int i). c \<noteq> CHR '':''" for i using show_int_chars [of i] by (auto simp: list_all_iff)
  have "takeWhile (\<lambda>c. c \<noteq> CHR '':'') (token_of i h) = show_int i" for i h using colon [of i] by (simp add: token_of_def)
  then show ?thesis using assms show_int_inj by metis
qed

lemma token_ne: "token_of r h \<noteq> []"
  by (simp add: token_of_def)

lemma stale_refused:
  assumes "tok \<noteq> []" and "\<And>cur. read_dataset E d True w = Inr cur \<Longrightarrow> tok \<noteq> sn_token cur"
  shows "\<exists>e. writeLocked E d v tok w = (Inl e, w)"
  using assms by (auto simp: writeLocked_def read_back_def sx_defs expect_def requireR_def split: sum.split)

text \<open>
  C11. Two writers read the same snapshot. Once the first has written with its token, a write or an
  update by the second with that token is refused and no file changes: no update is lost.
\<close>

theorem second_writer_is_refused:
  assumes "definition_of E name = Inr d" and "definition_of E' name = Inr d" and "store_read E name True w = (Inr s0, w)"
    and "store_write E name v (sn_token s0) w = (Inr s1, w1)" and "json_value v" and "sn_revision s0 < 2 ^ 53 - 1"
  shows "(\<exists>e w2. store_write E' name v' (sn_token s0) w1 = (Inl e, w2) \<and> sw_files w2 = sw_files w1)
    \<and> (\<exists>e w2. store_update E' name mutate (sn_token s0) w1 = (Inl e, w2) \<and> sw_files w2 = sw_files w1)"
proof -
  let ?p = "ds_path d"
  from assms(4) obtain wa wb where a: "acquire E ?p w = (Inr (), wa)" and b: "writeLocked E d v (sn_token s0) wa = (Inr s1, wb)"
    and w1: "w1 = drop_lock ?p wb" and j: "\<not> ds_jsonl d" by (auto simp: store_write_Inr [OF assms(1)])
  have r0: "read_dataset E d True w = Inr s0" using assms(1,3) by (simp add: store_read_def)
  have rev: "meta_revision (readMetadata wa ?p) = sn_revision s0"
    using read_dataset_revision(1) [OF r0] acquire_files [OF a] by (simp add: readMetadata_def)
  note v = writeLocked_value [OF b assms(5) j, unfolded rev, OF assms(6)]
  have stale: "sn_token s0 \<noteq> sn_token cur" if "read_dataset E' d True x = Inr cur" "sw_files x = sw_files w1" for x cur
  proof
    assume "sn_token s0 = sn_token cur"
    then have "sn_revision s0 = sn_revision cur"
      using read_dataset_revision [OF that(1)] read_dataset_revision [OF r0] token_revision by metis
    moreover have "sn_revision cur = sn_revision s1"
      using read_dataset_revision(1) [OF that(1)] read_dataset_revision(1) [OF v(2)] that(2) w1 by (simp add: readMetadata_def)
    ultimately show False using v(3) by simp
  qed
  have refused: "\<exists>e w2. withLock E' ?p m w1 = (Inl e, w2) \<and> sw_files w2 = sw_files w1"
    if "\<And>x. sw_files x = sw_files w1 \<Longrightarrow> \<exists>e. m x = (Inl e, x)" for m :: "(store_world, snapshot) sx"
  proof (cases "acquire E' ?p w1")
    case (Pair r x)
    note x = acquire_files [OF Pair]
    from that [OF x] obtain e where "m x = (Inl e, x)" ..
    then show ?thesis using Pair x by (cases r) (auto simp: withLock_Inl)
  qed
  have ne: "sn_token s0 \<noteq> []" using read_dataset_revision(3) [OF r0] token_ne by simp
  have "\<exists>e. writeLocked E' d v' (sn_token s0) x = (Inl e, x)" if "sw_files x = sw_files w1" for x
    by (rule stale_refused [OF ne]) (use stale that in blast)
  from refused [OF this] have first: "\<exists>e w2. store_write E' name v' (sn_token s0) w1 = (Inl e, w2) \<and> sw_files w2 = sw_files w1"
    using assms(2) j by (simp add: store_write_def bindS_def liftS_def requireS_def returnS_def)
  have "\<exists>e. bindS (read_back E' d) (\<lambda>current. bindS (liftS (expect (sn_token s0) current)) (\<lambda>_.
       bindS (liftS (mutate (sn_value current) current)) (\<lambda>next. writeLocked E' d next (sn_token current)))) x = (Inl e, x)"
    if "sw_files x = sw_files w1" for x
    using stale [OF _ that] ne by (auto simp: read_back_def sx_defs expect_def requireR_def split: sum.split)
  from refused [OF this] have "\<exists>e w2. store_update E' name mutate (sn_token s0) w1 = (Inl e, w2) \<and> sw_files w2 = sw_files w1"
    using assms(2) j by (simp add: store_update_def bindS_def liftS_def requireS_def returnS_def)
  with first show ?thesis ..
qed

theorem second_writer_is_refused_witness:
  "\<exists>s0 s1 w1 e w2. store_read sample_store ''settings'' True (sample_disk []) = (Inr s0, sample_disk [])
    \<and> store_write sample_store ''settings'' (sample_event 1) (sn_token s0) (sample_disk []) = (Inr s1, w1)
    \<and> store_write sample_store ''settings'' (sample_event 2) (sn_token s0) w1 = (Inl e, w2) \<and> sw_files w2 = sw_files w1"
proof -
  obtain s0 where s0: "store_read sample_store ''settings'' True (sample_disk []) = (Inr s0, sample_disk [])" "sn_revision s0 = 0"
    using sample_read(1) by blast
  have r0: "read_dataset sample_store sample_settings True (sample_disk []) = Inr s0" using s0(1) by (simp add: store_read_def sample_definitions)
  let ?w = "took (sample_disk []\<lparr>sw_locks := (sw_locks (sample_disk []))(lock_path (ds_path sample_settings) \<mapsto> se_now sample_store)\<rparr>)"
  have "read_dataset sample_store sample_settings True ?w = Inr s0" using r0 by (subst read_dataset_files [of _ _ "sample_disk []"]) simp_all
  then obtain s1 wx where "writeLocked sample_store sample_settings (sample_event 1) (sn_token s0) ?w = (Inr s1, wx)"
    using writeLocked_succeeds [of ?w sample_store sample_settings s0 "sn_token s0" "sample_event 1"] by (auto simp: took_def sample_event_ok)
  then obtain w1 where w1: "store_write sample_store ''settings'' (sample_event 1) (sn_token s0) (sample_disk []) = (Inr s1, w1)"
    using store_write_Inr [OF sample_definitions(1)] acquire_free [of "sample_disk []"] by fastforce
  then show ?thesis
    using second_writer_is_refused [OF sample_definitions(1) sample_definitions(1) s0(1) w1, of "sample_event 2"] s0 by (auto simp: sample_event_ok)
qed

section \<open>Lines of a log\<close>

lemma set_join: "set (join sep xs) \<subseteq> set sep \<union> (\<Union>x \<in> set xs. set x)"
  by (induction sep xs rule: join.induct) auto

lemma hex_char_code: "n < 16 \<Longrightarrow> 32 \<le> code (hex_char n)"
  by (auto simp: hex_char_def code_def)

lemma escape_printable: "c' \<in> set (json_escape c) \<Longrightarrow> 32 \<le> code c'"
proof -
  assume c': "c' \<in> set (json_escape c)"
  have "32 \<le> code CHR 0x5C" "32 \<le> code CHR 0x22" "32 \<le> code CHR ''b''" "32 \<le> code CHR ''f''" "32 \<le> code CHR ''n''"
    "32 \<le> code CHR ''r''" "32 \<le> code CHR ''t''" "32 \<le> code CHR ''u''" "32 \<le> code CHR ''0''" by code_simp+
  moreover have "32 \<le> code (hex_char (code c div 16))" "32 \<le> code (hex_char (code c mod 16))" if "code c < 32"
    using that by (simp_all add: hex_char_code less_mult_imp_div_less)
  ultimately show ?thesis using c' by (auto simp: json_escape_def split: if_splits)
qed

lemma quote_printable: "c \<in> set (json_quote s) \<Longrightarrow> 32 \<le> code c"
proof -
  have "32 \<le> code CHR 0x22" by code_simp
  then show "c \<in> set (json_quote s) \<Longrightarrow> 32 \<le> code c" by (auto simp: json_quote_def dest: escape_printable)
qed

lemma num_char_printable: "num_char c \<Longrightarrow> 32 \<le> code c"
  by (auto simp: num_char_def is_digit_def code_def)

lemma show_num_chars: "list_all num_char (show_num (Dec m k)) \<and> show_num (Dec m k) \<noteq> []"
proof -
  obtain m' k' where n: "norm_dec m k = (m', k')" by (cases "norm_dec m k")
  have c: "num_char CHR ''0''" "num_char CHR ''-''" "num_char CHR ''.''" by code_simp+
  have "list_all num_char (show_digits \<bar>m'\<bar>)" using show_digits_digits [of "\<bar>m'\<bar>"] by (simp add: list_all_iff num_char_def)
  then have s: "\<forall>c \<in> set (pad_left (Suc k') CHR ''0'' (show_digits \<bar>m'\<bar>)). num_char c" using c(1) by (auto simp: pad_left_def list_all_iff)
  then show ?thesis using n c show_int_chars [of m']
    by (auto simp: Let_def list_all_iff dest: in_set_takeD in_set_dropD)
qed

lemma line_printable: "\<forall>c \<in> set (json_stringify v). 32 \<le> code c"
proof (induction v rule: json_stringify.induct)
  case (4 n)
  have "32 \<le> code CHR ''n''" "32 \<le> code CHR ''u''" "32 \<le> code CHR ''l''" by code_simp+
  then show ?case using show_num_chars by (cases n) (auto simp: list_all_iff simp del: show_num.simps intro: num_char_printable)
next
  case (5 s)
  then show ?case using quote_printable by simp
next
  case (6 xs)
  have "32 \<le> code CHR '',''" "32 \<le> code CHR ''[''" "32 \<le> code CHR '']''" by code_simp+
  then show ?case using 6 set_join [of "'',''" "map json_stringify xs"] by fastforce
next
  case (7 ps)
  have p: "32 \<le> code CHR '',''" "32 \<le> code CHR 0x7B" "32 \<le> code CHR 0x7D" "32 \<le> code CHR '':''" by code_simp+
  let ?qs = "filter (\<lambda>(k, v). v \<noteq> JUndef) ps"
  have "32 \<le> code c" if "(k, v) \<in> set ?qs" "c \<in> set (json_quote k @ '':'' @ json_stringify v)" for k v c
  proof -
    have "\<forall>c \<in> set (json_stringify v). 32 \<le> code c" using 7 that(1) by blast
    then show ?thesis using that(2) p quote_printable by auto
  qed
  then have "\<forall>c \<in> set (join '','' (map (\<lambda>(k, v). json_quote k @ '':'' @ json_stringify v) ?qs)). 32 \<le> code c"
    using set_join [of "'',''" "map (\<lambda>(k, v). json_quote k @ '':'' @ json_stringify v) ?qs"] p by fastforce
  then show ?case using p by auto
qed (code_simp | (auto simp: code_def)[1])+

definition closed_log :: "string \<Rightarrow> bool" where
  "closed_log raw \<longleftrightarrow> raw = [] \<or> last raw = newline"

definition plain_line :: "string \<Rightarrow> bool" where
  "plain_line l \<longleftrightarrow> l \<noteq> [] \<and> (\<forall>c \<in> set l. 32 \<le> code c)"

lemma json_plain_line: "plain_line (json_stringify v)"
proof -
  have "json_stringify v \<noteq> []" using show_num_chars by (cases v) (auto simp: json_quote_def simp del: show_num.simps split: jnum.split)
  then show ?thesis using line_printable [of v] by (simp add: plain_line_def)
qed

lemma split_on_append: "split_on c (a @ c # b) = split_on c a @ split_on c b"
proof (induction a)
  case (Cons x a)
  obtain q qs where "split_on c a = q # qs" by (cases "split_on c a") auto
  then show ?case using Cons by auto
qed simp

lemma plain_line_facts:
  assumes "plain_line l"
  shows "newline \<notin> set l" and "strip_cr l = l" and "l \<noteq> []"
proof -
  have no: "\<not> 32 \<le> code newline" "\<not> 32 \<le> code CHR 0x0D" by code_simp+
  show ne: "l \<noteq> []" and "newline \<notin> set l" using assms no by (auto simp: plain_line_def)
  have "last l \<noteq> CHR 0x0D" using assms no(2) last_in_set [OF ne] unfolding plain_line_def by metis
  then show "strip_cr l = l" by (simp add: strip_cr_def)
qed

lemma closed_lines: "split_lines (a @ [newline]) = filter (\<lambda>l. l \<noteq> []) (map strip_cr (split_on newline a))"
  using split_on_append [of newline a "[]"] by (simp add: split_lines_def Let_def)

lemma split_lines_join:
  assumes "ls \<noteq> []" and "\<forall>l \<in> set ls. plain_line l"
  shows "split_lines (join [newline] ls @ [newline]) = ls"
proof -
  have "map strip_cr ls = ls" "filter (\<lambda>l. l \<noteq> []) ls = ls" using assms(2) plain_line_facts by (auto simp: map_idI filter_id_conv)
  then show ?thesis using closed_lines [of "join [newline] ls"] split_on_join [OF assms(1), of newline] assms(2) plain_line_facts(1) by simp
qed

lemma split_lines_append:
  assumes "closed_log raw" and "plain_line l"
  shows "split_lines (raw @ l @ [newline]) = split_lines raw @ [l]" and "split_lines (raw @ l) = split_lines raw @ [l]"
proof -
  note l = plain_line_facts [OF assms(2)] split_on_plain [OF plain_line_facts(1) [OF assms(2)]]
  have "split_lines (raw @ l @ [newline]) = split_lines raw @ [l] \<and> split_lines (raw @ l) = split_lines raw @ [l]"
  proof (cases raw rule: rev_cases)
    case Nil
    then show ?thesis using l closed_lines [of l] by (simp add: split_lines_def)
  next
    case (snoc a c)
    with assms(1) have raw: "raw = a @ [newline]" by (simp add: closed_log_def)
    have "split_lines (raw @ l @ [newline]) = split_lines raw @ [l]"
      using closed_lines [of "raw @ l"] closed_lines [of a] split_on_append [of newline a l] l by (simp add: raw)
    moreover have "split_lines (raw @ l) = split_lines raw @ [l]"
      using closed_lines [of a] split_on_append [of newline a l] l by (simp add: raw split_lines_def Let_def)
    ultimately show ?thesis ..
  qed
  then show "split_lines (raw @ l @ [newline]) = split_lines raw @ [l]" "split_lines (raw @ l) = split_lines raw @ [l]" by simp_all
qed

lemma mapR_append: "mapR f (xs @ ys) = bindR (mapR f xs) (\<lambda>as. bindR (mapR f ys) (\<lambda>bs. Inr (as @ bs)))"
proof (induction xs)
  case Nil
  then show ?case by (cases "mapR f ys") auto
next
  case (Cons x xs)
  then show ?case by (cases "f x"; cases "mapR f xs"; cases "mapR f ys") auto
qed

lemma parse_line_text: "json_value v \<Longrightarrow> parse_line (json_stringify v) = Inr v"
  using json_round_trip [of v None] by (simp add: parse_line_def json_text_compact)

lemma parsed_log:
  assumes "ds_jsonl d" and "parsed_value d raw True = Inr (JArr rs)" and "json_value v" and "ds_validate d v = Inr ()"
    and "split_lines raw' = split_lines raw @ [json_stringify v]"
  shows "parsed_value d raw' True = Inr (JArr (rs @ [v]))"
  using assms by (auto simp: parsed_value_def parseJsonLines_def bindR_eq_Inr mapR_append parse_line_text)

lemma parsed_broken:
  assumes "ds_jsonl d" and "l \<in> set (split_lines raw)" and "JSON_parse l = None"
  shows "\<exists>e. parsed_value d raw True = Inl e"
proof -
  have "mapR parse_line (split_lines raw) \<noteq> Inr rs" for rs
  proof
    assume "mapR parse_line (split_lines raw) = Inr rs"
    then have "list_all2 (\<lambda>x y. parse_line x = Inr y) (split_lines raw) rs" by (simp add: mapR_Inr_iff)
    then have "\<exists>v. parse_line l = Inr v" using assms(2) by (auto simp: list_all2_conv_all_nth in_set_conv_nth)
    then show False using assms(3) by (simp add: parse_line_def)
  qed
  then show ?thesis using assms(1) by (cases "mapR parse_line (split_lines raw)") (auto simp: parsed_value_def parseJsonLines_def)
qed

lemma append_locked_step:
  assumes "read_dataset E d True w = Inr cur" and "tok = [] \<or> tok = sn_token cur" and "ds_validate d v = Inr ()"
  shows "append_locked E d v tok w = bindS (append_line (ds_path d) (json_stringify v @ [newline])) (\<lambda>_. commit E d (sn_revision cur + 1)) w"
  using assms by (auto simp: append_locked_def read_back_def expect_def requireR_def bindS_def getS_def liftS_def)

lemma parsed_of_read:
  assumes "read_dataset E d True w = Inr s"
  shows "parsed_value d (raw_of w (ds_path d)) True = Inr (sn_value s)"
  using assms by (auto simp: read_dataset_def Let_def split: sum.splits)

lemma store_append_locked:
  assumes "definition_of E name = Inr d" and "ds_jsonl d" and "acquire E (ds_path d) w = (Inr (), w1)" and "append_locked E d v tok w1 = (r, w2)"
  shows "store_append E name v tok w = (r, drop_lock (ds_path d) w2)"
  using assms by (cases r) (auto simp: store_append_def withLock_def finallyS_def sx_defs)

text \<open>
  C39. Appending a valid record to a log whose last line is closed keeps the history: on a working disk the append
  succeeds, the text that was there is a prefix of the new text, and what is read afterwards is the
  records of before followed by the new one, at the next revision.
\<close>

theorem append_extends_the_log:
  assumes "definition_of E name = Inr d" and "ds_jsonl d" and "sw_outcomes w = []" and "sw_locks w (lock_path (ds_path d)) = None"
    and "store_read E name True w = (Inr s0, w)" and "sn_value s0 = JArr rs" and "closed_log (raw_of w (ds_path d))" and "tok = [] \<or> tok = sn_token s0"
    and "ds_validate d v = Inr ()" and "json_value v" and "sn_revision s0 < 2 ^ 53 - 1"
  shows "\<exists>s w'. store_append E name v tok w = (Inr s, w') \<and> store_read E name True w' = (Inr s, w') \<and> sn_value s = JArr (rs @ [v])
    \<and> sn_revision s = sn_revision s0 + 1 \<and> raw_of w' (ds_path d) = raw_of w (ds_path d) @ json_stringify v @ [newline]
    \<and> closed_log (raw_of w' (ds_path d))"
proof -
  let ?p = "ds_path d"
  let ?raw = "raw_of w ?p @ json_stringify v @ [newline]"
  let ?w1 = "took (w\<lparr>sw_locks := (sw_locks w)(lock_path ?p \<mapsto> se_now E)\<rparr>)"
  let ?w2 = "put_file ?p ?raw (took ?w1)"
  have files: "sw_files ?w1 = sw_files w" and out: "next_outcome ?w1 = Succeeds" "sw_outcomes ?w2 = []"
    using assms(3) by (simp_all add: took_def next_outcome_def put_file_def)
  have r0: "read_dataset E d True w = Inr s0" using assms(1,5) by (simp add: store_read_def)
  then have r1: "read_dataset E d True ?w1 = Inr s0" using read_dataset_files [of ?w1 d w] files by simp
  have "parsed_value d (raw_of w ?p) True = Inr (JArr rs)" using parsed_of_read [OF r0] assms(6) by simp
  from parsed_log [OF assms(2) this assms(10,9) split_lines_append(1) [OF assms(7) json_plain_line]]
  have parsed: "parsed_value d (raw_of ?w2 ?p) True = Inr (JArr (rs @ [v]))" by simp
  from commit_succeeds [OF out(2) parsed, of E "sn_revision s0 + 1"] obtain s w3 where c: "commit E d (sn_revision s0 + 1) ?w2 = (Inr s, w3)" by blast
  have raw1: "raw_of ?w1 ?p = raw_of w ?p" using files by (rule raw_of_files)
  have "append_locked E d v tok ?w1 = (Inr s, w3)"
    using append_locked_step [OF r1 assms(8,9)] out(1) c raw1 by (simp add: bindS_def append_line_def)
  from store_append_locked [OF assms(1,2) acquire_free [OF assms(3,4)] this]
  have ran: "store_append E name v tok w = (Inr s, drop_lock ?p w3)" .
  have rev: "0 \<le> sn_revision s0 + 1" "sn_revision s0 + 1 \<le> 2 ^ 53 - 1" using read_dataset_revision(2) [OF r0] assms(11) by simp_all
  note c' = commit_Inr [OF c rev]
  have "store_read E name True (drop_lock ?p w3) = (Inr s, drop_lock ?p w3)"
    using c'(2) assms(1) read_dataset_files [of "drop_lock ?p w3" d w3] by (simp add: store_read_def)
  moreover have "sn_value s = JArr (rs @ [v])" using c'(3) parsed by simp
  moreover have "raw_of (drop_lock ?p w3) ?p = ?raw" using c'(1) by simp
  ultimately show ?thesis using ran c'(4) by (intro exI [of _ s] exI [of _ "drop_lock ?p w3"]) (simp add: closed_log_def)
qed

theorem append_extends_the_log_witness:
  "\<exists>s w'. store_append sample_store ''audit'' (sample_event 7) [] (sample_disk []) = (Inr s, w')
    \<and> store_read sample_store ''audit'' True w' = (Inr s, w') \<and> sn_value s = JArr [sample_event 7] \<and> sn_revision s = 1"
proof -
  obtain s0 where "store_read sample_store ''audit'' True (sample_disk []) = (Inr s0, sample_disk [])" "sn_value s0 = JArr []" "sn_revision s0 = 0"
    using sample_read(2) by blast
  then show ?thesis
    using append_extends_the_log [of sample_store "''audit''" sample_audit "sample_disk []" s0 "[]" "[]" "sample_event 7"]
    by (auto simp: sample_definitions sample_event_ok closed_log_def raw_of_def)
qed

lemma read_broken: "parsed_value d (raw_of w (ds_path d)) True = Inl e \<Longrightarrow> read_dataset E d True w = Inl validation_failed"
  by (simp add: read_dataset_def Let_def)

lemma broken_log_refuses:
  assumes "definition_of E name = Inr d" and "parsed_value d (raw_of w (ds_path d)) True = Inl e"
  shows "\<exists>e' w'. store_append E name v tok w = (Inl e', w') \<and> sw_files w' = sw_files w"
proof (cases "ds_jsonl d")
  case True
  obtain r x where a: "acquire E (ds_path d) w = (r, x)" by (cases "acquire E (ds_path d) w")
  note x = acquire_files [OF a]
  have "append_locked E d v tok x = (Inl validation_failed, x)"
    using read_broken [of d x e] assms(2) raw_of_files [OF x] by (simp add: append_locked_def bindS_def read_back_def getS_def liftS_def)
  then have "\<exists>e' w'. withLock E (ds_path d) (append_locked E d v tok) w = (Inl e', w') \<and> sw_files w' = sw_files w"
    using a x by (cases r) (auto simp: withLock_Inl)
  then show ?thesis using assms(1) True by (simp add: store_append_def bindS_def liftS_def requireS_def returnS_def)
next
  case False
  then show ?thesis using assms(1) by (simp add: store_append_def sx_defs)
qed

lemma commit_broken:
  assumes "sw_outcomes w = []" and "parsed_value d (raw_of w (ds_path d)) True = Inl e"
  shows "\<exists>w'. commit E d revision w = (Inl validation_failed, w') \<and> raw_of w' (ds_path d) = raw_of w (ds_path d)"
proof -
  obtain h w' where w': "writeMetadata E d revision [] w = (Inr h, w')" "raw_of w' (ds_path d) = raw_of w (ds_path d)"
    using assms(1) by (simp add: writeMetadata_def Let_def sx_defs atomicWrite_def next_outcome_def)
  then have "read_dataset E d True w' = Inl validation_failed" using read_broken [of d w' e] assms(2) by simp
  then show ?thesis using w' by (auto simp: commit_def bindS_def read_back_def getS_def liftS_def)
qed

lemma glued_lines_broken:
  assumes "ds_jsonl d" and "closed_log raw" and "json_value u" and "json_value v" and "is_object v"
  shows "\<exists>e. parsed_value d (raw @ json_stringify u @ json_stringify v @ [newline]) True = Inl e"
proof -
  let ?l = "json_stringify u @ json_stringify v"
  have l: "plain_line ?l" using json_plain_line [of u] json_plain_line [of v] by (auto simp: plain_line_def)
  obtain t where t: "json_stringify v = CHR 0x7B # t" using assms(5) by (cases v) auto
  have "\<not> num_char CHR 0x7B" "\<not> json_ws CHR 0x7B" by code_simp+
  then have "stops (json_stringify v)" "skip_ws (json_stringify v) \<noteq> []" unfolding t by (simp_all add: stops_def skip_ws_stop)
  then have "JSON_parse ?l = None" using JSON_parse_text [OF assms(3), of "json_stringify v" None] by (simp add: json_text_compact)
  then show ?thesis
    by (intro parsed_broken [OF assms(1), of ?l]) (use split_lines_append(1) [OF assms(2) l] in simp_all)
qed

text \<open>
  C40. An append may fail after the text of its record and before its line break. The record counts as stored, but the
  next append writes its own record on the same line: it reports an error, and from then on the log
  cannot be read strictly and every append, by whom and with what token ever, is refused.
\<close>

theorem lost_line_break_closes_the_log:
  assumes "definition_of E name = Inr d" and "ds_jsonl d" and "sw_outcomes w = [Succeeds, FailsAfter (length (json_stringify u))]"
    and "sw_locks w (lock_path (ds_path d)) = None" and "store_read E name True w = (Inr s0, w)" and "sn_value s0 = JArr rs"
    and "closed_log (raw_of w (ds_path d))" and "json_value u" and "ds_validate d u = Inr ()"
    and "json_value v" and "is_object v" and "ds_validate d v = Inr ()"
  shows "\<exists>w1 s1 w2. store_append E name u [] w = (Inl io_error, w1)
    \<and> store_read E name True w1 = (Inr s1, w1) \<and> sn_value s1 = JArr (rs @ [u])
    \<and> store_append E name v [] w1 = (Inl validation_failed, w2)
    \<and> store_read E name True w2 = (Inl validation_failed, w2)
    \<and> (\<forall>E' x tok. definition_of E' name = Inr d \<longrightarrow> (\<exists>e w3. store_append E' name x tok w2 = (Inl e, w3) \<and> sw_files w3 = sw_files w2))"
proof -
  let ?p = "ds_path d"
  let ?torn = "raw_of w ?p @ json_stringify u"
  let ?glued = "raw_of w ?p @ json_stringify u @ json_stringify v @ [newline]"
  let ?wa = "took (w\<lparr>sw_locks := (sw_locks w)(lock_path ?p \<mapsto> se_now E)\<rparr>)"
  let ?w1 = "drop_lock ?p (put_file ?p ?torn (took ?wa))"
  have acq: "acquire E ?p w = (Inr (), ?wa)" using assms(3,4) by (simp add: acquire_def take_lock_def next_outcome_def)
  have files: "sw_files ?wa = sw_files w" and out: "next_outcome ?wa = FailsAfter (length (json_stringify u))" "sw_outcomes ?w1 = []"
    "sw_locks ?w1 (lock_path ?p) = None" using assms(3) by (simp_all add: took_def next_outcome_def put_file_def drop_lock_def)
  have r0: "read_dataset E d True w = Inr s0" using assms(1,5) by (simp add: store_read_def)
  then have r1: "read_dataset E d True ?wa = Inr s0" using read_dataset_files [of ?wa d w] files by simp
  have "append_locked E d u [] ?wa = (Inl io_error, put_file ?p ?torn (took ?wa))"
    using append_locked_step [OF r1 _ assms(9), of "[]"] out(1) raw_of_files [OF files] by (simp add: bindS_def append_line_def)
  from store_append_locked [OF assms(1,2) acq this] have first: "store_append E name u [] w = (Inl io_error, ?w1)" .
  have "parsed_value d (raw_of w ?p) True = Inr (JArr rs)" using parsed_of_read [OF r0] assms(6) by simp
  from parsed_log [OF assms(2) this assms(8,9) split_lines_append(2) [OF assms(7) json_plain_line]]
  have "parsed_value d (raw_of ?w1 ?p) True = Inr (JArr (rs @ [u]))" by simp
  then obtain s1 where s1: "read_dataset E d True ?w1 = Inr s1" "sn_value s1 = JArr (rs @ [u])" by (simp add: read_dataset_def Let_def)
  let ?wb = "took (?w1\<lparr>sw_locks := (sw_locks ?w1)(lock_path ?p \<mapsto> se_now E)\<rparr>)"
  let ?wc = "put_file ?p ?glued (took ?wb)"
  have filesb: "sw_files ?wb = sw_files ?w1" and outb: "next_outcome ?wb = Succeeds" "sw_outcomes ?wc = []"
    using out(2) by (simp_all add: took_def next_outcome_def put_file_def)
  have rawb: "raw_of ?wb ?p = ?torn" using raw_of_files [OF filesb] by simp
  from glued_lines_broken [OF assms(2,7,8,10,11)] obtain e where e: "parsed_value d (raw_of ?wc ?p) True = Inl e" by auto
  from commit_broken [OF outb(2) e, of E "sn_revision s1 + 1"] obtain wd where wd: "commit E d (sn_revision s1 + 1) ?wc = (Inl validation_failed, wd)"
    "raw_of wd ?p = raw_of ?wc ?p" by blast
  have "read_dataset E d True ?wb = Inr s1" using s1(1) read_dataset_files [of ?wb d ?w1] filesb by simp
  then have "append_locked E d v [] ?wb = (Inl validation_failed, wd)"
    using append_locked_step [of E d ?wb s1 "[]" v] assms(12) outb(1) rawb wd(1) by (simp add: bindS_def append_line_def)
  from store_append_locked [OF assms(1,2) acquire_free [OF out(2,3)] this]
  have second: "store_append E name v [] ?w1 = (Inl validation_failed, drop_lock ?p wd)" .
  have broken: "parsed_value d (raw_of (drop_lock ?p wd) ?p) True = Inl e" using wd(2) e by simp
  have "store_read E name True (drop_lock ?p wd) = (Inl validation_failed, drop_lock ?p wd)"
    using read_broken [OF broken] assms(1) by (simp add: store_read_def)
  moreover have "store_read E name True ?w1 = (Inr s1, ?w1)" using s1(1) assms(1) by (simp add: store_read_def)
  ultimately show ?thesis using first second s1(2) broken_log_refuses [OF _ broken] by blast
qed

theorem lost_line_break_closes_the_log_witness:
  "\<exists>w1 w2. store_append sample_store ''audit'' (sample_event 1) [] (sample_disk [Succeeds, FailsAfter (length (json_stringify (sample_event 1)))]) = (Inl io_error, w1)
    \<and> store_append sample_store ''audit'' (sample_event 2) [] w1 = (Inl validation_failed, w2)
    \<and> store_read sample_store ''audit'' True w2 = (Inl validation_failed, w2)"
proof -
  let ?w = "sample_disk [Succeeds, FailsAfter (length (json_stringify (sample_event 1)))]"
  obtain s0 where "store_read sample_store ''audit'' True ?w = (Inr s0, ?w)" "sn_value s0 = JArr []"
    using sample_read(2) by blast
  then show ?thesis
    using lost_line_break_closes_the_log [of sample_store "''audit''" sample_audit ?w "sample_event 1" s0 "[]" "sample_event 2"]
    by (auto simp: sample_definitions sample_event_ok closed_log_def raw_of_def)
qed

end
