(* ===== verification/StateRetention.thy ===== *)
theory StateRetention
  imports StateSafety
begin

text \<open>
  The limits of a retained log. The store trusts the record count of its metadata only while the
  digest of the text is the one it noted; the invariant is that a noted digest is that of a closed log
  with so many lines. It holds after any sequence of retained appends, with any failures of the disk.
\<close>

section \<open>Bytes and lines\<close>

lemma byte_length_append [simp]: "byte_length (a @ b) = byte_length a + byte_length b"
  by (simp add: byte_length_def)

lemma byte_length_Cons: "byte_length (c # s) = (if code c < 128 then 1 else 2) + byte_length s"
  by (simp add: byte_length_def)

lemma byte_length_ge_0 [simp]: "0 \<le> byte_length s"
  by (auto simp: byte_length_def intro!: sum_list_nonneg)

lemma byte_newline [simp]: "byte_length (newline # s) = 1 + byte_length s"
proof -
  have "code newline < 128" by code_simp
  then show ?thesis by (simp add: byte_length_Cons)
qed

lemma byte_length_Nil [simp]: "byte_length [] = 0"
  by (simp add: byte_length_def)

lemma join_bytes: "ls \<noteq> [] \<Longrightarrow> byte_length (join [newline] ls) + 1 = lines_bytes ls"
  by (induction "[newline]" ls rule: join.induct) (simp_all add: lines_bytes_def)

lemma trim_lines_facts:
  assumes "ls \<noteq> []"
  shows "trim_lines m ls \<noteq> [] \<and> last (trim_lines m ls) = last ls \<and> set (trim_lines m ls) \<subseteq> set ls \<and> length (trim_lines m ls) \<le> length ls
    \<and> (lines_bytes (trim_lines m ls) \<le> m \<or> trim_lines m ls = [last ls])"
  using assms
proof (induction ls)
  case (Cons l ls)
  show ?case
  proof (cases "ls \<noteq> [] \<and> m < lines_bytes (l # ls)")
    case True
    then show ?thesis using Cons.IH by auto
  next
    case False
    then show ?thesis by auto
  qed
qed simp

lemma trim_within:
  assumes "ls \<noteq> []" and "byte_length (last ls) + 1 \<le> m"
  shows "lines_bytes (trim_lines m ls) \<le> m"
  using trim_lines_facts [OF assms(1), of m] assms(2) by (auto simp: lines_bytes_def)

lemma last_lines_length: "0 \<le> n \<Longrightarrow> int (length (last_lines n ls)) \<le> n"
  by (simp add: last_lines_def)

lemma read_tail_length:
  assumes "read_tail d l strict w = Inr t" and "0 \<le> rl_records l"
  shows "int (length (tv_value t)) \<le> rl_records l"
proof -
  let ?ls = "last_lines (rl_records l) (boundedJsonLineBuffers (tail_text (rl_bytes l) (raw_of w (ds_path d))) (rl_bytes l < byte_length (raw_of w (ds_path d))))"
  have "tv_value t = map projr (filter (\<lambda>r. \<not> isl r) (map (tail_record d l) ?ls))"
    using assms(1) by (auto simp: read_tail_def Let_def simp del: filter_map split: if_splits)
  then have "length (tv_value t) \<le> length ?ls" by (metis length_filter_le length_map)
  then show ?thesis using last_lines_length [OF assms(2)] by (meson le_trans of_nat_le_iff order_trans)
qed

section \<open>What a retained append leaves\<close>

definition within :: "limits \<Rightarrow> string \<Rightarrow> int \<Rightarrow> string \<Rightarrow> bool" where
  "within l line n raw \<longleftrightarrow> closed_log raw \<and> int (length (split_lines raw)) = n \<and> n \<le> rl_records l \<and> byte_length raw \<le> rl_bytes l
     \<and> split_lines raw \<noteq> [] \<and> last (split_lines raw) = line"

text \<open>The metadata of a log tells its records: whatever text has the noted digest is a log of that many lines.\<close>

definition tells :: "(string \<Rightarrow> string) \<Rightarrow> jsv \<Rightarrow> bool" where
  "tells sha metadata \<longleftrightarrow> (\<forall>n raw. safe_int (js_Number (getp metadata ''recordCount'')) = Some n \<longrightarrow> getp metadata ''contentSha256'' = JStr (sha raw)
     \<longrightarrow> closed_log raw \<and> int (length (split_lines raw)) = n)"

lemma rewrite_within:
  assumes "rewrite_retained d l v w = (Inr n, w')" and "1 \<le> rl_records l" and "byte_length (json_stringify v) + 1 \<le> rl_bytes l"
  shows "within l (json_stringify v) n (raw_of w' (ds_path d))"
proof -
  let ?tail = "if rl_records l = 1 then returnS [] else bindS (liftS (read_tail d (l\<lparr>rl_records := rl_records l - 1\<rparr>) True w)) (\<lambda>t. returnS (tv_value t))"
  from assms(1) obtain rs where tail: "?tail w = (Inr rs, w)" and n: "n = int (length (trim_lines (rl_bytes l) (map json_stringify (rs @ [v]))))"
    and w': "w' = put_file (ds_path d) (join [newline] (trim_lines (rl_bytes l) (map json_stringify (rs @ [v]))) @ [newline]) (took w)"
    by (auto simp: rewrite_retained_def Let_def bindS_Inr basicS_iff atomicWrite_Inr split: if_splits)
  have raw: "raw_of w' (ds_path d) = join [newline] (trim_lines (rl_bytes l) (map json_stringify (rs @ [v]))) @ [newline]" by (simp add: w')
  have rs: "int (length rs) \<le> rl_records l - 1"
  proof (cases "rl_records l = 1")
    case True
    then show ?thesis using tail by (simp add: basicS_iff)
  next
    case False
    then obtain t where "read_tail d (l\<lparr>rl_records := rl_records l - 1\<rparr>) True w = Inr t" "rs = tv_value t"
      using tail by (cases "read_tail d (l\<lparr>rl_records := rl_records l - 1\<rparr>) True w") (auto simp: bindS_def liftS_def returnS_def)
    then show ?thesis using read_tail_length [of d "l\<lparr>rl_records := rl_records l - 1\<rparr>" True w t] assms(2) by simp
  qed
  let ?ls = "map json_stringify (rs @ [v])"
  let ?t = "trim_lines (rl_bytes l) ?ls"
  have ls: "?ls \<noteq> []" "last ?ls = json_stringify v" "int (length ?ls) \<le> rl_records l" using rs by simp_all
  note t = trim_lines_facts [OF ls(1), of "rl_bytes l"]
  have "\<forall>x \<in> set ?t. plain_line x" using t json_plain_line by fastforce
  then have "split_lines (join [newline] ?t @ [newline]) = ?t" using t by (intro split_lines_join) auto
  moreover have "byte_length (join [newline] ?t @ [newline]) \<le> rl_bytes l"
    using trim_within [OF ls(1)] ls(2) assms(3) join_bytes [of ?t] t by simp
  ultimately show ?thesis using t ls(2,3) unfolding within_def raw n by (simp add: closed_log_def)
qed

lemma append_within:
  assumes "append_in_place E d (json_stringify v) tracked w = (Inr n, w')" and "canAppend w (ds_path d) l (byte_length (json_stringify v)) = Some tracked"
    and "tells (rt_sha256 (se_runtime E)) (readMetadata w (ds_path d))"
  shows "within l (json_stringify v) n (raw_of w' (ds_path d))"
proof -
  let ?raw = "raw_of w (ds_path d)"
  from assms(1) have sha: "getp (readMetadata w (ds_path d)) ''contentSha256'' = JStr (rt_sha256 (se_runtime E) ?raw)" and n: "n = tracked + 1"
    and w': "raw_of w' (ds_path d) = ?raw @ json_stringify v @ [newline]"
    by (auto simp: append_in_place_def bindS_Inr basicS_iff requireS_iff append_line_def split: if_splits write_outcome.splits)
  from assms(2) have can: "safe_int (js_Number (getp (readMetadata w (ds_path d)) ''recordCount'')) = Some tracked" "tracked < rl_records l"
    "byte_length ?raw + byte_length (json_stringify v) + 1 \<le> rl_bytes l"
    by (auto simp: canAppend_def Let_def split: option.splits if_splits)
  have log: "closed_log ?raw" "int (length (split_lines ?raw)) = tracked" using assms(3) can(1) sha unfolding tells_def by blast+
  show ?thesis using split_lines_append(1) [OF log(1) json_plain_line [of v]] log(2) can(2,3) unfolding within_def w' n by (simp add: closed_log_def)
qed

section \<open>Metadata of a retained log\<close>

definition limits_ok :: "limits \<Rightarrow> bool" where
  "limits_ok l \<longleftrightarrow> 1 \<le> rl_records l \<and> rl_records l \<le> 100000 \<and> 1 \<le> rl_bytes l \<and> rl_bytes l \<le> 64 * 1024 * 1024
     \<and> 1 \<le> rl_recordBytes l \<and> rl_recordBytes l \<le> rl_bytes l"

lemma boundedReadLimit_Inr: "boundedReadLimit v lo hi = Inr n \<Longrightarrow> lo \<le> n \<and> n \<le> hi"
  by (auto simp: boundedReadLimit_def split: option.splits if_splits)

lemma read_limits_ok: "read_limits r b fewest options = Inr l \<Longrightarrow> 1 \<le> fewest \<Longrightarrow> limits_ok l"
  by (auto simp: read_limits_def bindR_eq_Inr limits_ok_def dest!: boundedReadLimit_Inr)

lemma retention_value:
  assumes "limits_ok l" and "0 \<le> revision" and "revision \<le> 2 ^ 53 - 1" and "within l line n raw"
  shows "json_value (metadata_of E raw revision (retention_details l n (byte_length raw)))"
  using assms byte_length_ge_0 [of raw] by (auto simp: metadata_of_def retention_details_def metadata_keys own_order_plain limits_ok_def within_def)

lemma retention_meta:
  "getp (metadata_of E raw revision (retention_details l n b)) ''recordCount'' = JInt n"
  "getp (metadata_of E raw revision (retention_details l n b)) ''contentSha256'' = JStr (rt_sha256 (se_runtime E) raw)"
  "0 \<le> revision \<Longrightarrow> meta_revision (metadata_of E raw revision (retention_details l n b)) = revision"
  by (simp_all add: metadata_of_def retention_details_def meta_revision_def)

lemma new_metadata_tells:
  assumes "inj (rt_sha256 (se_runtime E))" and "within l line n raw"
  shows "tells (rt_sha256 (se_runtime E)) (metadata_of E raw revision (retention_details l n b))"
  using assms by (auto simp: tells_def retention_meta js_Number_def within_def split: if_splits dest: injD)

lemma readMetadata_cong: "sw_files w' (metadataPath p) = sw_files w (metadataPath p) \<Longrightarrow> readMetadata w' p = readMetadata w p"
  by (simp add: readMetadata_def)

lemma content_keeps_metadata:
  "keepsS (\<lambda>w. sw_files w (metadataPath (ds_path d))) (rewrite_retained d l v)"
  "keepsS (\<lambda>w. sw_files w (metadataPath (ds_path d))) (append_in_place E d encoded tracked)"
proof -
  have "keepsS (\<lambda>w. sw_files w (metadataPath (ds_path d))) (atomicWrite (ds_path d) c)" for c
    by (auto simp: keepsS_def atomicWrite_def split: write_outcome.splits)
  then show "keepsS (\<lambda>w. sw_files w (metadataPath (ds_path d))) (rewrite_retained d l v)"
    unfolding rewrite_retained_def Let_def by blast
  have "keepsS (\<lambda>w. sw_files w (metadataPath (ds_path d))) (append_line (ds_path d) c)" for c
    by (auto simp: keepsS_def append_line_def split: write_outcome.splits)
  then show "keepsS (\<lambda>w. sw_files w (metadataPath (ds_path d))) (append_in_place E d encoded tracked)"
    unfolding append_in_place_def by blast
qed

lemma writeMetadata_leaves:
  assumes "writeMetadata E d revision (retention_details l n b) w = (r, w')"
  shows "raw_of w' (ds_path d) = raw_of w (ds_path d)"
    and "sw_files w' (metadataPath (ds_path d)) = sw_files w (metadataPath (ds_path d))
      \<or> sw_files w' (metadataPath (ds_path d)) = Some (json_pretty (metadata_of E (raw_of w (ds_path d)) revision (retention_details l n b)) @ [newline])"
proof -
  have m: "foldl (\<lambda>ps p. put_prop (fst p) (snd p) ps) [(''schemaVersion'', JInt 1)] (retention_details l n b @
      [(''revision'', JInt revision), (''contentSha256'', JStr h), (''updatedAt'', JStr u)])
      = (''schemaVersion'', JInt 1) # retention_details l n b @ [(''revision'', JInt revision), (''contentSha256'', JStr h), (''updatedAt'', JStr u)]" for h u
    by (simp add: retention_details_def)
  show "raw_of w' (ds_path d) = raw_of w (ds_path d)" "sw_files w' (metadataPath (ds_path d)) = sw_files w (metadataPath (ds_path d))
      \<or> sw_files w' (metadataPath (ds_path d)) = Some (json_pretty (metadata_of E (raw_of w (ds_path d)) revision (retention_details l n b)) @ [newline])"
    using assms unfolding writeMetadata_def Let_def m metadata_of_def
    by (auto simp: bindS_def getS_def returnS_def atomicWrite_def split: write_outcome.splits if_splits)
qed

definition log_ok :: "(string \<Rightarrow> string) \<Rightarrow> string \<Rightarrow> int \<Rightarrow> store_world \<Rightarrow> bool" where
  "log_ok sha p n w \<longleftrightarrow> tells sha (readMetadata w p) \<and> meta_revision (readMetadata w p) \<le> n"

lemma log_ok_new:
  assumes "inj (rt_sha256 (se_runtime E))" and "within l line k raw" and "limits_ok l" and "0 \<le> revision" and "revision \<le> n" and "n \<le> 2 ^ 53 - 1"
    and "sw_files w (metadataPath p) = Some (json_pretty (metadata_of E raw revision (retention_details l k (byte_length raw))) @ [newline])"
  shows "log_ok (rt_sha256 (se_runtime E)) p n w"
proof -
  have "revision \<le> 2 ^ 53 - 1" using assms(5,6) by linarith
  then have "readMetadata w p = metadata_of E raw revision (retention_details l k (byte_length raw))"
    using assms(7) parse_pretty_line [OF retention_value [OF assms(3,4) _ assms(2)]] by (simp add: readMetadata_def)
  then show ?thesis using new_metadata_tells [OF assms(1,2)] retention_meta(3) [OF assms(4)] assms(5) by (simp add: log_ok_def)
qed

lemma log_ok_mono: "log_ok sha p n w \<Longrightarrow> n \<le> m \<Longrightarrow> sw_files w' (metadataPath p) = sw_files w (metadataPath p) \<Longrightarrow> log_ok sha p m w'"
  using readMetadata_cong [of w' p w] by (simp add: log_ok_def)

lemma retain_locked_step:
  assumes "retain_locked E d l v w = (r, w')" and "limits_ok l" and "byte_length (json_stringify v) + 1 \<le> rl_bytes l"
    and "inj (rt_sha256 (se_runtime E))" and "log_ok (rt_sha256 (se_runtime E)) (ds_path d) n w" and "n + 1 \<le> 2 ^ 53 - 1"
  shows "log_ok (rt_sha256 (se_runtime E)) (ds_path d) (n + 1) w'"
    and "r = Inr c \<Longrightarrow> within l (json_stringify v) (rc_recordCount c) (raw_of w' (ds_path d))"
proof -
  let ?p = "ds_path d"
  let ?rev = "meta_revision (readMetadata w ?p)"
  let ?m = "case canAppend w ?p l (byte_length (json_stringify v)) of Some tracked \<Rightarrow> append_in_place E d (json_stringify v) tracked
    | None \<Rightarrow> rewrite_retained d l v"
  obtain k w1 where m: "?m w = (k, w1)" by (cases "?m w")
  have kept: "sw_files w1 (metadataPath ?p) = sw_files w (metadataPath ?p)"
    using m keepsS_D [OF content_keeps_metadata(1), of d l v w k w1] keepsS_D [OF content_keeps_metadata(2), of E d "json_stringify v" _ w k w1]
    by (auto split: option.splits)
  have rev: "0 \<le> ?rev + 1" "?rev + 1 \<le> n + 1" using assms(5) by (auto simp: log_ok_def meta_revision_def split: jsv.splits option.splits if_splits)
  have good: "within l (json_stringify v) i (raw_of w1 ?p)" if "k = Inr i" for i
    using m that assms(2,3,5) rewrite_within [of d l v w i w1] append_within [of E d v _ w i w1 l]
    by (auto simp: limits_ok_def log_ok_def split: option.splits)
  have "log_ok (rt_sha256 (se_runtime E)) ?p (n + 1) w' \<and> (r = Inr c \<longrightarrow> within l (json_stringify v) (rc_recordCount c) (raw_of w' ?p))"
  proof (cases k)
    case (Inl e)
    then have "r = Inl e" "w' = w1" using assms(1) m by (auto simp: retain_locked_def Let_def bindS_def getS_def)
    then show ?thesis using log_ok_mono [OF assms(5), of "n + 1" w1] kept by simp
  next
    case (Inr i)
    obtain r2 w2 where md2: "writeMetadata E d (?rev + 1) (retention_details l i (byte_length (raw_of w1 ?p))) w1 = (r2, w2)" by fastforce
    then have w2: "w2 = w'" and r: "r = Inr c \<Longrightarrow> rc_recordCount c = i"
      using assms(1) m Inr by (cases r2; auto simp: retain_locked_def Let_def bindS_def getS_def returnS_def)+
    note md = md2 [unfolded w2]
    note left = writeMetadata_leaves [OF md]
    have "log_ok (rt_sha256 (se_runtime E)) ?p (n + 1) w'"
      using left(2)
    proof
      assume "sw_files w' (metadataPath ?p) = sw_files w1 (metadataPath ?p)"
      then show ?thesis using log_ok_mono [OF assms(5), of "n + 1" w'] kept by simp
    next
      assume "sw_files w' (metadataPath ?p) = Some (json_pretty (metadata_of E (raw_of w1 ?p) (?rev + 1) (retention_details l i (byte_length (raw_of w1 ?p)))) @ [newline])"
      then show ?thesis by (rule log_ok_new [OF assms(4) good [OF Inr] assms(2) rev assms(6)])
    qed
    then show ?thesis using r good [OF Inr] left(1) by simp
  qed
  then show "log_ok (rt_sha256 (se_runtime E)) ?p (n + 1) w'" "r = Inr c \<Longrightarrow> within l (json_stringify v) (rc_recordCount c) (raw_of w' ?p)" by simp_all
qed

lemma appendRetained_step:
  assumes "appendRetained E name v options w = (r, w')" and "definition_of E name = Inr d" and "inj (rt_sha256 (se_runtime E))"
    and "log_ok (rt_sha256 (se_runtime E)) (ds_path d) n w" and "n + 1 \<le> 2 ^ 53 - 1"
  shows "log_ok (rt_sha256 (se_runtime E)) (ds_path d) (n + 1) w'"
    and "r = Inr c \<Longrightarrow> \<exists>l. read_limits 5000 (8 * 1024 * 1024) 1024 options = Inr l
      \<and> within l (json_stringify v) (rc_recordCount c) (raw_of w' (ds_path d))"
proof -
  let ?p = "ds_path d"
  have early: "log_ok (rt_sha256 (se_runtime E)) ?p (n + 1) x" if "sw_files x = sw_files w" for x
    using log_ok_mono [OF assms(4), of "n + 1" x] that by simp
  have "(\<exists>e. r = Inl e \<and> w' = w) \<or> (\<exists>l. read_limits 5000 (8 * 1024 * 1024) 1024 options = Inr l
      \<and> byte_length (json_stringify v) + 1 \<le> rl_bytes l \<and> withLock E ?p (retain_locked E d l v) w = (r, w'))"
    using assms(1,2) by (auto simp: appendRetained_def Let_def sx_defs split: sum.splits if_splits)
  then have "log_ok (rt_sha256 (se_runtime E)) ?p (n + 1) w' \<and> (r = Inr c \<longrightarrow> (\<exists>l. read_limits 5000 (8 * 1024 * 1024) 1024 options = Inr l
      \<and> within l (json_stringify v) (rc_recordCount c) (raw_of w' ?p)))"
  proof
    assume "\<exists>e. r = Inl e \<and> w' = w"
    then show ?thesis using early by auto
  next
    assume "\<exists>l. read_limits 5000 (8 * 1024 * 1024) 1024 options = Inr l
      \<and> byte_length (json_stringify v) + 1 \<le> rl_bytes l \<and> withLock E ?p (retain_locked E d l v) w = (r, w')"
    then obtain l where l: "read_limits 5000 (8 * 1024 * 1024) 1024 options = Inr l" "byte_length (json_stringify v) + 1 \<le> rl_bytes l"
      and lk: "withLock E ?p (retain_locked E d l v) w = (r, w')" by blast
    have ok: "limits_ok l" using read_limits_ok [OF l(1)] by simp
    consider e where "r = Inl e" "acquire E ?p w = (Inl e, w')"
      | w1 w2 where "acquire E ?p w = (Inr (), w1)" "retain_locked E d l v w1 = (r, w2)" "w' = drop_lock ?p w2"
      using lk by (cases r) (auto simp: withLock_Inl withLock_Inr)
    then show ?thesis
    proof cases
      case 1
      then show ?thesis using early acquire_files [OF 1(2)] by simp
    next
      case 2
      have "log_ok (rt_sha256 (se_runtime E)) ?p n w1" using log_ok_mono [OF assms(4), of n w1] acquire_files [OF 2(1)] by simp
      note step = retain_locked_step [OF 2(2) ok l(2) assms(3) this assms(5)]
      have "log_ok (rt_sha256 (se_runtime E)) ?p (n + 1) w'" using log_ok_mono [OF step(1), of "n + 1" w'] 2(3) by simp
      then show ?thesis using step(2) [of c] l(1) 2(3) by auto
    qed
  qed
  then show "log_ok (rt_sha256 (se_runtime E)) ?p (n + 1) w'"
    "r = Inr c \<Longrightarrow> \<exists>l. read_limits 5000 (8 * 1024 * 1024) 1024 options = Inr l \<and> within l (json_stringify v) (rc_recordCount c) (raw_of w' ?p)"
    by simp_all
qed

section \<open>Sequences of retained appends\<close>

type_synonym retain_op = "int \<times> int \<times> jsv \<times> jsv"

definition at_time :: "store_env \<Rightarrow> int \<Rightarrow> int \<Rightarrow> store_env" where
  "at_time E now waited = E\<lparr>se_now := now, se_waited := waited\<rparr>"

definition retain_run :: "store_env \<Rightarrow> string \<Rightarrow> retain_op \<Rightarrow> store_world \<times> int \<Rightarrow> store_world \<times> int" where
  "retain_run E name op s = (case op of (now, waited, v, options) \<Rightarrow>
     (snd (appendRetained (at_time E now waited) name v options (fst s)), snd s + 1))"

definition retain_inv :: "store_env \<Rightarrow> string \<Rightarrow> store_world \<times> int \<Rightarrow> bool" where
  "retain_inv E name s \<longleftrightarrow> (\<forall>d. definition_of E name = Inr d \<longrightarrow> inj (rt_sha256 (se_runtime E)) \<longrightarrow> snd s \<le> 2 ^ 53 - 1
     \<longrightarrow> log_ok (rt_sha256 (se_runtime E)) (ds_path d) (snd s) (fst s))"

lemma at_time_sel [simp]: "se_runtime (at_time E t u) = se_runtime E" "definition_of (at_time E t u) name = definition_of E name"
  by (simp_all add: at_time_def definition_of_def)

interpretation retention: operation_system "retain_run E name" "retain_inv E name" for E name
proof
  fix s :: "store_world \<times> int" and op :: retain_op
  assume inv: "retain_inv E name s"
  obtain t u v options where op: "op = (t, u, v, options)" by (cases op)
  show "retain_inv E name (retain_run E name op s)"
    unfolding retain_inv_def
  proof (intro allI impI)
    fix d assume d: "definition_of E name = Inr d" "inj (rt_sha256 (se_runtime E))" "snd (retain_run E name op s) \<le> 2 ^ 53 - 1"
    have n: "snd s + 1 \<le> 2 ^ 53 - 1" using d(3) by (simp add: retain_run_def op)
    then have "log_ok (rt_sha256 (se_runtime E)) (ds_path d) (snd s) (fst s)" using inv d(1,2) by (simp add: retain_inv_def)
    then show "log_ok (rt_sha256 (se_runtime E)) (ds_path d) (snd (retain_run E name op s)) (fst (retain_run E name op s))"
      using appendRetained_step(1) [of "at_time E t u" name v options "fst s" _ _ d "snd s"] d(1,2) n
      by (cases "appendRetained (at_time E t u) name v options (fst s)") (simp add: retain_run_def op)
  qed
qed

lemma retain_count: "snd (fold (retain_run E name) ops s) = snd s + int (length ops)"
  by (induction ops arbitrary: s) (auto simp: retain_run_def split: prod.splits)


definition sample_limits :: jsv where
  "sample_limits = JObj [(''maxRecords'', JInt 2)]"

definition sample_log_disk :: store_world where
  "sample_log_disk = put_file (ds_path sample_audit) (lines_text [sample_event 1, sample_event 2]) (sample_disk [])"

definition sample_retained :: "receipt res \<times> store_world" where
  "sample_retained = appendRetained (at_time sample_store 9 9) ''audit'' (sample_event 3) sample_limits sample_log_disk"

lemma sample_retained_runs: "map_sum id rc_recordCount (fst sample_retained) = Inr 2"
  by code_simp

lemma inj_sample: "inj (rt_sha256 (se_runtime sample_store))"
  by (simp add: sample_store_def)


end
