(* ===== verification/StateImport.thy ===== *)
theory StateImport
  imports StateSafety
begin

text \<open>
  Importing a snapshot over several datasets. Every dataset is written on its own, so a failure in
  the middle leaves some of them new; the rollback writes the exported values back. The datasets of
  the catalogue have files apart from each other, so writing one leaves the others as they were.
\<close>

section \<open>One entry\<close>

lemma commit_value:
  assumes "commit E d revision w = (Inr s, w')"
  shows "raw_of w' (ds_path d) = raw_of w (ds_path d)"
    and "p \<noteq> metadataPath (ds_path d) \<Longrightarrow> sw_files w' p = sw_files w p"
proof -
  from assms obtain h where h: "writeMetadata E d revision [] w = (Inr h, w')" by (auto simp: commit_def bindS_Inr read_back_Inr)
  note w' = writeMetadata_Inr(2) [OF h disjI1 [OF refl]]
  show "raw_of w' (ds_path d) = raw_of w (ds_path d)" "p \<noteq> metadataPath (ds_path d) \<Longrightarrow> sw_files w' p = sw_files w p" by (simp_all add: w')
qed

lemma parsed_lines_text:
  assumes "ds_jsonl d" and "json_value (JArr rs)" and "mapR (ds_validate d) rs = Inr us"
  shows "parsed_value d (lines_text rs) True = Inr (JArr rs)"
proof -
  have "split_lines (lines_text rs) = map json_stringify rs"
  proof (cases "rs = []")
    case True
    moreover have "split_lines [] = []" by code_simp
    ultimately show ?thesis by (simp add: lines_text_def)
  next
    case False
    then show ?thesis using split_lines_join [of "map json_stringify rs"] json_plain_line by (simp add: lines_text_def)
  qed
  moreover have "mapR parse_line (map json_stringify rs) = Inr rs"
    using assms(2) parse_line_text by (auto simp: mapR_Inr_iff list_all2_conv_all_nth)
  ultimately show ?thesis using assms(1,3) by (simp add: parsed_value_def parseJsonLines_def)
qed

lemma liftS_Inr: "liftS r w = (Inr x, w') \<longleftrightarrow> r = Inr x \<and> w' = w"
  by (auto simp: liftS_def)

lemma replaceJsonLines_Inr:
  assumes "replaceJsonLines E name v w = (Inr s, w')" and "definition_of E name = Inr d"
  shows "\<exists>rs us w1 n w2. v = JArr rs \<and> mapR (ds_validate d) rs = Inr us \<and> acquire E (ds_path d) w = (Inr (), w1)
    \<and> commit E d n (put_file (ds_path d) (lines_text rs) (took w1)) = (Inr s, w2) \<and> w' = drop_lock (ds_path d) w2"
proof (cases v)
  case (JArr rs)
  then show ?thesis using assms
    by (auto simp: replaceJsonLines_def bindS_Inr liftS_Inr withLock_Inr read_back_Inr atomicWrite_Inr throwS_def split: if_splits)
qed (use assms in \<open>auto simp: replaceJsonLines_def bindS_Inr liftS_Inr throwS_def\<close>)

definition importable :: "store_env \<Rightarrow> string \<times> jsv \<Rightarrow> bool" where
  "importable E p \<longleftrightarrow> (case definition_of E (fst p) of Inl e \<Rightarrow> False
     | Inr d \<Rightarrow> getp (snd p) ''kind'' = JStr (kind_name d) \<and> json_value (getp (snd p) ''value''))"

lemma import_entry_value:
  assumes "import_entry E p w = (Inr s, w')" and "importable E p" and "definition_of E (fst p) = Inr d"
  shows "parsed_value d (raw_of w' (ds_path d)) True = Inr (getp (snd p) ''value'')"
    and "q \<noteq> ds_path d \<Longrightarrow> q \<noteq> metadataPath (ds_path d) \<Longrightarrow> sw_files w' q = sw_files w q"
proof -
  let ?v = "getp (snd p) ''value''"
  have v: "json_value ?v" and k: "getp (snd p) ''kind'' = JStr (kind_name d)" using assms(2,3) by (simp_all add: importable_def)
  have "parsed_value d (raw_of w' (ds_path d)) True = Inr ?v
    \<and> (q \<noteq> ds_path d \<longrightarrow> q \<noteq> metadataPath (ds_path d) \<longrightarrow> sw_files w' q = sw_files w q)"
  proof (cases "ds_jsonl d")
    case True
    with assms(1) k have "replaceJsonLines E (fst p) ?v w = (Inr s, w')" by (simp add: import_entry_def kind_name_def)
    then obtain rs us w1 n w2 where rs: "?v = JArr rs" "mapR (ds_validate d) rs = Inr us" and a: "acquire E (ds_path d) w = (Inr (), w1)"
      and c: "commit E d n (put_file (ds_path d) (lines_text rs) (took w1)) = (Inr s, w2)" and w': "w' = drop_lock (ds_path d) w2"
      using replaceJsonLines_Inr [OF _ assms(3)] by blast
    show ?thesis
      using commit_value [OF c] parsed_lines_text [OF True v [unfolded rs] rs(2)] acquire_files [OF a] by (simp add: w' rs(1))
  next
    case False
    with assms(1) k have "store_write E (fst p) ?v [] w = (Inr s, w')" by (simp add: import_entry_def kind_name_def)
    then obtain w1 w2 where a: "acquire E (ds_path d) w = (Inr (), w1)" and l: "writeLocked E d ?v [] w1 = (Inr s, w2)" and w': "w' = drop_lock (ds_path d) w2"
      using store_write_Inr [OF assms(3)] by blast
    from l obtain n where ok: "ds_validate d ?v = Inr ()"
      and c: "commit E d n (put_file (ds_path d) (json_pretty ?v @ [newline]) (took w1)) = (Inr s, w2)"
      by (auto simp: writeLocked_Inr)
    show ?thesis using commit_value [OF c] parsed_written [OF v ok False] acquire_files [OF a] by (simp add: w')
  qed
  then show "parsed_value d (raw_of w' (ds_path d)) True = Inr ?v"
    and "q \<noteq> ds_path d \<Longrightarrow> q \<noteq> metadataPath (ds_path d) \<Longrightarrow> sw_files w' q = sw_files w q" by simp_all
qed

section \<open>All entries\<close>

definition datasets_apart :: "store_env \<Rightarrow> bool" where
  "datasets_apart E \<longleftrightarrow> (\<forall>a \<in> set (se_datasets E). \<forall>b \<in> set (se_datasets E). fst a \<noteq> fst b \<longrightarrow>
     ds_path (snd a) \<noteq> ds_path (snd b) \<and> ds_path (snd a) \<noteq> metadataPath (ds_path (snd b)))"

lemma apart_paths:
  assumes "datasets_apart E" and "definition_of E a = Inr d" and "definition_of E b = Inr d'" and "a \<noteq> b"
  shows "ds_path d \<noteq> ds_path d'" and "ds_path d \<noteq> metadataPath (ds_path d')"
proof -
  have "(a, d) \<in> set (se_datasets E)" "(b, d') \<in> set (se_datasets E)" using assms(2,3) by (auto simp: definition_of_def dest: map_of_SomeD split: option.splits)
  then show "ds_path d \<noteq> ds_path d'" "ds_path d \<noteq> metadataPath (ds_path d')" using assms(1,4) unfolding datasets_apart_def by fastforce+
qed

lemma import_entries_values:
  assumes "import_entries E ps w = (Inr (), w')" and "\<forall>p \<in> set ps. importable E p" and "distinct (map fst ps)" and "datasets_apart E"
  shows "(\<forall>p \<in> set ps. \<forall>d. definition_of E (fst p) = Inr d \<longrightarrow> parsed_value d (raw_of w' (ds_path d)) True = Inr (getp (snd p) ''value''))
    \<and> (\<forall>name d. name \<notin> fst ` set ps \<longrightarrow> definition_of E name = Inr d \<longrightarrow> raw_of w' (ds_path d) = raw_of w (ds_path d))"
  using assms(1,2,3)
proof (induction ps arbitrary: w)
  case Nil
  then show ?case by (simp add: basicS_iff)
next
  case (Cons p ps)
  from Cons.prems(1) obtain s w1 where s: "import_entry E p w = (Inr s, w1)" and r: "import_entries E ps w1 = (Inr (), w')" by (auto simp: bindS_Inr)
  from Cons.prems(2) obtain dp where dp: "definition_of E (fst p) = Inr dp" and i: "importable E p" by (auto simp: importable_def split: sum.splits)
  note one = import_entry_value [OF s i dp]
  have ih: "(\<forall>p \<in> set ps. \<forall>d. definition_of E (fst p) = Inr d \<longrightarrow> parsed_value d (raw_of w' (ds_path d)) True = Inr (getp (snd p) ''value''))
    \<and> (\<forall>name d. name \<notin> fst ` set ps \<longrightarrow> definition_of E name = Inr d \<longrightarrow> raw_of w' (ds_path d) = raw_of w1 (ds_path d))"
    by (rule Cons.IH [OF r]) (use Cons.prems in auto)
  have "raw_of w1 (ds_path d) = raw_of w (ds_path d)" if "definition_of E name = Inr d" "name \<noteq> fst p" for name d
    using one(2) apart_paths [OF assms(4) that(1) dp that(2)] by (simp add: raw_of_def)
  moreover have "parsed_value dp (raw_of w' (ds_path dp)) True = Inr (getp (snd p) ''value'')"
    using conjunct2 [OF ih, rule_format, of "fst p" dp] dp one(1) Cons.prems(3) by simp
  ultimately show ?case using ih dp by auto
qed

lemma read_value:
  assumes "definition_of E name = Inr d" and "parsed_value d (raw_of w (ds_path d)) True = Inr v"
  shows "\<exists>s. store_read E name True w = (Inr s, w) \<and> sn_value s = v"
  using assms by (simp add: store_read_def read_dataset_def Let_def)

section \<open>Import and rollback\<close>

lemma plan_importable:
  assumes "planImport E snap w = Inr plan" and "p \<in> set (entries snap)" and "json_value (getp (snd p) ''value'')"
  shows "importable E p"
proof -
  from assms(1) obtain cs where "mapR (plan_entry E w) (entries snap) = Inr cs" by (auto simp: planImport_def bindR_eq_Inr)
  then obtain c where "plan_entry E w p = Inr c" using assms(2) by (auto simp: mapR_Inr_iff list_all2_conv_all_nth in_set_conv_nth)
  then show ?thesis using assms(3) by (auto simp: plan_entry_def bindR_eq_Inr requireR_def importable_def split: if_splits)
qed

text \<open>
  An import that reports success was confirmed, and every dataset of the snapshot reads as the value the snapshot
  has for it.
\<close>

lemma applied_import_is_read_back:
  assumes "importSnapshot E snap True confirm w = (Inr plan, w')" and "datasets_apart E" and "distinct (map fst (entries snap))"
    and "\<forall>p \<in> set (entries snap). json_value (getp (snd p) ''value'')"
  shows "confirm = ''IMPORT-CONTROL-CENTER-STATE'' \<and> ip_applied plan
    \<and> (\<forall>p \<in> set (entries snap). \<exists>s. store_read E (fst p) True w' = (Inr s, w') \<and> sn_value s = getp (snd p) ''value'')"
proof -
  from assms(1) obtain pl where pl: "planImport E snap w = Inr pl" and conf: "confirm = ''IMPORT-CONTROL-CENTER-STATE''" and ap: "ip_applied plan"
    and es: "import_entries E (entries snap) w = (Inr (), w')"
    by (auto simp: importSnapshot_def sx_defs catchS_def split: sum.splits prod.splits if_splits)
  have im: "\<forall>p \<in> set (entries snap). importable E p" using plan_importable [OF pl] assms(4) by blast
  note vals = conjunct1 [OF import_entries_values [OF es im assms(3,2)]]
  have "\<exists>s. store_read E (fst p) True w' = (Inr s, w') \<and> sn_value s = getp (snd p) ''value''" if "p \<in> set (entries snap)" for p
    using im that vals read_value [of E "fst p" _ w'] by (fastforce simp: importable_def split: sum.splits)
  then show ?thesis using conf ap by blast
qed

lemma export_entry_Inr:
  assumes "export_entry E w name = Inr p"
  shows "\<exists>d s. definition_of E name = Inr d \<and> read_dataset E d True w = Inr s \<and> fst p = name
    \<and> getp (snd p) ''kind'' = JStr (kind_name d) \<and> getp (snd p) ''value'' = sn_value s"
  using assms by (auto simp: export_entry_def bindR_eq_Inr)

lemma export_entries:
  assumes "exportSnapshot E names w = Inr snap" and "distinct names"
  shows "\<exists>es. list_all2 (\<lambda>name p. export_entry E w name = Inr p) names es \<and> set (entries snap) = set es \<and> distinct (map fst (entries snap))"
proof -
  from assms(1) obtain es where es: "mapR (export_entry E w) names = Inr es"
    and snap: "getp snap ''datasets'' = JObj (own_order (foldl (\<lambda>ps p. put_prop (fst p) (snd p) ps) [] es))"
    by (auto simp: exportSnapshot_def bindR_eq_Inr)
  have all2: "list_all2 (\<lambda>name p. export_entry E w name = Inr p) names es" using es by (simp add: mapR_Inr_iff)
  then have "map fst es = names"
  proof (induction rule: list_all2_induct)
    case (Cons name names p ps)
    then show ?case using export_entry_Inr [of E w name p] by auto
  qed simp
  then have dist: "distinct (map fst es)" using assms(2) by simp
  then have "entries snap = own_order (own_order es)" using snap put_all [of "[]" es] by (simp add: entries_def)
  then show ?thesis using all2 own_order_same [OF dist] own_order_same [OF own_order_same(2) [OF dist]] by auto
qed

text \<open>
  C12. When a write of a confirmed import fails and the rollback can write, the import reports the failure of the write, and
  every dataset of the snapshot reads as the value it had before the import.
\<close>

theorem failed_import_is_rolled_back:
  assumes "planImport E snap w = Inr plan" and "exportSnapshot E (map fst (entries snap)) w = Inr rollback"
    and "import_entries E (entries snap) w = (Inl e, w1)" and "import_entries E (entries rollback) w1 = (Inr (), w2)"
    and "datasets_apart E" and "distinct (map fst (entries snap))"
    and "\<forall>p \<in> set (entries snap). \<forall>s. store_read E (fst p) True w = (Inr s, w) \<longrightarrow> json_value (sn_value s)"
  shows "importSnapshot E snap True ''IMPORT-CONTROL-CENTER-STATE'' w = (Inl e, w2)
    \<and> (\<forall>p \<in> set (entries snap). \<exists>s s'. store_read E (fst p) True w = (Inr s, w) \<and> store_read E (fst p) True w2 = (Inr s', w2)
      \<and> sn_value s' = sn_value s)"
proof
  show "importSnapshot E snap True ''IMPORT-CONTROL-CENTER-STATE'' w = (Inl e, w2)"
    using assms(1-4) by (simp add: importSnapshot_def sx_defs catchS_def)
  from export_entries [OF assms(2,6)] obtain es where es: "list_all2 (\<lambda>name p. export_entry E w name = Inr p) (map fst (entries snap)) es"
    "set (entries rollback) = set es" and dist: "distinct (map fst (entries rollback))" by blast
  have exported: "\<exists>q \<in> set es. export_entry E w (fst p) = Inr q" if "p \<in> set (entries snap)" for p
    using es(1) that by (fastforce simp: list_all2_conv_all_nth in_set_conv_nth)
  have forth: "\<exists>p \<in> set (entries snap). export_entry E w (fst p) = Inr q" if "q \<in> set es" for q
    using es(1) that by (fastforce simp: list_all2_conv_all_nth in_set_conv_nth)
  have im: "importable E q" if "q \<in> set (entries rollback)" for q
  proof -
    from forth [of q] that es(2) obtain p where p: "p \<in> set (entries snap)" "export_entry E w (fst p) = Inr q" by blast
    from export_entry_Inr [OF p(2)] obtain d s where "definition_of E (fst p) = Inr d" "read_dataset E d True w = Inr s" "fst q = fst p"
      "getp (snd q) ''kind'' = JStr (kind_name d)" "getp (snd q) ''value'' = sn_value s" by blast
    then show ?thesis using assms(7) p(1) by (simp add: importable_def store_read_def)
  qed
  note vals = conjunct1 [OF import_entries_values [OF assms(4) ballI [OF im] dist assms(5)]]
  show "\<forall>p \<in> set (entries snap). \<exists>s s'. store_read E (fst p) True w = (Inr s, w) \<and> store_read E (fst p) True w2 = (Inr s', w2) \<and> sn_value s' = sn_value s"
  proof
    fix p assume "p \<in> set (entries snap)"
    from exported [OF this] obtain q where q: "q \<in> set es" "export_entry E w (fst p) = Inr q" by blast
    from export_entry_Inr [OF q(2)] obtain d s where d: "definition_of E (fst p) = Inr d" "read_dataset E d True w = Inr s" "fst q = fst p"
      "getp (snd q) ''value'' = sn_value s" by blast
    have "parsed_value d (raw_of w2 (ds_path d)) True = Inr (sn_value s)" using vals q(1) es(2) d by fastforce
    from read_value [OF d(1) this] d(1,2)
    show "\<exists>s s'. store_read E (fst p) True w = (Inr s, w) \<and> store_read E (fst p) True w2 = (Inr s', w2) \<and> sn_value s' = sn_value s"
      by (auto simp: store_read_def)
  qed
qed

definition sample_snapshot :: jsv where
  "sample_snapshot = JObj [(''schemaVersion'', JInt 1), (''datasets'', JObj [(''settings'', JObj [(''kind'', JStr ''json''),
     (''value'', sample_event 7), (''valueSha256'', JStr (json_stringify (sample_event 7)))])])]"

lemma sample_apart: "datasets_apart sample_store"
  by code_simp

lemma sample_entries: "map fst (entries sample_snapshot) = [''settings'']" "\<forall>p \<in> set (entries sample_snapshot). getp (snd p) ''value'' = sample_event 7"
  by (code_simp, code_simp)

lemma sample_import_succeeds: "\<not> isl (fst (importSnapshot sample_store sample_snapshot True ''IMPORT-CONTROL-CENTER-STATE'' (sample_disk [])))"
  by code_simp

text \<open>The write of the settings fails after it replaced the file.\<close>

definition failing_disk :: store_world where
  "failing_disk = sample_disk [Succeeds, FailsAfter 1]"

definition sample_rollback :: jsv where
  "sample_rollback = projr (exportSnapshot sample_store [''settings''] failing_disk)"

lemma sample_import_fails:
  "\<not> isl (planImport sample_store sample_snapshot failing_disk)" "\<not> isl (exportSnapshot sample_store [''settings''] failing_disk)"
  "isl (fst (import_entries sample_store (entries sample_snapshot) failing_disk))"
  "\<not> isl (fst (import_entries sample_store (entries sample_rollback) (snd (import_entries sample_store (entries sample_snapshot) failing_disk))))"
  by (code_simp, code_simp, code_simp, code_simp)

lemma applied_import_is_read_back_example:
  "\<exists>plan w'. importSnapshot sample_store sample_snapshot True ''IMPORT-CONTROL-CENTER-STATE'' (sample_disk []) = (Inr plan, w')
    \<and> ip_applied plan \<and> (\<exists>s. store_read sample_store ''settings'' True w' = (Inr s, w') \<and> sn_value s = sample_event 7)"
proof -
  let ?r = "importSnapshot sample_store sample_snapshot True ''IMPORT-CONTROL-CENTER-STATE'' (sample_disk [])"
  obtain plan w' where r: "?r = (Inr plan, w')" using sample_import_succeeds by (cases ?r; cases "fst ?r") auto
  obtain v where e: "entries sample_snapshot = [(''settings'', v)]" "getp v ''value'' = sample_event 7"
    using sample_entries by (cases "entries sample_snapshot") auto
  show ?thesis using applied_import_is_read_back [OF r sample_apart] r e by (auto simp: sample_event_ok)
qed

theorem failed_import_is_rolled_back_witness:
  "\<exists>e w2. importSnapshot sample_store sample_snapshot True ''IMPORT-CONTROL-CENTER-STATE'' failing_disk = (Inl e, w2)
    \<and> (\<exists>s s'. store_read sample_store ''settings'' True failing_disk = (Inr s, failing_disk)
      \<and> store_read sample_store ''settings'' True w2 = (Inr s', w2) \<and> sn_value s' = sn_value s)"
proof -
  let ?i = "import_entries sample_store (entries sample_snapshot) failing_disk"
  let ?b = "import_entries sample_store (entries sample_rollback) (snd ?i)"
  obtain plan where p: "planImport sample_store sample_snapshot failing_disk = Inr plan" using sample_import_fails(1) by (cases "planImport sample_store sample_snapshot failing_disk") auto
  have x: "exportSnapshot sample_store (map fst (entries sample_snapshot)) failing_disk = Inr sample_rollback"
    using sample_import_fails(2) by (cases "exportSnapshot sample_store [''settings''] failing_disk") (simp_all add: sample_rollback_def sample_entries)
  obtain e where i: "?i = (Inl e, snd ?i)" using sample_import_fails(3) by (cases ?i; cases "fst ?i") auto
  obtain w2 where b: "?b = (Inr (), w2)" using sample_import_fails(4) by (cases ?b; cases "fst ?b") auto
  have json: "\<forall>p \<in> set (entries sample_snapshot). \<forall>s. store_read sample_store (fst p) True failing_disk = (Inr s, failing_disk) \<longrightarrow> json_value (sn_value s)"
    using sample_read(1) [of "[Succeeds, FailsAfter 1]"] sample_entries(1) own_order_plain [of "[]"] by (auto simp: failing_disk_def)
  have "distinct (map fst (entries sample_snapshot))" by (simp add: sample_entries)
  then show ?thesis
    using failed_import_is_rolled_back [OF p x i b sample_apart _ json] sample_entries(1) by fastforce
qed

end
