(* ===== verification/RouteLock.thy ===== *)
theory RouteLock
  imports JsonText "HOL-Library.AList"
begin

text \<open>
  \<open>src/project-router/workload-route-lock.mjs\<close>: the lock of hosted workloads. A lock lists the workloads
  with their services and routes, and once more the routes derived from them; \<open>parseHostedRouteLock\<close>
  accepts it only when both agree, and gives the table from route names to upstreams.

  \<open>claims\<close> has the four sets the derivation claims names in, and the routes so far. JSON has no
  \<open>undefined\<close>, so \<open>same\<close> compares texts; a \<open>Set\<close> of a JSON array is its values without repetition.
\<close>

section \<open>Names and hosts\<close>

definition slug_like :: "nat \<Rightarrow> string \<Rightarrow> bool" where
  "slug_like n s \<longleftrightarrow> s \<noteq> [] \<and> is_lower (hd s) \<and> tl s \<noteq> [] \<and> length (tl s) \<le> n \<and> list_all (\<lambda>c. is_lower_alnum c \<or> c = CHR ''-'') (tl s)"

abbreviation workload_id :: "string \<Rightarrow> bool" where
  "workload_id \<equiv> slug_like 60"

abbreviation service_name :: "string \<Rightarrow> bool" where
  "service_name \<equiv> slug_like 62"

abbreviation route_slug :: "string \<Rightarrow> bool" where
  "route_slug \<equiv> slug_like 62"

definition HOSTED_ROUTE_VALIDATOR_VERSION :: string where
  "HOSTED_ROUTE_VALIDATOR_VERSION = ''hosted-contract-v4''"

definition HOSTED_ROUTE_RAW_POLICY_VERSION :: string where
  "HOSTED_ROUTE_RAW_POLICY_VERSION = ''hosted-raw-v3''"

definition HOSTED_ROUTE_RAW_POLICY_CONTROLS :: "string list" where
  "HOSTED_ROUTE_RAW_POLICY_CONTROLS = [
     ''bind-bounded-dependencies'', ''bind-bounded-local-logging'', ''bind-closed-service-schema'',
     ''bind-exact-healthcheck'', ''bind-exact-security-opt'', ''bind-exact-ulimits'', ''bind-exact-volume-mounts'', ''bind-firewall-gated-restart'',
     ''bind-network-identity'', ''bind-network-topology'',
     ''bind-no-swap-oom-policy'', ''bind-owned-secret-aliases'', ''bind-owned-volume-driver'',
     ''bind-owned-volumes'', ''bind-platform-extension-records'', ''bind-private-pid-numeric-user'',
     ''deny-accelerator-environment'',
     ''deny-api-socket'', ''deny-compose-interpolation'', ''deny-deploy-controls'', ''deny-device-access'',
     ''deny-env-file'', ''deny-extends'', ''deny-file-configs'', ''deny-generic-resources'',
     ''deny-gpu-access'', ''deny-include'', ''deny-inline-configs'', ''deny-label-file'',
     ''deny-lifecycle-hooks'', ''deny-local-volume-options'', ''deny-providers'',
     ''deny-runtime-identity-labels'', ''deny-runtime-overrides'', ''deny-scaling'',
     ''deny-stop-grace-overrides'', ''deny-supplemental-groups'', ''deny-volumes-from'']"

definition same :: "jsv \<Rightarrow> jsv \<Rightarrow> bool" where
  "same l r \<longleftrightarrow> json_stringify l = json_stringify r"

definition strings :: "string list \<Rightarrow> jsv" where
  "strings xs = JArr (map JStr xs)"

text \<open>\<open>Object.keys(v).sort()\<close> and \<open>[...new Set(xs)].sort()\<close>.\<close>

definition sorted_keys :: "jsv \<Rightarrow> jsv" where
  "sorted_keys v = strings (sort (map fst (spread v)))"

definition sorted_set :: "jsv list \<Rightarrow> jsv" where
  "sorted_set xs = JArr (sort_key js_String (rev (remdups (rev xs))))"

text \<open>\<open>===\<close>: two arrays or two objects of one document are different objects.\<close>

definition strict_eq :: "jsv \<Rightarrow> jsv \<Rightarrow> bool" where
  "strict_eq a b \<longleftrightarrow> a = b \<and> (case a of JArr xs \<Rightarrow> False | JObj ps \<Rightarrow> False | _ \<Rightarrow> True)"

definition number_is :: "jsv \<Rightarrow> int \<Rightarrow> bool" where
  "number_is v i = (case v of JNum n \<Rightarrow> num_int n = Some i | _ \<Rightarrow> False)"

definition prefix_disjoint :: "string \<Rightarrow> string \<Rightarrow> bool" where
  "prefix_disjoint l r \<longleftrightarrow> \<not> starts_with (r @ ''-'') l \<and> \<not> starts_with (l @ ''-'') r"

fun all_disjoint :: "string list \<Rightarrow> bool" where
  "all_disjoint [] = True"
| "all_disjoint (l # ls) = (list_all (prefix_disjoint l) ls \<and> all_disjoint ls)"

definition assertPrefixDisjointWorkloadIds :: "string list \<Rightarrow> unit res" where
  "assertPrefixDisjointWorkloadIds ids = (let ordered = sort ids in
     bindR (requireR (distinct ordered) (PlainError ''Hosted workload declarations are invalid.'')) (\<lambda>_.
     requireR (all_disjoint ordered) (PlainError ''Hosted workload ids are not prefix-disjoint.'')))"

definition invalid_routes :: js_error where
  "invalid_routes = PlainError ''Hosted workload canonical route lineage has invalid route declarations.''"

definition dns_label :: "string \<Rightarrow> bool" where
  "dns_label = enclosed is_lower_alnum (\<lambda>c. is_lower_alnum c \<or> c = CHR ''-'') 61"

definition exactDnsHost :: "jsv \<Rightarrow> string res" where
  "exactDnsHost v = (case v of JStr s \<Rightarrow>
       if s = [] \<or> s \<noteq> to_lower s \<or> ends_with ''.'' s \<or> 253 < int (length s) \<or> CHR '':'' \<in> set s \<or> CHR ''*'' \<in> set s
         \<or> \<not> list_all dns_label (split_on CHR ''.'' s) then Inl invalid_routes else Inr s
     | _ \<Rightarrow> Inl invalid_routes)"

section \<open>The routes of the workloads\<close>

record hosted_route =
  ru_workload :: string
  ru_slug :: string
  ru_aliases :: "string list"
  ru_canonicalHost :: string
  ru_hosts :: "string list"
  ru_service :: string
  ru_port :: int

definition ru_upstream :: "hosted_route \<Rightarrow> string" where
  "ru_upstream r = ''http://'' @ ru_service r @ '':'' @ show_int (ru_port r)"

definition ru_identity :: "hosted_route \<Rightarrow> string" where
  "ru_identity r = ru_service r @ '':'' @ show_int (ru_port r)"

definition route_js :: "hosted_route \<Rightarrow> jsv" where
  "route_js r = JObj [(''owner'', JStr (ru_workload r)), (''workloadId'', JStr (ru_workload r)), (''slug'', JStr (ru_slug r)),
     (''aliases'', strings (ru_aliases r)), (''canonicalHost'', JStr (ru_canonicalHost r)), (''hosts'', strings (ru_hosts r)),
     (''service'', JStr (ru_service r)), (''port'', JInt (ru_port r)), (''upstream'', JStr (ru_upstream r))]"

record claims =
  cl_services :: "string list"
  cl_names :: "string list"
  cl_hosts :: "string list"
  cl_upstreams :: "string list"
  cl_routes :: "hosted_route list"

definition no_claims :: claims where
  "no_claims = \<lparr>cl_services = [], cl_names = [], cl_hosts = [], cl_upstreams = [], cl_routes = []\<rparr>"

fun foldR :: "('s \<Rightarrow> 'a \<Rightarrow> 's res) \<Rightarrow> 'a list \<Rightarrow> 's \<Rightarrow> 's res" where
  "foldR f [] s = Inr s"
| "foldR f (x # xs) s = bindR (f s x) (foldR f xs)"

definition items :: "jsv \<Rightarrow> jsv list" where
  "items v = (case v of JArr xs \<Rightarrow> xs | _ \<Rightarrow> [])"

definition host_of :: "string \<Rightarrow> string \<Rightarrow> string" where
  "host_of domain name = (if domain \<noteq> [] then name @ ''.'' @ domain else name)"

definition suffix_of :: "string \<Rightarrow> string" where
  "suffix_of host = join ''.'' (tl (split_on CHR ''.'' host))"

definition text_in :: "jsv \<Rightarrow> string option" where
  "text_in v = (case v of JStr s \<Rightarrow> Some s | _ \<Rightarrow> None)"

definition array_in :: "jsv \<Rightarrow> jsv list option" where
  "array_in v = (case v of JArr xs \<Rightarrow> Some xs | _ \<Rightarrow> None)"

definition integer_in :: "jsv \<Rightarrow> int option" where
  "integer_in v = (case v of JNum n \<Rightarrow> num_int n | _ \<Rightarrow> None)"

definition add_route :: "hosted_route \<Rightarrow> claims \<Rightarrow> claims" where
  "add_route r c = c\<lparr>cl_names := cl_names c @ ru_slug r # ru_aliases r, cl_hosts := cl_hosts c @ ru_hosts r,
     cl_upstreams := cl_upstreams c @ [ru_identity r], cl_routes := cl_routes c @ [r]\<rparr>"

text \<open>The route a declaration stands for, and the conditions under which it is accepted.\<close>

definition declared_route :: "jsv \<Rightarrow> string \<Rightarrow> jsv \<Rightarrow> string \<Rightarrow> string \<Rightarrow> int \<Rightarrow> hosted_route" where
  "declared_route workload service route host slug port = (let names = map js_String (items (getp route ''aliases'')) in
     \<lparr>ru_workload = js_String (getp workload ''id''), ru_slug = slug, ru_aliases = names, ru_canonicalHost = host,
       ru_hosts = host # map (host_of (suffix_of host)) names, ru_service = service, ru_port = port\<rparr>)"

definition route_declared :: "jsv \<Rightarrow> jsv \<Rightarrow> claims \<Rightarrow> hosted_route \<Rightarrow> bool" where
  "route_declared workload route c r \<longleftrightarrow> (let aliases = items (getp route ''aliases'') in
     is_object route \<and> same (sorted_keys route) (strings [''aliases'', ''canonicalHost'', ''hosts'', ''owner'', ''port'', ''slug''])
     \<and> strict_eq (getp route ''owner'') (getp workload ''id'') \<and> route_slug (ru_slug r)
     \<and> same (JArr aliases) (sorted_set aliases)
     \<and> list_all (\<lambda>a. case a of JStr t \<Rightarrow> route_slug t \<and> t \<noteq> ru_slug r | _ \<Rightarrow> False) aliases
     \<and> hd (split_on CHR ''.'' (ru_canonicalHost r)) = ru_slug r \<and> same (getp route ''hosts'') (strings (ru_hosts r))
     \<and> list_all (\<lambda>h. int (length h) \<le> 253) (ru_hosts r) \<and> 1 \<le> ru_port r \<and> ru_port r \<le> 65535
     \<and> list_all (\<lambda>x. x \<notin> set (cl_names c)) (ru_slug r # ru_aliases r) \<and> list_all (\<lambda>h. h \<notin> set (cl_hosts c)) (ru_hosts r)
     \<and> ru_identity r \<notin> set (cl_upstreams c))"

definition derive_route :: "jsv \<Rightarrow> string \<Rightarrow> claims \<Rightarrow> jsv \<Rightarrow> claims res" where
  "derive_route workload service c route =
     bindR (exactDnsHost (getp route ''canonicalHost'')) (\<lambda>host.
     (case (text_in (getp route ''slug''), integer_in (getp route ''port'')) of (Some slug, Some port) \<Rightarrow>
        (let r = declared_route workload service route host slug port in
         bindR (requireR (route_declared workload route c r) invalid_routes) (\<lambda>_. Inr (add_route r c)))
      | _ \<Rightarrow> Inl invalid_routes))"

definition invalid_services :: js_error where
  "invalid_services = PlainError ''Hosted workload canonical route lineage has invalid service declarations.''"

definition invalid_workloads :: js_error where
  "invalid_workloads = PlainError ''Hosted workload canonical route lineage has invalid workload declarations.''"

definition derive_service :: "jsv \<Rightarrow> claims \<Rightarrow> jsv \<Rightarrow> claims res" where
  "derive_service workload c service = (case (text_in (getp service ''name''), array_in (getp service ''routes'')) of
     (Some name, Some routes) \<Rightarrow>
       (let role = getp service ''role'' in
       bindR (requireR (is_object service \<and> same (sorted_keys service) (strings [''name'', ''role'', ''routes'']) \<and> service_name name
         \<and> starts_with (js_String (getp workload ''id'') @ ''-'') name \<and> role \<in> JStr ` set [''api'', ''web'', ''worker'', ''scheduled-worker'']
         \<and> name \<notin> set (cl_services c)) invalid_services) (\<lambda>_.
       bindR (requireR (routes = [] \<or> role \<in> JStr ` set [''api'', ''web''])
         (PlainError ''Hosted workload canonical route lineage exposes a non-routable role.'')) (\<lambda>_.
       foldR (derive_route workload name) routes (c\<lparr>cl_services := cl_services c @ [name]\<rparr>))))
   | _ \<Rightarrow> Inl invalid_services)"

definition derive_workload :: "claims \<Rightarrow> jsv \<Rightarrow> claims res" where
  "derive_workload c workload = (case array_in (getp workload ''services'') of None \<Rightarrow> Inl invalid_workloads
     | Some services \<Rightarrow> bindR (requireR (is_object workload \<and> services \<noteq> []) invalid_workloads) (\<lambda>_.
         foldR (derive_service workload) services c))"

definition deriveCanonicalRoutes :: "runtime \<Rightarrow> jsv list \<Rightarrow> hosted_route list res" where
  "deriveCanonicalRoutes R workloads = bindR (foldR derive_workload workloads no_claims) (\<lambda>c.
     Inr (js_sort_by (\<lambda>l r. rt_localeCompare R (ru_canonicalHost l) (ru_canonicalHost r)) (cl_routes c)))"

section \<open>The lock\<close>

definition exact_names :: "jsv \<Rightarrow> bool" where
  "exact_names v = (case v of JArr xs \<Rightarrow> same v (sorted_set xs) \<and> list_all (\<lambda>x. case x of JStr s \<Rightarrow> s \<noteq> [] | _ \<Rightarrow> False) xs | _ \<Rightarrow> False)"

definition hasExactProtectedResourceNames :: "jsv \<Rightarrow> bool" where
  "hasExactProtectedResourceNames receipt = (case getp receipt ''protectedResourceNames'' of
     JObj ps \<Rightarrow> same (sorted_keys (JObj ps)) (strings [''configs'', ''networks'', ''secrets'', ''services'', ''volumes''])
       \<and> list_all (\<lambda>p. exact_names (snd p)) ps
       \<and> (case getp receipt ''protectedNetworkNames'' of JArr xs \<Rightarrow> same (JArr xs) (getp (JObj ps) ''networks'') | _ \<Rightarrow> False)
   | _ \<Rightarrow> False)"

definition sha_text :: "jsv \<Rightarrow> bool" where
  "sha_text v = hex64 (js_String (js_coalesce v (JStr [])))"

definition policy_receipt :: "jsv \<Rightarrow> bool" where
  "policy_receipt lock \<longleftrightarrow>
     getp lock ''rawPolicyVersion'' = JStr HOSTED_ROUTE_RAW_POLICY_VERSION
     \<and> same (getp lock ''rawPolicyControls'') (strings HOSTED_ROUTE_RAW_POLICY_CONTROLS)
     \<and> getp (getp lock ''rawPolicyReceipt'') ''policyVersion'' = JStr HOSTED_ROUTE_RAW_POLICY_VERSION
     \<and> same (getp (getp lock ''rawPolicyReceipt'') ''controls'') (strings HOSTED_ROUTE_RAW_POLICY_CONTROLS)
     \<and> hasExactProtectedResourceNames (getp lock ''rawPolicyReceipt'')
     \<and> list_all (\<lambda>k. sha_text (getp lock k)) [''rawPolicySha256'', ''workloadContentSha256'', ''coreRenderSha256'', ''combinedRenderSha256'']"

record hosted_table =
  hl_routes :: "(string \<times> string) list"
  hl_allowed :: "string set"

definition parseHostedRouteLock :: "runtime \<Rightarrow> jsv \<Rightarrow> hosted_table res" where
  "parseHostedRouteLock R lock =
     (case (array_in (getp lock ''routes''), array_in (getp lock ''workloads'')) of (Some routes, Some workloads) \<Rightarrow>
        bindR (requireR (number_is (getp lock ''version'') 4 \<and> getp lock ''validatorVersion'' = JStr HOSTED_ROUTE_VALIDATOR_VERSION
          \<and> getp lock ''state'' = JStr ''verified'') (PlainError ''Hosted workload lock is not an exact verified v4 lock.'')) (\<lambda>_.
        bindR (if workloads \<noteq> [] then requireR (policy_receipt lock) (PlainError ''Hosted workload lock policy/render receipt is incomplete.'')
               else requireR (routes = [] \<and> sha_text (getp lock ''brokerPolicySha256'')) (PlainError ''Zero-workload route lock is not canonical.'')) (\<lambda>_.
        (let ids = map (\<lambda>w. js_String (js_coalesce (getp w ''id'') (JStr []))) workloads in
         bindR (requireR (list_all workload_id ids) (PlainError ''Hosted workload declarations are invalid.'')) (\<lambda>_.
         bindR (assertPrefixDisjointWorkloadIds ids) (\<lambda>_.
         bindR (deriveCanonicalRoutes R workloads) (\<lambda>canonical.
         bindR (requireR (same (JArr routes) (JArr (map route_js canonical)))
           (PlainError ''Hosted workload canonical route lineage differs from the verified lock contract.'')) (\<lambda>_.
         Inr \<lparr>hl_routes = foldl (\<lambda>m r. AList.update (ru_slug r) (ru_upstream r) m) [] canonical,
           hl_allowed = set (map ru_identity canonical)\<rparr>)))))))
      | _ \<Rightarrow> Inl (PlainError ''Hosted workload lock is not an exact verified v4 lock.''))"

section \<open>What an accepted lock guarantees\<close>

lemma same_eq: "json_value a \<Longrightarrow> json_value b \<Longrightarrow> same a b \<longleftrightarrow> a = b"
  using json_round_trip [of a None] json_round_trip [of b None] unfolding same_def json_text_compact by (metis option.inject)

lemma strings_value [simp]: "json_value (strings xs)"
  by (simp add: strings_def)

lemma foldR_inv:
  assumes "foldR f xs s = Inr s'" and "I s" and "\<And>s x s'. x \<in> set xs \<Longrightarrow> I s \<Longrightarrow> f s x = Inr s' \<Longrightarrow> I s'"
  shows "I s'"
  using assms
proof (induction xs arbitrary: s)
  case (Cons x xs)
  from Cons.prems(1) obtain t where t: "f s x = Inr t" "foldR f xs t = Inr s'" by (auto simp: bindR_eq_Inr)
  have "I t" by (rule Cons.prems(3) [OF _ Cons.prems(2) t(1)]) simp
  show ?case by (rule Cons.IH [OF t(2) \<open>I t\<close>]) (use Cons.prems(3) in auto)
qed simp

lemma host_of_inj: "host_of s a = host_of s b \<longleftrightarrow> a = b"
  by (simp add: host_of_def)

lemma dns_label_ne: "dns_label s \<Longrightarrow> s \<noteq> []"
  by (simp add: dns_label_def enclosed_def)

lemma host_split:
  assumes "list_all dns_label (split_on CHR ''.'' host)"
  shows "host = host_of (suffix_of host) (hd (split_on CHR ''.'' host))"
proof -
  obtain p qs where ps: "split_on CHR ''.'' host = p # qs" by (cases "split_on CHR ''.'' host") auto
  then have host: "host = join ''.'' (p # qs)" using join_split_on [of "CHR ''.''" host] by simp
  show ?thesis
  proof (cases qs)
    case Nil
    then show ?thesis using host ps by (simp add: suffix_of_def host_of_def)
  next
    case (Cons q rs)
    then have "q \<noteq> []" using assms ps dns_label_ne by simp
    then have "join ''.'' qs \<noteq> []" using Cons by (cases rs) auto
    then show ?thesis using host ps Cons by (simp add: suffix_of_def host_of_def)
  qed
qed

lemma sorted_set_distinct:
  assumes "same (JArr xs) (sorted_set xs)" and "xs = map JStr ts"
  shows "distinct ts"
proof -
  have "set (rev (remdups (rev xs))) \<subseteq> JStr ` set ts" using assms(2) by auto
  then have "json_value (sorted_set xs)" by (auto simp: sorted_set_def)
  then have "xs = sort_key js_String (rev (remdups (rev xs)))" using assms same_eq [of "JArr xs" "sorted_set xs"] by (auto simp: sorted_set_def)
  then have "distinct xs" by (metis distinct_sort distinct_rev distinct_remdups)
  then show ?thesis using assms(2) by (simp add: distinct_map)
qed

definition route_ok :: "string set \<Rightarrow> hosted_route \<Rightarrow> bool" where
  "route_ok ids r \<longleftrightarrow> ru_workload r \<in> ids \<and> starts_with (ru_workload r @ ''-'') (ru_service r) \<and> service_name (ru_service r)
     \<and> route_slug (ru_slug r) \<and> 1 \<le> ru_port r \<and> ru_port r \<le> 65535"

lemma derive_route_Inr:
  assumes "derive_route w service c route = Inr c'"
  shows "\<exists>r. c' = add_route r c \<and> ru_workload r = js_String (getp w ''id'') \<and> ru_service r = service \<and> route_slug (ru_slug r)
    \<and> 1 \<le> ru_port r \<and> ru_port r \<le> 65535 \<and> distinct (ru_slug r # ru_aliases r) \<and> distinct (ru_hosts r)
    \<and> set (ru_slug r # ru_aliases r) \<inter> set (cl_names c) = {} \<and> set (ru_hosts r) \<inter> set (cl_hosts c) = {} \<and> ru_identity r \<notin> set (cl_upstreams c)"
proof -
  let ?aliases = "items (getp route ''aliases'')"
  let ?names = "map js_String ?aliases"
  from assms obtain host slug port where host: "exactDnsHost (getp route ''canonicalHost'') = Inr host"
    and d: "route_declared w route c (declared_route w service route host slug port)" and c': "c' = add_route (declared_route w service route host slug port) c"
    by (cases "text_in (getp route ''slug'')"; cases "integer_in (getp route ''port'')")
      (auto simp: derive_route_def Let_def bindR_eq_Inr requireR_def split: if_splits)
  let ?r = "declared_route w service route host slug port"
  have r: "ru_slug ?r = slug" "ru_aliases ?r = ?names" "ru_hosts ?r = host # map (host_of (suffix_of host)) ?names" "ru_canonicalHost ?r = host"
    by (simp_all add: declared_route_def Let_def)
  have names_ok: "list_all (\<lambda>a. case a of JStr t \<Rightarrow> route_slug t \<and> t \<noteq> slug | _ \<Rightarrow> False) ?aliases"
    using d unfolding route_declared_def Let_def r by (elim conjE)
  have "\<exists>t. a = JStr t \<and> t \<noteq> slug" if "a \<in> set ?aliases" for a
    using names_ok that by (cases a) (auto simp: list_all_iff)
  then have strs: "map JStr ?names = ?aliases" "slug \<notin> set ?names" by (force intro!: map_idI)+
  have "same (JArr ?aliases) (sorted_set ?aliases)" using d by (simp add: route_declared_def Let_def)
  then have dist: "distinct (slug # ?names)" using sorted_set_distinct [of ?aliases ?names] strs by simp
  have "list_all dns_label (split_on CHR ''.'' host)" using host by (auto simp: exactDnsHost_def split: jsv.splits if_splits)
  then have hosts: "ru_hosts ?r = map (host_of (suffix_of host)) (slug # ?names)"
    using host_split [of host] d by (simp add: route_declared_def Let_def r)
  have "distinct (ru_hosts ?r)" unfolding hosts using dist by (auto simp: distinct_map inj_on_def host_of_inj)
  moreover have "ru_workload ?r = js_String (getp w ''id'')" "ru_service ?r = service" by (simp_all add: declared_route_def Let_def)
  ultimately show ?thesis
    using c' d dist r(1,2) by (intro exI [of _ ?r]) (auto simp: route_declared_def Let_def list_all_iff)
qed

definition claims_ok :: "string set \<Rightarrow> claims \<Rightarrow> bool" where
  "claims_ok ids c \<longleftrightarrow> cl_names c = concat (map (\<lambda>r. ru_slug r # ru_aliases r) (cl_routes c)) \<and> cl_hosts c = concat (map ru_hosts (cl_routes c))
     \<and> cl_upstreams c = map ru_identity (cl_routes c) \<and> distinct (cl_names c) \<and> distinct (cl_hosts c) \<and> distinct (cl_upstreams c)
     \<and> (\<forall>r \<in> set (cl_routes c). route_ok ids r)"

lemma derive_service_ok:
  assumes "derive_service w c service = Inr c'" and "claims_ok ids c" and "js_String (getp w ''id'') \<in> ids"
  shows "claims_ok ids c'"
proof -
  from assms(1) obtain name routes where name: "service_name name" "starts_with (js_String (getp w ''id'') @ ''-'') name"
    and r: "foldR (derive_route w name) routes (c\<lparr>cl_services := cl_services c @ [name]\<rparr>) = Inr c'"
    by (auto simp: derive_service_def Let_def bindR_eq_Inr requireR_def split: option.splits if_splits)
  show ?thesis
  proof (rule foldR_inv [OF r])
    show "claims_ok ids (c\<lparr>cl_services := cl_services c @ [name]\<rparr>)" using assms(2) by (auto simp: claims_ok_def)
    fix s x s' assume "claims_ok ids s" "derive_route w name s x = Inr s'"
    then show "claims_ok ids s'" using derive_route_Inr [of w name s x s'] name assms(3)
      by (auto simp: claims_ok_def add_route_def route_ok_def) blast+
  qed
qed

lemma derived_claims:
  assumes "foldR derive_workload ws no_claims = Inr c" and "\<forall>w \<in> set ws. js_String (getp w ''id'') \<in> ids"
  shows "claims_ok ids c"
proof (rule foldR_inv [OF assms(1)])
  show "claims_ok ids no_claims" by (simp add: claims_ok_def no_claims_def)
  fix s w s' assume w: "w \<in> set ws" "claims_ok ids s" "derive_workload s w = Inr s'"
  then obtain ss where "foldR (derive_service w) ss s = Inr s'" by (auto simp: derive_workload_def bindR_eq_Inr split: option.splits)
  then show "claims_ok ids s'"
    by (rule foldR_inv [where I = "claims_ok ids"]) (use w assms(2) derive_service_ok in blast)+
qed

definition lock_ids :: "jsv \<Rightarrow> string list" where
  "lock_ids lock = map (\<lambda>w. js_String (js_coalesce (getp w ''id'') (JStr []))) (items (getp lock ''workloads''))"

lemma distinct_firsts: "distinct (concat (map (\<lambda>r. f r # g r) rs)) \<Longrightarrow> distinct (map f rs)"
  by (induction rs) auto

lemma update_fresh: "k \<notin> fst ` set ps \<Longrightarrow> AList.update k v ps = ps @ [(k, v)]"
  by (induction ps) auto

lemma table_of_routes:
  "distinct (map fst ps @ map ru_slug rs) \<Longrightarrow> foldl (\<lambda>m r. AList.update (ru_slug r) (ru_upstream r) m) ps rs = ps @ map (\<lambda>r. (ru_slug r, ru_upstream r)) rs"
  by (induction rs arbitrary: ps) (auto simp: update_fresh)

lemma all_disjoint_D: "all_disjoint xs \<Longrightarrow> a \<in> set xs \<Longrightarrow> b \<in> set xs \<Longrightarrow> a \<noteq> b \<Longrightarrow> prefix_disjoint a b"
  by (induction xs) (auto simp: list_all_iff prefix_disjoint_def)

lemma one_owner:
  assumes "all_disjoint ids" and "a \<in> set ids" and "b \<in> set ids" and "starts_with (a @ ''-'') s" and "starts_with (b @ ''-'') s"
  shows "a = b"
proof (rule ccontr)
  assume "a \<noteq> b"
  with assms have d: "prefix_disjoint a b" by (blast intro: all_disjoint_D)
  from assms(4,5) obtain u v where "a @ CHR ''-'' # u = b @ CHR ''-'' # v" by (auto simp: starts_with_append)
  then obtain us where "a = b @ us \<and> us @ CHR ''-'' # u = CHR ''-'' # v \<or> a @ us = b \<and> CHR ''-'' # u = us @ CHR ''-'' # v"
    by (auto simp: append_eq_append_conv2)
  then show False using d \<open>a \<noteq> b\<close> by (cases us) (auto simp: prefix_disjoint_def starts_with_append)
qed

lemma workload_id_present:
  assumes "list_all workload_id (lock_ids lock)" and "w \<in> set (items (getp lock ''workloads''))"
  shows "js_String (getp w ''id'') \<in> set (lock_ids lock)"
proof -
  have "js_String (js_coalesce (getp w ''id'') (JStr [])) \<in> set (lock_ids lock)" using assms(2) by (auto simp: lock_ids_def)
  moreover from this have "workload_id (js_String (js_coalesce (getp w ''id'') (JStr [])))" using assms(1) by (simp add: list_all_iff)
  ultimately show ?thesis by (auto simp: js_coalesce_def slug_like_def split: if_splits)
qed

lemma mset_js_sort_by: "mset (js_sort_by cmp xs) = mset xs"
proof -
  have "mset (insort_by cmp x ys) = add_mset x (mset ys)" for x and ys :: "'a list" by (induction ys) auto
  then show ?thesis by (induction xs) (simp_all add: js_sort_by_def)
qed

lemma distinct_concat_sort: "distinct (concat (map f (js_sort_by cmp xs))) \<longleftrightarrow> distinct (concat (map f xs))"
proof -
  have "mset (concat (map f ys)) = sum_mset (image_mset (\<lambda>y. mset (f y)) (mset ys))" for ys by (induction ys) auto
  then have "mset (concat (map f (js_sort_by cmp xs))) = mset (concat (map f xs))" by (simp add: mset_js_sort_by)
  then show ?thesis by (rule mset_eq_imp_distinct_iff)
qed

text \<open>The table of an accepted lock: names, hosts and upstreams are claimed once, each by a workload that owns the service.\<close>

lemma accepted_lock:
  assumes "parseHostedRouteLock R lock = Inr t"
  obtains canonical where "hl_routes t = map (\<lambda>r. (ru_slug r, ru_upstream r)) canonical" and "hl_allowed t = ru_identity ` set canonical"
    and "same (getp lock ''routes'') (JArr (map route_js canonical))" and "distinct (concat (map ru_hosts canonical))"
    and "\<forall>r \<in> set canonical. route_ok (set (lock_ids lock)) r" and "list_all workload_id (lock_ids lock)" and "all_disjoint (sort (lock_ids lock))"
proof -
  from assms obtain routes workloads where a: "array_in (getp lock ''routes'') = Some routes" "array_in (getp lock ''workloads'') = Some workloads"
    by (cases "array_in (getp lock ''routes'')"; cases "array_in (getp lock ''workloads'')") (auto simp: parseHostedRouteLock_def)
  then have rs: "getp lock ''routes'' = JArr routes" and ws: "items (getp lock ''workloads'') = workloads"
    by (auto simp: array_in_def items_def split: jsv.splits)
  from assms a obtain canonical where ids: "list_all workload_id (lock_ids lock)" "assertPrefixDisjointWorkloadIds (lock_ids lock) = Inr ()"
    and c: "deriveCanonicalRoutes R workloads = Inr canonical" and s: "same (JArr routes) (JArr (map route_js canonical))"
    and t: "t = \<lparr>hl_routes = foldl (\<lambda>m r. AList.update (ru_slug r) (ru_upstream r) m) [] canonical, hl_allowed = set (map ru_identity canonical)\<rparr>"
    by (auto simp: parseHostedRouteLock_def Let_def bindR_eq_Inr requireR_def lock_ids_def ws split: if_splits)
  from c obtain cl where cl: "foldR derive_workload workloads no_claims = Inr cl"
    and canonical: "canonical = js_sort_by (\<lambda>l r. rt_localeCompare R (ru_canonicalHost l) (ru_canonicalHost r)) (cl_routes cl)"
    by (auto simp: deriveCanonicalRoutes_def bindR_eq_Inr)
  have ok: "claims_ok (set (lock_ids lock)) cl" by (rule derived_claims [OF cl]) (use workload_id_present [OF ids(1)] ws in blast)
  have slugs: "distinct (map ru_slug (cl_routes cl))" using ok unfolding claims_ok_def by (metis distinct_firsts)
  show ?thesis
  proof (rule that [of canonical])
    show "hl_routes t = map (\<lambda>r. (ru_slug r, ru_upstream r)) canonical" using table_of_routes [of "[]" canonical] slugs by (simp add: t canonical)
    show "hl_allowed t = ru_identity ` set canonical" by (simp add: t)
    show "same (getp lock ''routes'') (JArr (map route_js canonical))" using s rs by simp
    show "distinct (concat (map ru_hosts canonical))" using ok unfolding claims_ok_def canonical distinct_concat_sort by metis
    show "\<forall>r \<in> set canonical. route_ok (set (lock_ids lock)) r" using ok by (simp add: claims_ok_def canonical)
    show "list_all workload_id (lock_ids lock)" by (rule ids)
    show "all_disjoint (sort (lock_ids lock))" using ids(2) by (auto simp: assertPrefixDisjointWorkloadIds_def Let_def bindR_eq_Inr requireR_def split: if_splits)
  qed
qed

end
