(* ===== verification/ProjectRouter.thy ===== *)
theory ProjectRouter
  imports RouteLock ClientAddress
begin

text \<open>
  \<open>src/project-router/server.mjs\<close>: the router in front of the hosted workloads. At start it reads the
  lock of the workloads, derives the table from hosts to routes and keeps it; every request is answered from
  that table, from the control center, or with an error page.

  \<open>new URL\<close> is the parameter \<open>ro_url\<close> (of an upstream) and \<open>ro_target\<close> (of a request target against
  the base of the router: origin, path and query). What \<open>validateVerifiedWorkloadLock\<close> finds on the disk is
  the argument \<open>verified\<close>: it may refuse any lock, and the routing uses nothing else of it. The
  discovery of projects without a lock, which needs a test or a compatibility mode, is not modelled.
\<close>

section \<open>Configuration\<close>

record url =
  u_protocol :: string
  u_username :: string
  u_password :: string
  u_hostname :: string
  u_port :: string
  u_pathname :: string
  u_search :: string
  u_hash :: string

record router_config =
  ro_runtime :: runtime
  ro_required :: bool
  ro_lockSha256 :: string
  ro_allowedUpstreams :: "string set"
  ro_controlCenterHost :: string
  ro_projectsHost :: string
  ro_controlCenter :: "string \<times> int"
  ro_url :: "string \<Rightarrow> url option"
  ro_target :: "string \<Rightarrow> (string \<times> string \<times> string) option"

definition router_error :: js_error where
  "router_error = PlainError ''project-router''"

definition normalizeHost :: "string \<Rightarrow> string" where
  "normalizeHost host = (let s = to_lower host; digits = takeWhile is_digit (rev s); rest = dropWhile is_digit (rev s) in
     if digits \<noteq> [] \<and> rest \<noteq> [] \<and> hd rest = CHR '':'' then rev (tl rest) else s)"

definition validId :: "string \<Rightarrow> bool" where
  "validId s = slug_like 62 s"

definition validPort :: "jsv \<Rightarrow> int option" where
  "validPort v = (case num_int (js_Number v) of None \<Rightarrow> None | Some p \<Rightarrow> if 1 \<le> p \<and> p \<le> 65535 then Some p else None)"

definition validUpstreamHost :: "string \<Rightarrow> bool" where
  "validUpstreamHost hostname \<longleftrightarrow> isIP hostname = 0 \<and> hostname \<noteq> ''localhost'' \<and> hostname \<noteq> ''host.docker.internal'' \<and> dns_label hostname"

definition contains :: "string \<Rightarrow> string \<Rightarrow> bool" where
  "contains p s \<longleftrightarrow> list_ex (starts_with p) (suffixes s)"

definition upstream_entry :: "string \<Rightarrow> string option res" where
  "upstream_entry item = (let token = to_lower (js_trim item) in
     if token = [] then Inr None
     else if contains ''://'' token \<or> CHR ''/'' \<in> set token \<or> CHR ''@'' \<in> set token then Inl router_error
     else let before = rev (tl (dropWhile (\<lambda>c. c \<noteq> CHR '':'') (rev token))); cut = (CHR '':'' \<in> set token \<and> before \<noteq> []);
            hostname = (if cut then before else token); port = (if cut then rev (takeWhile (\<lambda>c. c \<noteq> CHR '':'') (rev token)) else ''80'') in
       case validPort (JStr port) of Some p \<Rightarrow> if validUpstreamHost hostname then Inr (Some (hostname @ '':'' @ show_int p)) else Inl router_error
       | None \<Rightarrow> Inl router_error)"

definition parseAllowedUpstreams :: "string \<Rightarrow> string set res" where
  "parseAllowedUpstreams value = bindR (mapR upstream_entry (split_on CHR '','' value)) (\<lambda>es.
     (let allowed = set (List.map_filter id es) in bindR (requireR (allowed \<noteq> {}) router_error) (\<lambda>_. Inr allowed)))"

definition validateUpstream :: "router_config \<Rightarrow> string \<Rightarrow> string set \<Rightarrow> (string \<times> int) res" where
  "validateUpstream C value additional = (case ro_url C value of None \<Rightarrow> Inl router_error
     | Some u \<Rightarrow> let hostname = to_lower (u_hostname u) in
         if u_protocol u \<noteq> ''http:'' \<or> u_username u \<noteq> [] \<or> u_password u \<noteq> [] \<or> u_search u \<noteq> [] \<or> u_hash u \<noteq> [] \<or> u_pathname u \<noteq> ''/''
           \<or> \<not> validUpstreamHost hostname then Inl router_error
         else case validPort (JStr (if u_port u = [] then ''80'' else u_port u)) of None \<Rightarrow> Inl router_error
           | Some p \<Rightarrow> let identity = hostname @ '':'' @ show_int p in
               if identity \<notin> ro_allowedUpstreams C \<and> identity \<notin> additional then Inl router_error else Inr (hostname, p))"

section \<open>The table of hosts\<close>

definition router_dns_host :: "jsv \<Rightarrow> string res" where
  "router_dns_host v = (let host = js_String (js_coalesce v (JStr [])) in
     if host \<noteq> to_lower host \<or> ends_with ''.'' host \<or> 253 < int (length host) \<or> CHR '':'' \<in> set host \<or> CHR ''*'' \<in> set host
       \<or> \<not> list_all dns_label (split_on CHR ''.'' host) then Inl router_error else Inr host)"

definition exactSlugArray :: "jsv \<Rightarrow> string list res" where
  "exactSlugArray v = (case v of JArr xs \<Rightarrow> let names = map js_String xs in
       if \<not> list_all validId names \<or> \<not> same (strings names) (sorted_set (map JStr names)) then Inl router_error else Inr names
     | _ \<Rightarrow> Inl router_error)"

definition exactHostArray :: "jsv \<Rightarrow> string list res" where
  "exactHostArray v = (case v of JArr xs \<Rightarrow> if xs = [] then Inl router_error else mapR router_dns_host xs | _ \<Rightarrow> Inl router_error)"

definition assertExactKeys :: "jsv \<Rightarrow> string list \<Rightarrow> unit res" where
  "assertExactKeys v expected = requireR (is_object v \<and> same (sorted_keys v) (strings expected)) router_error"

definition claimRouteValue :: "(string \<times> 'v) list \<Rightarrow> string \<Rightarrow> 'v \<Rightarrow> (string \<times> 'v) list res" where
  "claimRouteValue registry key value = (case map_of registry key of Some x \<Rightarrow> Inl router_error | None \<Rightarrow> Inr (registry @ [(key, value)]))"

fun claim_all :: "string list \<Rightarrow> 'v \<Rightarrow> (string \<times> 'v) list \<Rightarrow> (string \<times> 'v) list res" where
  "claim_all [] v registry = Inr registry"
| "claim_all (k # ks) v registry = bindR (claimRouteValue registry k v) (claim_all ks v)"

record lock_claims =
  lc_names :: "(string \<times> string) list"
  lc_byHost :: "(string \<times> hosted_route) list"
  lc_upstreams :: "(string \<times> string) list"
  lc_allowed :: "string set"

definition lowered_text :: "jsv \<Rightarrow> string \<Rightarrow> string" where
  "lowered_text v k = to_lower (js_String (js_coalesce (getp v k) (JStr [])))"

definition claim_route :: "hosted_table \<Rightarrow> lock_claims \<Rightarrow> jsv \<Rightarrow> lock_claims res" where
  "claim_route parsed c route =
     bindR (assertExactKeys route [''aliases'', ''canonicalHost'', ''hosts'', ''owner'', ''port'', ''service'', ''slug'', ''upstream'', ''workloadId'']) (\<lambda>_.
     (let owner = lowered_text route ''owner''; workloadId = lowered_text route ''workloadId''; slug = lowered_text route ''slug''; service = lowered_text route ''service'' in
      bindR (router_dns_host (getp route ''canonicalHost'')) (\<lambda>canonicalHost.
      bindR (exactSlugArray (getp route ''aliases'')) (\<lambda>aliases.
      bindR (exactHostArray (getp route ''hosts'')) (\<lambda>hosts.
      (let expectedHosts = canonicalHost # map (host_of (suffix_of canonicalHost)) aliases in
       case validPort (getp route ''port'') of None \<Rightarrow> Inl router_error
       | Some port \<Rightarrow>
          if \<not> validId owner \<or> \<not> validId workloadId \<or> owner \<noteq> workloadId \<or> \<not> validId slug \<or> hd (split_on CHR ''.'' canonicalHost) \<noteq> slug
            \<or> hosts \<noteq> expectedHosts \<or> \<not> validId service \<or> \<not> starts_with (workloadId @ ''-'') service
            \<or> getp route ''upstream'' \<noteq> JStr (''http://'' @ service @ '':'' @ show_int port)
            \<or> map_of (hl_routes parsed) slug \<noteq> Some (''http://'' @ service @ '':'' @ show_int port) then Inl router_error
          else let identity = workloadId @ ''/'' @ service @ ''/'' @ slug; entry = \<lparr>ru_workload = workloadId, ru_slug = slug, ru_aliases = aliases,
                 ru_canonicalHost = canonicalHost, ru_hosts = hosts, ru_service = service, ru_port = port\<rparr> in
            bindR (claim_all (slug # aliases) identity (lc_names c)) (\<lambda>names.
            bindR (claim_all hosts entry (lc_byHost c)) (\<lambda>byHost.
            bindR (claimRouteValue (lc_upstreams c) (ru_identity entry) identity) (\<lambda>upstreams.
            Inr \<lparr>lc_names = names, lc_byHost = byHost, lc_upstreams = upstreams, lc_allowed = insert (ru_identity entry) (lc_allowed c)\<rparr>)))))))))"

datatype lock_file = Missing | Unreadable | Bytes string

record router_cache =
  ca_key :: string
  ca_byHost :: "(string \<times> hosted_route) list"
  ca_allowed :: "string set"

definition emptyWorkloadRoutes :: router_cache where
  "emptyWorkloadRoutes = \<lparr>ca_key = ''missing'', ca_byHost = [], ca_allowed = {}\<rparr>"

definition no_lock_claims :: lock_claims where
  "no_lock_claims = \<lparr>lc_names = [], lc_byHost = [], lc_upstreams = [], lc_allowed = {}\<rparr>"

definition routes_of_lock :: "router_config \<Rightarrow> (jsv \<Rightarrow> unit res) \<Rightarrow> string \<Rightarrow> jsv \<Rightarrow> router_cache res" where
  "routes_of_lock C verified key lock =
     bindR (parseHostedRouteLock (ro_runtime C) lock) (\<lambda>parsed.
     bindR (if items (getp lock ''workloads'') \<noteq> [] then verified lock else Inr ()) (\<lambda>_.
     bindR (foldR (claim_route parsed) (items (getp lock ''routes'')) no_lock_claims) (\<lambda>c.
     bindR (requireR (length (hl_routes parsed) = length (items (getp lock ''routes'')) \<and> hl_allowed parsed = lc_allowed c) router_error) (\<lambda>_.
     Inr \<lparr>ca_key = key, ca_byHost = lc_byHost c, ca_allowed = lc_allowed c\<rparr>))))"

definition workloadRoutesFromLock :: "router_config \<Rightarrow> (jsv \<Rightarrow> unit res) \<Rightarrow> lock_file \<Rightarrow> router_cache res" where
  "workloadRoutesFromLock C verified f = (case f of Missing \<Rightarrow> if ro_required C then Inl router_error else Inr emptyWorkloadRoutes
     | Unreadable \<Rightarrow> Inl router_error
     | Bytes b \<Rightarrow> let key = rt_sha256 (ro_runtime C) b in
         if ro_required C \<and> \<not> hex64 (ro_lockSha256 C) then Inl router_error
         else if ro_lockSha256 C \<noteq> [] \<and> (\<not> hex64 (ro_lockSha256 C) \<or> key \<noteq> ro_lockSha256 C) then Inl router_error
         else case JSON_parse b of None \<Rightarrow> Inl router_error | Some lock \<Rightarrow> routes_of_lock C verified key lock)"

definition assertPinnedLockUnchanged :: "router_config \<Rightarrow> router_cache \<Rightarrow> lock_file \<Rightarrow> unit res" where
  "assertPinnedLockUnchanged C cache f = (if ca_key cache = [] then Inl router_error
     else if ca_key cache = ''missing'' then requireR (f = Missing) router_error
     else case f of Bytes b \<Rightarrow> requireR (rt_sha256 (ro_runtime C) b = ca_key cache) router_error | _ \<Rightarrow> Inl router_error)"

section \<open>Requests\<close>

definition projectSlugs :: "hosted_route \<Rightarrow> string list" where
  "projectSlugs r = filter (\<lambda>s. s \<noteq> []) (ru_slug r # ru_aliases r)"

definition readState :: "string option \<Rightarrow> jsv" where
  "readState content = (case content of None \<Rightarrow> JObj [(''projects'', JObj [])]
     | Some s \<Rightarrow> (case JSON_parse s of None \<Rightarrow> JObj [(''projects'', JObj [])] | Some v \<Rightarrow> v))"

definition isEnabled :: "jsv \<Rightarrow> hosted_route \<Rightarrow> bool res" where
  "isEnabled state r = (if state = JNull then Inl router_error
     else Inr (\<not> list_ex (\<lambda>s. getp (getp (getp state ''projects'') s) ''enabled'' = JBool False) (projectSlugs r)))"

definition scheme_like :: "string \<Rightarrow> bool" where
  "scheme_like s \<longleftrightarrow> s \<noteq> [] \<and> is_lower (lower_char (hd s))
     \<and> (let rest = dropWhile (\<lambda>c. is_alnum c \<or> c = CHR ''+'' \<or> c = CHR ''.'' \<or> c = CHR ''-'') (tl s) in rest \<noteq> [] \<and> hd rest = CHR '':'')"

definition safeProxyPath :: "router_config \<Rightarrow> string \<Rightarrow> string" where
  "safeProxyPath C target = (if \<not> starts_with ''/'' target \<or> starts_with ''//'' target \<or> CHR 0x5C \<in> set target \<or> scheme_like (tl target) then []
     else case ro_target C target of None \<Rightarrow> [] | Some (origin, pathname, search) \<Rightarrow>
       if origin \<noteq> ''http://router.invalid'' then [] else pathname @ search)"

datatype answer = Healthy | Proxied "string \<times> int" string | InvalidTarget | Disabled string string | Failed

definition proxy :: "router_config \<Rightarrow> string \<Rightarrow> string \<times> int \<Rightarrow> answer" where
  "proxy C target upstream = (let p = safeProxyPath C (if target = [] then ''/'' else target) in
     if p = [] then InvalidTarget else Proxied upstream p)"

definition handle_request :: "router_config \<Rightarrow> router_cache \<Rightarrow> lock_file \<Rightarrow> string option \<Rightarrow> string \<Rightarrow> string \<Rightarrow> answer" where
  "handle_request C cache f state hostHeader target = (let host = normalizeHost hostHeader in
     if target = ''/__health'' then (case assertPinnedLockUnchanged C cache f of Inl e \<Rightarrow> Failed | Inr u \<Rightarrow> Healthy)
     else if host = [] \<or> host = ro_controlCenterHost C \<or> (ro_projectsHost C \<noteq> [] \<and> host = normalizeHost (ro_projectsHost C))
       then proxy C target (ro_controlCenter C)
     else case map_of (ca_byHost cache) host of None \<Rightarrow> Disabled ''Project not found'' host
       | Some r \<Rightarrow> (case isEnabled (readState state) r of Inl e \<Rightarrow> Failed
           | Inr enabled \<Rightarrow> if \<not> enabled then Disabled ''Project disabled'' host
               else (case validateUpstream C (ru_upstream r) (ca_allowed cache) of Inl e \<Rightarrow> Failed | Inr u \<Rightarrow> proxy C target u)))"

section \<open>The table of an accepted lock\<close>

lemma slug_lower: "slug_like n s \<Longrightarrow> to_lower s = s"
proof -
  have c: "lower_char c = c" if "is_lower c \<or> is_lower_alnum c \<or> c = CHR ''-''" for c
    using that by (auto simp: lower_char_def has_lower_def is_upper_def is_lower_def is_lower_alnum_def is_digit_def code_def)
  assume "slug_like n s"
  then show ?thesis using c by (cases s) (auto simp: slug_like_def to_lower_def list_all_iff intro!: map_idI)
qed

lemma claim_all_Inr: "claim_all ks v registry = Inr registry' \<Longrightarrow> registry' = registry @ map (\<lambda>k. (k, v)) ks"
  by (induction ks arbitrary: registry) (fastforce simp: claimRouteValue_def bindR_eq_Inr split: option.splits)+

lemma router_dns_host_str: "router_dns_host (JStr s) = Inr host \<Longrightarrow> host = s"
  by (auto simp: router_dns_host_def js_coalesce_def Let_def split: if_splits)

lemma exact_hosts_str: "exactHostArray (strings hs) = Inr hs' \<Longrightarrow> hs' = hs"
proof -
  assume "exactHostArray (strings hs) = Inr hs'"
  then have "list_all2 (\<lambda>x y. router_dns_host x = Inr y) (map JStr hs) hs'" by (auto simp: exactHostArray_def strings_def mapR_Inr_iff split: if_splits)
  then show ?thesis by (auto simp: list_all2_conv_all_nth list_eq_iff_nth_eq dest!: router_dns_host_str)
qed

lemma exact_slugs_str: "exactSlugArray (strings ts) = Inr names \<Longrightarrow> names = ts"
  by (auto simp: exactSlugArray_def strings_def Let_def comp_def split: if_splits)

lemma lowered_text_js: "getp v k = JStr s \<Longrightarrow> slug_like n s \<Longrightarrow> lowered_text v k = s"
  by (simp add: lowered_text_def js_coalesce_def slug_lower)

lemma getp_route_js: "getp (route_js r) ''owner'' = JStr (ru_workload r)" "getp (route_js r) ''workloadId'' = JStr (ru_workload r)"
  "getp (route_js r) ''slug'' = JStr (ru_slug r)" "getp (route_js r) ''aliases'' = strings (ru_aliases r)"
  "getp (route_js r) ''canonicalHost'' = JStr (ru_canonicalHost r)" "getp (route_js r) ''hosts'' = strings (ru_hosts r)"
  "getp (route_js r) ''service'' = JStr (ru_service r)" "getp (route_js r) ''port'' = JInt (ru_port r)" "getp (route_js r) ''upstream'' = JStr (ru_upstream r)"
  by (simp_all add: route_js_def)

lemma validPort_int: "validPort (JInt p) = Some q \<Longrightarrow> q = p"
  by (auto simp: validPort_def js_Number_def split: if_splits)

lemma claim_route_js:
  assumes "claim_route parsed c (route_js r) = Inr c'" and "slug_like n (ru_workload r)" and "slug_like n' (ru_slug r)" and "slug_like n'' (ru_service r)"
  shows "lc_byHost c' = lc_byHost c @ map (\<lambda>h. (h, r)) (ru_hosts r)" and "lc_allowed c' = insert (ru_identity r) (lc_allowed c)"
proof -
  note low = lowered_text_js [OF getp_route_js(1) assms(2)] lowered_text_js [OF getp_route_js(2) assms(2)] lowered_text_js [OF getp_route_js(3) assms(3)]
    lowered_text_js [OF getp_route_js(7) assms(4)]
  from assms(1) obtain host names hosts port where h: "router_dns_host (JStr (ru_canonicalHost r)) = Inr host" "exactSlugArray (strings (ru_aliases r)) = Inr names"
    "exactHostArray (strings (ru_hosts r)) = Inr hosts" "validPort (JInt (ru_port r)) = Some port"
    and c: "\<exists>ns. claim_all hosts \<lparr>ru_workload = ru_workload r, ru_slug = ru_slug r, ru_aliases = names, ru_canonicalHost = host, ru_hosts = hosts,
        ru_service = ru_service r, ru_port = port\<rparr> (lc_byHost c) = Inr (lc_byHost c')"
      "lc_allowed c' = insert (ru_identity \<lparr>ru_workload = ru_workload r, ru_slug = ru_slug r, ru_aliases = names, ru_canonicalHost = host, ru_hosts = hosts,
        ru_service = ru_service r, ru_port = port\<rparr>) (lc_allowed c)"
    unfolding claim_route_def getp_route_js low Let_def by (auto simp: bindR_eq_Inr split: option.splits if_splits)
  have "\<lparr>ru_workload = ru_workload r, ru_slug = ru_slug r, ru_aliases = names, ru_canonicalHost = host, ru_hosts = hosts, ru_service = ru_service r, ru_port = port\<rparr> = r"
    using router_dns_host_str [OF h(1)] exact_slugs_str [OF h(2)] exact_hosts_str [OF h(3)] validPort_int [OF h(4)] by (cases r) simp
  then show "lc_byHost c' = lc_byHost c @ map (\<lambda>h. (h, r)) (ru_hosts r)" "lc_allowed c' = insert (ru_identity r) (lc_allowed c)"
    using c exact_hosts_str [OF h(3)] by (auto dest!: claim_all_Inr)
qed

lemma claimed_routes:
  assumes "foldR (claim_route parsed) (map route_js rs) c = Inr c'"
    and "\<forall>r \<in> set rs. slug_like 60 (ru_workload r) \<and> slug_like 62 (ru_slug r) \<and> slug_like 62 (ru_service r)"
  shows "set (lc_byHost c') \<subseteq> set (lc_byHost c) \<union> {(h, r). r \<in> set rs \<and> h \<in> set (ru_hosts r)}"
  using assms
proof (induction rs arbitrary: c)
  case (Cons r rs)
  from Cons.prems(1) obtain c1 where c1: "claim_route parsed c (route_js r) = Inr c1" "foldR (claim_route parsed) (map route_js rs) c1 = Inr c'"
    by (auto simp: bindR_eq_Inr)
  have "lc_byHost c1 = lc_byHost c @ map (\<lambda>h. (h, r)) (ru_hosts r)" by (rule claim_route_js [OF c1(1)]) (use Cons.prems(2) in auto)
  moreover have "set (lc_byHost c') \<subseteq> set (lc_byHost c1) \<union> {(h, r). r \<in> set rs \<and> h \<in> set (ru_hosts r)}"
    by (rule Cons.IH [OF c1(2)]) (use Cons.prems(2) in auto)
  ultimately show ?case by auto
qed simp

lemma route_js_value:
  assumes "route_ok ids r"
  shows "json_value (route_js r)"
proof -
  have "\<not> is_index_key ''owner''" "\<not> is_index_key ''workloadId''" "\<not> is_index_key ''slug''" "\<not> is_index_key ''aliases''"
    "\<not> is_index_key ''canonicalHost''" "\<not> is_index_key ''hosts''" "\<not> is_index_key ''service''" "\<not> is_index_key ''port''" "\<not> is_index_key ''upstream''" by code_simp+
  then have "own_order (spread (route_js r)) = spread (route_js r)" by (simp add: own_order_def route_js_def)
  then show ?thesis using assms by (simp add: route_js_def route_ok_def strings_def)
qed

lemma route_js_inj: "route_js r = route_js r' \<longleftrightarrow> r = r'"
proof -
  have "strings xs = strings ys \<longleftrightarrow> xs = ys" for xs ys by (simp add: strings_def inj_map_eq_map inj_def)
  then show ?thesis by (cases r; cases r') (auto simp: route_js_def)
qed

lemma json_value_getp: "json_value v \<Longrightarrow> getp v k = JUndef \<or> json_value (getp v k)"
  by (cases v) (auto dest: map_of_SomeD split: option.splits)

text \<open>The routes a lock lists, with its numbers safe integers, are those of the workloads.\<close>

lemma listed_routes:
  assumes "parseHostedRouteLock R lock = Inr t" and "json_value lock"
  obtains canonical where "items (getp lock ''routes'') = map route_js canonical" and "distinct (concat (map ru_hosts canonical))"
    and "\<forall>r \<in> set canonical. route_ok (set (lock_ids lock)) r" and "list_all workload_id (lock_ids lock)" and "all_disjoint (sort (lock_ids lock))"
proof (rule accepted_lock [OF assms(1)])
  fix canonical
  assume s: "same (getp lock ''routes'') (JArr (map route_js canonical))" and d: "distinct (concat (map ru_hosts canonical))"
    and ok: "\<forall>r \<in> set canonical. route_ok (set (lock_ids lock)) r" and ids: "list_all workload_id (lock_ids lock)" "all_disjoint (sort (lock_ids lock))"
  have "json_value (JArr (map route_js canonical))" using ok route_js_value by auto
  moreover have "getp lock ''routes'' \<noteq> JUndef" using assms(1) by (auto simp: parseHostedRouteLock_def array_in_def)
  ultimately have "getp lock ''routes'' = JArr (map route_js canonical)" using s json_value_getp [OF assms(2)] same_eq by metis
  then have "items (getp lock ''routes'') = map route_js canonical" by (simp add: items_def)
  then show thesis by (rule that [OF _ d ok ids])
qed

section \<open>Where requests go\<close>

text \<open>The URL standard: host and port of \<open>http://service:port\<close>; 80 is the default port of the scheme.\<close>

definition url_reads :: "router_config \<Rightarrow> bool" where
  "url_reads C \<longleftrightarrow> (\<forall>s n u. service_name s \<longrightarrow> 1 \<le> n \<longrightarrow> n \<le> 65535 \<longrightarrow> ro_url C (''http://'' @ s @ '':'' @ show_int n) = Some u
     \<longrightarrow> u_hostname u = s \<and> u_port u = (if n = 80 then [] else show_int n))"

lemma validateUpstream_route:
  assumes "validateUpstream C (ru_upstream r) allowed = Inr u" and "url_reads C" and "route_ok ids r"
  shows "u = (ru_service r, ru_port r)"
proof -
  have r: "service_name (ru_service r)" "1 \<le> ru_port r" "ru_port r \<le> 65535" using assms(3) by (simp_all add: route_ok_def)
  obtain x p where x: "ro_url C (ru_upstream r) = Some x" and p: "validPort (JStr (if u_port x = [] then ''80'' else u_port x)) = Some p"
    and u: "u = (to_lower (u_hostname x), p)" using assms(1) by (auto simp: validateUpstream_def Let_def split: option.splits if_splits)
  have "u_hostname x = ru_service r" "u_port x = (if ru_port r = 80 then [] else show_int (ru_port r))"
    using assms(2) r x unfolding url_reads_def ru_upstream_def by blast+
  moreover have "show_int 80 = ''80''" by code_simp
  ultimately have "(if u_port x = [] then ''80'' else u_port x) = show_int (ru_port r)" "to_lower (u_hostname x) = ru_service r"
    using show_int_chars [of "ru_port r"] slug_lower [OF r(1)] by auto
  moreover have "validPort (JStr (show_int (ru_port r))) = Some (ru_port r)"
    using string_to_number_int [of "ru_port r"] r(2,3) by (simp add: validPort_def js_Number_def)
  ultimately show ?thesis using p u by simp
qed

lemma concat_owner: "distinct (concat (map f rs)) \<Longrightarrow> r \<in> set rs \<Longrightarrow> r' \<in> set rs \<Longrightarrow> x \<in> set (f r) \<Longrightarrow> x \<in> set (f r') \<Longrightarrow> r' = r"
  by (induction rs) auto

lemma proxied: "proxy C target up = Proxied u p \<Longrightarrow> u = up"
  by (auto simp: proxy_def Let_def split: if_splits)

text \<open>
  C13. A request the router forwards goes to the control center, when its host is empty or the host of the control
  center, or to the service of an enabled route of the pinned lock. That route is the only one that
  lists the host, and its service belongs to its workload and to no other workload of the lock.
\<close>

theorem router_serves_only_the_owner:
  assumes "workloadRoutesFromLock C verified (Bytes b) = Inr cache" and "JSON_parse b = Some lock" and "json_value lock" and "url_reads C"
    and "handle_request C cache f state hostHeader target = Proxied upstream p"
  shows "(upstream = ro_controlCenter C \<and> normalizeHost hostHeader \<in> {[], ro_controlCenterHost C, normalizeHost (ro_projectsHost C)})
    \<or> ((ro_required C \<longrightarrow> rt_sha256 (ro_runtime C) b = ro_lockSha256 C)
      \<and> (\<exists>r. upstream = (ru_service r, ru_port r) \<and> route_js r \<in> set (items (getp lock ''routes'')) \<and> normalizeHost hostHeader \<in> set (ru_hosts r)
        \<and> isEnabled (readState state) r = Inr True \<and> ru_workload r \<in> set (lock_ids lock)
        \<and> (\<forall>r'. route_js r' \<in> set (items (getp lock ''routes'')) \<and> normalizeHost hostHeader \<in> set (ru_hosts r') \<longrightarrow> r' = r)
        \<and> (\<forall>id \<in> set (lock_ids lock). starts_with (id @ ''-'') (ru_service r) \<longleftrightarrow> id = ru_workload r)))"
proof -
  let ?host = "normalizeHost hostHeader"
  from assms(1,2) obtain parsed cl where parsed: "parseHostedRouteLock (ro_runtime C) lock = Inr parsed"
    and cl: "foldR (claim_route parsed) (items (getp lock ''routes'')) no_lock_claims = Inr cl" and cache: "ca_byHost cache = lc_byHost cl"
    and pin: "ro_required C \<longrightarrow> rt_sha256 (ro_runtime C) b = ro_lockSha256 C"
    by (auto simp: workloadRoutesFromLock_def routes_of_lock_def Let_def bindR_eq_Inr all_in_def split: if_splits)
  from listed_routes [OF parsed assms(3)] obtain canonical where routes: "items (getp lock ''routes'') = map route_js canonical"
    and dist: "distinct (concat (map ru_hosts canonical))" and ok: "\<forall>r \<in> set canonical. route_ok (set (lock_ids lock)) r"
    and ids: "list_all workload_id (lock_ids lock)" "all_disjoint (sort (lock_ids lock))" by blast
  have "\<forall>r \<in> set canonical. slug_like 60 (ru_workload r) \<and> slug_like 62 (ru_slug r) \<and> slug_like 62 (ru_service r)"
    using ok ids(1) by (auto simp: route_ok_def list_all_iff)
  from claimed_routes [OF cl [unfolded routes] this] have hosts: "set (ca_byHost cache) \<subseteq> {(h, r). r \<in> set canonical \<and> h \<in> set (ru_hosts r)}"
    by (simp add: cache no_lock_claims_def)
  show ?thesis
  proof (cases "?host \<in> {[], ro_controlCenterHost C, normalizeHost (ro_projectsHost C)} \<and> upstream = ro_controlCenter C")
    case True
    then show ?thesis by simp
  next
    case False
    then obtain r where r: "map_of (ca_byHost cache) ?host = Some r" "isEnabled (readState state) r = Inr True"
      and up: "validateUpstream C (ru_upstream r) (ca_allowed cache) = Inr upstream"
      using assms(5) by (auto simp: handle_request_def Let_def dest: proxied split: if_splits option.splits sum.splits)
    have mem: "r \<in> set canonical" "?host \<in> set (ru_hosts r)" using map_of_SomeD [OF r(1)] hosts by auto
    have rok: "route_ok (set (lock_ids lock)) r" using ok mem(1) by blast
    have only: "r' = r" if "route_js r' \<in> set (items (getp lock ''routes''))" "?host \<in> set (ru_hosts r')" for r'
    proof -
      have "r' \<in> set canonical" using that(1) routes by (auto simp: route_js_inj)
      then show ?thesis using concat_owner [OF dist] that(2) mem by blast
    qed
    have "starts_with (id @ ''-'') (ru_service r) \<longleftrightarrow> id = ru_workload r" if "id \<in> set (lock_ids lock)" for id
      using one_owner [OF ids(2), of id "ru_workload r" "ru_service r"] that rok by (auto simp: route_ok_def)
    then show ?thesis
      using validateUpstream_route [OF up assms(4) rok] mem routes r(2) only pin rok by (auto simp: route_ok_def)
  qed
qed

section \<open>A sample lock\<close>

definition sample_sha :: string where
  "sample_sha = replicate 64 CHR ''a''"

definition sample_url :: "string \<Rightarrow> url option" where
  "sample_url s = (let rest = drop 7 s; port = drop 1 (dropWhile (\<lambda>c. c \<noteq> CHR '':'') rest) in
     Some \<lparr>u_protocol = ''http:'', u_username = [], u_password = [], u_hostname = takeWhile (\<lambda>c. c \<noteq> CHR '':'') rest,
       u_port = (if port = ''80'' then [] else port), u_pathname = ''/'', u_search = [], u_hash = []\<rparr>)"

definition sample_router :: router_config where
  "sample_router = \<lparr>ro_runtime = sample_runtime\<lparr>rt_sha256 := (\<lambda>_. sample_sha)\<rparr>, ro_required = True, ro_lockSha256 = sample_sha,
     ro_allowedUpstreams = {''control-center:8080''}, ro_controlCenterHost = ''portal.example.org'', ro_projectsHost = [],
     ro_controlCenter = (''control-center'', 8080), ro_url = sample_url, ro_target = (\<lambda>t. Some (''http://router.invalid'', t, []))\<rparr>"

definition sample_route :: hosted_route where
  "sample_route = \<lparr>ru_workload = ''shop'', ru_slug = ''store'', ru_aliases = [''cart''], ru_canonicalHost = ''store.example.org'',
     ru_hosts = [''store.example.org'', ''cart.example.org''], ru_service = ''shop-web'', ru_port = 8080\<rparr>"

definition sample_workloads :: "jsv list" where
  "sample_workloads = [
     JObj [(''id'', JStr ''shop''), (''services'', JArr [JObj [(''name'', JStr ''shop-web''), (''role'', JStr ''web''),
       (''routes'', JArr [JObj [(''owner'', JStr ''shop''), (''slug'', JStr ''store''), (''aliases'', strings [''cart'']),
         (''canonicalHost'', JStr ''store.example.org''), (''hosts'', strings [''store.example.org'', ''cart.example.org'']), (''port'', JInt 8080)]])]])],
     JObj [(''id'', JStr ''blog''), (''services'', JArr [JObj [(''name'', JStr ''blog-worker''), (''role'', JStr ''worker''), (''routes'', JArr [])]])]]"

definition sample_lock :: jsv where
  "sample_lock = JObj [(''version'', JInt 4), (''validatorVersion'', JStr HOSTED_ROUTE_VALIDATOR_VERSION), (''state'', JStr ''verified''),
     (''routes'', JArr [route_js sample_route]), (''workloads'', JArr sample_workloads),
     (''rawPolicyVersion'', JStr HOSTED_ROUTE_RAW_POLICY_VERSION), (''rawPolicyControls'', strings HOSTED_ROUTE_RAW_POLICY_CONTROLS),
     (''rawPolicyReceipt'', JObj [(''policyVersion'', JStr HOSTED_ROUTE_RAW_POLICY_VERSION), (''controls'', strings HOSTED_ROUTE_RAW_POLICY_CONTROLS),
       (''protectedResourceNames'', JObj (map (\<lambda>k. (k, JArr [])) [''configs'', ''networks'', ''secrets'', ''services'', ''volumes''])),
       (''protectedNetworkNames'', JArr [])]),
     (''rawPolicySha256'', JStr sample_sha), (''workloadContentSha256'', JStr sample_sha), (''coreRenderSha256'', JStr sample_sha), (''combinedRenderSha256'', JStr sample_sha)]"

definition sample_cache :: router_cache where
  "sample_cache = \<lparr>ca_key = sample_sha, ca_byHost = [(''store.example.org'', sample_route), (''cart.example.org'', sample_route)], ca_allowed = {''shop-web:8080''}\<rparr>"

lemma sample_lock_value: "json_value sample_lock"
  by code_simp

lemma sample_receipt: "policy_receipt sample_lock"
proof -
  have "hex64 sample_sha" "hasExactProtectedResourceNames (getp sample_lock ''rawPolicyReceipt'')" by (code_simp, code_simp)
  then show ?thesis by (simp add: policy_receipt_def sample_lock_def same_def sha_text_def js_coalesce_def)
qed

lemma sample_routes: "deriveCanonicalRoutes (ro_runtime sample_router) sample_workloads = Inr [sample_route]"
  by code_simp

definition sample_table :: hosted_table where
  "sample_table = \<lparr>hl_routes = [(''store'', ''http://shop-web:8080'')], hl_allowed = {''shop-web:8080''}\<rparr>"

definition sample_claims :: lock_claims where
  "sample_claims = \<lparr>lc_names = [(''store'', ''shop/shop-web/store''), (''cart'', ''shop/shop-web/store'')],
     lc_byHost = [(''store.example.org'', sample_route), (''cart.example.org'', sample_route)],
     lc_upstreams = [(''shop-web:8080'', ''shop/shop-web/store'')], lc_allowed = {''shop-web:8080''}\<rparr>"

lemma sample_ids: "workload_id ''shop''" "workload_id ''blog''" "ru_slug sample_route = ''store''" "assertPrefixDisjointWorkloadIds [''shop'', ''blog''] = Inr ()"
  "ru_upstream sample_route = ''http://shop-web:8080''" "ru_identity sample_route = ''shop-web:8080''"
  by (code_simp, code_simp, code_simp, code_simp, code_simp, code_simp)

lemma sample_table_parsed: "parseHostedRouteLock (ro_runtime sample_router) sample_lock = Inr sample_table"
proof -
  have ids: "map (\<lambda>w. js_String (js_coalesce (getp w ''id'') (JStr []))) sample_workloads = [''shop'', ''blog'']" "sample_workloads \<noteq> []"
    by (simp_all add: sample_workloads_def js_coalesce_def)
  have g: "getp sample_lock ''routes'' = JArr [route_js sample_route]" "getp sample_lock ''workloads'' = JArr sample_workloads" "getp sample_lock ''version'' = JInt 4"
    "getp sample_lock ''validatorVersion'' = JStr HOSTED_ROUTE_VALIDATOR_VERSION" "getp sample_lock ''state'' = JStr ''verified''"
    by (simp_all add: sample_lock_def)
  show ?thesis unfolding parseHostedRouteLock_def g
    by (simp add: array_in_def number_is_def sample_receipt ids sample_ids sample_routes same_def sample_table_def)
qed

lemma sample_claimed: "claim_route sample_table no_lock_claims (route_js sample_route) = Inr sample_claims"
  by code_simp

lemma sample_lock_parsed: "JSON_parse (json_stringify sample_lock) = Some sample_lock"
  using json_round_trip [OF sample_lock_value, of None] by (simp only: json_text_compact)

lemma sample_cart_request: "handle_request sample_router sample_cache Missing None ''Cart.example.org:443'' ''/items'' = Proxied (''shop-web'', 8080) ''/items''"
  by code_simp

lemma sample_cache_loaded: "workloadRoutesFromLock sample_router (\<lambda>_. Inr ()) (Bytes (json_stringify sample_lock)) = Inr sample_cache"
proof -
  have sha: "hex64 sample_sha" "sample_sha \<noteq> []" by (code_simp, code_simp)
  have i: "items (getp sample_lock ''routes'') = [route_js sample_route]" by (simp add: sample_lock_def items_def)
  have "routes_of_lock sample_router (\<lambda>_. Inr ()) sample_sha sample_lock = Inr sample_cache"
    unfolding routes_of_lock_def sample_table_parsed i by (simp add: sample_claimed sample_table_def [symmetric])
      (simp add: sample_table_def sample_claims_def sample_cache_def)
  then show ?thesis using sample_lock_parsed sha by (simp add: workloadRoutesFromLock_def sample_router_def)
qed

lemma sample_url_reads: "url_reads sample_router"
proof -
  have "\<not> is_lower CHR '':''" "\<not> is_lower_alnum CHR '':''" by (code_simp, code_simp)
  then have c: "CHR '':'' \<notin> set s" if "service_name s" for s using that by (cases s) (auto simp: slug_like_def list_all_iff)
  have p: "show_int n = ''80'' \<longleftrightarrow> n = 80" if "1 \<le> n" for n
  proof -
    have "show_int 80 = ''80''" by code_simp
    then show ?thesis using show_int_inj [of n 80] that by auto
  qed
  show ?thesis using c p by (auto simp: url_reads_def sample_router_def sample_url_def Let_def takeWhile_append dropWhile_append)
qed

theorem router_serves_only_the_owner_witness:
  "\<exists>r. (''shop-web'', 8080) = (ru_service r, ru_port r) \<and> route_js r \<in> set (items (getp sample_lock ''routes''))
    \<and> ''cart.example.org'' \<in> set (ru_hosts r) \<and> ru_workload r \<in> set (lock_ids sample_lock)"
proof -
  have "normalizeHost ''Cart.example.org:443'' = ''cart.example.org''" "normalizeHost (ro_projectsHost sample_router) = []" by (code_simp, code_simp)
  then show ?thesis
    using router_serves_only_the_owner [OF sample_cache_loaded sample_lock_parsed sample_lock_value sample_url_reads sample_cart_request]
    by (auto simp: sample_router_def)
qed

end
