(* ===== verification/Spec2Isabelle.thy ===== *)
theory Spec2Isabelle
  imports RouteCapabilities BackupContracts BackupQueueSafety StatusStream PasskeyAuth DeleteOnce RedisSafety StateRetention StateImport ProjectRouter
begin

text \<open>
  A verification development for the control center of \<open>platform-infrastructure\<close>, the Node.js
  server under \<open>src/control-center/\<close> that authenticates operators and runs privileged operations
  on a host: backups, deletion of databases, status runs, Redis, and the state files behind them.

  \<^bold>\<open>The program and its models.\<close> A request first passes the gate: the route catalogue maps it to
  an operation with a required capability, the client address decides about trusted proxies, and the
  passkey component finds the session. Behind the gate the handlers work on durable state.

  \<^item> \<open>JsPrelude\<close>, \<open>JsValue\<close>, \<open>JsonText\<close>: the part of JavaScript the sources use. Errors are
    values (\<open>js_error + 'a\<close>); a call that may throw after it changed state is an \<open>sx\<close>, with rules for
    what a composite keeps (\<open>keepsS\<close>, \<open>invS\<close>). \<open>jsv\<close> is a parsed JSON value; \<open>JSON_parse\<close> and the
    two printers have a round trip.
  \<^item> \<open>StepSystems\<close>: the interfaces \<open>step_system\<close> and \<open>operation_system\<close>, an invariant of all
    reachable states. They are interpreted on the queue, the broker, the delete operation, the
    ownership registry, the delete handlers and the retained logs.
  \<^item> \<open>RouteCapabilities\<close> (\<open>auth/route-capabilities.mjs\<close>): catalogue, percent-decoding loop and
    resolver. Every control path is catalogued or denied; every effective decoding pass shrinks.
  \<^item> \<open>ClientAddress\<close>, \<open>PasskeyStore\<close>, \<open>PasskeyAuth\<close> (\<open>auth/app-passkey.mjs\<close>, the gate of
    \<open>server.mjs\<close>, \<open>auth/database-admin-gate.mjs\<close>): which address counts, the in-memory store, enrolment,
    login, sessions, authorization, and the composition of all of them in front of a handler. The
    challenges of a ceremony are the interface \<open>challenge_store\<close>, interpreted on the store.
  \<^item> \<open>BackupContracts\<close> (\<open>backup/core-contracts.mjs\<close>): jobs, resources, manifests, the canonical
    form that is signed; what an accepted document guarantees and its round trip.
  \<^item> \<open>BackupQueuePolicy\<close>, \<open>BackupQueue\<close>, \<open>BackupQueueEffects\<close>, \<open>BackupQueueSafety\<close>
    (\<open>backup/queue-operation-adapter.mjs\<close>, \<open>backup/queue-admission.mjs\<close>): the queue of privileged
    jobs as files under a lock; its capacity in every reachable state under failing system calls.
  \<^item> \<open>StatusBroker\<close>, \<open>StatusStream\<close> (\<open>status/event-stream.mjs\<close>, \<open>status/executor.mjs\<close>): the
    broker refines a hub without indexes and keeps its quotas (its two indexes are the interface
    \<open>keyed_index\<close>); a run ends, and a connected client gets its events without gaps.
  \<^item> \<open>DatabaseOwnership\<close>, \<open>DatabaseDelete\<close>, \<open>DatabaseDeleteEvidence\<close> (\<open>database/ownership.mjs\<close>,
    \<open>database/destructive-workflow.mjs\<close>): whose principal may be dropped, the evidence a deletion
    needs, the state machine of a delete operation.
  \<^item> \<open>Redaction\<close>, \<open>DeleteHandlers\<close>, \<open>DeleteSafety\<close>, \<open>DeleteOnce\<close> (\<open>server.mjs\<close>): the handlers
    that request, approve and execute a deletion, over state files, credentials and the database
    client, each of which may fail. They compose the three theories above: only the approved database
    is dropped, and only once.
  \<^item> \<open>RedisDocuments\<close>, \<open>RedisOperations\<close>, \<open>RedisSafety\<close> (\<open>redis/operations.mjs\<close>): backup
    documents, cache, capture and restore over the commands sent to the server.
  \<^item> \<open>StateStore\<close>, \<open>StateSafety\<close>, \<open>StateRetention\<close>, \<open>StateImport\<close> (\<open>state/file-store.mjs\<close>,
    \<open>state/catalog.mjs\<close>): the store of JSON and JSON-lines datasets with revisions, tokens and
    locks; written values read back, no update is lost, retained logs stay within their limits, a
    failed import is rolled back. A log that lost a line break stays closed.
  \<^item> \<open>RouteLock\<close>, \<open>ProjectRouter\<close> (\<open>src/project-router/workload-route-lock.mjs\<close>, \<open>server.mjs\<close>): the
    router in front of the hosted workloads and the lock it is pinned to; a request reaches only the
    service of the workload that owns its host.

  \<^bold>\<open>Parameters.\<close> Code outside the repository is an argument of the definitions: SHA-256, collation and
  the date parser (\<open>runtime\<close>), the WebAuthn library and random tokens (\<open>auth_env\<close>), the Redis client
  and server (\<open>rc_call\<close>), the catalogue the database client reads and the host extension (\<open>settings\<close>),
  \<open>new URL\<close> of the router (\<open>ro_url\<close>, \<open>ro_target\<close>).
  What a theorem needs of them is a hypothesis: that SHA-256 has no collision, that a printed
  date parses to its instant, that a comparator is consistent, that a URL has the host and
  port it names. Witnesses instantiate them with concrete functions.

  \<^bold>\<open>Failures, bounds and fuel.\<close> Every system call that changes something takes its outcome from a list in
  the state (\<open>q_faults\<close>, \<open>wd_outcomes\<close>, \<open>sw_outcomes\<close>), so the theorems range over all failures; an
  empty list means that nothing fails. The JSON parser has two units of fuel per character, which its
  round trip proves to be enough for every printed value. The SCAN loop of Redis runs for the number of
  answers its parameter gives, and the pump and the executor for the turns given; their liveness theorem
  says when these are enough. Integers are exact up to \<open>2 ^ 53 - 1\<close>, and theorems about revisions say so.
  IPv4 arithmetic is on 32-bit words.

  \<^bold>\<open>Not modelled.\<close> Waiting for a lock is one step: a lock that is held stays held during the wait. Two
  operations that share a pending Redis connection, the PostgreSQL store of sessions (SQL), reading the
  configuration from the environment and the body parser are left out. So are the pages and the other
  handlers of \<open>server.mjs\<close>, the browser code, the router's discovery of projects without a lock and
  its check of the snapshot on disk, the alert dispatcher, the vault (its content is cryptography) and the clients of remote services. \<open>src/scripts/\<close> holds the operator
  command, the Docker action broker and the release policies, which run beside the control center on the
  output of other programs; the host deployment is written in Python and shell.
\<close>

end
